(* ===== verification/Py_Base.thy ===== *)
theory Py_Base
  imports Main
begin

text \<open>
  Prelude of the development. It fixes how Python code is written in HOL here:
  \<^item> an exception is a value of \<open>py_error\<close>; code that may raise returns \<open>'a res\<close>
    (\<open>Inl\<close> the exception, \<open>Inr\<close> the value); the validators of the bench tools are chains
    of \<open>require\<close> in continuation style, in the order of the source;
  \<^item> code that talks to the kernel is a function on a world (\<open>'w \<Rightarrow> ('a res \<times> 'w) option\<close>);
    \<open>None\<close> means that the code has not returned within the fuel of its loops, so no
    \<open>except\<close> clause of the source can catch it;
  \<^item> the Python string functions the sources use (\<open>rfind\<close>, \<open>split\<close>, \<open>splitlines\<close>,
    \<open>int\<close>, \<open>isdigit\<close>).
  The collections \<open>res_simps\<close> and \<open>io_simps\<close> hold the equations that unfold these
  combinators; the component theories use them in every proof.
\<close>

named_theorems res_simps \<open>unfolding of the exception combinators\<close>
named_theorems io_simps \<open>unfolding of the world-passing combinators\<close>

section \<open>Exceptions\<close>

datatype py_error =
    EvidenceError string
  | PolicyError string
  | InterfaceError string
  | RuntimeError string
  | ValueError string
  | AssertionError
  | TypeError
  | KeyError
  | IndexError
  | AttributeError
  | StopIteration
  | FileNotFoundError
  | ProcessLookupError
  | PermissionError
  | FileExistsError
  | TimeoutError
  | TimeoutExpired
  | OSError string

type_synonym 'a res = "py_error + 'a"

text \<open>The class hierarchy, as the \<open>except\<close> clauses of the sources see it.\<close>

fun is_OSError :: "py_error \<Rightarrow> bool" where
  "is_OSError FileNotFoundError = True"
| "is_OSError ProcessLookupError = True"
| "is_OSError PermissionError = True"
| "is_OSError FileExistsError = True"
| "is_OSError TimeoutError = True"
| "is_OSError (OSError s) = True"
| "is_OSError _ = False"

fun is_ValueError :: "py_error \<Rightarrow> bool" where
  "is_ValueError (EvidenceError s) = True"
| "is_ValueError (PolicyError s) = True"
| "is_ValueError (InterfaceError s) = True"
| "is_ValueError (ValueError s) = True"
| "is_ValueError _ = False"

fun error_type :: "py_error \<Rightarrow> string" where
  "error_type (EvidenceError s) = ''EvidenceError''"
| "error_type (PolicyError s) = ''PolicyError''"
| "error_type (InterfaceError s) = ''InterfaceError''"
| "error_type (RuntimeError s) = ''RuntimeError''"
| "error_type (ValueError s) = ''ValueError''"
| "error_type AssertionError = ''AssertionError''"
| "error_type TypeError = ''TypeError''"
| "error_type KeyError = ''KeyError''"
| "error_type IndexError = ''IndexError''"
| "error_type AttributeError = ''AttributeError''"
| "error_type StopIteration = ''StopIteration''"
| "error_type FileNotFoundError = ''FileNotFoundError''"
| "error_type ProcessLookupError = ''ProcessLookupError''"
| "error_type PermissionError = ''PermissionError''"
| "error_type FileExistsError = ''FileExistsError''"
| "error_type TimeoutError = ''TimeoutError''"
| "error_type TimeoutExpired = ''TimeoutExpired''"
| "error_type (OSError s) = ''OSError''"

fun error_message :: "py_error \<Rightarrow> string" where
  "error_message (EvidenceError s) = s"
| "error_message (PolicyError s) = s"
| "error_message (InterfaceError s) = s"
| "error_message (RuntimeError s) = s"
| "error_message (ValueError s) = s"
| "error_message (OSError s) = s"
| "error_message _ = []"

section \<open>Code that may raise\<close>

definition bindr :: "'a res \<Rightarrow> ('a \<Rightarrow> 'b res) \<Rightarrow> 'b res" where
  "bindr m f = (case m of Inl e \<Rightarrow> Inl e | Inr x \<Rightarrow> f x)"

definition requires :: "bool \<Rightarrow> py_error \<Rightarrow> 'a res \<Rightarrow> 'a res" where
  "requires c e k = (if c then k else Inl e)"

text \<open>A list comprehension or a loop whose body may raise stops at the first exception.\<close>

fun map_res :: "('a \<Rightarrow> 'b res) \<Rightarrow> 'a list \<Rightarrow> 'b list res" where
  "map_res f [] = Inr []"
| "map_res f (x # xs) = bindr (f x) (\<lambda>y. bindr (map_res f xs) (\<lambda>ys. Inr (y # ys)))"

fun fold_res :: "('a \<Rightarrow> 's \<Rightarrow> 's res) \<Rightarrow> 'a list \<Rightarrow> 's \<Rightarrow> 's res" where
  "fold_res f [] s = Inr s"
| "fold_res f (x # xs) s = bindr (f x s) (fold_res f xs)"

definition nth_res :: "'a list \<Rightarrow> nat \<Rightarrow> 'a res" where
  "nth_res xs i = (if i < length xs then Inr (xs ! i) else Inl IndexError)"

lemma bindr_simps [simp, res_simps]:
  "bindr (Inl e) f = Inl e"
  "bindr (Inr x) f = f x"
  by (simp_all add: bindr_def)

lemma bindr_Inr_iff [res_simps]: "bindr m f = Inr y \<longleftrightarrow> (\<exists>x. m = Inr x \<and> f x = Inr y)"
  by (cases m) simp_all

lemma bindr_assoc: "bindr (bindr m f) g = bindr m (\<lambda>x. bindr (f x) g)"
  by (cases m) simp_all

lemma bindr_Inr_id [simp]: "bindr m Inr = m"
  by (cases m) simp_all

lemma bindr_cong [fundef_cong]:
  "\<lbrakk>m = m'; \<And>x. m' = Inr x \<Longrightarrow> f x = f' x\<rbrakk> \<Longrightarrow> bindr m f = bindr m' f'"
  by (cases m') simp_all

lemma requires_True [simp]: "requires True e k = k"
  by (simp add: requires_def)

lemma requires_False [simp]: "requires False e k = Inl e"
  by (simp add: requires_def)

lemma requires_Inr_iff [res_simps]: "requires c e k = Inr y \<longleftrightarrow> c \<and> k = Inr y"
  by (simp add: requires_def)

lemma requires_cong [fundef_cong]:
  "\<lbrakk>c = c'; e = e'; c' \<Longrightarrow> k = k'\<rbrakk> \<Longrightarrow> requires c e k = requires c' e' k'"
  by (simp add: requires_def)

lemma nth_res_Inr_iff [res_simps]: "nth_res xs i = Inr y \<longleftrightarrow> i < length xs \<and> xs ! i = y"
  by (auto simp: nth_res_def)

lemma map_res_Inr_iff:
  "map_res f xs = Inr ys \<longleftrightarrow> length ys = length xs \<and> (\<forall>i<length xs. f (xs ! i) = Inr (ys ! i))"
proof (induction xs arbitrary: ys)
  case Nil
  show ?case by auto
next
  case (Cons x xs)
  show ?case
    by (cases ys) (auto simp: res_simps Cons.IH nth_Cons split: nat.splits)
qed

lemma map_res_all_Inr: "(\<And>x. x \<in> set xs \<Longrightarrow> f x = Inr (g x)) \<Longrightarrow> map_res f xs = Inr (map g xs)"
  by (induction xs) simp_all

lemma map_res_map: "map_res f (map g xs) = map_res (f \<circ> g) xs"
  by (induction xs) simp_all

lemma fold_res_append: "fold_res f (xs @ ys) s = bindr (fold_res f xs s) (fold_res f ys)"
proof (induction xs arbitrary: s)
  case (Cons x xs)
  then show ?case by (cases "f x s") simp_all
qed simp

text \<open>Invariants of a loop whose body may raise.\<close>

lemma fold_res_invariant:
  assumes "\<And>x s s'. \<lbrakk>x \<in> set xs; P s; f x s = Inr s'\<rbrakk> \<Longrightarrow> P s'"
    and "P s" and "fold_res f xs s = Inr t"
  shows "P t"
  using assms
proof (induction xs arbitrary: s)
  case Nil
  then show ?case by simp
next
  case (Cons x xs)
  from Cons.prems(3) obtain s' where s': "f x s = Inr s'" and rest: "fold_res f xs s' = Inr t"
    by (auto simp: res_simps)
  have "P s'" using Cons.prems(1) [of x s s'] Cons.prems(2) s' by simp
  with rest Cons.prems(1) show ?case by (intro Cons.IH [of s']) auto
qed

section \<open>Code that talks to the kernel\<close>

type_synonym ('w, 'a) io = "'w \<Rightarrow> ('a res \<times> 'w) option"

definition ret :: "'a \<Rightarrow> ('w, 'a) io" where
  "ret x = (\<lambda>w. Some (Inr x, w))"

definition raise :: "py_error \<Rightarrow> ('w, 'a) io" where
  "raise e = (\<lambda>w. Some (Inl e, w))"

definition bindi :: "('w, 'a) io \<Rightarrow> ('a \<Rightarrow> ('w, 'b) io) \<Rightarrow> ('w, 'b) io" where
  "bindi m f = (\<lambda>w. case m w of
      None \<Rightarrow> None
    | Some (Inl e, w') \<Rightarrow> Some (Inl e, w')
    | Some (Inr x, w') \<Rightarrow> f x w')"

text \<open>\<open>attempt m\<close> is the body of a \<open>try\<close>: the exception becomes a value.\<close>

definition attempt :: "('w, 'a) io \<Rightarrow> ('w, 'a res) io" where
  "attempt m = (\<lambda>w. case m w of None \<Rightarrow> None | Some (r, w') \<Rightarrow> Some (Inr r, w'))"

definition lift_res :: "'a res \<Rightarrow> ('w, 'a) io" where
  "lift_res r = (\<lambda>w. Some (r, w))"

definition gets :: "('w \<Rightarrow> 'a) \<Rightarrow> ('w, 'a) io" where
  "gets f = (\<lambda>w. Some (Inr (f w), w))"

definition modify :: "('w \<Rightarrow> 'w) \<Rightarrow> ('w, unit) io" where
  "modify f = (\<lambda>w. Some (Inr (), f w))"

text \<open>Hoare triples with two postconditions: for a normal return and for an exception.\<close>

definition hoare ::
  "('w \<Rightarrow> bool) \<Rightarrow> ('w, 'a) io \<Rightarrow> ('a \<Rightarrow> 'w \<Rightarrow> bool) \<Rightarrow> (py_error \<Rightarrow> 'w \<Rightarrow> bool) \<Rightarrow> bool" where
  "hoare P m Q E \<longleftrightarrow> (\<forall>w r w'. P w \<longrightarrow> m w = Some (r, w') \<longrightarrow>
     (case r of Inl e \<Rightarrow> E e w' | Inr x \<Rightarrow> Q x w'))"

lemma io_apply [io_simps]:
  "ret x w = Some (Inr x, w)"
  "raise e w = Some (Inl e, w)"
  "lift_res r w = Some (r, w)"
  "gets f w = Some (Inr (f w), w)"
  "modify g w = Some (Inr (), g w)"
  by (simp_all add: ret_def raise_def lift_res_def gets_def modify_def)

lemma bindi_Some_iff [io_simps]:
  "bindi m f w = Some (r, w') \<longleftrightarrow>
     (\<exists>e. m w = Some (Inl e, w') \<and> r = Inl e) \<or>
     (\<exists>x w1. m w = Some (Inr x, w1) \<and> f x w1 = Some (r, w'))"
  by (auto simp: bindi_def split: option.splits sum.splits prod.splits)

lemma bindi_assoc: "bindi (bindi m f) g = bindi m (\<lambda>x. bindi (f x) g)"
  by (rule ext) (auto simp: bindi_def split: option.split sum.split)

lemma attempt_Some_iff [io_simps]:
  "attempt m w = Some (r, w') \<longleftrightarrow> (\<exists>r0. r = Inr r0 \<and> m w = Some (r0, w'))"
  by (auto simp: attempt_def split: option.splits)

text \<open>\<open>try: m except ...: h else: k\<close>\<close>

lemma try_Some_iff:
  "bindi (attempt m) (\<lambda>r. case r of Inl e \<Rightarrow> h e | Inr x \<Rightarrow> k x) w = Some (r, w') \<longleftrightarrow>
     (\<exists>e w1. m w = Some (Inl e, w1) \<and> h e w1 = Some (r, w')) \<or>
     (\<exists>x w1. m w = Some (Inr x, w1) \<and> k x w1 = Some (r, w'))"
  by (auto simp: bindi_def attempt_def split: option.splits sum.splits prod.splits)

lemma run_outcome_iff:
  "(case x of Some (Inr r, w') \<Rightarrow> P r w' | _ \<Rightarrow> False) \<longleftrightarrow> (\<exists>r w'. x = Some (Inr r, w') \<and> P r w')"
  by (auto split: option.splits sum.splits prod.splits)

lemma hoareI:
  "(\<And>w r w'. P w \<Longrightarrow> m w = Some (r, w') \<Longrightarrow>
      (case r of Inl e \<Rightarrow> E e w' | Inr x \<Rightarrow> Q x w')) \<Longrightarrow> hoare P m Q E"
  by (auto simp: hoare_def)

lemma hoareD:
  "hoare P m Q E \<Longrightarrow> P w \<Longrightarrow> m w = Some (r, w') \<Longrightarrow>
     (case r of Inl e \<Rightarrow> E e w' | Inr x \<Rightarrow> Q x w')"
  by (auto simp: hoare_def)

lemma hoare_InrD: "hoare P m Q E \<Longrightarrow> P w \<Longrightarrow> m w = Some (Inr x, w') \<Longrightarrow> Q x w'"
  by (drule (2) hoareD) simp

lemma hoare_InlD: "hoare P m Q E \<Longrightarrow> P w \<Longrightarrow> m w = Some (Inl e, w') \<Longrightarrow> E e w'"
  by (drule (2) hoareD) simp

lemma hoare_weaken:
  assumes "hoare P m Q E"
    and "\<And>w. P' w \<Longrightarrow> P w" and "\<And>x w. Q x w \<Longrightarrow> Q' x w" and "\<And>e w. E e w \<Longrightarrow> E' e w"
  shows "hoare P' m Q' E'"
  unfolding hoare_def
proof (intro allI impI)
  fix w r w' assume "P' w" and run: "m w = Some (r, w')"
  then have "case r of Inl e \<Rightarrow> E e w' | Inr x \<Rightarrow> Q x w'"
    using assms(1,2) by (blast intro: hoareD)
  then show "case r of Inl e \<Rightarrow> E' e w' | Inr x \<Rightarrow> Q' x w'"
    using assms(3,4) by (cases r) auto
qed

lemma hoare_ret: "(\<And>w. P w \<Longrightarrow> Q x w) \<Longrightarrow> hoare P (ret x) Q E"
  by (auto simp: hoare_def io_simps)

lemma hoare_raise: "(\<And>w. P w \<Longrightarrow> E e w) \<Longrightarrow> hoare P (raise e) Q E"
  by (auto simp: hoare_def io_simps)

lemma hoare_bindi:
  assumes "hoare P m R E" and "\<And>x. hoare (R x) (f x) Q E"
  shows "hoare P (bindi m f) Q E"
  unfolding hoare_def
proof (intro allI impI)
  fix w r w' assume "P w" and "bindi m f w = Some (r, w')"
  then consider (exc) e where "m w = Some (Inl e, w')" "r = Inl e"
    | (val) x w1 where "m w = Some (Inr x, w1)" "f x w1 = Some (r, w')"
    by (auto simp: bindi_Some_iff)
  then show "case r of Inl e \<Rightarrow> E e w' | Inr x \<Rightarrow> Q x w'"
  proof cases
    case exc
    with assms(1) \<open>P w\<close> show ?thesis by (auto dest: hoare_InlD)
  next
    case val
    with assms(1) \<open>P w\<close> have "R x w1" by (blast dest: hoare_InrD)
    with assms(2) val(2) show ?thesis by (blast dest: hoareD)
  qed
qed

lemma hoare_attempt:
  assumes "hoare P m (\<lambda>x. Q (Inr x)) (\<lambda>e. Q (Inl e))"
  shows "hoare P (attempt m) Q E"
  unfolding hoare_def
proof (intro allI impI)
  fix w r w' assume "P w" and "attempt m w = Some (r, w')"
  then obtain r0 where "r = Inr r0" and "m w = Some (r0, w')"
    by (auto simp: attempt_Some_iff)
  with assms \<open>P w\<close> show "case r of Inl e \<Rightarrow> E e w' | Inr x \<Rightarrow> Q x w'"
    by (cases r0) (auto dest: hoareD)
qed

text \<open>
  Returning. \<open>total m\<close>: code without a waiting loop always returns. A family \<open>m\<close> indexed by fuel
  \<open>settles\<close> on a world when enough fuel gives a result and more fuel does not change it.
\<close>

named_theorems total_intros \<open>code that always returns\<close>
named_theorems settles_intros \<open>code that returns with enough fuel\<close>

definition total :: "('w, 'a) io \<Rightarrow> bool" where
  "total m \<longleftrightarrow> (\<forall>w. m w \<noteq> None)"

definition settles :: "(nat \<Rightarrow> ('w, 'a) io) \<Rightarrow> 'w \<Rightarrow> bool" where
  "settles m w \<longleftrightarrow> (\<exists>n0 x. \<forall>n\<ge>n0. m n w = Some x)"

lemma total_basic [total_intros]:
  "total (ret x)" "total (raise e)" "total (lift_res r)" "total (gets f)" "total (modify g)"
  by (simp_all add: total_def io_simps)

lemma total_bindi [total_intros]: "total m \<Longrightarrow> (\<And>x. total (f x)) \<Longrightarrow> total (bindi m f)"
  by (auto simp: total_def bindi_def split: option.split sum.split)

lemma total_attempt [total_intros]: "total m \<Longrightarrow> total (attempt m)"
  by (auto simp: total_def attempt_def split: option.split)

lemma total_settles: "total m \<Longrightarrow> settles (\<lambda>n. m) w"
  by (auto simp: total_def settles_def)

lemma settles_bindi [settles_intros]:
  assumes "settles m w" and "\<And>n x w'. m n w = Some (Inr x, w') \<Longrightarrow> settles (\<lambda>n. f n x) w'"
  shows "settles (\<lambda>n. bindi (m n) (f n)) w"
proof -
  obtain n0 r w1 where m: "\<And>n. n \<ge> n0 \<Longrightarrow> m n w = Some (r, w1)"
    using assms(1) unfolding settles_def by (metis surj_pair)
  show ?thesis
  proof (cases r)
    case (Inl e)
    with m have "\<forall>n\<ge>n0. bindi (m n) (f n) w = Some (Inl e, w1)" by (simp add: bindi_def)
    then show ?thesis by (auto simp: settles_def)
  next
    case (Inr x)
    with m have "settles (\<lambda>n. f n x) w1" by (intro assms(2) [of n0]) auto
    then obtain n1 y where f: "\<And>n. n \<ge> n1 \<Longrightarrow> f n x w1 = Some y" by (auto simp: settles_def)
    have "\<forall>n\<ge>max n0 n1. bindi (m n) (f n) w = Some y"
      using m f Inr by (simp add: bindi_def)
    then show ?thesis unfolding settles_def by blast
  qed
qed

lemma settles_attempt [settles_intros]:
  assumes "settles m w"
  shows "settles (\<lambda>n. attempt (m n)) w"
proof -
  obtain n0 r w1 where "\<And>n. n \<ge> n0 \<Longrightarrow> m n w = Some (r, w1)"
    using assms unfolding settles_def by (metis surj_pair)
  then have "\<forall>n\<ge>n0. attempt (m n) w = Some (Inr r, w1)" by (simp add: attempt_def)
  then show ?thesis by (auto simp: settles_def)
qed

text \<open>\<open>returns Q m\<close>: every value that \<open>m\<close> returns satisfies \<open>Q\<close>, in whatever world.\<close>

named_theorems returns_intros \<open>what code returns\<close>

definition returns :: "('a \<Rightarrow> bool) \<Rightarrow> ('w, 'a) io \<Rightarrow> bool" where
  "returns Q m \<longleftrightarrow> (\<forall>w x w'. m w = Some (Inr x, w') \<longrightarrow> Q x)"

lemma returnsD: "returns Q m \<Longrightarrow> m w = Some (Inr x, w') \<Longrightarrow> Q x"
  by (auto simp: returns_def)

lemma returns_ret [returns_intros]: "Q x \<Longrightarrow> returns Q (ret x)"
  by (auto simp: returns_def io_simps)

lemma returns_raise [returns_intros]: "returns Q (raise e)"
  by (auto simp: returns_def io_simps)

lemma returns_bindi: "returns R m \<Longrightarrow> (\<And>x. R x \<Longrightarrow> returns Q (f x)) \<Longrightarrow> returns Q (bindi m f)"
  by (fastforce simp: returns_def bindi_Some_iff)

lemma returns_any: "returns (\<lambda>x. True) m"
  by (simp add: returns_def)

lemma returns_weaken: "returns Q m \<Longrightarrow> (\<And>x. Q x \<Longrightarrow> R x) \<Longrightarrow> returns R m"
  by (auto simp: returns_def)

lemma returns_None [returns_intros]: "returns Q (\<lambda>w. None)"
  by (simp add: returns_def)

text \<open>\<open>keeps f m\<close>: the part \<open>f\<close> of the world is the same after \<open>m\<close>, returned or raised.\<close>

named_theorems keeps_intros \<open>code that leaves a part of the world alone\<close>

definition keeps :: "('w \<Rightarrow> 'c) \<Rightarrow> ('w, 'a) io \<Rightarrow> bool" where
  "keeps f m \<longleftrightarrow> (\<forall>w r w'. m w = Some (r, w') \<longrightarrow> f w' = f w)"

lemma keepsD: "keeps f m \<Longrightarrow> m w = Some (r, w') \<Longrightarrow> f w' = f w"
  by (auto simp: keeps_def)

lemma keeps_basic [keeps_intros]:
  "keeps f (ret x)" "keeps f (raise e)" "keeps f (lift_res r)" "keeps f (gets g)"
  by (auto simp: keeps_def io_simps)

lemma keeps_modify: "(\<And>w. f (g w) = f w) \<Longrightarrow> keeps f (modify g)"
  by (auto simp: keeps_def io_simps)

lemma keeps_bindi [keeps_intros]: "keeps f m \<Longrightarrow> (\<And>x. keeps f (k x)) \<Longrightarrow> keeps f (bindi m k)"
  by (fastforce simp: keeps_def bindi_Some_iff)

lemma keeps_attempt [keeps_intros]: "keeps f m \<Longrightarrow> keeps f (attempt m)"
  by (auto simp: keeps_def attempt_Some_iff)

text \<open>\<open>no_raise m\<close>: every exception inside \<open>m\<close> is caught there.\<close>

named_theorems no_raise_intros \<open>code that never raises\<close>

definition no_raise :: "('w, 'a) io \<Rightarrow> bool" where
  "no_raise m \<longleftrightarrow> (\<forall>w e w'. m w \<noteq> Some (Inl e, w'))"

lemma no_raiseD: "no_raise m \<Longrightarrow> m w = Some (r, w') \<Longrightarrow> \<exists>x. r = Inr x"
  by (cases r) (auto simp: no_raise_def)

lemma no_raise_basic [no_raise_intros]:
  "no_raise (ret x)" "no_raise (gets g)" "no_raise (modify h)" "no_raise (attempt m)"
  by (auto simp: no_raise_def io_simps)

lemma no_raise_bindi [no_raise_intros]: "no_raise m \<Longrightarrow> (\<And>x. no_raise (f x)) \<Longrightarrow> no_raise (bindi m f)"
  by (auto simp: no_raise_def bindi_Some_iff)

lemma settles_Suc:
  assumes "settles (\<lambda>n. m (Suc n)) w"
  shows "settles m w"
proof -
  obtain n0 x where x: "\<And>n. n \<ge> n0 \<Longrightarrow> m (Suc n) w = Some x" using assms unfolding settles_def by blast
  have "m n w = Some x" if "n \<ge> Suc n0" for n
    using x [of "n - 1"] that by (cases n) auto
  then show ?thesis unfolding settles_def by blast
qed

lemma settles_if: "(c \<Longrightarrow> settles f w) \<Longrightarrow> (\<not> c \<Longrightarrow> settles g w) \<Longrightarrow> settles (\<lambda>n. if c then f n else g n) w"
  by (cases c) simp_all

section \<open>Fail-closed components\<close>

text \<open>
  The contract of a component that latches its first failure: once failed, every further step is
  refused and what the component has published does not change.
\<close>

locale fail_closed =
  fixes step :: "'i \<Rightarrow> 's \<Rightarrow> 's \<times> 'o res"
    and failed :: "'s \<Rightarrow> bool"
    and published :: "'s \<Rightarrow> 'p"
  assumes refuses: "failed s \<Longrightarrow> \<exists>e. snd (step i s) = Inl e"
    and stays_failed: "failed s \<Longrightarrow> failed (fst (step i s))"
    and frozen: "failed s \<Longrightarrow> published (fst (step i s)) = published s"
begin

primrec steps :: "'i list \<Rightarrow> 's \<Rightarrow> 's" where
  "steps [] s = s"
| "steps (i # is) s = steps is (fst (step i s))"

lemma steps_after_failure: "failed s \<Longrightarrow> failed (steps is s) \<and> published (steps is s) = published s"
  by (induction "is" arbitrary: s) (simp_all add: stays_failed frozen)

lemma no_recovery: "failed s \<Longrightarrow> \<exists>e. snd (step i (steps is s)) = Inl e"
  using steps_after_failure refuses by blast

end

section \<open>Python strings\<close>

definition is_digit :: "char \<Rightarrow> bool" where
  "is_digit c \<longleftrightarrow> (48::nat) \<le> of_char c \<and> (of_char c :: nat) \<le> 57"

definition digit_val :: "char \<Rightarrow> nat" where
  "digit_val c = of_char c - 48"

definition is_hex_lower :: "char \<Rightarrow> bool" where
  "is_hex_lower c \<longleftrightarrow> is_digit c \<or> ((97::nat) \<le> of_char c \<and> (of_char c :: nat) \<le> 102)"

definition is_alpha :: "char \<Rightarrow> bool" where
  "is_alpha c \<longleftrightarrow> ((65::nat) \<le> of_char c \<and> (of_char c :: nat) \<le> 90)
     \<or> ((97::nat) \<le> of_char c \<and> (of_char c :: nat) \<le> 122)"

text \<open>\<open>re.fullmatch('[0-9a-f]{n}', s)\<close>\<close>

definition fullmatch_hex :: "nat \<Rightarrow> string \<Rightarrow> bool" where
  "fullmatch_hex n s \<longleftrightarrow> length s = n \<and> list_all is_hex_lower s"

definition py_isdigit :: "string \<Rightarrow> bool" where
  "py_isdigit s \<longleftrightarrow> s \<noteq> [] \<and> list_all is_digit s"

definition is_space :: "char \<Rightarrow> bool" where
  "is_space c \<longleftrightarrow> (let n = (of_char c :: nat) in
     (9 \<le> n \<and> n \<le> 13) \<or> (28 \<le> n \<and> n \<le> 32) \<or> n = 133 \<or> n = 160)"

text \<open>\<open>s.split()\<close>: the maximal runs of non-space characters.\<close>

fun split_words :: "string \<Rightarrow> string \<Rightarrow> string list" where
  "split_words acc [] = (if acc = [] then [] else [rev acc])"
| "split_words acc (c # cs) =
     (if is_space c then (if acc = [] then split_words [] cs else rev acc # split_words [] cs)
      else split_words (c # acc) cs)"

definition py_split :: "string \<Rightarrow> string list" where
  "py_split s = split_words [] s"

text \<open>\<open>s.splitlines()\<close> with the line ends of \<open>bytes\<close>: \<open>\n\<close>, \<open>\r\<close> and \<open>\r\n\<close>.\<close>

abbreviation LF :: char where "LF \<equiv> CHR 0x0A"
abbreviation CR :: char where "CR \<equiv> CHR 0x0D"

fun split_lines :: "string \<Rightarrow> string \<Rightarrow> string list" where
  "split_lines acc [] = (if acc = [] then [] else [rev acc])"
| "split_lines acc (c # cs) =
     (if c = LF then rev acc # split_lines [] cs
      else if c = CR then
        (case cs of d # ds \<Rightarrow> if d = LF then rev acc # split_lines [] ds else rev acc # split_lines [] cs
                  | [] \<Rightarrow> [rev acc])
      else split_lines (c # acc) cs)"

definition py_splitlines :: "string \<Rightarrow> string list" where
  "py_splitlines s = split_lines [] s"

text \<open>\<open>str.splitlines\<close> also breaks at the other line boundaries of Unicode (those below 256).\<close>

definition is_linebreak :: "char \<Rightarrow> bool" where
  "is_linebreak c \<longleftrightarrow> (let n = (of_char c :: nat) in
     (10 \<le> n \<and> n \<le> 13) \<or> (28 \<le> n \<and> n \<le> 30) \<or> n = 133)"

fun str_lines :: "string \<Rightarrow> string \<Rightarrow> string list" where
  "str_lines acc [] = (if acc = [] then [] else [rev acc])"
| "str_lines acc (c # cs) =
     (if c = CR then
        (case cs of d # ds \<Rightarrow> if d = LF then rev acc # str_lines [] ds else rev acc # str_lines [] cs
                  | [] \<Rightarrow> [rev acc])
      else if is_linebreak c then rev acc # str_lines [] cs
      else str_lines (c # acc) cs)"

definition str_splitlines :: "string \<Rightarrow> string list" where
  "str_splitlines s = str_lines [] s"

text \<open>\<open>s.split(sep)\<close> for one character, and \<open>s.split(sep, 1)[1]\<close> for a string that occurs in \<open>s\<close>.\<close>

fun split_on :: "char \<Rightarrow> string \<Rightarrow> string list" where
  "split_on c [] = [[]]"
| "split_on c (d # ds) = (if d = c then [] # split_on c ds
     else (case split_on c ds of x # xs \<Rightarrow> (d # x) # xs | [] \<Rightarrow> [[d]]))"

fun after_first :: "string \<Rightarrow> string \<Rightarrow> string option" where
  "after_first sep [] = (if sep = [] then Some [] else None)"
| "after_first sep (c # cs) =
     (if take (length sep) (c # cs) = sep then Some (drop (length sep) (c # cs)) else after_first sep cs)"

definition py_startswith :: "string \<Rightarrow> string \<Rightarrow> bool" where
  "py_startswith s p \<longleftrightarrow> take (length p) s = p"

text \<open>\<open>s.rfind(c)\<close>: the last index, or \<open>-1\<close>.\<close>

fun py_rfind :: "char \<Rightarrow> string \<Rightarrow> int" where
  "py_rfind c [] = -1"
| "py_rfind c (x # xs) =
     (let r = py_rfind c xs in if 0 \<le> r then r + 1 else if x = c then 0 else -1)"

text \<open>\<open>s[i:]\<close> for a nonnegative \<open>i\<close>.\<close>

definition py_slice_from :: "string \<Rightarrow> int \<Rightarrow> string" where
  "py_slice_from s i = drop (nat i) s"

text \<open>\<open>int(s)\<close> on a string without surrounding space: an optional sign and decimal digits.\<close>

fun nat_digits :: "nat \<Rightarrow> string \<Rightarrow> nat option" where
  "nat_digits acc [] = Some acc"
| "nat_digits acc (c # cs) = (if is_digit c then nat_digits (10 * acc + digit_val c) cs else None)"

definition py_nat :: "string \<Rightarrow> nat option" where
  "py_nat s = (if s = [] then None else nat_digits 0 s)"

definition py_int :: "string \<Rightarrow> int res" where
  "py_int s =
     (case (case s of c # cs \<Rightarrow>
              if c = CHR ''-'' then map_option (\<lambda>n. - int n) (py_nat cs)
              else if c = CHR ''+'' then map_option int (py_nat cs)
              else map_option int (py_nat s)
            | [] \<Rightarrow> None)
      of Some i \<Rightarrow> Inr i | None \<Rightarrow> Inl (ValueError ''invalid literal for int()''))"

text \<open>\<open>str(n)\<close> of an integer.\<close>

definition digit_char :: "nat \<Rightarrow> char" where
  "digit_char n = char_of (48 + n)"

fun show_nat :: "nat \<Rightarrow> string" where
  "show_nat n = (if n < 10 then [digit_char n] else show_nat (n div 10) @ [digit_char (n mod 10)])"

declare show_nat.simps [simp del]

definition show_int :: "int \<Rightarrow> string" where
  "show_int i = (if i < 0 then CHR ''-'' # show_nat (nat (- i)) else show_nat (nat i))"

subsection \<open>Lemmas on the string functions\<close>

lemma digit_char_val [simp]: "n < 10 \<Longrightarrow> digit_val (digit_char n) = n"
  by (simp add: digit_val_def digit_char_def)

lemma digit_char_is_digit [simp]: "n < 10 \<Longrightarrow> is_digit (digit_char n)"
  by (simp add: is_digit_def digit_char_def)

lemma nat_digits_append:
  "nat_digits a (xs @ ys) = Option.bind (nat_digits a xs) (\<lambda>b. nat_digits b ys)"
  by (induction xs arbitrary: a) simp_all

lemma show_nat_nonempty [simp]: "show_nat n \<noteq> []"
  by (subst show_nat.simps) simp

lemma show_nat_digits: "list_all is_digit (show_nat n)"
proof (induction n rule: show_nat.induct)
  case (1 n)
  then show ?case by (subst show_nat.simps) simp
qed

lemma nat_digits_show_nat [simp]: "nat_digits 0 (show_nat n) = Some n"
proof (induction n rule: show_nat.induct)
  case (1 n)
  show ?case
  proof (cases "n < 10")
    case True
    then show ?thesis by (subst show_nat.simps) simp
  next
    case False
    with "1.IH" have "nat_digits 0 (show_nat (n div 10)) = Some (n div 10)" by simp
    with False show ?thesis by (subst show_nat.simps) (simp add: nat_digits_append)
  qed
qed

lemma py_nat_show_nat [simp]: "py_nat (show_nat n) = Some n"
  by (simp add: py_nat_def)

lemma digit_not_sign [simp]: "\<not> is_digit CHR ''-''" "\<not> is_digit CHR ''+''"
  by (simp_all add: is_digit_def)

lemma py_int_show_int [simp]: "py_int (show_int i) = Inr i"
proof (cases "i < 0")
  case True
  then show ?thesis by (simp add: py_int_def show_int_def)
next
  case False
  obtain c cs where eq: "show_nat (nat i) = c # cs"
    by (cases "show_nat (nat i)") simp_all
  from show_nat_digits [of "nat i"] eq have "is_digit c" by simp
  then have "c \<noteq> CHR ''-''" "c \<noteq> CHR ''+''" by auto
  with False eq show ?thesis
    using py_nat_show_nat [of "nat i"] by (simp add: py_int_def show_int_def)
qed

lemma digit_not_space: "is_digit c \<Longrightarrow> \<not> is_space c"
  by (auto simp: is_digit_def is_space_def Let_def)

lemma py_rfind_append: "c \<notin> set ys \<Longrightarrow> py_rfind c (xs @ c # ys) = int (length xs)"
proof (induction xs)
  case Nil
  then have "py_rfind c ys = -1" by (induction ys) auto
  then show ?case by simp
next
  case (Cons x xs)
  then show ?case by simp
qed

text \<open>Splitting a line of words that are joined by single spaces gives the words back.\<close>

fun join :: "string \<Rightarrow> string list \<Rightarrow> string" where
  "join sep [] = []"
| "join sep [x] = x"
| "join sep (x # y # ys) = x @ sep @ join sep (y # ys)"

definition is_word :: "string \<Rightarrow> bool" where
  "is_word s \<longleftrightarrow> s \<noteq> [] \<and> list_all (\<lambda>c. \<not> is_space c) s"

lemma split_words_word:
  "list_all (\<lambda>c. \<not> is_space c) s \<Longrightarrow> split_words acc (s @ rest) = split_words (rev s @ acc) rest"
  by (induction s arbitrary: acc) simp_all

lemma py_split_join:
  assumes "\<forall>w \<in> set ws. is_word w" and "rest = [] \<or> (\<exists>c cs. rest = c # cs \<and> is_space c \<and> list_all is_space cs)"
  shows "py_split (join '' '' ws @ rest) = ws"
proof -
  have spaces: "list_all is_space cs \<Longrightarrow> split_words [] cs = []" for cs
    by (induction cs) simp_all
  have "split_words [] (join '' '' ws @ rest) = ws"
    using assms(1)
  proof (induction ws rule: induct_list012)
    case 1
    from assms(2) spaces show ?case by auto
  next
    case (2 x)
    then have "split_words [] (x @ rest) = split_words (rev x) rest"
      by (simp add: is_word_def split_words_word)
    with 2 assms(2) spaces show ?case by (auto simp: is_word_def)
  next
    case (3 x y zs)
    then have "list_all (\<lambda>c. \<not> is_space c) x" "x \<noteq> []" by (simp_all add: is_word_def)
    moreover have "is_space CHR '' ''" by (simp add: is_space_def Let_def)
    moreover have "split_words [] (join '' '' (y # zs) @ rest) = y # zs"
      using 3 by simp
    ultimately show ?case by (simp add: split_words_word)
  qed
  then show ?thesis by (simp add: py_split_def)
qed

lemma show_int_is_word: "is_word (show_int i)"
proof -
  have "list_all (\<lambda>c. \<not> is_space c) (show_nat n)" for n
    using show_nat_digits [of n] by (auto simp: list_all_iff dest: digit_not_space)
  moreover have "\<not> is_space CHR ''-''" by (simp add: is_space_def Let_def)
  ultimately show ?thesis by (simp add: is_word_def show_int_def)
qed

text \<open>Splitting a text of newline-terminated lines gives the lines back.\<close>

lemma split_lines_line:
  "LF \<notin> set s \<Longrightarrow> CR \<notin> set s \<Longrightarrow> split_lines acc (s @ LF # rest) = (rev acc @ s) # split_lines [] rest"
  by (induction s arbitrary: acc) auto

lemma py_splitlines_concat:
  assumes "\<forall>l \<in> set ls. LF \<notin> set l \<and> CR \<notin> set l"
  shows "py_splitlines (concat (map (\<lambda>l. l @ [LF]) ls)) = ls"
  using assms unfolding py_splitlines_def
  by (induction ls) (simp_all add: split_lines_line)

end
