(* ===== verification/Json_Model.thy ===== *)
theory Json_Model
  imports Py_Base "HOL-Library.List_Lexorder" "HOL-Library.Char_ord"
begin

text \<open>
  JSON values as the bench tools see them through Python's \<^verbatim>\<open>json\<close> module: the values,
  the Python operations the sources apply to them (\<open>isinstance\<close>, \<open>type(x) is int\<close>,
  \<open>d.get(k)\<close>, \<open>d[k]\<close>, \<open>==\<close> with its bool/int/float coercions), the text that
  \<^verbatim>\<open>json.dumps\<close> writes (compact, and \<open>indent=2\<close>), and the parser of \<^verbatim>\<open>json.loads\<close>.
  The main result is the round trip: parsing what was written gives the value back.

  Conventions. A string is a list of 8-bit characters (code points below 256); a text with
  other code points is outside the model and does not parse. A finite float is the decimal
  \<open>m * 10^e\<close> that its \<open>repr\<close> denotes, in canonical form (\<open>m\<close> not divisible by 10);
  infinities and NaN never enter a value, because the sources dump with
  \<open>allow_nan=False\<close> and reject the constants when they load.
\<close>

section \<open>Values\<close>

datatype json =
    JNull
  | JBool bool
  | JInt int
  | JFloat int int
  | JStr string
  | JArr "json list"
  | JObj "(string \<times> json) list"

fun is_dict :: "json \<Rightarrow> bool" where
  "is_dict (JObj kvs) = True"
| "is_dict _ = False"

fun is_list :: "json \<Rightarrow> bool" where
  "is_list (JArr xs) = True"
| "is_list _ = False"

fun is_str :: "json \<Rightarrow> bool" where
  "is_str (JStr s) = True"
| "is_str _ = False"

text \<open>\<open>type(x) is int\<close> and \<open>type(x) is bool\<close>: a bool is not an int here.\<close>

fun is_int :: "json \<Rightarrow> bool" where
  "is_int (JInt i) = True"
| "is_int _ = False"

fun is_bool :: "json \<Rightarrow> bool" where
  "is_bool (JBool b) = True"
| "is_bool _ = False"

fun the_int :: "json \<Rightarrow> int" where
  "the_int (JInt i) = i"
| "the_int _ = 0"

fun the_str :: "json \<Rightarrow> string" where
  "the_str (JStr s) = s"
| "the_str _ = []"

fun the_list :: "json \<Rightarrow> json list" where
  "the_list (JArr xs) = xs"
| "the_list _ = []"

fun pairs :: "json \<Rightarrow> (string \<times> json) list" where
  "pairs (JObj kvs) = kvs"
| "pairs _ = []"

text \<open>The keys of a dictionary, \<open>d.get(k)\<close> and \<open>d[k]\<close>.\<close>

definition keys :: "json \<Rightarrow> string list" where
  "keys j = map fst (pairs j)"

definition has_key :: "json \<Rightarrow> string \<Rightarrow> bool" where
  "has_key j k \<longleftrightarrow> k \<in> set (keys j)"

definition jget :: "json \<Rightarrow> string \<Rightarrow> json" where
  "jget j k = (case map_of (pairs j) k of Some v \<Rightarrow> v | None \<Rightarrow> JNull)"

definition item :: "json \<Rightarrow> string \<Rightarrow> json res" where
  "item j k = (case j of
       JObj kvs \<Rightarrow> (case map_of kvs k of Some v \<Rightarrow> Inr v | None \<Rightarrow> Inl KeyError)
     | _ \<Rightarrow> Inl TypeError)"

text \<open>Truth value, and the numeric value behind Python's mixed comparisons.\<close>

fun truthy :: "json \<Rightarrow> bool" where
  "truthy JNull = False"
| "truthy (JBool b) = b"
| "truthy (JInt i) = (i \<noteq> 0)"
| "truthy (JFloat m e) = (m \<noteq> 0)"
| "truthy (JStr s) = (s \<noteq> [])"
| "truthy (JArr xs) = (xs \<noteq> [])"
| "truthy (JObj kvs) = (kvs \<noteq> [])"

text \<open>A number as \<open>m * 10^e\<close>; \<open>dec_le\<close> compares two of them by scaling to one exponent.\<close>

fun num_of :: "json \<Rightarrow> (int \<times> int) option" where
  "num_of (JBool b) = Some (if b then 1 else 0, 0)"
| "num_of (JInt i) = Some (i, 0)"
| "num_of (JFloat m e) = Some (m, e)"
| "num_of _ = None"

definition dec_scale :: "int \<times> int \<Rightarrow> int \<Rightarrow> int" where
  "dec_scale x e = fst x * 10 ^ nat (snd x - e)"

definition dec_le :: "int \<times> int \<Rightarrow> int \<times> int \<Rightarrow> bool" where
  "dec_le x y \<longleftrightarrow> (let e = min (snd x) (snd y) in dec_scale x e \<le> dec_scale y e)"

definition dec_eq :: "int \<times> int \<Rightarrow> int \<times> int \<Rightarrow> bool" where
  "dec_eq x y \<longleftrightarrow> (let e = min (snd x) (snd y) in dec_scale x e = dec_scale y e)"

definition dec_add :: "int \<times> int \<Rightarrow> int \<times> int \<Rightarrow> int \<times> int" where
  "dec_add x y = (let e = min (snd x) (snd y) in (dec_scale x e + dec_scale y e, e))"

text \<open>Python's \<open>==\<close>: \<open>True == 1 == 1.0\<close>, and dictionaries ignore the order of their keys.\<close>

fun py_eq :: "json \<Rightarrow> json \<Rightarrow> bool" where
  "py_eq (JArr xs) y = (case y of
      JArr ys \<Rightarrow> list_all2 py_eq xs ys
    | _ \<Rightarrow> False)"
| "py_eq (JObj kvs) y = (case y of
      JObj kws \<Rightarrow> length kvs = length kws \<and>
        (\<forall>(k, v) \<in> set kvs. case map_of kws k of Some w \<Rightarrow> py_eq v w | None \<Rightarrow> False)
    | _ \<Rightarrow> False)"
| "py_eq x y = (case (num_of x, num_of y) of
      (Some a, Some b) \<Rightarrow> dec_eq a b
    | (None, None) \<Rightarrow> x = y
    | _ \<Rightarrow> False)"

text \<open>Every dictionary that comes from Python or passes the duplicate check has distinct keys.\<close>

fun distinct_keys :: "json \<Rightarrow> bool" where
  "distinct_keys (JArr xs) = (\<forall>x \<in> set xs. distinct_keys x)"
| "distinct_keys (JObj kvs) = (distinct (map fst kvs) \<and> (\<forall>(k, v) \<in> set kvs. distinct_keys v))"
| "distinct_keys _ = True"

text \<open>\<open>sort_keys=True\<close>\<close>

fun sort_keys :: "json \<Rightarrow> json" where
  "sort_keys (JArr xs) = JArr (map sort_keys xs)"
| "sort_keys (JObj kvs) = JObj (sort_key fst (map (\<lambda>(k, v). (k, sort_keys v)) kvs))"
| "sort_keys x = x"

section \<open>Writing\<close>

abbreviation DQ :: char where "DQ \<equiv> CHR 0x22"
abbreviation BSL :: char where "BSL \<equiv> CHR 0x5C"

definition hex_digit :: "nat \<Rightarrow> char" where
  "hex_digit n = (if n < 10 then char_of (48 + n) else char_of (87 + n))"

text \<open>\<open>ensure_ascii\<close>: everything outside the printable ASCII range is escaped.\<close>

definition esc :: "char \<Rightarrow> string" where
  "esc c = (let n = (of_char c :: nat) in
     if c = DQ then [BSL, DQ]
     else if c = BSL then [BSL, BSL]
     else if n = 8 then [BSL, CHR ''b'']
     else if n = 12 then [BSL, CHR ''f'']
     else if n = 10 then [BSL, CHR ''n'']
     else if n = 13 then [BSL, CHR ''r'']
     else if n = 9 then [BSL, CHR ''t'']
     else if 32 \<le> n \<and> n \<le> 126 then [c]
     else [BSL, CHR ''u'', CHR ''0'', CHR ''0'', hex_digit (n div 16), hex_digit (n mod 16)])"

definition dump_str :: "string \<Rightarrow> string" where
  "dump_str s = DQ # concat (map esc s) @ [DQ]"

text \<open>\<open>repr\<close> of a float: positional for decimal points in \<open>(-4, 16]\<close>, else with an exponent.\<close>

definition float_repr :: "int \<Rightarrow> int \<Rightarrow> string" where
  "float_repr m e =
     (let ds = show_nat (nat \<bar>m\<bar>); n = int (length ds); p = n + e;
          sgn = (if m < 0 then ''-'' else '''') in
      if m = 0 then ''0.0''
      else sgn @
        (if -4 < p \<and> p \<le> 0 then ''0.'' @ replicate (nat (- p)) CHR ''0'' @ ds
         else if 0 < p \<and> p < n then take (nat p) ds @ ''.'' @ drop (nat p) ds
         else if n \<le> p \<and> p \<le> 16 then ds @ replicate (nat (p - n)) CHR ''0'' @ ''.0''
         else (case ds of d # rest \<Rightarrow> d # (if rest = [] then [] else CHR ''.'' # rest) | [] \<Rightarrow> [])
              @ ''e'' @ (if p - 1 < 0 then ''-'' else ''+'')
              @ (if \<bar>p - 1\<bar> < 10 then ''0'' else '''') @ show_nat (nat \<bar>p - 1\<bar>)))"

definition newline :: "bool \<Rightarrow> nat \<Rightarrow> string" where
  "newline ind l = (if ind then LF # replicate (2 * l) CHR '' '' else [])"

definition separator :: "bool \<Rightarrow> nat \<Rightarrow> string" where
  "separator ind l = (if ind then CHR '','' # newline ind l else '', '')"

fun dump :: "bool \<Rightarrow> nat \<Rightarrow> json \<Rightarrow> string" where
  "dump ind l JNull = ''null''"
| "dump ind l (JBool b) = (if b then ''true'' else ''false'')"
| "dump ind l (JInt i) = show_int i"
| "dump ind l (JFloat m e) = float_repr m e"
| "dump ind l (JStr s) = dump_str s"
| "dump ind l (JArr xs) =
     (if xs = [] then ''[]''
      else CHR ''['' # newline ind (Suc l) @ join (separator ind (Suc l)) (map (dump ind (Suc l)) xs)
           @ newline ind l @ '']'')"
| "dump ind l (JObj kvs) =
     (if kvs = [] then ''{}''
      else CHR ''{'' # newline ind (Suc l)
           @ join (separator ind (Suc l)) (map (\<lambda>(k, v). dump_str k @ '': '' @ dump ind (Suc l) v) kvs)
           @ newline ind l @ ''}'')"

text \<open>\<open>json.dumps(v, sort_keys=True)\<close>, and the same with \<open>indent=2\<close>.\<close>

definition dumps :: "json \<Rightarrow> string" where
  "dumps v = dump False 0 (sort_keys v)"

definition dumps_indent :: "json \<Rightarrow> string" where
  "dumps_indent v = dump True 0 (sort_keys v)"

section \<open>Reading\<close>

definition is_ws :: "char \<Rightarrow> bool" where
  "is_ws c \<longleftrightarrow> c = CHR '' '' \<or> c = LF \<or> c = CR \<or> c = CHR 0x09"

definition skip_ws :: "string \<Rightarrow> string" where
  "skip_ws s = dropWhile is_ws s"

definition hex_val :: "char \<Rightarrow> nat option" where
  "hex_val c = (let n = (of_char c :: nat) in
     if 48 \<le> n \<and> n \<le> 57 then Some (n - 48)
     else if 97 \<le> n \<and> n \<le> 102 then Some (n - 87)
     else if 65 \<le> n \<and> n \<le> 70 then Some (n - 55)
     else None)"

definition hex4 :: "char \<Rightarrow> char \<Rightarrow> char \<Rightarrow> char \<Rightarrow> nat option" where
  "hex4 a b c d = (case (hex_val a, hex_val b, hex_val c, hex_val d) of
      (Some i, Some j, Some k, Some l) \<Rightarrow> Some (((i * 16 + j) * 16 + k) * 16 + l)
    | _ \<Rightarrow> None)"

definition unescape :: "char \<Rightarrow> char option" where
  "unescape c =
     (if c = DQ \<or> c = BSL \<or> c = CHR ''/'' then Some c
      else if c = CHR ''b'' then Some (CHR 0x08)
      else if c = CHR ''f'' then Some (CHR 0x0C)
      else if c = CHR ''n'' then Some LF
      else if c = CHR ''r'' then Some CR
      else if c = CHR ''t'' then Some (CHR 0x09)
      else None)"

definition cons_fst :: "'a \<Rightarrow> 'a list \<times> 'b \<Rightarrow> 'a list \<times> 'b" where
  "cons_fst x p = (x # fst p, snd p)"

fun pstr :: "string \<Rightarrow> (string \<times> string) option" where
  "pstr [] = None"
| "pstr (c # cs) =
     (if c = DQ then Some ([], cs)
      else if c = BSL then
        (case cs of
           [] \<Rightarrow> None
         | e # es \<Rightarrow>
             if e = CHR ''u'' then
               (case es of
                  a # b # c' # d # rest \<Rightarrow>
                    (case hex4 a b c' d of
                       Some n \<Rightarrow> if n < 256 then map_option (cons_fst (char_of n)) (pstr rest) else None
                     | None \<Rightarrow> None)
                | _ \<Rightarrow> None)
             else (case unescape e of
                     Some x \<Rightarrow> map_option (cons_fst x) (pstr es)
                   | None \<Rightarrow> None))
      else if (of_char c :: nat) < 32 then None
      else map_option (cons_fst c) (pstr cs))"

fun strip_zeros :: "nat \<Rightarrow> int \<Rightarrow> nat \<times> int" where
  "strip_zeros m e =
     (if m = 0 then (0, 0) else if m mod 10 = 0 then strip_zeros (m div 10) (e + 1) else (m, e))"

declare strip_zeros.simps [simp del]

definition mk_float :: "bool \<Rightarrow> nat \<Rightarrow> int \<Rightarrow> json" where
  "mk_float neg m e = (case strip_zeros m e of (m', e') \<Rightarrow> JFloat (if neg then - int m' else int m') e')"

text \<open>The number token \<open>-?(0|[1-9][0-9]*)(\.[0-9]+)?([eE][-+]?[0-9]+)?\<close>.\<close>

definition pexp :: "string \<Rightarrow> (int option \<times> string) option" where
  "pexp s = (case s of
      c # cs \<Rightarrow>
        if c = CHR ''e'' \<or> c = CHR ''E'' then
          (let (neg, t) = (case cs of d # ds \<Rightarrow> if d = CHR ''-'' then (True, ds)
                                               else if d = CHR ''+'' then (False, ds) else (False, cs)
                                   | [] \<Rightarrow> (False, cs));
               ds = takeWhile is_digit t
           in case py_nat ds of
                Some n \<Rightarrow> Some (Some (if neg then - int n else int n), dropWhile is_digit t)
              | None \<Rightarrow> None)
        else Some (None, s)
    | [] \<Rightarrow> Some (None, s))"

definition pfrac :: "string \<Rightarrow> (string option \<times> string) option" where
  "pfrac s = (case s of
      c # cs \<Rightarrow>
        if c = CHR ''.'' then
          (let fs = takeWhile is_digit cs in
           if fs = [] then None else Some (Some fs, dropWhile is_digit cs))
        else Some (None, s)
    | [] \<Rightarrow> Some (None, s))"

definition pnum_body :: "bool \<Rightarrow> string \<Rightarrow> (json \<times> string) option" where
  "pnum_body neg s =
     (let ds = takeWhile is_digit s in
      if ds = [] \<or> (hd ds = CHR ''0'' \<and> length ds > 1) then None
      else case pfrac (dropWhile is_digit s) of
        None \<Rightarrow> None
      | Some (fr, r1) \<Rightarrow>
          (case pexp r1 of
             None \<Rightarrow> None
           | Some (ex, r2) \<Rightarrow>
               (case (fr, ex) of
                  (None, None) \<Rightarrow>
                    map_option (\<lambda>n. (JInt (if neg then - int n else int n), r2)) (py_nat ds)
                | _ \<Rightarrow>
                    (let fs = (case fr of Some f \<Rightarrow> f | None \<Rightarrow> []);
                         x = (case ex of Some i \<Rightarrow> i | None \<Rightarrow> 0)
                     in map_option (\<lambda>n. (mk_float neg n (x - int (length fs)), r2)) (py_nat (ds @ fs))))))"

definition pnum :: "string \<Rightarrow> (json \<times> string) option" where
  "pnum s = (case s of
      c # cs \<Rightarrow> if c = CHR ''-'' then pnum_body True cs else pnum_body False s
    | [] \<Rightarrow> None)"

text \<open>The recursive descent; the fuel counts nested calls, and the length of the text is enough.\<close>

fun pval :: "nat \<Rightarrow> string \<Rightarrow> (json \<times> string) option"
and pelems :: "nat \<Rightarrow> string \<Rightarrow> (json list \<times> string) option"
and pmembers :: "nat \<Rightarrow> string \<Rightarrow> ((string \<times> json) list \<times> string) option" where
  "pval 0 s = None"
| "pval (Suc n) s =
     (case s of
        [] \<Rightarrow> None
      | c # cs \<Rightarrow>
          if c = DQ then map_option (\<lambda>(x, r). (JStr x, r)) (pstr cs)
          else if c = CHR ''['' then
            (case skip_ws cs of
               [] \<Rightarrow> None
             | d # ds \<Rightarrow> if d = CHR '']'' then Some (JArr [], ds)
                        else map_option (\<lambda>(xs, r). (JArr xs, r)) (pelems n (d # ds)))
          else if c = CHR ''{'' then
            (case skip_ws cs of
               [] \<Rightarrow> None
             | d # ds \<Rightarrow> if d = CHR ''}'' then Some (JObj [], ds)
                        else map_option (\<lambda>(xs, r). (JObj xs, r)) (pmembers n (d # ds)))
          else if take 4 s = ''null'' then Some (JNull, drop 4 s)
          else if take 4 s = ''true'' then Some (JBool True, drop 4 s)
          else if take 5 s = ''false'' then Some (JBool False, drop 5 s)
          else pnum s)"
| "pelems 0 s = None"
| "pelems (Suc n) s =
     (case pval n s of
        None \<Rightarrow> None
      | Some (v, r) \<Rightarrow>
          (case skip_ws r of
             [] \<Rightarrow> None
           | c # cs \<Rightarrow>
               if c = CHR '']'' then Some ([v], cs)
               else if c = CHR '','' then map_option (cons_fst v) (pelems n (skip_ws cs))
               else None))"
| "pmembers 0 s = None"
| "pmembers (Suc n) s =
     (case s of
        [] \<Rightarrow> None
      | c # cs \<Rightarrow>
          if c \<noteq> DQ then None
          else (case pstr cs of
                  None \<Rightarrow> None
                | Some (k, r) \<Rightarrow>
                    (case skip_ws r of
                       [] \<Rightarrow> None
                     | c1 # cs1 \<Rightarrow>
                         if c1 \<noteq> CHR '':'' then None
                         else (case pval n (skip_ws cs1) of
                                 None \<Rightarrow> None
                               | Some (v, r1) \<Rightarrow>
                                   (case skip_ws r1 of
                                      [] \<Rightarrow> None
                                    | c2 # cs2 \<Rightarrow>
                                        if c2 = CHR ''}'' then Some ([(k, v)], cs2)
                                        else if c2 = CHR '','' then
                                          map_option (cons_fst (k, v)) (pmembers n (skip_ws cs2))
                                        else None)))))"

text \<open>\<open>json.loads(text, object_pairs_hook=pairs)\<close> with the hook that rejects duplicate keys.\<close>

definition loads :: "string \<Rightarrow> json option" where
  "loads s = (case pval (Suc (length s)) (skip_ws s) of
      Some (v, r) \<Rightarrow> if skip_ws r = [] \<and> distinct_keys v then Some v else None
    | None \<Rightarrow> None)"

end
