(* ===== verification/Json_Codec.thy ===== *)
theory Json_Codec
  imports Json_Model
begin

text \<open>
  The round trip of the JSON model: what \<^verbatim>\<open>json.dumps\<close> writes (compact or indented) is read
  back by \<^verbatim>\<open>json.loads\<close> with the same value, up to the order of the keys that \<open>sort_keys\<close>
  changes. The locale \<open>json_codec\<close> states this contract for a writer and a reader; its two
  interpretations are the JSONL records of the RSS stream and the records of
  \<^verbatim>\<open>policy_binding.encoded\<close>. From the contract follows that comparing encodings, as
  \<^verbatim>\<open>b.encoded(x) == b.encoded(y)\<close> does everywhere in the verifiers, is exact equality of values
  up to key order: unlike \<open>==\<close> it never identifies \<open>True\<close>, \<open>1\<close> and \<open>1.0\<close>.
\<close>

section \<open>Reading back what was written\<close>

subsection \<open>Strings\<close>

lemma hex_val_hex_digit: "i < 16 \<Longrightarrow> hex_val (hex_digit i) = Some i"
  by (auto simp: hex_val_def hex_digit_def Let_def)

lemma hex4_byte:
  assumes "n < 256"
  shows "hex4 CHR ''0'' CHR ''0'' (hex_digit (n div 16)) (hex_digit (n mod 16)) = Some n"
proof -
  have "hex_val CHR ''0'' = Some 0" by (simp add: hex_val_def)
  moreover have "n div 16 < 16" using assms by auto
  ultimately show ?thesis
    by (simp add: hex4_def hex_val_hex_digit)
qed

lemma of_char_less [simp]: "(of_char c :: nat) < 256"
  by (simp add: of_char_def)

lemma pstr_plain:
  assumes "c \<noteq> DQ" and "c \<noteq> BSL" and "32 \<le> (of_char c :: nat)"
  shows "pstr (c # t) = map_option (cons_fst c) (pstr t)"
  using assms by simp

lemma pstr_unescape:
  "unescape e = Some x \<Longrightarrow> pstr (BSL # e # t) = map_option (cons_fst x) (pstr t)"
  by (auto simp: unescape_def split: if_splits)

lemma pstr_unicode:
  "hex4 a b c d = Some n \<Longrightarrow> n < 256 \<Longrightarrow>
     pstr (BSL # CHR ''u'' # a # b # c # d # t) = map_option (cons_fst (char_of n)) (pstr t)"
  by simp

lemma char_code_iff:
  "(of_char c :: nat) = 8 \<longleftrightarrow> c = CHR 0x08" "(of_char c :: nat) = 12 \<longleftrightarrow> c = CHR 0x0C"
  "(of_char c :: nat) = 10 \<longleftrightarrow> c = LF" "(of_char c :: nat) = 13 \<longleftrightarrow> c = CR"
  "(of_char c :: nat) = 9 \<longleftrightarrow> c = CHR 0x09"
  using of_char_eq_iff [of c "CHR 0x08", where 'a = nat] of_char_eq_iff [of c "CHR 0x0C", where 'a = nat]
    of_char_eq_iff [of c LF, where 'a = nat] of_char_eq_iff [of c CR, where 'a = nat]
    of_char_eq_iff [of c "CHR 0x09", where 'a = nat]
  by (simp_all del: of_char_eq_iff)

lemma pstr_esc: "pstr (esc c @ t) = map_option (cons_fst c) (pstr t)"
proof -
  let ?n = "of_char c :: nat"
  consider "c = DQ" | "c = BSL" | "?n = 8" | "?n = 12" | "?n = 10" | "?n = 13" | "?n = 9"
    | (plain) "c \<noteq> DQ" "c \<noteq> BSL" "32 \<le> ?n" "?n \<le> 126"
    | (uni) "c \<noteq> DQ" "c \<noteq> BSL" "?n \<notin> {8, 12, 10, 13, 9}" "\<not> (32 \<le> ?n \<and> ?n \<le> 126)"
    by auto
  then show ?thesis
  proof cases
    case plain
    then have "esc c = [c]" by (simp add: esc_def Let_def)
    with plain show ?thesis by (simp add: pstr_plain del: pstr.simps)
  next
    case uni
    then have "esc c = [BSL, CHR ''u'', CHR ''0'', CHR ''0'', hex_digit (?n div 16), hex_digit (?n mod 16)]"
      by (simp add: esc_def Let_def)
    moreover have "pstr (BSL # CHR ''u'' # CHR ''0'' # CHR ''0'' # hex_digit (?n div 16) # hex_digit (?n mod 16) # t)
        = map_option (cons_fst (char_of ?n)) (pstr t)"
      by (rule pstr_unicode [OF hex4_byte]) simp_all
    ultimately show ?thesis by (simp del: pstr.simps)
  qed (auto simp: esc_def Let_def unescape_def char_code_iff simp del: pstr.simps intro!: pstr_unescape)
qed

lemma pstr_concat_esc: "pstr (concat (map esc s) @ DQ # rest) = Some (s, rest)"
  by (induction s) (simp_all add: pstr_esc cons_fst_def del: pstr.simps, simp_all)

subsection \<open>Numbers\<close>

definition delim :: "string \<Rightarrow> bool" where
  "delim s \<longleftrightarrow> (case s of [] \<Rightarrow> True | c # _ \<Rightarrow> \<not> is_digit c \<and> c \<notin> {CHR ''.'', CHR ''e'', CHR ''E''})"

lemma takeWhile_digits:
  "list_all is_digit ds \<Longrightarrow> (r = [] \<or> \<not> is_digit (hd r)) \<Longrightarrow>
     takeWhile is_digit (ds @ r) = ds \<and> dropWhile is_digit (ds @ r) = r"
  by (induction ds) (cases r, auto)+

lemma show_nat_hd_nonzero: "n \<noteq> 0 \<Longrightarrow> hd (show_nat n) \<noteq> CHR ''0''"
proof (induction n rule: show_nat.induct)
  case (1 n)
  show ?case
  proof (cases "n < 10")
    case True
    have "digit_char n \<noteq> CHR ''0''"
    proof
      assume "digit_char n = CHR ''0''"
      then have "digit_val (digit_char n) = digit_val CHR ''0''" by simp
      with True 1(2) show False by (simp only: digit_char_val) (simp add: digit_val_def)
    qed
    with True show ?thesis by (subst show_nat.simps) simp
  next
    case False
    with 1 have "hd (show_nat (n div 10)) \<noteq> CHR ''0''" by simp
    with False show ?thesis by (subst show_nat.simps) simp
  qed
qed

lemma show_nat_no_leading_zero: "\<not> (hd (show_nat n) = CHR ''0'' \<and> length (show_nat n) > 1)"
proof (cases "n = 0")
  case True
  then show ?thesis by (simp add: show_nat.simps)
qed (simp add: show_nat_hd_nonzero)

lemma delim_pfrac: "delim s \<Longrightarrow> pfrac s = Some (None, s)"
  by (auto simp: delim_def pfrac_def split: list.splits)

lemma delim_pexp: "delim s \<Longrightarrow> pexp s = Some (None, s)"
  by (auto simp: delim_def pexp_def split: list.splits)

lemma delim_hd: "delim s \<Longrightarrow> s = [] \<or> \<not> is_digit (hd s)"
  by (cases s) (auto simp: delim_def)

lemma pnum_body_int: "delim rest \<Longrightarrow>
    pnum_body neg (show_nat n @ rest) = Some (JInt (if neg then - int n else int n), rest)"
  using takeWhile_digits [OF show_nat_digits delim_hd, of rest n] show_nat_no_leading_zero [of n]
  by (simp add: pnum_body_def Let_def delim_pfrac delim_pexp)

lemma show_nat_hd_digit: "is_digit (hd (show_nat n))"
  using show_nat_digits [of n] by (cases "show_nat n") auto

lemma pnum_digit_start: "is_digit (hd s) \<Longrightarrow> s \<noteq> [] \<Longrightarrow> pnum s = pnum_body False s"
  by (cases s) (auto simp: pnum_def)

lemma pnum_int: "delim rest \<Longrightarrow> pnum (show_int i @ rest) = Some (JInt i, rest)"
proof (cases "i < 0")
  case True
  assume "delim rest"
  with True show ?thesis by (simp add: show_int_def pnum_def pnum_body_int)
next
  case False
  assume "delim rest"
  with False show ?thesis
    by (simp add: show_int_def pnum_digit_start pnum_body_int show_nat_hd_digit)
qed

text \<open>Floats in canonical form: the decimal that \<open>repr\<close> prints.\<close>

definition float_ok :: "int \<Rightarrow> int \<Rightarrow> bool" where
  "float_ok m e \<longleftrightarrow> (if m = 0 then e = 0 else m mod 10 \<noteq> 0)"

lemma strip_zeros_scaled:
  "m mod 10 \<noteq> 0 \<Longrightarrow> strip_zeros (m * 10 ^ k) e = (m, e + int k)"
proof (induction k arbitrary: e)
  case 0
  then show ?case by (subst strip_zeros.simps) auto
next
  case (Suc k)
  then have "m * 10 ^ Suc k \<noteq> 0" by (auto intro: ccontr)
  then have "strip_zeros (m * 10 ^ Suc k) e = strip_zeros (m * 10 ^ k) (e + 1)"
    by (subst strip_zeros.simps) simp
  with Suc show ?case by simp
qed

lemma zero_is_digit [simp]: "is_digit CHR ''0''" "digit_val CHR ''0'' = 0"
  by (simp_all add: is_digit_def digit_val_def)

lemma zeros_digits [simp]: "list_all is_digit (replicate k CHR ''0'')"
  by (induction k) simp_all

lemma nat_digits_zeros: "nat_digits a (replicate k CHR ''0'') = Some (a * 10 ^ k)"
  by (induction k arbitrary: a) simp_all

lemma mk_float_ok:
  assumes "float_ok m e" and "m \<noteq> 0"
  shows "mk_float (m < 0) (nat \<bar>m\<bar> * 10 ^ k) (e - int k) = JFloat m e"
proof -
  have "\<bar>m\<bar> mod 10 \<noteq> 0" using assms by (auto simp: float_ok_def mod_eq_0_iff_dvd)
  moreover have "int (nat \<bar>m\<bar> mod 10) = \<bar>m\<bar> mod 10" by (simp add: zmod_int)
  ultimately have "nat \<bar>m\<bar> mod 10 \<noteq> 0" by (intro notI) simp
  from strip_zeros_scaled [OF this, of k "e - int k"] show ?thesis
    by (simp add: mk_float_def)
qed

lemma pnum_body_frac:
  assumes "list_all is_digit ds" "ds \<noteq> []" "\<not> (hd ds = CHR ''0'' \<and> length ds > 1)"
    and "list_all is_digit fs" "fs \<noteq> []" and "delim rest" and "nat_digits 0 (ds @ fs) = Some n"
  shows "pnum_body neg (ds @ CHR ''.'' # fs @ rest) = Some (mk_float neg n (- int (length fs)), rest)"
proof -
  have "takeWhile is_digit (ds @ CHR ''.'' # fs @ rest) = ds
      \<and> dropWhile is_digit (ds @ CHR ''.'' # fs @ rest) = CHR ''.'' # fs @ rest"
    by (rule takeWhile_digits [OF assms(1)]) (simp add: is_digit_def)
  moreover have "pfrac (CHR ''.'' # fs @ rest) = Some (Some fs, rest)"
    using takeWhile_digits [OF assms(4) delim_hd [OF assms(6)]] assms(5) by (simp add: pfrac_def)
  ultimately show ?thesis
    using assms(2,3,7) by (simp add: pnum_body_def Let_def delim_pexp [OF assms(6)] py_nat_def)
qed

lemma pexp_exponent:
  assumes "delim rest"
  shows "pexp (CHR ''e'' # (if x < 0 then ''-'' else ''+'') @ (if b then ''0'' else []) @ show_nat (nat \<bar>x\<bar>) @ rest)
     = Some (Some x, rest)"
proof -
  let ?ds = "(if b then ''0'' else []) @ show_nat (nat \<bar>x\<bar>)"
  have digits: "list_all is_digit ?ds" by (simp add: show_nat_digits)
  have "py_nat ?ds = Some (nat \<bar>x\<bar>)" by (simp add: py_nat_def)
  with takeWhile_digits [OF digits delim_hd [OF assms]] show ?thesis
    by (auto simp: pexp_def Let_def)
qed

lemma pnum_body_exp:
  assumes "list_all is_digit (d # fs)" and "d \<noteq> CHR ''0''" and "delim rest"
    and "nat_digits 0 (d # fs) = Some n"
  shows "pnum_body neg (d # (if fs = [] then [] else CHR ''.'' # fs) @ CHR ''e'' #
            (if x < 0 then ''-'' else ''+'') @ (if b then ''0'' else []) @ show_nat (nat \<bar>x\<bar>) @ rest)
     = Some (mk_float neg n (x - int (length fs)), rest)"
proof -
  let ?ex = "CHR ''e'' # (if x < 0 then ''-'' else ''+'') @ (if b then ''0'' else []) @ show_nat (nat \<bar>x\<bar>) @ rest"
  have e_stop: "\<not> is_digit CHR ''e''" by (simp add: is_digit_def)
  have dot_stop: "\<not> is_digit CHR ''.''" by (simp add: is_digit_def)
  show ?thesis
  proof (cases "fs = []")
    case True
    have "pfrac ?ex = Some (None, ?ex)" by (simp add: pfrac_def)
    with True assms(1,2,4) e_stop show ?thesis
      by (simp add: pnum_body_def Let_def pexp_exponent [OF assms(3)] py_nat_def)
  next
    case False
    have "takeWhile is_digit (fs @ ?ex) = fs \<and> dropWhile is_digit (fs @ ?ex) = ?ex"
      by (rule takeWhile_digits) (use assms(1) e_stop in auto)
    then have "pfrac (CHR ''.'' # fs @ ?ex) = Some (Some fs, ?ex)"
      using False by (simp add: pfrac_def)
    with False assms(1,2,4) dot_stop show ?thesis
      by (simp add: pnum_body_def Let_def pexp_exponent [OF assms(3)] py_nat_def)
  qed
qed

lemma pnum_body_float:
  assumes "float_ok m e" and "m \<noteq> 0" and "delim rest"
  shows "pnum_body (m < 0) (drop (if m < 0 then 1 else 0) (float_repr m e) @ rest) = Some (JFloat m e, rest)"
proof -
  define ds where "ds = show_nat (nat \<bar>m\<bar>)"
  define p where "p = int (length ds) + e"
  have digits: "list_all is_digit ds" by (simp add: ds_def show_nat_digits)
  have val: "nat_digits 0 ds = Some (nat \<bar>m\<bar>)" by (simp add: ds_def)
  have ne: "ds \<noteq> []" by (simp add: ds_def)
  have hd0: "hd ds \<noteq> CHR ''0''" using assms(2) by (simp add: ds_def show_nat_hd_nonzero)
  have fl: "mk_float (m < 0) (nat \<bar>m\<bar>) e = JFloat m e"
    using mk_float_ok [OF assms(1,2), of 0] by simp
  note repr = float_repr_def Let_def ds_def [symmetric] p_def [symmetric]
  consider (low) "-4 < p \<and> p \<le> 0" | (mid) "0 < p \<and> p < int (length ds)"
    | (high) "int (length ds) \<le> p \<and> p \<le> 16" | (sci) "p \<le> -4 \<or> 16 < p \<and> int (length ds) \<le> p"
    by linarith
  then show ?thesis
  proof cases
    case low
    let ?fs = "replicate (nat (- p)) CHR ''0'' @ ds"
    have "pnum_body (m < 0) (''0'' @ CHR ''.'' # ?fs @ rest)
        = Some (mk_float (m < 0) (nat \<bar>m\<bar>) (- int (length ?fs)), rest)"
      by (rule pnum_body_frac)
        (use assms(3) digits ne val in \<open>simp_all add: nat_digits_append nat_digits_zeros\<close>)
    moreover have "- int (length ?fs) = e" using low by (simp add: p_def)
    ultimately show ?thesis
      using low assms(2) fl by (simp add: repr)
  next
    case mid
    have "pnum_body (m < 0) (take (nat p) ds @ CHR ''.'' # drop (nat p) ds @ rest)
        = Some (mk_float (m < 0) (nat \<bar>m\<bar>) (- int (length (drop (nat p) ds))), rest)"
      by (rule pnum_body_frac)
        (use mid assms(3) digits ne val hd0 in
          \<open>auto simp: list_all_iff dest: in_set_takeD in_set_dropD\<close>)
    moreover have "- int (length (drop (nat p) ds)) = e" using mid unfolding p_def by simp linarith
    ultimately show ?thesis
      using mid assms(2) fl by (simp add: repr)
  next
    case high
    let ?k = "nat (p - int (length ds))"
    have "pnum_body (m < 0) ((ds @ replicate ?k CHR ''0'') @ CHR ''.'' # ''0'' @ rest)
        = Some (mk_float (m < 0) (nat \<bar>m\<bar> * 10 ^ Suc ?k) (- int (length ''0'')), rest)"
      by (rule pnum_body_frac)
        (use assms(3) digits ne val hd0 in
          \<open>simp_all add: nat_digits_append nat_digits_zeros\<close>)
    moreover have "- int (length ''0'') = e - int (Suc ?k)" using high by (simp add: p_def)
    moreover have "mk_float (m < 0) (nat \<bar>m\<bar> * 10 ^ Suc ?k) (e - int (Suc ?k)) = JFloat m e"
      by (rule mk_float_ok [OF assms(1,2)])
    moreover have "0 < p" using high ne by (cases ds) auto
    ultimately show ?thesis
      using high assms(2) by (simp add: repr del: power_Suc of_nat_Suc)
  next
    case sci
    obtain d fs where dfs: "ds = d # fs" using ne by (cases ds) auto
    have "pnum_body (m < 0) (d # (if fs = [] then [] else CHR ''.'' # fs) @ CHR ''e'' #
            (if p - 1 < 0 then ''-'' else ''+'') @ (if \<bar>p - 1\<bar> < 10 then ''0'' else [])
            @ show_nat (nat \<bar>p - 1\<bar>) @ rest)
        = Some (mk_float (m < 0) (nat \<bar>m\<bar>) (p - 1 - int (length fs)), rest)"
      by (rule pnum_body_exp) (use assms(3) digits val hd0 dfs in simp_all)
    moreover have "p - 1 - int (length fs) = e" by (simp add: p_def dfs)
    moreover have "\<not> (-4 < p \<and> p \<le> 0)" "\<not> (0 < p \<and> p < int (length ds))"
      "\<not> (int (length ds) \<le> p \<and> p \<le> 16)"
      using sci ne by auto
    note branch = this
    have digs: "(case ds of d # rest \<Rightarrow> d # (if rest = [] then [] else CHR ''.'' # rest) | [] \<Rightarrow> [])
        = d # (if fs = [] then [] else CHR ''.'' # fs)" by (simp add: dfs)
    have "float_repr m e = (if m < 0 then ''-'' else []) @ (d # (if fs = [] then [] else CHR ''.'' # fs))
        @ ''e'' @ (if p - 1 < 0 then ''-'' else ''+'') @ (if \<bar>p - 1\<bar> < 10 then ''0'' else [])
        @ show_nat (nat \<bar>p - 1\<bar>)"
      unfolding repr by (simp only: branch digs assms(2) if_False)
    ultimately show ?thesis using fl by simp
  qed
qed

lemma float_repr_sign: "m < 0 \<Longrightarrow> \<exists>t. float_repr m e = CHR ''-'' # t"
  by (simp add: float_repr_def Let_def)

lemma float_repr_digit: "0 < m \<Longrightarrow> float_repr m e \<noteq> [] \<and> is_digit (hd (float_repr m e))"
  using show_nat_hd_digit [of "nat m"] show_nat_nonempty [of "nat m"]
  by (cases "show_nat (nat m)") (auto simp: float_repr_def Let_def hd_append)

lemma pnum_float:
  assumes "float_ok m e" and "delim rest"
  shows "pnum (float_repr m e @ rest) = Some (JFloat m e, rest)"
proof -
  consider "m = 0" | "m < 0" | "0 < m" by linarith
  then show ?thesis
  proof cases
    case 1
    with assms(1) have "e = 0" by (simp add: float_ok_def)
    have "pnum_body False (''0'' @ CHR ''.'' # ''0'' @ rest)
        = Some (mk_float False 0 (- int (length ''0'')), rest)"
      by (rule pnum_body_frac) (use assms(2) in simp_all)
    with 1 \<open>e = 0\<close> show ?thesis
      by (simp add: float_repr_def pnum_def mk_float_def strip_zeros.simps)
  next
    case 2
    with float_repr_sign obtain t where "float_repr m e = CHR ''-'' # t" by blast
    with 2 pnum_body_float [OF assms(1) _ assms(2)] show ?thesis by (simp add: pnum_def)
  next
    case 3
    with pnum_body_float [OF assms(1) _ assms(2)] float_repr_digit [OF 3] show ?thesis
      by (simp add: pnum_digit_start)
  qed
qed

subsection \<open>Values\<close>

fun floats_ok :: "json \<Rightarrow> bool" where
  "floats_ok (JFloat m e) = float_ok m e"
| "floats_ok (JArr xs) = (\<forall>x \<in> set xs. floats_ok x)"
| "floats_ok (JObj kvs) = (\<forall>(k, v) \<in> set kvs. floats_ok v)"
| "floats_ok _ = True"

lemma skip_ws_newline: "skip_ws (newline ind l @ s) = skip_ws s"
proof -
  have "dropWhile is_ws (replicate n CHR '' '' @ s) = dropWhile is_ws s" for n
    by (induction n) (simp_all add: is_ws_def)
  then show ?thesis by (simp add: skip_ws_def newline_def is_ws_def)
qed

lemma skip_ws_id: "\<not> is_ws c \<Longrightarrow> skip_ws (c # s) = c # s"
  by (simp add: skip_ws_def)

lemma digit_not_ws: "is_digit c \<Longrightarrow> \<not> is_ws c"
  by (auto simp: is_digit_def is_ws_def)

lemma digit_neq: "is_digit c \<Longrightarrow> c \<noteq> DQ \<and> c \<noteq> CHR ''['' \<and> c \<noteq> CHR ''{'' \<and> c \<noteq> CHR '']'' \<and> c \<noteq> CHR ''}''
    \<and> c \<noteq> CHR ''n'' \<and> c \<noteq> CHR ''t'' \<and> c \<noteq> CHR ''f''"
  by (auto simp: is_digit_def)

lemma number_start:
  assumes "s = show_int i \<or> s = float_repr m e"
  shows "\<exists>c t. s = c # t \<and> (is_digit c \<or> c = CHR ''-'')"
proof -
  have "\<exists>c t. float_repr m e = c # t \<and> (is_digit c \<or> c = CHR ''-'')"
  proof -
    consider "m = 0" | "m < 0" | "0 < m" by linarith
    then show ?thesis
    proof cases
      case 1
      then show ?thesis by (simp add: float_repr_def)
    next
      case 2
      then show ?thesis using float_repr_sign by blast
    next
      case 3
      from float_repr_digit [OF 3, of e] show ?thesis by (cases "float_repr m e") auto
    qed
  qed
  moreover have "\<exists>c t. show_int i = c # t \<and> (is_digit c \<or> c = CHR ''-'')"
    using show_nat_hd_digit [of "nat i"] show_nat_nonempty [of "nat i"]
    by (cases "show_nat (nat i)") (auto simp: show_int_def)
  ultimately show ?thesis using assms by auto
qed

lemma number_char: "is_digit c \<or> c = CHR ''-'' \<Longrightarrow> \<not> is_ws c \<and> c \<noteq> CHR '']'' \<and> c \<noteq> CHR ''}''"
  by (auto simp: is_digit_def is_ws_def)

text \<open>No printed value starts with white space or a closing bracket.\<close>

lemma dump_start: "\<exists>c t. dump ind l v = c # t \<and> \<not> is_ws c \<and> c \<noteq> CHR '']'' \<and> c \<noteq> CHR ''}''"
proof (cases v)
  case (JInt i)
  then show ?thesis
    using number_start [of "show_int i" i 0 0] number_char by fastforce
next
  case (JFloat m e)
  then show ?thesis
    using number_start [of "float_repr m e" 0 m e] number_char by fastforce
qed (auto simp: is_ws_def dump_str_def)

lemma pval_number:
  assumes "s = c # t" and "is_digit c \<or> c = CHR ''-''"
  shows "pval (Suc n) (s @ rest) = pnum (s @ rest)"
proof -
  have "c \<notin> {DQ, CHR ''['', CHR ''{'', CHR ''n'', CHR ''t'', CHR ''f''}"
    using assms(2) by (auto dest: digit_neq)
  with assms(1) show ?thesis by auto
qed

lemma skip_ws_dump: "skip_ws (dump ind l v @ s) = dump ind l v @ s"
  using dump_start [of ind l v] by (auto simp: skip_ws_id)

lemma separator_eq: "separator ind l @ s = CHR '','' # (if ind then newline ind l else '' '') @ s"
  by (simp add: separator_def)

lemma delim_separator: "delim (separator ind l @ s)"
  by (simp add: separator_def delim_def is_digit_def)

lemma delim_newline: "delim (newline ind l @ c # s) \<longleftrightarrow> ind \<or> delim (c # s)"
  by (simp add: newline_def delim_def is_digit_def)

lemma skip_ws_after_comma:
  "skip_ws ((if ind then newline ind l else '' '') @ s) = skip_ws s"
  by (simp add: skip_ws_newline) (simp add: skip_ws_def is_ws_def)

text \<open>
  The statement carried through the recursion: the printed value is read back, whatever follows
  it, as soon as the fuel covers the printed text.
\<close>

definition reads_back :: "bool \<Rightarrow> nat \<Rightarrow> json \<Rightarrow> bool" where
  "reads_back ind l v \<longleftrightarrow> (\<forall>n rest. length (dump ind l v) \<le> n \<longrightarrow> delim rest \<longrightarrow>
     pval n (dump ind l v @ rest) = Some (v, rest))"

lemma reads_backD:
  "reads_back ind l v \<Longrightarrow> length (dump ind l v) \<le> n \<Longrightarrow> delim rest \<Longrightarrow>
     pval n (dump ind l v @ rest) = Some (v, rest)"
  by (simp add: reads_back_def)

lemma delim_close: "delim (newline ind l @ CHR '']'' # rest)" "delim (newline ind l @ CHR ''}'' # rest)"
  by (simp_all add: newline_def delim_def is_digit_def)

lemma skip_ws_close:
  "skip_ws (newline ind l @ CHR '']'' # rest) = CHR '']'' # rest"
  "skip_ws (newline ind l @ CHR ''}'' # rest) = CHR ''}'' # rest"
  by (simp_all add: skip_ws_newline skip_ws_id is_ws_def)

lemma skip_ws_separator:
  "skip_ws (separator ind l @ s) = CHR '','' # (if ind then newline ind l else '' '') @ s"
  unfolding separator_eq by (rule skip_ws_id) (simp add: is_ws_def)

lemma pelems_dump:
  assumes "xs \<noteq> []" and "\<And>x. x \<in> set xs \<Longrightarrow> reads_back ind l x"
    and "length (join (separator ind l) (map (dump ind l) xs)) < n"
  shows "pelems n (join (separator ind l) (map (dump ind l) xs) @ newline ind k @ CHR '']'' # rest)
     = Some (xs, rest)"
  using assms
proof (induction xs arbitrary: n rule: induct_list012)
  case 1
  then show ?case by simp
next
  case (2 x)
  then obtain n' where n: "n = Suc n'" and "length (dump ind l x) \<le> n'" by (cases n) auto
  with 2 have "pval n' (dump ind l x @ newline ind k @ CHR '']'' # rest) = Some (x, newline ind k @ CHR '']'' # rest)"
    by (intro reads_backD) (simp_all add: delim_close)
  with n show ?case by (simp add: skip_ws_close)
next
  case (3 x y zs)
  let ?tl = "join (separator ind l) (map (dump ind l) (y # zs))"
  let ?close = "newline ind k @ CHR '']'' # rest"
  from 3(5) obtain n' where n: "n = Suc n'" and len: "length (dump ind l x) \<le> n'" "length ?tl < n'"
    by (cases n) (auto simp: separator_def split: if_splits)
  have x: "pval n' (dump ind l x @ separator ind l @ ?tl @ ?close) = Some (x, separator ind l @ ?tl @ ?close)"
    using 3(4) len by (intro reads_backD) (simp_all add: delim_separator)
  have "skip_ws (?tl @ ?close) = ?tl @ ?close"
    using dump_start [of ind l y] by (cases zs) (auto simp: skip_ws_id)
  moreover have "pelems n' (?tl @ ?close) = Some (y # zs, rest)"
    using 3(2) 3(4) len(2) by simp
  ultimately show ?case
    using n x by (simp add: skip_ws_separator skip_ws_after_comma cons_fst_def is_ws_def)
qed

abbreviation dump_pair :: "bool \<Rightarrow> nat \<Rightarrow> string \<times> json \<Rightarrow> string" where
  "dump_pair ind l \<equiv> (\<lambda>(k, v). dump_str k @ '': '' @ dump ind l v)"

lemma pmembers_step:
  assumes "reads_back ind l v" and "length (dump ind l v) \<le> n" and "delim r"
  shows "pmembers (Suc n) (dump_pair ind l (k, v) @ r) =
    (case skip_ws r of
       [] \<Rightarrow> None
     | c # cs \<Rightarrow> if c = CHR ''}'' then Some ([(k, v)], cs)
                else if c = CHR '','' then map_option (cons_fst (k, v)) (pmembers n (skip_ws cs))
                else None)"
proof -
  have "pstr (concat (map esc k) @ DQ # CHR '':'' # CHR '' '' # dump ind l v @ r)
      = Some (k, CHR '':'' # CHR '' '' # dump ind l v @ r)"
    by (rule pstr_concat_esc)
  moreover have "skip_ws (CHR '' '' # dump ind l v @ r) = dump ind l v @ r"
    using skip_ws_dump [of ind l v r] by (simp add: skip_ws_def is_ws_def)
  moreover have "skip_ws (CHR '':'' # s) = CHR '':'' # s" for s
    by (simp add: skip_ws_id is_ws_def)
  ultimately show ?thesis
    using reads_backD [OF assms] by (simp add: dump_str_def del: pstr.simps)
qed

lemma pmembers_dump:
  assumes "kvs \<noteq> []" and "\<And>k v. (k, v) \<in> set kvs \<Longrightarrow> reads_back ind l v"
    and "length (join (separator ind l) (map (dump_pair ind l) kvs)) < n"
  shows "pmembers n (join (separator ind l) (map (dump_pair ind l) kvs) @ newline ind m @ CHR ''}'' # rest)
     = Some (kvs, rest)"
  using assms
proof (induction kvs arbitrary: n rule: induct_list012)
  case 1
  then show ?case by simp
next
  case (2 p)
  obtain k v where p: "p = (k, v)" by (cases p)
  with 2 obtain n' where n: "n = Suc n'" and "length (dump ind l v) \<le> n'" by (cases n) auto
  with 2 p have "pmembers (Suc n') (dump_pair ind l (k, v) @ newline ind m @ CHR ''}'' # rest) = Some ([(k, v)], rest)"
    by (subst pmembers_step) (simp_all add: delim_close skip_ws_close)
  with n p show ?case by simp
next
  case (3 p q zs)
  obtain k v where p: "p = (k, v)" by (cases p)
  define tl where "tl = join (separator ind l) (map (dump_pair ind l) (q # zs))"
  let ?close = "newline ind m @ CHR ''}'' # rest"
  from 3(5) p obtain n' where n: "n = Suc n'" and len: "length (dump ind l v) \<le> n'" "length tl < n'"
    by (cases n) (auto simp: separator_def tl_def split: if_splits)
  have start: "skip_ws (tl @ ?close) = tl @ ?close" unfolding tl_def
    by (cases q; cases zs) (simp_all add: dump_str_def skip_ws_id is_ws_def)
  have tl: "pmembers n' (tl @ ?close) = Some (q # zs, rest)"
    using 3(4) len(2) unfolding tl_def by (intro 3(2)) auto
  have v: "reads_back ind l v" using 3(4) [of k v] p by simp
  have "pmembers (Suc n') (dump_pair ind l (k, v) @ separator ind l @ tl @ ?close) = Some ((k, v) # q # zs, rest)"
    using v len(1)
    by (subst pmembers_step)
      (simp_all add: delim_separator skip_ws_separator skip_ws_after_comma start tl cons_fst_def)
  with n p show ?case by (simp add: tl_def)
qed

lemma dump_reads_back: "floats_ok v \<Longrightarrow> reads_back ind l v"
proof (induction v arbitrary: l)
  case JNull
  show ?case unfolding reads_back_def
  proof (intro allI impI)
    fix n rest assume "length (dump ind l JNull) \<le> n"
    then show "pval n (dump ind l JNull @ rest) = Some (JNull, rest)" by (cases n) auto
  qed
next
  case (JBool b)
  show ?case unfolding reads_back_def
  proof (intro allI impI)
    fix n rest assume "length (dump ind l (JBool b)) \<le> n"
    then show "pval n (dump ind l (JBool b) @ rest) = Some (JBool b, rest)" by (cases n; cases b) auto
  qed
next
  case (JInt i)
  obtain c t where ct: "show_int i = c # t" "is_digit c \<or> c = CHR ''-''"
    using number_start [of "show_int i" i 0 0] by blast
  show ?case unfolding reads_back_def
  proof (intro allI impI)
    fix n rest assume "length (dump ind l (JInt i)) \<le> n" and d: "delim rest"
    with ct(1) obtain n' where "n = Suc n'" by (cases n) auto
    then show "pval n (dump ind l (JInt i) @ rest) = Some (JInt i, rest)"
      using pval_number [OF ct] pnum_int [OF d] by simp
  qed
next
  case (JFloat m e)
  obtain c t where ct: "float_repr m e = c # t" "is_digit c \<or> c = CHR ''-''"
    using number_start [of "float_repr m e" 0 m e] by blast
  from JFloat have ok: "float_ok m e" by simp
  show ?case unfolding reads_back_def
  proof (intro allI impI)
    fix n rest assume "length (dump ind l (JFloat m e)) \<le> n" and d: "delim rest"
    with ct(1) obtain n' where "n = Suc n'" by (cases n) auto
    then show "pval n (dump ind l (JFloat m e) @ rest) = Some (JFloat m e, rest)"
      using pval_number [OF ct] pnum_float [OF ok d] by simp
  qed
next
  case (JStr s)
  show ?case unfolding reads_back_def
  proof (intro allI impI)
    fix n rest assume "length (dump ind l (JStr s)) \<le> n"
    then obtain n' where "n = Suc n'" by (cases n) (auto simp: dump_str_def)
    then show "pval n (dump ind l (JStr s) @ rest) = Some (JStr s, rest)"
      by (simp add: dump_str_def pstr_concat_esc del: pstr.simps)
  qed
next
  case (JArr xs)
  show ?case unfolding reads_back_def
  proof (intro allI impI)
    fix n rest assume len: "length (dump ind l (JArr xs)) \<le> n" and "delim rest"
    then obtain n' where n: "n = Suc n'" by (cases n) (auto split: if_splits)
    show "pval n (dump ind l (JArr xs) @ rest) = Some (JArr xs, rest)"
    proof (cases "xs = []")
      case True
      with n show ?thesis by (simp add: skip_ws_def is_ws_def)
    next
      case False
      let ?body = "join (separator ind (Suc l)) (map (dump ind (Suc l)) xs)"
      have body: "pelems n' (?body @ newline ind l @ CHR '']'' # rest) = Some (xs, rest)"
        using False JArr len n by (intro pelems_dump) auto
      obtain c t where ct: "?body = c # t" "\<not> is_ws c" "c \<noteq> CHR '']''"
        using False dump_start [of ind "Suc l" "hd xs"]
        by (cases xs rule: list.exhaust [case_names Nil Cons]; cases "tl xs") auto
      from body ct have "pelems n' (c # t @ newline ind l @ CHR '']'' # rest) = Some (xs, rest)" by simp
      with n False ct show ?thesis by (simp add: skip_ws_newline skip_ws_id)
    qed
  qed
next
  case (JObj kvs)
  show ?case unfolding reads_back_def
  proof (intro allI impI)
    fix n rest assume len: "length (dump ind l (JObj kvs)) \<le> n" and "delim rest"
    then obtain n' where n: "n = Suc n'" by (cases n) (auto split: if_splits)
    show "pval n (dump ind l (JObj kvs) @ rest) = Some (JObj kvs, rest)"
    proof (cases "kvs = []")
      case True
      with n show ?thesis by (simp add: skip_ws_def is_ws_def)
    next
      case False
      let ?body = "join (separator ind (Suc l)) (map (dump_pair ind (Suc l)) kvs)"
      have body: "pmembers n' (?body @ newline ind l @ CHR ''}'' # rest) = Some (kvs, rest)"
        using False len n
      proof (intro pmembers_dump)
        fix k v assume "(k, v) \<in> set kvs"
        with JObj show "reads_back ind (Suc l) v" by fastforce
      qed auto
      obtain t where ct: "?body = DQ # t"
        using False by (cases kvs; cases "tl kvs") (auto simp: dump_str_def)
      from body ct have "pmembers n' (DQ # t @ newline ind l @ CHR ''}'' # rest) = Some (kvs, rest)" by simp
      with n False ct show ?thesis by (simp add: skip_ws_newline skip_ws_id is_ws_def)
    qed
  qed
qed

subsection \<open>Printed text is ASCII, and one line when it is compact\<close>

definition printable :: "char \<Rightarrow> bool" where
  "printable c \<longleftrightarrow> 32 \<le> (of_char c :: nat) \<and> (of_char c :: nat) \<le> 126"

lemma digit_printable: "is_digit c \<Longrightarrow> printable c"
  by (auto simp: is_digit_def printable_def)

lemma list_all_join:
  "list_all P sep \<Longrightarrow> (\<And>x. x \<in> set xs \<Longrightarrow> list_all P x) \<Longrightarrow> list_all P (join sep xs)"
  by (induction xs rule: induct_list012) simp_all

lemma hex_digit_printable: "i < 16 \<Longrightarrow> printable (hex_digit i)"
  by (auto simp: hex_digit_def printable_def)

lemma esc_printable: "list_all printable (esc c)"
proof -
  let ?n = "of_char c :: nat"
  have "printable (hex_digit (?n div 16))" "printable (hex_digit (?n mod 16))"
    using of_char_less [of c] by (auto intro!: hex_digit_printable simp: less_mult_imp_div_less)
  then show ?thesis by (auto simp: esc_def Let_def printable_def)
qed

lemma dump_str_printable: "list_all printable (dump_str s)"
  using esc_printable by (auto simp: dump_str_def list_all_iff printable_def)

lemma show_nat_printable: "list_all printable (show_nat n)"
  using show_nat_digits [of n] by (auto simp: list_all_iff intro: digit_printable)

lemma show_int_printable: "list_all printable (show_int i)"
  by (simp add: show_int_def show_nat_printable) (simp add: printable_def)

lemma float_repr_printable: "list_all printable (float_repr m e)"
proof -
  let ?ds = "show_nat (nat \<bar>m\<bar>)"
  have ds: "list_all printable ?ds" by (rule show_nat_printable)
  have pre: "list_all printable (take k ?ds)" "list_all printable (drop k ?ds)"
    "list_all printable (replicate k CHR ''0'')" for k
    using ds by (auto simp: list_all_iff printable_def dest: in_set_takeD in_set_dropD)
  have sci: "list_all printable (case ?ds of d # rest \<Rightarrow> d # (if rest = [] then [] else CHR ''.'' # rest) | [] \<Rightarrow> [])"
    using ds by (auto simp: printable_def split: list.splits)
  have lits: "list_all printable ''0.0''" "list_all printable ''0.''" "list_all printable ''.0''"
    "list_all printable ''e''" "list_all printable ''-''" "list_all printable ''+''"
    "list_all printable ''0''" "list_all printable ''.''"
    by (simp_all add: printable_def)
  show ?thesis
    unfolding float_repr_def Let_def
    using ds pre sci lits show_nat_printable by (simp only: list_all_append list.pred_inject split: if_split) blast
qed

lemma dump_chars: "list_all (\<lambda>c. printable c \<or> ind \<and> c = LF) (dump ind l v)"
proof (induction v arbitrary: l)
  case (JArr xs)
  have nl: "list_all (\<lambda>c. printable c \<or> ind \<and> c = LF) (newline ind k)" for k
    by (auto simp: newline_def list_all_iff printable_def)
  have sep: "list_all (\<lambda>c. printable c \<or> ind \<and> c = LF) (separator ind k)" for k
    using nl [of k] by (auto simp: separator_def printable_def)
  have "list_all (\<lambda>c. printable c \<or> ind \<and> c = LF)
      (join (separator ind (Suc l)) (map (dump ind (Suc l)) xs))"
    by (rule list_all_join [OF sep]) (use JArr in auto)
  with nl show ?case by (simp add: printable_def)
next
  case (JObj kvs)
  have nl: "list_all (\<lambda>c. printable c \<or> ind \<and> c = LF) (newline ind k)" for k
    by (auto simp: newline_def list_all_iff printable_def)
  have sep: "list_all (\<lambda>c. printable c \<or> ind \<and> c = LF) (separator ind k)" for k
    using nl [of k] by (auto simp: separator_def printable_def)
  have "list_all (\<lambda>c. printable c \<or> ind \<and> c = LF)
      (join (separator ind (Suc l)) (map (dump_pair ind (Suc l)) kvs))"
  proof (rule list_all_join [OF sep])
    fix t assume "t \<in> set (map (dump_pair ind (Suc l)) kvs)"
    then obtain k v where kv: "(k, v) \<in> set kvs" and t: "t = dump_pair ind (Suc l) (k, v)" by auto
    from JObj kv have "list_all (\<lambda>c. printable c \<or> ind \<and> c = LF) (dump ind (Suc l) v)" by fastforce
    with dump_str_printable [of k] t show "list_all (\<lambda>c. printable c \<or> ind \<and> c = LF) t"
      by (auto simp: list_all_iff printable_def)
  qed
  with nl show ?case by (simp add: printable_def)
next
  case (JInt i)
  then show ?case using show_int_printable [of i] by (auto simp: list_all_iff)
next
  case (JFloat m e)
  then show ?case using float_repr_printable [of m e] by (auto simp: list_all_iff)
next
  case (JStr s)
  then show ?case using dump_str_printable [of s] by (auto simp: list_all_iff)
qed (auto simp: printable_def)

subsection \<open>Sorting the keys\<close>

lemma map_of_sort_key_fst:
  assumes "distinct (map fst kvs)"
  shows "map_of (sort_key fst kvs) = map_of kvs"
proof -
  have "distinct (map fst (sort_key fst kvs))"
    using assms by (metis distinct_map distinct_sort set_sort)
  then show ?thesis using assms by (intro map_of_inject_set [THEN iffD2]) simp_all
qed

lemma map_of_map_snd: "map_of (map (\<lambda>(k, v). (k, f v)) kvs) k = map_option f (map_of kvs k)"
  by (induction kvs) auto

lemma sort_keys_pairs_distinct:
  assumes "distinct (map fst kvs)"
  shows "distinct (map fst (map (\<lambda>(k, v). (k, f v)) kvs))"
proof -
  have "map fst (map (\<lambda>(k, v). (k, f v)) kvs) = map fst kvs" by (induction kvs) auto
  with assms show ?thesis by (simp only:)
qed

lemma sort_keys_distinct: "distinct_keys v \<Longrightarrow> distinct_keys (sort_keys v)"
proof (induction v)
  case (JObj kvs)
  let ?kvs = "map (\<lambda>(k, v). (k, sort_keys v)) kvs"
  from JObj.prems have "distinct (map fst ?kvs)" by (simp add: sort_keys_pairs_distinct del: map_map)
  then have "distinct (map fst (sort_key fst ?kvs))"
    by (metis distinct_map distinct_sort set_sort)
  moreover have "distinct_keys (sort_keys v)" if "(k, v) \<in> set kvs" for k v
    using JObj that by fastforce
  ultimately show ?case by auto
qed auto

lemma sort_keys_floats: "floats_ok v \<Longrightarrow> floats_ok (sort_keys v)"
proof (induction v)
  case (JObj kvs)
  then have "floats_ok (sort_keys v)" if "(k, v) \<in> set kvs" for k v
    using that by fastforce
  then show ?case by auto
qed auto

lemma jget_sort_keys:
  assumes "distinct_keys v"
  shows "jget (sort_keys v) k = sort_keys (jget v k)"
proof (cases v)
  case (JObj kvs)
  with assms have "distinct (map fst (map (\<lambda>(k, v). (k, sort_keys v)) kvs))"
    by (simp add: sort_keys_pairs_distinct del: map_map)
  from map_of_sort_key_fst [OF this] JObj show ?thesis
    by (simp add: jget_def map_of_map_snd split: option.splits)
qed (simp_all add: jget_def)

lemma sort_key_map_snd: "sort_key fst (map (\<lambda>(k, v). (k, f v)) kvs) = map (\<lambda>(k, v). (k, f v)) (sort_key fst kvs)"
proof -
  have ins: "insort_key fst (k, f v) (map (\<lambda>(k, v). (k, f v)) xs) = map (\<lambda>(k, v). (k, f v)) (insort_key fst (k, v) xs)" for k v xs
    by (induction xs) auto
  show ?thesis by (induction kvs) (auto simp: ins)
qed

lemma sort_keys_idem: "sort_keys (sort_keys v) = sort_keys v"
proof (induction v)
  case (JObj kvs)
  have "sort_keys (sort_keys (JObj kvs)) =
      JObj (sort_key fst (map (\<lambda>(k, v). (k, sort_keys v)) (map (\<lambda>(k, v). (k, sort_keys v)) (sort_key fst kvs))))"
    by (simp add: sort_key_map_snd)
  also have "map (\<lambda>(k, v). (k, sort_keys v)) (map (\<lambda>(k, v). (k, sort_keys v)) (sort_key fst kvs)) =
      map (\<lambda>(k, v). (k, sort_keys v)) (sort_key fst kvs)"
    using JObj by auto
  also have "sort_key fst \<dots> = map (\<lambda>(k, v). (k, sort_keys v)) (sort_key fst (sort_key fst kvs))"
    by (rule sort_key_map_snd)
  also have "sort_key fst (sort_key fst kvs) = sort_key fst kvs" by (simp add: sort_key_id_if_sorted)
  finally show ?case by (simp add: sort_key_map_snd)
qed (simp_all add: comp_def)

lemma has_key_sort_keys [simp]: "has_key (sort_keys v) k = has_key v k"
  by (cases v) (force simp: has_key_def keys_def)+

subsection \<open>The round trip\<close>

text \<open>A Python value that the tools may dump: its keys are distinct and its floats finite.\<close>

definition json_ok :: "json \<Rightarrow> bool" where
  "json_ok v \<longleftrightarrow> floats_ok v \<and> distinct_keys v"

lemma loads_dump_rest:
  assumes "json_ok v" and "delim rest" and "skip_ws rest = []"
  shows "loads (dump ind 0 v @ rest) = Some v"
proof -
  have "reads_back ind 0 v" using assms(1) by (simp add: json_ok_def dump_reads_back)
  then have "pval (Suc (length (dump ind 0 v @ rest))) (dump ind 0 v @ rest) = Some (v, rest)"
    by (rule reads_backD) (simp_all add: assms(2))
  then show ?thesis
    using assms(1,3) by (simp add: loads_def skip_ws_dump json_ok_def del: pval.simps)
qed

lemma loads_dump: "json_ok v \<Longrightarrow> loads (dump ind 0 v @ [LF]) = Some v"
  by (rule loads_dump_rest) (simp_all add: delim_def is_digit_def skip_ws_def is_ws_def)

lemma json_ok_sort_keys: "json_ok v \<Longrightarrow> json_ok (sort_keys v)"
  by (simp add: json_ok_def sort_keys_floats sort_keys_distinct)

text \<open>A line of a JSONL stream, and the pretty-printed record of \<^verbatim>\<open>policy_binding.encoded\<close>.\<close>

definition jsonl :: "json \<Rightarrow> string" where
  "jsonl v = dumps v @ [LF]"

definition encoded :: "json \<Rightarrow> string" where
  "encoded v = dumps_indent v @ [LF]"

locale json_codec =
  fixes render :: "json \<Rightarrow> string"
    and read :: "string \<Rightarrow> json option"
    and norm :: "json \<Rightarrow> json"
    and ok :: "json \<Rightarrow> bool"
  assumes read_render: "ok v \<Longrightarrow> read (render v) = Some (norm v)"
    and render_norm: "norm a = norm b \<Longrightarrow> render a = render b"
    and ok_norm: "ok v \<Longrightarrow> ok (norm v)"
begin

lemma render_eq_iff: "ok a \<Longrightarrow> ok b \<Longrightarrow> render a = render b \<longleftrightarrow> norm a = norm b"
  using read_render [of a] read_render [of b] by (auto intro: render_norm)

lemma read_all_rendered:
  "(\<And>v. v \<in> set vs \<Longrightarrow> ok v) \<Longrightarrow> map (\<lambda>v. read (render v)) vs = map (Some \<circ> norm) vs"
  by (simp add: read_render)

end

interpretation jsonl_codec: json_codec jsonl loads sort_keys json_ok
  by unfold_locales (simp_all add: jsonl_def dumps_def loads_dump json_ok_sort_keys)

interpretation encoded_codec: json_codec encoded loads sort_keys json_ok
  by unfold_locales (simp_all add: encoded_def dumps_indent_def loads_dump json_ok_sort_keys)

text \<open>A JSONL record is one line, so splitting a stream into lines gives the records back.\<close>

lemma dumps_one_line: "LF \<notin> set (dumps v) \<and> CR \<notin> set (dumps v)"
proof -
  have "list_all printable (dumps v)"
    using dump_chars [of False 0 "sort_keys v"] by (simp add: dumps_def)
  then show ?thesis by (auto simp: list_all_iff printable_def)
qed

lemma splitlines_jsonl: "py_splitlines (concat (map jsonl vs)) = map dumps vs"
proof -
  have "concat (map jsonl vs) = concat (map (\<lambda>l. l @ [LF]) (map dumps vs))"
    by (induction vs) (simp_all add: jsonl_def)
  also have "py_splitlines \<dots> = map dumps vs"
    by (rule py_splitlines_concat) (auto simp: dumps_one_line)
  finally show ?thesis .
qed

lemma loads_dump_bare: "json_ok v \<Longrightarrow> loads (dump ind 0 v) = Some v"
  using loads_dump_rest [of v Nil ind] by (simp add: delim_def skip_ws_def)

lemma loads_dumps: "json_ok v \<Longrightarrow> loads (dumps v) = Some (sort_keys v)"
  by (simp add: dumps_def loads_dump_bare json_ok_sort_keys)

section \<open>Properties\<close>

text \<open>
  C9: what the tools encode they read back: an encoded record parses to the same value with its
  keys sorted, and two records have the same bytes exactly when they are the same up to the order
  of keys. This is what comparing an artifact with its re-encoding rests on.
\<close>

theorem encoded_exact:
  assumes "json_ok v" "json_ok u"
  shows "loads (encoded v) = Some (sort_keys v) \<and> (encoded u = encoded v \<longleftrightarrow> sort_keys u = sort_keys v)"
  using assms encoded_codec.read_render encoded_codec.render_eq_iff by blast

theorem encoded_exact_witness:
  "loads (encoded (JObj [(''b'', JInt 1), (''a'', JNull)])) = Some (JObj [(''a'', JNull), (''b'', JInt 1)])"
  using encoded_exact [of "JObj [(''b'', JInt 1), (''a'', JNull)]" JNull]
  by (simp add: json_ok_def)

end
