(* ===== verification/Policy_Binding.thy ===== *)
theory Policy_Binding
  imports Json_Codec Complex_Main "HOL-Library.Log_Nat" "HOL-Library.Multiset"
begin

text \<open>
  The frozen policy and the evidence directory of \<^verbatim>\<open>policy_binding.py\<close>: bounded reading of a file
  that must not change, the policy and its limits, \<open>prepare\<close> (freeze a policy, the tool sources and
  the launch intent in a private directory) and \<open>check_binding\<close> (verify such a directory).

  A file is seen through what the system calls on it returned (\<open>file_view\<close>); SHA-256 is a
  parameter \<open>sha\<close>, and so is \<open>utc_offset\<close>, what \<open>datetime.fromisoformat\<close> says of a text (nothing, or
  whether it carries a UTC offset).
\<close>

section \<open>Parsed values are well-formed\<close>

lemma strip_zeros_ok: "float_ok (int (fst (strip_zeros m e))) (snd (strip_zeros m e))"
proof (induction m e rule: strip_zeros.induct)
  case (1 m e)
  have "int m mod 10 \<noteq> 0" if "m mod 10 \<noteq> 0" using that by presburger
  with 1 show ?case by (subst (1 2) strip_zeros.simps) (auto simp: float_ok_def)
qed

lemma float_ok_uminus: "float_ok m e \<Longrightarrow> float_ok (- m) e"
  unfolding float_ok_def by presburger

lemma mk_float_canonical: "floats_ok (mk_float neg m e)"
  using strip_zeros_ok [of m e] float_ok_uminus by (auto simp: mk_float_def split: prod.split)

lemma pnum_body_ok: "pnum_body neg s = Some (v, r) \<Longrightarrow> floats_ok v"
  by (auto simp: pnum_body_def Let_def mk_float_canonical split: if_splits option.splits prod.splits)

lemma pnum_ok: "pnum s = Some (v, r) \<Longrightarrow> floats_ok v"
  by (auto simp: pnum_def dest: pnum_body_ok split: list.splits if_splits)

lemma parsed_floats_ok:
  "pval n s = Some (v, r) \<Longrightarrow> floats_ok v"
  "pelems n s = Some (vs, r) \<Longrightarrow> \<forall>v \<in> set vs. floats_ok v"
  "pmembers n s = Some (kvs, r) \<Longrightarrow> \<forall>(k, v) \<in> set kvs. floats_ok v"
proof (induction n arbitrary: s v vs kvs r)
  case 0
  { case 1 then show ?case by simp next case 2 then show ?case by simp next case 3 then show ?case by simp }
next
  case (Suc n)
  { case 1
    then show ?case using Suc.IH(2,3) pnum_ok
      by (cases s) (fastforce split: if_splits list.splits option.splits prod.splits)+
  next
    case 2
    then show ?case using Suc.IH(1,2)
      by (fastforce simp: cons_fst_def split: if_splits list.splits option.splits prod.splits)
  next
    case 3
    then show ?case using Suc.IH(1,3)
      by (cases s) (fastforce simp: cons_fst_def split: if_splits list.splits option.splits prod.splits)+ }
qed

lemma loads_ok: "loads s = Some v \<Longrightarrow> json_ok v"
  by (auto simp: loads_def json_ok_def dest: parsed_floats_ok(1) simp del: pval.simps split: option.splits prod.splits if_splits)

section \<open>Paths\<close>

text \<open>
  \<open>str(PurePosixPath(s))\<close>: empty and \<open>.\<close> components disappear; a root of exactly two slashes is kept.
  \<open>joined p q\<close> is \<open>str(Path(p) / q)\<close> for a relative \<open>q\<close> that is already normal.
\<close>

definition is_absolute :: "string \<Rightarrow> bool" where
  "is_absolute p \<longleftrightarrow> py_startswith p ''/''"

definition path_root :: "string \<Rightarrow> string" where
  "path_root p = (if py_startswith p ''//'' \<and> \<not> py_startswith p ''///'' then ''//'' else if is_absolute p then ''/'' else [])"

definition path_parts :: "string \<Rightarrow> string list" where
  "path_parts p = filter (\<lambda>x. x \<noteq> [] \<and> x \<noteq> ''.'') (split_on CHR ''/'' p)"

definition path_str :: "string \<Rightarrow> string" where
  "path_str p = (let s = path_root p @ join ''/'' (path_parts p) in if s = [] then ''.'' else s)"

definition joined :: "string \<Rightarrow> string \<Rightarrow> string" where
  "joined p q = path_root p @ join ''/'' (path_parts p @ path_parts q)"

section \<open>Constants\<close>

definition RUN_CHECK_SHA :: string where
  "RUN_CHECK_SHA = ''b31448c0114902b9f4888077e26f6153453c7f413bf73ad58244a31c3cd6b9ce''"

definition APPROVED :: "(string \<times> string) list" where
  "APPROVED = [
     (''run_check.py'', RUN_CHECK_SHA),
     (''supervise.py'', ''b5ba161156fa133e17bb8df26410db407a63362e0700cc23c4222a03fb16074a''),
     (''processes.py'', ''148852d2f84c5be3b056e7692487f9795f716197a76f17ee1eb80edfe4ef4230'')]"

definition SOURCES :: "string list" where
  "SOURCES = map fst APPROVED @ [''policy_binding.py'', ''policy_launch.py'', ''policy_verify.py'']"

definition FIXED :: "(string \<times> json) list" where
  "FIXED = [
     (''phase_seconds'', JObj [(''compile'', JInt 30), (''setup'', JInt 90), (''setup_wrong_vk'', JInt 90), (''prove'', JInt 60)]),
     (''rss_stop_kib'', JInt 2097152), (''available_stop_kib'', JInt 2097152), (''stop_escalation_kib'', JInt 1048576),
     (''cpu_seconds'', JArr [JInt 180, JInt 190]), (''core_bytes'', JInt 0), (''kernel_memory_limit'', JBool False),
     (''term_grace'', JFloat 15 (- 2)), (''kill_grace'', JFloat 5 (- 1))]"

definition ENVIRONMENT :: json where
  "ENVIRONMENT = JObj [(''PATH'', JStr ''/bin:/usr/bin''), (''LANG'', JStr ''C.UTF-8''), (''PYTHONDONTWRITEBYTECODE'', JStr ''1''),
     (''GOTOOLCHAIN'', JStr ''local''), (''GOPROXY'', JStr ''off''), (''GOSUMDB'', JStr ''off''), (''GOMAXPROCS'', JStr ''4''),
     (''DZKR_MIMCCHAIN_BARRIER_PROBE'', JStr ''1''), (''DZKR_MIMCCHAIN_BARRIER_PROBE_MODE'', JStr ''trivial''),
     (''DZKR_MIMCCHAIN_START_BARRIER'', JStr ''1''), (''DZKR_MIMCCHAIN_BARRIER_TIMEOUT'', JStr ''5s'')]"

abbreviation needp :: "bool \<Rightarrow> string \<Rightarrow> 'a res \<Rightarrow> 'a res" where
  "needp c reason k \<equiv> requires c (PolicyError reason) k"

definition keys_are :: "json \<Rightarrow> string list \<Rightarrow> bool" where
  "keys_are v ks \<longleftrightarrow> is_dict v \<and> set (keys v) = set ks"

section \<open>The policy\<close>

definition decode_evidence :: "string \<Rightarrow> json res" where
  "decode_evidence data = (case loads data of Some v \<Rightarrow> Inr v | None \<Rightarrow> Inl (PolicyError ''invalid JSON evidence''))"

definition is_number :: "json \<Rightarrow> bool" where
  "is_number v = (case v of JInt i \<Rightarrow> True | JFloat m e \<Rightarrow> True | _ \<Rightarrow> False)"

definition number :: "json \<Rightarrow> int \<times> int" where
  "number v = (case num_of v of Some x \<Rightarrow> x | None \<Rightarrow> (0, 0))"

text \<open>
  The double nearest to a positive rational above \<open>2 ^ - 100\<close> (ties to even), and the sum
  \<open>wall + 5\<close>: exact for an int, rounded for a float, whose value is the double nearest to its
  decimal. Order and equality of doubles agree with those of their decimals, so only the sum
  needs the rounding.
\<close>

definition round_even :: "rat \<Rightarrow> int" where
  "round_even x = (let f = \<lfloor>x\<rfloor>; d = x - of_int f in if d < 1/2 then f else if d > 1/2 then f + 1 else if even f then f else f + 1)"

definition round_double :: "rat \<Rightarrow> rat" where
  "round_double q = (let k = 253 - int (floorlog 2 (nat \<lfloor>q * 2 ^ 200\<rfloor>)) in
     if k \<ge> 0 then of_int (round_even (q * 2 ^ nat k)) / 2 ^ nat k
     else of_int (round_even (q / 2 ^ nat (- k))) * 2 ^ nat (- k))"

definition dec_rat :: "int \<times> int \<Rightarrow> rat" where
  "dec_rat x = (if snd x \<ge> 0 then of_int (fst x) * 10 ^ nat (snd x) else of_int (fst x) / 10 ^ nat (- snd x))"

fun py_value :: "json \<Rightarrow> rat" where
  "py_value (JInt i) = of_int i"
| "py_value (JFloat m e) = round_double (dec_rat (m, e))"
| "py_value _ = 0"

fun plus_five :: "json \<Rightarrow> rat" where
  "plus_five (JInt i) = of_int (i + 5)"
| "plus_five v = round_double (py_value v + 5)"

definition DURATIONS :: "(string \<times> int) list" where
  "DURATIONS = [(''wall_seconds'', 210), (''barrier_seconds'', 2), (''outer_seconds'', 230)]"

definition duration_ok :: "json \<Rightarrow> int \<Rightarrow> bool" where
  "duration_ok v maximum \<longleftrightarrow> is_number v \<and> dec_le (1, - 2) (number v) \<and> dec_le (number v) (maximum, 0)"

definition POLICY_FIELDS :: "string list" where
  "POLICY_FIELDS = [''schema'', ''wall_seconds'', ''barrier_seconds'', ''outer_seconds''] @ map fst FIXED"

definition parse_policy :: "string \<Rightarrow> json res" where
  "parse_policy data =
     needp (0 < length data \<and> length data \<le> 16384) ''policy size out of bounds''
     (bindr (decode_evidence data) (\<lambda>value.
      needp (keys_are value POLICY_FIELDS) ''policy fields mismatch''
      (needp (jget value ''schema'' = JInt 1) ''unsupported policy schema''
      (bindr (fold_res (\<lambda>(key, maximum) _. needp (duration_ok (jget value key) maximum) (''invalid bounded duration: '' @ key) (Inr ())) DURATIONS ()) (\<lambda>_.
       needp (dec_le (number (jget value ''barrier_seconds'')) (number (jget value ''wall_seconds'')) \<and>
              py_value (jget value ''outer_seconds'') \<ge> plus_five (jget value ''wall_seconds'')) ''inconsistent lifecycle budgets''
       (bindr (fold_res (\<lambda>(key, fixed) _. needp (dumps (jget value key) = dumps fixed) (''unsupported fixed runner limit: '' @ key) (Inr ())) FIXED ()) (\<lambda>_.
        Inr value)))))))"

section \<open>Files\<close>

record file_stat =
  fs_regular :: bool
  fs_nlink :: nat
  fs_size :: nat
  fs_dev :: int
  fs_ino :: int
  fs_mtime :: int
  fs_ctime :: int
  fs_uid :: int
  fs_private :: bool

text \<open>
  One opening of a path: whether \<open>open\<close> succeeded (it does not follow links), what \<open>fstat\<close> said
  before and after, what the file held at the two reads, and what the path named at the end.
\<close>

record file_view =
  fv_open :: "unit res"
  fv_before :: file_stat
  fv_first :: string
  fv_second :: string
  fv_after :: file_stat
  fv_current :: "file_stat res"

definition stat_key :: "file_stat \<Rightarrow> int \<times> int \<times> nat \<times> int \<times> int" where
  "stat_key s = (fs_dev s, fs_ino s, fs_size s, fs_mtime s, fs_ctime s)"

definition read_regular :: "nat \<Rightarrow> file_view \<Rightarrow> string res" where
  "read_regular limit v =
     bindr (fv_open v) (\<lambda>_.
     needp (fs_regular (fv_before v) \<and> fs_nlink (fv_before v) = 1) ''regular single-link file required''
     (needp (fs_size (fv_before v) \<le> limit) ''evidence file too large''
     (let data = take (limit + 1) (fv_first v); second = take (limit + 1) (fv_second v) in
      bindr (fv_current v) (\<lambda>current.
      needp (stat_key (fv_before v) = stat_key (fv_after v) \<and> stat_key (fv_after v) = stat_key current \<and>
             data = second \<and> length data = fs_size (fv_before v)) ''file changed while reading''
      (Inr data)))))"

definition MiB2 :: nat where "MiB2 = 2 * 1024 * 1024"

text \<open>The view of a private file that nobody touches: what \<open>write_private\<close> leaves behind.\<close>

definition private_stat :: "string \<Rightarrow> file_stat" where
  "private_stat data = \<lparr>fs_regular = True, fs_nlink = 1, fs_size = length data, fs_dev = 0, fs_ino = 0, fs_mtime = 0,
     fs_ctime = 0, fs_uid = 0, fs_private = True\<rparr>"

definition undisturbed :: "string \<Rightarrow> file_view \<Rightarrow> bool" where
  "undisturbed data v \<longleftrightarrow> fv_open v = Inr () \<and> fs_regular (fv_before v) \<and> fs_nlink (fv_before v) = 1 \<and>
     fs_size (fv_before v) = length data \<and> fv_first v = data \<and> fv_second v = data \<and>
     stat_key (fv_after v) = stat_key (fv_before v) \<and>
     (\<exists>c. fv_current v = Inr c \<and> stat_key c = stat_key (fv_before v))"

section \<open>The launch intent\<close>

text \<open>\<open>str(x)\<close> of a number.\<close>

definition py_str_number :: "json \<Rightarrow> string" where
  "py_str_number v = (case v of JInt i \<Rightarrow> show_int i | JFloat m e \<Rightarrow> float_repr m e | _ \<Rightarrow> [])"

definition valid_argv :: "json \<Rightarrow> bool" where
  "valid_argv v \<longleftrightarrow> is_list v \<and> the_list v \<noteq> [] \<and>
     list_all (\<lambda>a. is_str a \<and> the_str a \<noteq> [] \<and> CHR 0x00 \<notin> set (the_str a)) (the_list v)"

definition runner_argv :: "json \<Rightarrow> json \<Rightarrow> json" where
  "runner_argv m policy = JArr ([jget m ''python'', JStr ''-B'', JStr (joined (the_str (jget m ''tool_directory'')) ''run_check.py''),
     JStr ''--out'', JStr (joined (the_str (jget (jget m ''evidence_directory'') ''path'')) ''supervised/inner''),
     JStr ''--label'', JStr ''p4b2-rss-barrier'', JStr ''--cwd'', jget m ''cwd'',
     JStr ''--wall-seconds'', JStr (py_str_number (jget policy ''wall_seconds'')), JStr ''--term-grace'', JStr ''.15'',
     JStr ''--kill-grace'', JStr ''.5'', JStr ''--''] @ the_list (jget m ''target_argv''))"

text \<open>The installation that freezes the policy, and the place where the evidence goes.\<close>

record installation =
  in_repo :: string
  in_tools :: string
  in_python :: string
  in_utc :: string
  in_uuid :: string
  in_runs :: "string \<Rightarrow> bool"
  in_source :: "string \<Rightarrow> file_view"

record place =
  pl_symlink :: bool
  pl_sources_symlink :: bool
  pl_path :: string
  pl_in_repo :: bool
  pl_mkdir :: "unit res"
  pl_mkdir_sources :: "unit res"
  pl_dir :: file_stat
  pl_write :: "string \<Rightarrow> unit res"
  pl_snapshot :: file_view

definition file_ref :: "(string \<Rightarrow> string) \<Rightarrow> string \<Rightarrow> string \<Rightarrow> json" where
  "file_ref sha path data = JObj [(''path'', JStr path), (''sha256'', JStr (sha data)), (''bytes'', JInt (int (length data)))]"

definition manifest_base :: "(string \<Rightarrow> string) \<Rightarrow> installation \<Rightarrow> place \<Rightarrow> string \<Rightarrow> json \<Rightarrow> string list \<Rightarrow> string \<Rightarrow>
    (string \<times> string) list \<Rightarrow> (string \<times> json) list" where
  "manifest_base sha i p policy_bytes policy argv rid sources =
     [(''schema'', JInt 1), (''run_id'', JStr rid), (''state'', JStr ''prepared''), (''role'', JStr ''probe''),
      (''policy'', file_ref sha ''policy.snapshot.json'' policy_bytes), (''effective_limits'', policy),
      (''target_argv'', JArr (map JStr argv)), (''python'', JStr (in_python i)), (''cwd'', JStr (in_repo i)),
      (''tool_directory'', JStr (in_tools i)), (''environment'', ENVIRONMENT),
      (''tool_sources'', JObj (map (\<lambda>(name, data). (name, file_ref sha (''sources/'' @ name) data)) sources)),
      (''launch_intent_utc'', JStr (in_utc i)),
      (''evidence_directory'', JObj [(''path'', JStr (pl_path p)), (''device'', JInt (fs_dev (pl_dir p))),
          (''inode'', JInt (fs_ino (pl_dir p))), (''uid'', JInt (fs_uid (pl_dir p)))])]"

definition manifest_json :: "(string \<Rightarrow> string) \<Rightarrow> installation \<Rightarrow> place \<Rightarrow> string \<Rightarrow> json \<Rightarrow> string list \<Rightarrow> string \<Rightarrow>
    (string \<times> string) list \<Rightarrow> json" where
  "manifest_json sha i p policy_bytes policy argv rid sources =
     (let base = manifest_base sha i p policy_bytes policy argv rid sources in
      JObj (base @ [(''runner_argv'', runner_argv (JObj base) policy)]))"

text \<open>Private files are written in turn; the first failure stops, and what was written stays.\<close>

fun write_all :: "(string \<Rightarrow> unit res) \<Rightarrow> (string \<times> string) list \<Rightarrow> (string \<times> string) list \<times> unit res" where
  "write_all out [] = ([], Inr ())"
| "write_all out ((name, data) # fs) =
     (case out name of Inl e \<Rightarrow> ([], Inl e) | Inr u \<Rightarrow> (case write_all out fs of (w, r) \<Rightarrow> ((name, data) # w, r)))"

text \<open>Everything before the first change to the file system.\<close>

definition prepare_inputs :: "(string \<Rightarrow> string) \<Rightarrow> installation \<Rightarrow> place \<Rightarrow> file_view \<Rightarrow> string list \<Rightarrow> string option \<Rightarrow>
    (string \<times> json \<times> string \<times> (string \<times> string) list) res" where
  "prepare_inputs sha i p policy_file argv rid =
     bindr (read_regular 16384 policy_file) (\<lambda>policy_bytes.
     bindr (parse_policy policy_bytes) (\<lambda>policy.
     needp (valid_argv (JArr (map JStr argv))) ''nonempty argv strings required''
     (needp (is_absolute (hd argv) \<and> in_runs i (hd argv)) ''absolute executable required''
     (let run_id = (case rid of None \<Rightarrow> in_uuid i | Some r \<Rightarrow> r) in
      needp (fullmatch_hex 32 run_id) ''invalid run ID''
      (bindr (map_res (\<lambda>name. bindr (read_regular MiB2 (in_source i name)) (\<lambda>data. Inr (name, data))) SOURCES) (\<lambda>sources.
       needp (list_all (\<lambda>(name, h). map_option sha (map_of sources name) = Some h) APPROVED) ''approved source identity changed''
       (needp (\<not> pl_symlink p) ''evidence directory symlink''
       (needp (\<not> pl_sources_symlink p) ''source directory symlink''
       (needp (\<not> pl_in_repo p) ''evidence must be external''
       (bindr (pl_mkdir p) (\<lambda>_. Inr (policy_bytes, policy, run_id, sources)))))))))))) "

definition prepare :: "(string \<Rightarrow> string) \<Rightarrow> installation \<Rightarrow> place \<Rightarrow> file_view \<Rightarrow> string list \<Rightarrow> string option \<Rightarrow>
    (string \<times> string) list \<times> unit res" where
  "prepare sha i p policy_file argv rid =
     (case prepare_inputs sha i p policy_file argv rid of
        Inl e \<Rightarrow> ([], Inl e)
      | Inr (policy_bytes, policy, run_id, sources) \<Rightarrow>
          (case pl_write p ''policy.snapshot.json'' of
             Inl e \<Rightarrow> ([], Inl e)
           | Inr u \<Rightarrow>
               let snap = (''policy.snapshot.json'', policy_bytes) in
               (case bindr (read_regular MiB2 (pl_snapshot p)) (\<lambda>back.
                       needp (back = policy_bytes) ''snapshot creation mismatch'' (pl_mkdir_sources p)) of
                  Inl e \<Rightarrow> ([snap], Inl e)
                | Inr u \<Rightarrow>
                    (case write_all (pl_write p) (map (\<lambda>(name, data). (''sources/'' @ name, data)) sources @
                        [(''manifest.json'', encoded (manifest_json sha i p policy_bytes policy argv run_id sources))]) of
                       (w, r) \<Rightarrow> (snap # w, r)))))"

section \<open>Checking a prepared directory\<close>

record evidence_dir =
  ed_symlink :: bool
  ed_sources_symlink :: bool
  ed_file :: "string \<Rightarrow> file_view"

definition MANIFEST_FIELDS :: "string list" where
  "MANIFEST_FIELDS = [''schema'', ''run_id'', ''state'', ''role'', ''policy'', ''effective_limits'', ''target_argv'',
     ''python'', ''cwd'', ''tool_directory'', ''environment'', ''tool_sources'', ''launch_intent_utc'', ''evidence_directory'', ''runner_argv'']"

definition ref_matches :: "(string \<Rightarrow> string) \<Rightarrow> json \<Rightarrow> string \<Rightarrow> bool" where
  "ref_matches sha ref data \<longleftrightarrow> jget ref ''bytes'' = JInt (int (length data)) \<and> jget ref ''sha256'' = JStr (sha data)"

definition natural :: "json \<Rightarrow> bool" where
  "natural v \<longleftrightarrow> is_int v \<and> the_int v \<ge> 0"

definition absolute_str :: "json \<Rightarrow> bool" where
  "absolute_str v \<longleftrightarrow> is_str v \<and> is_absolute (the_str v)"

definition check_source :: "(string \<Rightarrow> string) \<Rightarrow> evidence_dir \<Rightarrow> json \<Rightarrow> string \<Rightarrow> unit \<Rightarrow> unit res" where
  "check_source sha d m name u =
     (let ref = jget (jget m ''tool_sources'') name in
      needp (keys_are ref [''path'', ''sha256'', ''bytes''] \<and> jget ref ''path'' = JStr (''sources/'' @ name)) ''invalid source reference''
      (bindr (read_regular MiB2 (ed_file d (''sources/'' @ name))) (\<lambda>data.
       needp (ref_matches sha ref data) ''source identity mismatch''
       (case map_of APPROVED name of
          None \<Rightarrow> Inr ()
        | Some h \<Rightarrow> needp (jget ref ''sha256'' = JStr h) ''unapproved source identity'' (Inr ())))))"

definition check_header :: "(string \<Rightarrow> bool option) \<Rightarrow> json \<Rightarrow> unit res" where
  "check_header utc_offset m =
     needp (keys_are m MANIFEST_FIELDS) ''manifest fields mismatch''
     (needp (jget m ''schema'' = JInt 1 \<and> jget m ''state'' = JStr ''prepared'' \<and> jget m ''role'' = JStr ''probe'') ''invalid manifest version/state/role''
     (needp (is_str (jget m ''run_id'') \<and> fullmatch_hex 32 (the_str (jget m ''run_id''))) ''invalid run ID''
     (needp (is_str (jget m ''launch_intent_utc'')) ''missing launch time''
     (needp (utc_offset (the_str (jget m ''launch_intent_utc'')) = Some True) ''invalid launch time''
     (needp (keys_are (jget m ''policy'') [''path'', ''sha256'', ''bytes''] \<and>
             jget (jget m ''policy'') ''path'' = JStr ''policy.snapshot.json'') ''invalid snapshot reference'' (Inr ()))))))"

definition check_invocation :: "json \<Rightarrow> json \<Rightarrow> unit res" where
  "check_invocation m policy =
     needp (encoded (jget m ''effective_limits'') = encoded policy) ''manifest policy disagreement''
     (needp (py_eq (jget m ''environment'') ENVIRONMENT) ''environment mismatch''
     (let ed = jget m ''evidence_directory'' in
      needp (keys_are ed [''path'', ''device'', ''inode'', ''uid''] \<and> absolute_str (jget ed ''path'') \<and>
             list_all (\<lambda>k. natural (jget ed k)) [''device'', ''inode'', ''uid'']) ''invalid evidence identity''
      (needp (list_all (\<lambda>k. absolute_str (jget m k)) [''python'', ''cwd'', ''tool_directory'']) ''invalid invocation paths''
      (needp (valid_argv (jget m ''target_argv'') \<and> is_absolute (the_str (hd (the_list (jget m ''target_argv''))))) ''invalid target argv''
      (needp (jget m ''runner_argv'' = runner_argv m policy) ''policy/runner argv disagreement''
      (needp (keys_are (jget m ''tool_sources'') SOURCES) ''missing source identity'' (Inr ())))))))"

definition check_binding :: "(string \<Rightarrow> bool option) \<Rightarrow> (string \<Rightarrow> string) \<Rightarrow> evidence_dir \<Rightarrow> (json \<times> json) res" where
  "check_binding utc_offset sha d =
     needp (\<not> ed_symlink d) ''evidence directory symlink''
     (needp (\<not> ed_sources_symlink d) ''source directory symlink''
     (bindr (bindr (read_regular MiB2 (ed_file d ''manifest.json'')) decode_evidence) (\<lambda>m.
      bindr (check_header utc_offset m) (\<lambda>_.
      bindr (read_regular 16384 (ed_file d ''policy.snapshot.json'')) (\<lambda>raw.
      needp (ref_matches sha (jget m ''policy'') raw) ''snapshot identity mismatch''
      (bindr (parse_policy raw) (\<lambda>policy.
       bindr (check_invocation m policy) (\<lambda>_.
       bindr (fold_res (check_source sha d m) SOURCES ()) (\<lambda>_.
       Inr (m, policy))))))))))"

section \<open>What the checks guarantee\<close>

lemma fold_checks:
  "fold_res (\<lambda>(a, b) u. needp (P a b) (e a b) (Inr ())) xs () = Inr () \<longleftrightarrow> list_all (\<lambda>(a, b). P a b) xs"
  by (induction xs) (auto simp: res_simps)

lemma fold_unit: "fold_res f xs () = Inr () \<longleftrightarrow> (\<forall>x \<in> set xs. f x () = Inr ())"
  by (induction xs) (auto simp: res_simps)

lemma read_regularD:
  assumes "read_regular limit v = Inr data"
  shows "data = fv_first v \<and> data = fv_second v \<and> length data \<le> limit \<and> fs_regular (fv_before v) \<and> fs_nlink (fv_before v) = 1 \<and>
    (\<exists>c. fv_current v = Inr c \<and> stat_key c = stat_key (fv_before v))"
  using assms by (auto simp: read_regular_def Let_def res_simps)

lemma read_undisturbed: "undisturbed data v \<Longrightarrow> length data \<le> limit \<Longrightarrow> read_regular limit v = Inr data"
  by (auto simp: undisturbed_def read_regular_def Let_def requires_def)

lemma decode_evidence_ok: "decode_evidence s = Inr v \<Longrightarrow> json_ok v"
  by (auto simp: decode_evidence_def loads_ok split: option.splits)

lemma json_ok_jget: "json_ok v \<Longrightarrow> json_ok (jget v k)"
  by (cases v) (auto simp: json_ok_def jget_def split: option.split dest!: map_of_SomeD)

text \<open>A policy within the limits of the runner.\<close>

definition policy_sane :: "json \<Rightarrow> bool" where
  "policy_sane v \<longleftrightarrow> json_ok v \<and> keys_are v POLICY_FIELDS \<and> jget v ''schema'' = JInt 1 \<and>
     list_all (\<lambda>(key, maximum). duration_ok (jget v key) maximum) DURATIONS \<and>
     dec_le (number (jget v ''barrier_seconds'')) (number (jget v ''wall_seconds'')) \<and>
     py_value (jget v ''outer_seconds'') \<ge> plus_five (jget v ''wall_seconds'') \<and>
     (\<forall>(key, fixed) \<in> set FIXED. sort_keys (jget v key) = sort_keys fixed)"

lemma FIXED_ok: "(k, f) \<in> set FIXED \<Longrightarrow> json_ok f"
  by (auto simp: FIXED_def json_ok_def float_ok_def)

lemma dumps_eq_iff: "json_ok a \<Longrightarrow> json_ok b \<Longrightarrow> dumps a = dumps b \<longleftrightarrow> sort_keys a = sort_keys b"
  by (metis dumps_def loads_dumps option.inject)

lemma parse_policy_iff:
  "parse_policy data = Inr v \<longleftrightarrow> decode_evidence data = Inr v \<and> 0 < length data \<and> length data \<le> 16384 \<and> keys_are v POLICY_FIELDS \<and>
    jget v ''schema'' = JInt 1 \<and> list_all (\<lambda>(key, maximum). duration_ok (jget v key) maximum) DURATIONS \<and>
    dec_le (number (jget v ''barrier_seconds'')) (number (jget v ''wall_seconds'')) \<and>
    py_value (jget v ''outer_seconds'') \<ge> plus_five (jget v ''wall_seconds'') \<and>
    list_all (\<lambda>(key, fixed). dumps (jget v key) = dumps fixed) FIXED"
proof (cases "decode_evidence data")
  case (Inr w)
  then show ?thesis
    by (cases "w = v") (simp_all add: parse_policy_def requires_Inr_iff bindr_Inr_iff fold_checks)
qed (simp add: parse_policy_def requires_Inr_iff)

lemma parse_policyD:
  assumes "parse_policy data = Inr v"
  shows "loads data = Some v \<and> policy_sane v \<and> 0 < length data \<and> length data \<le> 16384"
proof -
  have d: "decode_evidence data = Inr v" "0 < length data" "length data \<le> 16384" "keys_are v POLICY_FIELDS" "jget v ''schema'' = JInt 1"
    "list_all (\<lambda>(key, maximum). duration_ok (jget v key) maximum) DURATIONS"
    "dec_le (number (jget v ''barrier_seconds'')) (number (jget v ''wall_seconds''))"
    "py_value (jget v ''outer_seconds'') \<ge> plus_five (jget v ''wall_seconds'')"
    "list_all (\<lambda>(key, fixed). dumps (jget v key) = dumps fixed) FIXED"
    using assms by (simp_all add: parse_policy_iff)
  have ok: "json_ok v" using d(1) by (rule decode_evidence_ok)
  have "\<forall>(key, fixed) \<in> set FIXED. sort_keys (jget v key) = sort_keys fixed"
    using d(9) dumps_eq_iff [OF json_ok_jget [OF ok] FIXED_ok] by (auto simp: list_all_iff)
  then show ?thesis using d ok by (auto simp: policy_sane_def decode_evidence_def split: option.splits)
qed

text \<open>What a checked directory shows.\<close>

definition bound_source :: "(string \<Rightarrow> string) \<Rightarrow> evidence_dir \<Rightarrow> json \<Rightarrow> string \<Rightarrow> bool" where
  "bound_source sha d m name \<longleftrightarrow> (\<exists>data. fv_first (ed_file d (''sources/'' @ name)) = data \<and> length data \<le> MiB2 \<and>
     ref_matches sha (jget (jget m ''tool_sources'') name) data \<and>
     (\<forall>h. map_of APPROVED name = Some h \<longrightarrow> sha data = h))"

lemma check_sourceD: "check_source sha d m name u = Inr () \<Longrightarrow> bound_source sha d m name"
  unfolding check_source_def Let_def bound_source_def
  by (auto simp: res_simps ref_matches_def dest!: read_regularD split: option.splits)

lemma check_bindingD:
  assumes "check_binding utc_offset sha d = Inr (m, policy)"
  shows "loads (fv_first (ed_file d ''manifest.json'')) = Some m \<and> loads (fv_first (ed_file d ''policy.snapshot.json'')) = Some policy \<and>
    policy_sane policy \<and> ref_matches sha (jget m ''policy'') (fv_first (ed_file d ''policy.snapshot.json'')) \<and>
    check_header utc_offset m = Inr () \<and> check_invocation m policy = Inr () \<and> (\<forall>name \<in> set SOURCES. bound_source sha d m name)"
proof -
  from assms obtain mraw raw where r: "read_regular MiB2 (ed_file d ''manifest.json'') = Inr mraw" "decode_evidence mraw = Inr m"
    "check_header utc_offset m = Inr ()" "read_regular 16384 (ed_file d ''policy.snapshot.json'') = Inr raw"
    "ref_matches sha (jget m ''policy'') raw" "parse_policy raw = Inr policy" "check_invocation m policy = Inr ()"
    "fold_res (check_source sha d m) SOURCES () = Inr ()"
    unfolding check_binding_def bindr_Inr_iff requires_Inr_iff by auto
  have "\<forall>name \<in> set SOURCES. bound_source sha d m name"
    using r(8) check_sourceD unfolding fold_unit by blast
  with r read_regularD [OF r(1)] read_regularD [OF r(4)] parse_policyD [OF r(6)] show ?thesis
    by (auto simp: decode_evidence_def split: option.splits)
qed

section \<open>A prepared directory passes the check\<close>

lemma write_allD: "write_all out fs = (w, Inr ()) \<Longrightarrow> w = fs"
  by (induction fs arbitrary: w) (auto split: sum.splits prod.splits)

lemma SOURCES_distinct [simp]: "distinct SOURCES"
  by (simp add: SOURCES_def APPROVED_def)

lemma read_sources:
  "map_res (\<lambda>name. bindr (f name) (\<lambda>data. Inr (name, data))) names = Inr sources \<Longrightarrow> map fst sources = names"
  by (induction names arbitrary: sources) (auto simp: res_simps)

lemma read_sources_data:
  "map_res (\<lambda>name. bindr (f name) (\<lambda>data. Inr (name, data))) names = Inr sources \<Longrightarrow> (n, x) \<in> set sources \<Longrightarrow> f n = Inr x"
  by (induction names arbitrary: sources) (auto simp: res_simps)

lemma prepare_inputsD:
  assumes "prepare_inputs sha i p pf argv rid = Inr (policy_bytes, policy, run_id, sources)"
  shows "parse_policy policy_bytes = Inr policy \<and> valid_argv (JArr (map JStr argv)) \<and> is_absolute (hd argv) \<and> fullmatch_hex 32 run_id \<and>
    map fst sources = SOURCES \<and> (\<forall>(n, x) \<in> set sources. length x \<le> MiB2) \<and>
    list_all (\<lambda>(name, h). map_option sha (map_of sources name) = Some h) APPROVED \<and> policy_bytes = fv_first pf"
proof -
  from assms have a: "read_regular 16384 pf = Inr policy_bytes" "parse_policy policy_bytes = Inr policy" "valid_argv (JArr (map JStr argv))"
    "is_absolute (hd argv)" "fullmatch_hex 32 run_id"
    "list_all (\<lambda>(name, h). map_option sha (map_of sources name) = Some h) APPROVED"
    and s: "map_res (\<lambda>name. bindr (read_regular MiB2 (in_source i name)) (\<lambda>data. Inr (name, data))) SOURCES = Inr sources"
    unfolding prepare_inputs_def Let_def bindr_Inr_iff requires_Inr_iff by auto
  have "length x \<le> MiB2" if "(n, x) \<in> set sources" for n x
    using read_regularD [OF read_sources_data [OF s that]] by blast
  then show ?thesis using a read_sources [OF s] read_regularD [OF a(1)] by auto
qed

definition prepared_files :: "(string \<Rightarrow> string) \<Rightarrow> installation \<Rightarrow> place \<Rightarrow> string \<Rightarrow> json \<Rightarrow> string list \<Rightarrow> string \<Rightarrow>
    (string \<times> string) list \<Rightarrow> (string \<times> string) list" where
  "prepared_files sha i p policy_bytes policy argv run_id sources =
     (''policy.snapshot.json'', policy_bytes) # map (\<lambda>(name, data). (''sources/'' @ name, data)) sources @
       [(''manifest.json'', encoded (manifest_json sha i p policy_bytes policy argv run_id sources))]"

lemma prepareD:
  assumes "prepare sha i p pf argv rid = (files, Inr ())"
  obtains policy_bytes policy run_id sources where
    "prepare_inputs sha i p pf argv rid = Inr (policy_bytes, policy, run_id, sources)"
    "files = prepared_files sha i p policy_bytes policy argv run_id sources"
  using assms unfolding prepare_def prepared_files_def
  by (auto dest!: write_allD split: sum.splits prod.splits simp: Let_def)

definition installed :: "(string \<Rightarrow> bool option) \<Rightarrow> installation \<Rightarrow> place \<Rightarrow> bool" where
  "installed utc_offset i p \<longleftrightarrow> is_absolute (in_python i) \<and> is_absolute (in_repo i) \<and> is_absolute (in_tools i) \<and>
     utc_offset (in_utc i) = Some True \<and> is_absolute (pl_path p) \<and> 0 \<le> fs_dev (pl_dir p) \<and> 0 \<le> fs_ino (pl_dir p) \<and> 0 \<le> fs_uid (pl_dir p)"

lemma manifest_get:
  "jget (manifest_json sha i p pb policy argv rid sources) ''schema'' = JInt 1"
  "jget (manifest_json sha i p pb policy argv rid sources) ''run_id'' = JStr rid"
  "jget (manifest_json sha i p pb policy argv rid sources) ''state'' = JStr ''prepared''"
  "jget (manifest_json sha i p pb policy argv rid sources) ''role'' = JStr ''probe''"
  "jget (manifest_json sha i p pb policy argv rid sources) ''policy'' = file_ref sha ''policy.snapshot.json'' pb"
  "jget (manifest_json sha i p pb policy argv rid sources) ''effective_limits'' = policy"
  "jget (manifest_json sha i p pb policy argv rid sources) ''target_argv'' = JArr (map JStr argv)"
  "jget (manifest_json sha i p pb policy argv rid sources) ''python'' = JStr (in_python i)"
  "jget (manifest_json sha i p pb policy argv rid sources) ''cwd'' = JStr (in_repo i)"
  "jget (manifest_json sha i p pb policy argv rid sources) ''tool_directory'' = JStr (in_tools i)"
  "jget (manifest_json sha i p pb policy argv rid sources) ''environment'' = ENVIRONMENT"
  "jget (manifest_json sha i p pb policy argv rid sources) ''tool_sources'' =
     JObj (map (\<lambda>(name, data). (name, file_ref sha (''sources/'' @ name) data)) sources)"
  "jget (manifest_json sha i p pb policy argv rid sources) ''launch_intent_utc'' = JStr (in_utc i)"
  "jget (manifest_json sha i p pb policy argv rid sources) ''evidence_directory'' =
     JObj [(''path'', JStr (pl_path p)), (''device'', JInt (fs_dev (pl_dir p))), (''inode'', JInt (fs_ino (pl_dir p))), (''uid'', JInt (fs_uid (pl_dir p)))]"
  "jget (manifest_json sha i p pb policy argv rid sources) ''runner_argv'' =
     runner_argv (JObj (manifest_base sha i p pb policy argv rid sources)) policy"
  by (simp_all add: manifest_json_def manifest_base_def Let_def jget_def)

lemma base_get:
  "jget (JObj (manifest_base sha i p pb policy argv rid sources)) ''python'' = JStr (in_python i)"
  "jget (JObj (manifest_base sha i p pb policy argv rid sources)) ''tool_directory'' = JStr (in_tools i)"
  "jget (jget (JObj (manifest_base sha i p pb policy argv rid sources)) ''evidence_directory'') ''path'' = JStr (pl_path p)"
  "jget (JObj (manifest_base sha i p pb policy argv rid sources)) ''cwd'' = JStr (in_repo i)"
  "jget (JObj (manifest_base sha i p pb policy argv rid sources)) ''target_argv'' = JArr (map JStr argv)"
  by (simp_all add: manifest_base_def jget_def)

lemma json_ok_file_ref: "json_ok (file_ref sha path data)"
  by (simp add: file_ref_def json_ok_def)

lemma json_ok_env: "json_ok ENVIRONMENT"
  by (simp add: ENVIRONMENT_def json_ok_def)

lemma json_ok_JObj: "json_ok (JObj kvs) \<longleftrightarrow> distinct (map fst kvs) \<and> (\<forall>(k, v) \<in> set kvs. json_ok v)"
  by (auto simp: json_ok_def)

lemma json_ok_sources:
  "distinct (map fst sources) \<Longrightarrow> json_ok (JObj (map (\<lambda>(name, data). (name, file_ref sha (g name) data)) sources))"
  by (auto simp: json_ok_JObj json_ok_file_ref comp_def case_prod_beta)

lemma json_ok_manifest:
  assumes "json_ok policy" "distinct (map fst sources)"
  shows "json_ok (manifest_json sha i p pb policy argv rid sources)"
proof -
  have r: "json_ok (runner_argv (JObj (manifest_base sha i p pb policy argv rid sources)) policy)"
    unfolding runner_argv_def base_get by (auto simp: json_ok_def)
  have d: "json_ok (JObj [(''path'', JStr a), (''device'', JInt b), (''inode'', JInt c), (''uid'', JInt e)])" for a b c e
    by (simp add: json_ok_def)
  have a: "json_ok (JArr (map JStr argv))" "json_ok (JStr s)" "json_ok (JInt n)" for s n by (auto simp: json_ok_def)
  show ?thesis
    unfolding manifest_json_def Let_def json_ok_JObj
    using r d a assms json_ok_sources [OF assms(2)] json_ok_env json_ok_file_ref
    by (simp add: manifest_base_def)
qed

lemma jget_sorted: "json_ok v \<Longrightarrow> jget (sort_keys v) k = sort_keys (jget v k)"
  by (simp add: jget_sort_keys json_ok_def)

lemma keys_are_sorted: "keys_are (sort_keys v) ks = keys_are v ks"
proof -
  have "set (keys (sort_keys v)) = set (keys v)" using has_key_sort_keys [of v] by (auto simp: has_key_def)
  moreover have "is_dict (sort_keys v) = is_dict v" by (cases v) simp_all
  ultimately show ?thesis by (simp add: keys_are_def)
qed

lemma sort_keys_strings: "sort_keys (JArr (map JStr xs)) = JArr (map JStr xs)"
  by (simp add: comp_def)

lemma sort_keys_eq_atom: "sort_keys v = JInt n \<longleftrightarrow> v = JInt n" "sort_keys v = JStr s \<longleftrightarrow> v = JStr s"
  by (cases v; simp)+

lemma ref_get:
  "jget (sort_keys (file_ref sha path data)) ''path'' = JStr path" "ref_matches sha (sort_keys (file_ref sha path data)) data"
  "keys_are (file_ref sha path data) [''path'', ''sha256'', ''bytes'']"
  "jget (sort_keys (file_ref sha path data)) ''sha256'' = JStr (sha data)"
  using json_ok_file_ref [of sha path data]
  by (simp_all add: ref_matches_def jget_sorted) (simp_all add: file_ref_def jget_def keys_are_def keys_def)

lemma env_accepted: "py_eq (sort_keys ENVIRONMENT) ENVIRONMENT"
  by code_simp

lemma runner_argv_cong:
  assumes "jget m ''python'' = jget m' ''python''" "jget m ''tool_directory'' = jget m' ''tool_directory''"
    "jget (jget m ''evidence_directory'') ''path'' = jget (jget m' ''evidence_directory'') ''path''" "jget m ''cwd'' = jget m' ''cwd''"
    "jget m ''target_argv'' = jget m' ''target_argv''"
  shows "runner_argv m policy = runner_argv m' policy"
  unfolding runner_argv_def assms ..

lemma sorted_get:
  assumes "json_ok policy" "distinct (map fst sources)"
  shows "jget (sort_keys (manifest_json sha i p pb policy argv rid sources)) k = sort_keys (jget (manifest_json sha i p pb policy argv rid sources) k)"
  by (rule jget_sorted [OF json_ok_manifest [OF assms]])

lemma header_accepted:
  assumes "json_ok policy" "distinct (map fst sources)" "fullmatch_hex 32 rid" "utc_offset (in_utc i) = Some True"
  shows "check_header utc_offset (sort_keys (manifest_json sha i p pb policy argv rid sources)) = Inr ()"
proof -
  have "keys_are (manifest_json sha i p pb policy argv rid sources) MANIFEST_FIELDS"
    by (simp add: keys_are_def manifest_json_def manifest_base_def MANIFEST_FIELDS_def keys_def Let_def insert_commute)
  then show ?thesis
    unfolding check_header_def sorted_get [OF assms(1,2)] manifest_get
    using assms(3,4) by (simp add: requires_def keys_are_sorted ref_get)
qed

lemma sorted_runner_argv:
  assumes "json_ok policy" "distinct (map fst sources)"
  shows "runner_argv (sort_keys (manifest_json sha i p pb policy argv rid sources)) policy =
    runner_argv (JObj (manifest_base sha i p pb policy argv rid sources)) policy"
proof (rule runner_argv_cong)
  let ?m = "manifest_json sha i p pb policy argv rid sources"
  have "jget (jget (sort_keys ?m) ''evidence_directory'') ''path'' = JStr (pl_path p)"
    unfolding sorted_get [OF assms] manifest_get by (subst jget_sorted) (simp_all add: json_ok_def, simp add: jget_def)
  then show "jget (jget (sort_keys ?m) ''evidence_directory'') ''path'' = jget (jget (JObj (manifest_base sha i p pb policy argv rid sources)) ''evidence_directory'') ''path''"
    by (simp only: base_get)
qed (simp_all add: sorted_get [OF assms] manifest_get base_get comp_def)

lemma invocation_accepted:
  assumes ok: "json_ok policy" "distinct (map fst sources)" and names: "map fst sources = SOURCES"
    and argv: "valid_argv (JArr (map JStr argv))" "is_absolute (hd argv)" and inst: "installed utc_offset i p"
  shows "check_invocation (sort_keys (manifest_json sha i p pb policy argv rid sources)) policy = Inr ()"
proof -
  let ?m = "manifest_json sha i p pb policy argv rid sources"
  let ?ed = "JObj [(''path'', JStr (pl_path p)), (''device'', JInt (fs_dev (pl_dir p))), (''inode'', JInt (fs_ino (pl_dir p))), (''uid'', JInt (fs_uid (pl_dir p)))]"
  have ed: "jget (sort_keys ?ed) k = sort_keys (jget ?ed k)" for k by (rule jget_sorted) (simp add: json_ok_def)
  have edg: "jget ?ed ''path'' = JStr (pl_path p)" "jget ?ed ''device'' = JInt (fs_dev (pl_dir p))" "jget ?ed ''inode'' = JInt (fs_ino (pl_dir p))"
    "jget ?ed ''uid'' = JInt (fs_uid (pl_dir p))" "keys_are ?ed [''path'', ''device'', ''inode'', ''uid'']"
    by (simp_all add: jget_def keys_are_def keys_def)
  have limits: "encoded (sort_keys policy) = encoded policy" by (simp add: encoded_def dumps_indent_def sort_keys_idem)
  have src: "keys_are (JObj (map (\<lambda>(name, data). (name, file_ref sha (''sources/'' @ name) data)) sources)) SOURCES"
    unfolding names [symmetric] by (auto simp: keys_are_def keys_def comp_def case_prod_beta image_image)
  have args: "sort_keys (runner_argv (JObj (manifest_base sha i p pb policy argv rid sources)) policy) =
    runner_argv (JObj (manifest_base sha i p pb policy argv rid sources)) policy"
    unfolding runner_argv_def base_get by (simp add: comp_def)
  have ne: "argv \<noteq> []" using argv(1) by (simp add: valid_argv_def)
  have inst': "is_absolute (in_python i)" "is_absolute (in_repo i)" "is_absolute (in_tools i)" "is_absolute (pl_path p)"
    "0 \<le> fs_dev (pl_dir p)" "0 \<le> fs_ino (pl_dir p)" "0 \<le> fs_uid (pl_dir p)" using inst by (simp_all add: installed_def)
  have abs: "absolute_str (JStr s) = is_absolute s" "natural (JInt n) = (0 \<le> n)" for s n by (simp_all add: absolute_str_def natural_def)
  show ?thesis
    unfolding check_invocation_def Let_def sorted_runner_argv [OF ok]
    unfolding sorted_get [OF ok] manifest_get ed edg args limits keys_are_sorted sort_keys_strings
    using inst' edg(5) src argv ne env_accepted
    by (simp add: requires_def abs hd_map ed edg manifest_get)
qed

lemma sources_accepted:
  assumes ok: "json_ok policy" "distinct (map fst sources)"
    and dir: "\<forall>(n, x) \<in> set sources. undisturbed x (ed_file d (''sources/'' @ n)) \<and> length x \<le> MiB2"
    and appr: "list_all (\<lambda>(name, h). map_option sha (map_of sources name) = Some h) APPROVED" and name: "name \<in> set (map fst sources)"
  shows "check_source sha d (sort_keys (manifest_json sha i p pb policy argv rid sources)) name u = Inr ()"
proof -
  from name obtain x where x: "(name, x) \<in> set sources" by auto
  then have mo: "map_of sources name = Some x" using ok(2) by simp
  let ?ts = "JObj (map (\<lambda>(name, data). (name, file_ref sha (''sources/'' @ name) data)) sources)"
  have "map_of (map (\<lambda>(name, data). (name, file_ref sha (''sources/'' @ name) data)) sources) name = Some (file_ref sha (''sources/'' @ name) x)"
    using x ok(2) by (intro map_of_is_SomeI) (auto simp: comp_def case_prod_beta intro!: image_eqI [of _ _ "(name, x)"])
  then have ref: "jget ?ts name = file_ref sha (''sources/'' @ name) x" by (simp add: jget_def)
  have g: "jget (jget (sort_keys (manifest_json sha i p pb policy argv rid sources)) ''tool_sources'') name =
      sort_keys (file_ref sha (''sources/'' @ name) x)"
    unfolding sorted_get [OF ok] manifest_get jget_sorted [OF json_ok_sources [OF ok(2)]] ref ..
  have rd: "read_regular MiB2 (ed_file d (''sources/'' @ name)) = Inr x" using dir x read_undisturbed by blast
  have "sha x = h" if "map_of APPROVED name = Some h" for h
    using appr map_of_SomeD [OF that] mo by (auto simp: list_all_iff)
  then show ?thesis
    unfolding check_source_def Let_def g rd bindr_simps keys_are_sorted
    using ref_get [of sha "''sources/'' @ name" x]
    by (simp add: requires_def split: option.split)
qed

lemma prepared_accepted:
  assumes prep: "prepare sha i p pf argv rid = (files, Inr ())" and inst: "installed utc_offset i p"
    and dir: "\<not> ed_symlink d" "\<not> ed_sources_symlink d" "\<forall>(n, x) \<in> set files. undisturbed x (ed_file d n) \<and> length x \<le> MiB2"
  obtains m policy where "check_binding utc_offset sha d = Inr (m, policy)" "parse_policy (fv_first pf) = Inr policy"
    "jget m ''target_argv'' = JArr (map JStr argv)"
proof -
  from prep obtain pb policy run_id sources where inp: "prepare_inputs sha i p pf argv rid = Inr (pb, policy, run_id, sources)"
    and files: "files = prepared_files sha i p pb policy argv run_id sources" by (rule prepareD)
  note d = prepare_inputsD [OF inp]
  have pol: "parse_policy pb = Inr policy" and names: "map fst sources = SOURCES" using d by blast+
  have ok: "json_ok policy" "distinct (map fst sources)"
    using parse_policyD [OF pol] names by (simp_all add: policy_sane_def)
  let ?m = "manifest_json sha i p pb policy argv run_id sources"
  have f: "(''policy.snapshot.json'', pb) \<in> set files" "(''manifest.json'', encoded ?m) \<in> set files"
    "\<And>n x. (n, x) \<in> set sources \<Longrightarrow> (''sources/'' @ n, x) \<in> set files"
    by (auto simp: files prepared_files_def)
  have rm: "read_regular MiB2 (ed_file d ''manifest.json'') = Inr (encoded ?m)"
    using dir(3) f(2) read_undisturbed by blast
  have "length pb \<le> 16384" using parse_policyD [OF pol] by blast
  then have rp: "read_regular 16384 (ed_file d ''policy.snapshot.json'') = Inr pb"
    using dir(3) f(1) read_undisturbed by blast
  have dec: "decode_evidence (encoded ?m) = Inr (sort_keys ?m)"
    by (simp add: decode_evidence_def encoded_codec.read_render json_ok_manifest [OF ok])
  have hdr: "check_header utc_offset (sort_keys ?m) = Inr ()"
    using header_accepted [OF ok] d inst by (simp add: installed_def)
  have ref: "ref_matches sha (jget (sort_keys ?m) ''policy'') pb"
    unfolding sorted_get [OF ok] manifest_get by (rule ref_get)
  have inv: "check_invocation (sort_keys ?m) policy = Inr ()"
    using invocation_accepted [OF ok names _ _ inst] d by blast
  have "\<forall>name \<in> set SOURCES. check_source sha d (sort_keys ?m) name () = Inr ()"
  proof
    fix name assume "name \<in> set SOURCES"
    moreover have "\<forall>(n, x) \<in> set sources. undisturbed x (ed_file d (''sources/'' @ n)) \<and> length x \<le> MiB2" using dir(3) f(3) by fastforce
    ultimately show "check_source sha d (sort_keys ?m) name () = Inr ()" using sources_accepted [OF ok] d names by simp
  qed
  then have src: "fold_res (check_source sha d (sort_keys ?m)) SOURCES () = Inr ()" by (simp only: fold_unit)
  show thesis
  proof (rule that)
    show "check_binding utc_offset sha d = Inr (sort_keys ?m, policy)"
      unfolding check_binding_def using dir(1,2) ref by (simp add: rm dec hdr rp pol inv src)
    show "parse_policy (fv_first pf) = Inr policy" using d by blast
    show "jget (sort_keys ?m) ''target_argv'' = JArr (map JStr argv)" unfolding sorted_get [OF ok] manifest_get by (rule sort_keys_strings)
  qed
qed

section \<open>An example installation\<close>

text \<open>A bound on the length of an encoded value that is cheap to compute.\<close>

fun weight :: "nat \<Rightarrow> json \<Rightarrow> nat" where
  "weight l (JInt n) = length (show_int n)"
| "weight l (JFloat m e) = length (float_repr m e)"
| "weight l (JStr s) = 6 * length s + 2"
| "weight l (JArr xs) = 2 * l + 4 + sum_list (map (\<lambda>x. 2 * l + 5 + weight (Suc l) x) xs)"
| "weight l (JObj kvs) = 2 * l + 4 + sum_list (map (\<lambda>(k, x). 2 * l + 9 + 6 * length k + weight (Suc l) x) kvs)"
| "weight l v = 5"

lemma length_esc: "length (esc c) \<le> 6"
  by (simp add: esc_def Let_def)

lemma length_dump_str: "length (dump_str s) \<le> 6 * length s + 2"
proof -
  have "length (concat (map esc s)) \<le> 6 * length s"
    using length_esc by (induction s) (auto intro: add_mono order_trans)
  then show ?thesis by (simp add: dump_str_def)
qed

lemma length_join: "xs \<noteq> [] \<Longrightarrow> length (join sep xs) + length sep = sum_list (map (\<lambda>x. length sep + length x) xs)"
proof (induction xs)
  case (Cons x xs)
  then show ?case by (cases xs) simp_all
qed simp

lemma length_newline: "length (newline True l) = 2 * l + 1" "length (separator True l) = 2 * l + 2"
  by (simp_all add: newline_def separator_def)

lemma length_dump: "length (dump True l v) \<le> weight l v"
proof (induction v arbitrary: l)
  case (JArr xs)
  have "sum_list (map (\<lambda>x. 2 * Suc l + 2 + length (dump True (Suc l) x)) xs) \<le> sum_list (map (\<lambda>x. 2 * l + 5 + weight (Suc l) x) xs)"
    by (rule sum_list_mono) (use JArr in \<open>auto intro: le_SucI\<close>)
  then show ?case
    using length_join [of "map (dump True (Suc l)) xs" "separator True (Suc l)"]
    by (auto simp: length_newline comp_def)
next
  case (JObj kvs)
  have "length (dump_str k @ '': '' @ dump True (Suc l) x) \<le> 6 * length k + 4 + weight (Suc l) x" if "(k, x) \<in> set kvs" for k x
    using length_dump_str [of k] JObj [OF that, of x "Suc l"] by (simp add: snds.simps)
  then have le: "sum_list (map (\<lambda>(k, x). 2 * Suc l + 2 + length (dump_str k @ '': '' @ dump True (Suc l) x)) kvs) \<le>
      sum_list (map (\<lambda>(k, x). 2 * l + 9 + 6 * length k + weight (Suc l) x) kvs)"
    by (intro sum_list_mono) (auto, fastforce)
  show ?case
    unfolding dump.simps weight.simps case_prod_beta
    using le [unfolded case_prod_beta] length_join [of "map (\<lambda>p. dump_str (fst p) @ '': '' @ dump True (Suc l) (snd p)) kvs" "separator True (Suc l)"]
    by (auto simp: length_newline comp_def)
qed (simp_all add: length_dump_str [simplified])

lemma sum_list_sort_key: "sum_list (map f (sort_key g xs)) = sum_list (map f xs)" for f :: "'a \<Rightarrow> nat"
proof -
  have "mset (map f (sort_key g xs)) = mset (map f xs)" by simp
  then show ?thesis by (metis sum_mset_sum_list)
qed

lemma weight_sort_keys: "weight l (sort_keys v) = weight l v"
proof (induction v arbitrary: l)
  case (JArr xs)
  then show ?case by (simp add: comp_def cong: map_cong)
next
  case (JObj kvs)
  have "(\<lambda>(k, x). 2 * l + 9 + 6 * length k + weight (Suc l) x) (case kx of (k, v) \<Rightarrow> (k, sort_keys v)) =
      (\<lambda>(k, x). 2 * l + 9 + 6 * length k + weight (Suc l) x) kx" if "kx \<in> set kvs" for kx
    using JObj that by (cases kx) auto
  then show ?case by (simp add: sum_list_sort_key comp_def cong: map_cong)
qed simp_all

lemma length_encoded: "length (encoded v) \<le> Suc (weight 0 v)"
  using length_dump [of 0 "sort_keys v"] by (simp add: encoded_def dumps_indent_def weight_sort_keys)

definition example_policy :: json where
  "example_policy = JObj ([(''schema'', JInt 1), (''wall_seconds'', JInt 3), (''barrier_seconds'', JInt 2), (''outer_seconds'', JInt 8)] @ FIXED)"

definition quiet_view :: "string \<Rightarrow> file_view" where
  "quiet_view data = \<lparr>fv_open = Inr (), fv_before = private_stat data, fv_first = data, fv_second = data,
     fv_after = private_stat data, fv_current = Inr (private_stat data)\<rparr>"

lemma quiet_undisturbed: "undisturbed data (quiet_view data)"
  by (simp add: undisturbed_def quiet_view_def private_stat_def)

lemma example_policy_weight: "weight 0 example_policy \<le> 5000"
  by (simp add: example_policy_def FIXED_def show_int_def show_nat.simps float_repr_def Let_def)

lemma example_policy_ok: "json_ok example_policy"
  by (simp add: example_policy_def FIXED_def json_ok_def float_ok_def)

lemma example_policy_parses: "parse_policy (encoded example_policy) = Inr (sort_keys example_policy)"
proof -
  note ok = example_policy_ok
  have dec: "decode_evidence (encoded example_policy) = Inr (sort_keys example_policy)"
    by (simp add: decode_evidence_def encoded_codec.read_render [OF ok])
  have get: "jget example_policy ''schema'' = JInt 1" "jget example_policy ''wall_seconds'' = JInt 3"
    "jget example_policy ''barrier_seconds'' = JInt 2" "jget example_policy ''outer_seconds'' = JInt 8"
    by (simp_all add: example_policy_def jget_def)
  have keys: "keys_are (sort_keys example_policy) POLICY_FIELDS"
    unfolding keys_are_sorted by (simp add: keys_are_def keys_def example_policy_def POLICY_FIELDS_def)
  have "list_all (\<lambda>(key, fixed). jget example_policy key = fixed) FIXED"
    by (simp add: example_policy_def FIXED_def jget_def)
  then have "list_all (\<lambda>(key, fixed). dumps (jget (sort_keys example_policy) key) = dumps fixed) FIXED"
    by (auto simp: list_all_iff jget_sorted [OF ok] dumps_def sort_keys_idem)
  moreover have "0 < length (encoded example_policy)" "length (encoded example_policy) \<le> 16384"
    using length_encoded [of example_policy] example_policy_weight by (simp_all add: encoded_def)
  moreover have "list_all (\<lambda>(key, maximum). duration_ok (jget (sort_keys example_policy) key) maximum) DURATIONS"
    by (simp add: DURATIONS_def duration_ok_def jget_sorted [OF ok] get is_number_def number_def dec_le_def dec_scale_def)
  ultimately show ?thesis
    unfolding parse_policy_iff using dec keys
    by (simp add: jget_sorted [OF ok] get number_def dec_le_def dec_scale_def)
qed

text \<open>The example hash is the identity, so a source with an approved hash is that hash.\<close>

definition example_source :: "string \<Rightarrow> string" where
  "example_source name = (case map_of APPROVED name of Some h \<Rightarrow> h | None \<Rightarrow> ''x'')"

definition example_installation :: installation where
  "example_installation = \<lparr>in_repo = ''/r'', in_tools = ''/r/t'', in_python = ''/p'', in_utc = ''u'',
     in_uuid = ''0123456789abcdef0123456789abcdef'', in_runs = (\<lambda>_. True), in_source = (\<lambda>name. quiet_view (example_source name))\<rparr>"

definition example_place :: place where
  "example_place = \<lparr>pl_symlink = False, pl_sources_symlink = False, pl_path = ''/e'', pl_in_repo = False, pl_mkdir = Inr (),
     pl_mkdir_sources = Inr (), pl_dir = private_stat [], pl_write = (\<lambda>_. Inr ()), pl_snapshot = quiet_view (encoded example_policy)\<rparr>"

definition example_sources :: "(string \<times> string) list" where
  "example_sources = map (\<lambda>name. (name, example_source name)) SOURCES"

lemma example_source_length: "length (example_source name) \<le> 64"
  by (auto simp: example_source_def APPROVED_def RUN_CHECK_SHA_def)

lemma read_quiet: "length data \<le> limit \<Longrightarrow> read_regular limit (quiet_view data) = Inr data"
  by (rule read_undisturbed [OF quiet_undisturbed])

lemma example_inputs:
  "prepare_inputs (\<lambda>x. x) example_installation example_place (quiet_view (encoded example_policy)) [''/x''] None =
     Inr (encoded example_policy, sort_keys example_policy, ''0123456789abcdef0123456789abcdef'', example_sources)"
proof -
  have src: "read_regular MiB2 (quiet_view (example_source name)) = Inr (example_source name)" for name
    by (rule read_quiet) (use example_source_length [of name] in \<open>simp add: MiB2_def\<close>)
  have "map_res (\<lambda>name. bindr (read_regular MiB2 (in_source example_installation name)) (\<lambda>data. Inr (name, data))) SOURCES = Inr example_sources"
    unfolding example_sources_def by (rule map_res_all_Inr) (simp add: example_installation_def src)
  moreover have "list_all (\<lambda>(name, h). map_option (\<lambda>x. x) (map_of example_sources name) = Some h) APPROVED"
    by code_simp
  moreover have "length (encoded example_policy) \<le> 16384"
    using length_encoded [of example_policy] example_policy_weight by simp
  moreover have "fullmatch_hex 32 ''0123456789abcdef0123456789abcdef''" "valid_argv (JArr (map JStr [''/x'']))" "is_absolute (hd [''/x''])"
    by code_simp+
  ultimately show ?thesis
    by (simp add: prepare_inputs_def read_quiet example_policy_parses example_place_def Let_def)
      (simp add: example_installation_def)
qed

definition example_manifest :: json where
  "example_manifest = manifest_json (\<lambda>x. x) example_installation example_place (encoded example_policy) (sort_keys example_policy) [''/x'']
     ''0123456789abcdef0123456789abcdef'' example_sources"

lemma length_show_nat: "n < 10 ^ Suc k \<Longrightarrow> length (show_nat n) \<le> Suc k"
proof (induction k arbitrary: n)
  case 0
  then show ?case by (subst show_nat.simps) simp
next
  case (Suc k)
  then have "n div 10 < 10 ^ Suc k" by (simp add: less_mult_imp_div_less mult.commute)
  with Suc.IH show ?case by (subst show_nat.simps) simp
qed


lemma example_manifest_bound: "length (encoded example_manifest) \<le> 200001"
proof -
  have p: "length (encoded example_policy) \<le> 5001" using length_encoded [of example_policy] example_policy_weight by simp
  have ref: "weight 1 (file_ref (\<lambda>x. x) path data) \<le> 6 * length path + 30200" if "length data \<le> 5001" for path data
    using length_show_nat [of "length data" 9] that by (simp add: file_ref_def show_int_def)
  have ref2: "weight 2 (file_ref (\<lambda>x. x) path data) \<le> 6 * length path + 600" if "length data \<le> 64" for path data
    using length_show_nat [of "length data" 9] that by (simp add: file_ref_def show_int_def)
  have "weight 1 (sort_keys example_policy) \<le> 6000"
    unfolding weight_sort_keys by (simp add: example_policy_def FIXED_def show_int_def show_nat.simps float_repr_def Let_def)
  moreover have "weight 1 ENVIRONMENT \<le> 5000" by (simp add: ENVIRONMENT_def)
  moreover have "weight 1 (JObj (map (\<lambda>(name, data). (name, file_ref (\<lambda>x. x) (''sources/'' @ name) data)) example_sources)) \<le> 20000"
  proof -
    have r: "weight (Suc (Suc 0)) (file_ref (\<lambda>x. x) (''sources/'' @ name) (example_source name)) \<le> 1000" if "length name \<le> 20" for name
      using ref2 [OF example_source_length, of "''sources/'' @ name" name] that by (simp add: numeral_2_eq_2)
    show ?thesis
      using r [of "''run_check.py''"] r [of "''supervise.py''"] r [of "''processes.py''"] r [of "''policy_binding.py''"]
        r [of "''policy_launch.py''"] r [of "''policy_verify.py''"]
      by (simp add: example_sources_def SOURCES_def APPROVED_def)
  qed
  moreover note ref [OF p, of "''policy.snapshot.json''"]
  moreover have wall: "jget (sort_keys example_policy) ''wall_seconds'' = JInt 3"
    unfolding jget_sorted [OF example_policy_ok] by (simp add: example_policy_def jget_def)
  ultimately have "weight 0 example_manifest \<le> 200000"
    unfolding example_manifest_def manifest_json_def Let_def runner_argv_def base_get wall
    by (simp add: manifest_base_def example_installation_def py_str_number_def
        example_place_def private_stat_def show_int_def show_nat.simps joined_def path_root_def path_parts_def py_startswith_def is_absolute_def)
  then show ?thesis using length_encoded [of example_manifest] by simp
qed

lemma example_manifest_length: "length (encoded example_manifest) \<le> MiB2"
  using example_manifest_bound by (simp add: MiB2_def)

definition example_files :: "(string \<times> string) list" where
  "example_files = prepared_files (\<lambda>x. x) example_installation example_place (encoded example_policy) (sort_keys example_policy) [''/x'']
     ''0123456789abcdef0123456789abcdef'' example_sources"

lemma write_all_ok: "(\<And>n. out n = Inr ()) \<Longrightarrow> write_all out fs = (fs, Inr ())"
  by (induction fs) auto

lemma example_prepare:
  "prepare (\<lambda>x. x) example_installation example_place (quiet_view (encoded example_policy)) [''/x''] None = (example_files, Inr ())"
proof -
  have "length (encoded example_policy) \<le> MiB2" using length_encoded [of example_policy] example_policy_weight by (simp add: MiB2_def)
  moreover have "pl_write example_place = (\<lambda>_. Inr ())" "pl_mkdir_sources example_place = Inr ()" "pl_snapshot example_place = quiet_view (encoded example_policy)"
    by (simp_all add: example_place_def)
  ultimately show ?thesis
    unfolding prepare_def example_inputs
    by (simp add: Let_def read_quiet write_all_ok example_files_def prepared_files_def)
qed

definition example_dir :: evidence_dir where
  "example_dir = \<lparr>ed_symlink = False, ed_sources_symlink = False,
     ed_file = (\<lambda>name. quiet_view (case map_of example_files name of Some x \<Rightarrow> x | None \<Rightarrow> []))\<rparr>"

lemma example_files_names: "distinct (map fst example_files)"
  by (simp add: example_files_def prepared_files_def example_sources_def SOURCES_def APPROVED_def)

lemma example_files_small: "(n, x) \<in> set example_files \<Longrightarrow> length x \<le> MiB2"
proof -
  have "length (encoded example_policy) \<le> MiB2" using length_encoded [of example_policy] example_policy_weight by (simp add: MiB2_def)
  moreover have "length (example_source name) \<le> MiB2" for name using example_source_length [of name] by (simp add: MiB2_def)
  moreover note example_manifest_length
  ultimately show "(n, x) \<in> set example_files \<Longrightarrow> length x \<le> MiB2"
    by (auto simp: example_files_def prepared_files_def example_sources_def example_manifest_def)
qed

lemma example_dir_holds: "\<forall>(n, x) \<in> set example_files. undisturbed x (ed_file example_dir n) \<and> length x \<le> MiB2"
proof
  fix f assume "f \<in> set example_files"
  moreover obtain n x where "f = (n, x)" by (rule prod.exhaust)
  ultimately have f: "f = (n, x)" "(n, x) \<in> set example_files" by simp_all
  then have "map_of example_files n = Some x" using example_files_names by simp
  then have "ed_file example_dir n = quiet_view x" by (simp add: example_dir_def)
  then show "case f of (n, x) \<Rightarrow> undisturbed x (ed_file example_dir n) \<and> length x \<le> MiB2"
    using f quiet_undisturbed [of x] example_files_small [OF f(2)] by simp
qed

lemma example_installed: "installed (\<lambda>_. Some True) example_installation example_place"
  by (simp add: installed_def example_installation_def example_place_def private_stat_def is_absolute_def py_startswith_def)

section \<open>Properties\<close>

text \<open>
  C16: a bounded read returns the whole file or nothing: what it returns is what the file held at
  both reads, within the limit, of a regular file with one link that the path still names.
\<close>

theorem read_regular_stable:
  assumes "read_regular limit v = Inr data"
  shows "data = fv_first v \<and> data = fv_second v \<and> length data \<le> limit \<and> fs_regular (fv_before v) \<and> fs_nlink (fv_before v) = 1 \<and>
    (\<exists>c. fv_current v = Inr c \<and> stat_key c = stat_key (fv_before v))"
  using read_regularD [OF assms] .

theorem read_regular_stable_witness: "read_regular 10 (quiet_view ''abc'') = Inr ''abc'' \<and> fv_second (quiet_view ''abc'') = ''abc''"
  using read_regular_stable [OF read_quiet [of "''abc''" 10]] read_quiet [of "''abc''" 10] by simp



text \<open>
  C18: a directory that passes the check holds what its manifest says: the policy snapshot and every
  tool source have the recorded size and hash, the approved tools have the approved hashes, and the
  recorded command line is the one derived from the snapshot's policy.
\<close>

theorem binding_sound:
  assumes "check_binding utc_offset sha d = Inr (m, policy)"
  shows "loads (fv_first (ed_file d ''policy.snapshot.json'')) = Some policy \<and> policy_sane policy \<and>
    ref_matches sha (jget m ''policy'') (fv_first (ed_file d ''policy.snapshot.json'')) \<and>
    (\<forall>name \<in> set SOURCES. bound_source sha d m name) \<and> jget m ''runner_argv'' = runner_argv m policy \<and>
    py_eq (jget m ''environment'') ENVIRONMENT"
proof -
  note c = check_bindingD [OF assms]
  have "jget m ''runner_argv'' = runner_argv m policy" "py_eq (jget m ''environment'') ENVIRONMENT"
    using c unfolding check_invocation_def Let_def requires_Inr_iff by blast+
  with c show ?thesis by blast
qed

theorem binding_sound_witness:
  "\<exists>m policy. check_binding (\<lambda>_. Some True) (\<lambda>x. x) example_dir = Inr (m, policy) \<and> policy_sane policy \<and>
     bound_source (\<lambda>x. x) example_dir m ''run_check.py''"
proof -
  have sym: "\<not> ed_symlink example_dir" "\<not> ed_sources_symlink example_dir" by (simp_all add: example_dir_def)
  obtain m policy where c: "check_binding (\<lambda>_. Some True) (\<lambda>x. x) example_dir = Inr (m, policy)"
    by (rule prepared_accepted [OF example_prepare example_installed sym example_dir_holds])
  have "''run_check.py'' \<in> set SOURCES" by (simp add: SOURCES_def APPROVED_def)
  with c binding_sound [OF c] show ?thesis by blast
qed

text \<open>
  C19: what \<open>prepare\<close> freezes, \<open>check_binding\<close> accepts: when the preparation succeeded and the files it
  wrote are left alone, the check returns the policy of the input file and the target's command line,
  whatever happens to the input policy afterwards.
\<close>

theorem prepare_then_check:
  assumes "prepare sha i p policy_file argv rid = (files, Inr ())" "installed utc_offset i p"
    and "\<not> ed_symlink d" "\<not> ed_sources_symlink d" "\<forall>(n, x) \<in> set files. undisturbed x (ed_file d n) \<and> length x \<le> MiB2"
  shows "\<exists>m policy. check_binding utc_offset sha d = Inr (m, policy) \<and> parse_policy (fv_first policy_file) = Inr policy \<and>
    jget m ''target_argv'' = JArr (map JStr argv)"
  using prepared_accepted [OF assms] by blast

theorem prepare_then_check_witness:
  "\<exists>m policy. check_binding (\<lambda>_. Some True) (\<lambda>x. x) example_dir = Inr (m, policy) \<and> jget m ''target_argv'' = JArr [JStr ''/x'']"
  using prepare_then_check [OF example_prepare example_installed _ _ example_dir_holds] by (auto simp: example_dir_def)

end
