(* ===== verification/Policy_Verify.thy ===== *)
theory Policy_Verify
  imports Policy_Binding
begin

text \<open>
  The verdict on an executed run, \<^verbatim>\<open>policy_verify.py\<close> and \<^verbatim>\<open>policy_launch.py\<close>: the outcome is rebuilt
  from the files of the run, never taken from a return value. \<open>exists\<close> says which files are
  there and \<open>linked\<close> whether a directory on the way to a file is a symbolic link.
\<close>

section \<open>The artifacts of a run\<close>

definition BASE :: "string list" where
  "BASE = [''supervised/supervisor.json'', ''supervised/resources.jsonl'', ''supervised/runner.stdout'', ''supervised/runner.stderr'']"

definition INNER :: "string list" where
  "INNER = [''started.json'', ''owner.json'', ''result.json'', ''stdout'', ''stderr'']"

definition ARTIFACTS :: "string list" where
  "ARTIFACTS = BASE @ map (\<lambda>n. ''supervised/inner/'' @ n) INNER"

definition content_ref :: "(string \<Rightarrow> string) \<Rightarrow> string \<Rightarrow> json" where
  "content_ref sha data = JObj [(''bytes'', JInt (int (length data))), (''sha256'', JStr (sha data))]"

text \<open>\<open>identity\<close>: a session leader.\<close>

definition is_leader :: "json \<Rightarrow> bool" where
  "is_leader v \<longleftrightarrow> is_dict v \<and> list_all (\<lambda>k. is_int (jget v k) \<and> the_int (jget v k) > 1) [''pid'', ''pgid'', ''sid''] \<and>
     jget v ''pid'' = jget v ''pgid'' \<and> jget v ''pgid'' = jget v ''sid'' \<and> is_int (jget v ''start_ticks'') \<and> the_int (jget v ''start_ticks'') \<ge> 0"

text \<open>
  Files are read once for their hash (\<open>rv_dir\<close>) and again for their contents (\<open>rv_again\<close>), and nothing
  says that the two reads see the same bytes.
\<close>

record run_view =
  rv_dir :: evidence_dir
  rv_again :: evidence_dir
  rv_exists :: "string \<Rightarrow> bool"
  rv_linked :: "string \<Rightarrow> bool"

definition collect_step :: "(string \<Rightarrow> string) \<Rightarrow> run_view \<Rightarrow> string \<Rightarrow> (string \<times> json) list \<times> string list \<Rightarrow>
    ((string \<times> json) list \<times> string list) res" where
  "collect_step sha v name acc =
     (if \<not> rv_exists v name then Inr (fst acc, snd acc @ [name])
      else needp (\<not> rv_linked v name) ''evidence parent symlink''
        (bindr (read_regular MiB2 (ed_file (rv_dir v) name)) (\<lambda>data. Inr (fst acc @ [(name, content_ref sha data)], snd acc))))"

definition collect_artifacts :: "(string \<Rightarrow> string) \<Rightarrow> run_view \<Rightarrow> ((string \<times> json) list \<times> string list) res" where
  "collect_artifacts sha v = fold_res (collect_step sha v) ARTIFACTS ([], [])"

section \<open>The outcome\<close>

record run_outcome =
  oc_run_id :: json
  oc_state :: string
  oc_manifest_sha :: string
  oc_artifacts :: "(string \<times> json) list"
  oc_missing :: "string list"
  oc_runner_owner :: json
  oc_target_owner :: json
  oc_runner_spawned :: bool
  oc_target_spawned :: bool
  oc_succeeded :: bool

definition outcome_json :: "run_outcome \<Rightarrow> json" where
  "outcome_json o' = JObj [(''schema'', JInt 1), (''run_id'', oc_run_id o'), (''state'', JStr (oc_state o')),
     (''manifest_sha256'', JStr (oc_manifest_sha o')), (''artifacts'', JObj (oc_artifacts o')),
     (''missing_evidence'', JArr (map JStr (oc_missing o'))), (''runner_owner'', oc_runner_owner o'), (''target_owner'', oc_target_owner o'),
     (''runner_spawned'', JBool (oc_runner_spawned o')), (''target_spawned'', JBool (oc_target_spawned o')), (''run_succeeded'', JBool (oc_succeeded o'))]"

text \<open>The sub-dictionary \<open>{k: d[k] for k in ks}\<close>.\<close>

definition restrict :: "json \<Rightarrow> string list \<Rightarrow> json" where
  "restrict v ks = JObj (map (\<lambda>k. (k, jget v k)) ks)"

definition SAFE_KEYS :: "string list" where
  "SAFE_KEYS = [''GOTOOLCHAIN'', ''GOPROXY'', ''GOSUMDB'', ''GOMAXPROCS'', ''DZKR_MIMCCHAIN_START_BARRIER'', ''DZKR_MIMCCHAIN_BARRIER_TIMEOUT'',
     ''DZKR_MIMCCHAIN_BARRIER_PROBE'']"

definition RUNNER_KEYS :: "string list" where
  "RUNNER_KEYS = [''GOTOOLCHAIN'', ''GOPROXY'', ''GOSUMDB'', ''GOMAXPROCS'']"

definition is_nil :: "json \<Rightarrow> bool" where "is_nil v \<longleftrightarrow> v = JArr []"

text \<open>The supervisor's record: its cleanup, the tools it was, the command lines and the budgets.\<close>

definition check_supervisor :: "json \<Rightarrow> json \<Rightarrow> json \<Rightarrow> unit res" where
  "check_supervisor m policy s =
     (let c = jget s ''cleanup'' in
      needp (is_dict s) ''malformed supervisor record''
      (needp (is_dict c) ''malformed supervisor cleanup''
      (needp (is_bool (jget c ''success'') \<and> has_key c ''direct_reaped'' \<and> (is_bool (jget c ''direct_reaped'') \<or> jget c ''direct_reaped'' = JNull) \<and>
              is_list (jget c ''errors'') \<and> has_key c ''residual_live'' \<and>
              (is_list (jget c ''residual_live'') \<or> (jget c ''success'' = JBool False \<and> jget c ''residual_live'' = JNull))) ''malformed supervisor cleanup fields''
      (needp (jget s ''runner_sha256'' = JStr RUN_CHECK_SHA \<and>
              Some (jget s ''supervisor_sha256'') = map_option JStr (map_of APPROVED ''supervise.py'')) ''supervisor source disagreement''
      (needp (py_eq (jget s ''target_argv'') (jget m ''target_argv'') \<and> py_eq (jget s ''runner_argv'') (jget m ''runner_argv'') \<and>
              jget s ''role'' = JStr ''probe'') ''actual argv mismatch''
      (needp (list_all (\<lambda>(key, source). is_number (jget s key) \<and> py_eq (jget s key) (jget policy source))
               [(''barrier_seconds'', ''barrier_seconds''), (''outer_seconds'', ''outer_seconds''), (''inner_seconds'', ''wall_seconds'')]) ''supervisor budget mismatch''
      (needp (py_eq (jget s ''safe_environment'') (restrict (jget m ''environment'') SAFE_KEYS)) ''actual environment mismatch'' (Inr ()))))))))"

text \<open>A run whose runner was never seen: nothing may claim that it ran.\<close>

definition spawn_failure :: "json \<Rightarrow> run_outcome \<Rightarrow> run_outcome res" where
  "spawn_failure s o' =
     needp (oc_runner_owner o' = JNull \<and> oc_target_owner o' = JNull \<and> jget s ''inner_result'' = JNull \<and> \<not> truthy (jget s ''observation_complete'') \<and>
            list_all (\<lambda>(n, ref). \<not> py_startswith n ''supervised/inner/'') (oc_artifacts o')) ''spawn failure contradicts execution evidence''
     (Inr (if truthy (jget s ''reason'') \<and> truthy (jget s ''errors'') then o'\<lparr>oc_state := ''spawn_failed''\<rparr> else o'))"

text \<open>The runner's own records agree with each other and with the supervisor's copies.\<close>

definition check_target_cleanup :: "json \<Rightarrow> unit res" where
  "check_target_cleanup tc =
     needp (is_dict tc) ''malformed target cleanup''
     (needp (is_bool (jget tc ''success'') \<and> is_bool (jget tc ''direct_reaped'') \<and> is_list (jget tc ''errors'') \<and> has_key tc ''direct_exit_code'' \<and>
             (is_int (jget tc ''direct_exit_code'') \<or> (jget tc ''success'' = JBool False \<and> jget tc ''direct_exit_code'' = JNull))) ''malformed target cleanup fields''
     (needp (jget tc ''success'' = JBool True \<or> has_key tc ''final'' \<longrightarrow>
             (let final = jget tc ''final'' in is_dict final \<and> is_list (jget final ''live'') \<and> is_list (jget final ''errors''))) ''malformed final cleanup observation''
     (Inr ())))"

text \<open>\<open>not line.strip()\<close> of a \<open>bytes\<close> object.\<close>

definition blank :: "string \<Rightarrow> bool" where
  "blank line \<longleftrightarrow> list_all (\<lambda>c. let n = (of_char c :: nat) in (9 \<le> n \<and> n \<le> 13) \<or> n = 32) line"

definition check_trace :: "json \<Rightarrow> json \<Rightarrow> string \<Rightarrow> unit res" where
  "check_trace s ow trace =
     bindr (map_res decode_evidence (filter (\<lambda>l. \<not> blank l) (py_splitlines trace))) (\<lambda>rows.
     needp (rows \<noteq> [] \<and> list_all is_dict rows) ''missing or malformed resource trace''
     (let pre = jget s ''pre_release_live_sample'' in
      needp (is_dict pre \<and> list_ex (\<lambda>r. py_eq r pre) rows \<and> jget pre ''valid'' = JBool True \<and> jget pre ''live'' = JBool True \<and>
             is_dict (jget pre ''identity'') \<and>
             list_all (\<lambda>k. py_eq (jget (jget pre ''identity'') k) (jget ow k)) [''pid'', ''pgid'', ''sid'', ''start_ticks'']) ''readiness trace disagreement''
      (Inr ())))"

definition to_float :: "json \<Rightarrow> json" where
  "to_float v = (case v of JInt i \<Rightarrow> mk_float (i < 0) (nat \<bar>i\<bar>) 0 | _ \<Rightarrow> v)"

definition expected_limits :: "json \<Rightarrow> json" where
  "expected_limits policy = JObj (filter (\<lambda>(k, v). k \<noteq> ''core_bytes'') FIXED @ [(''wall_seconds'', to_float (jget policy ''wall_seconds''))])"

definition check_record :: "json \<Rightarrow> json \<Rightarrow> json \<Rightarrow> unit res" where
  "check_record m policy r =
     needp (py_eq (jget r ''argv'') (jget m ''target_argv'') \<and> py_eq (jget r ''cwd'') (jget m ''cwd'')) ''runner target/cwd disagreement''
     (needp (encoded (jget r ''limits'') = encoded (expected_limits policy)) ''actual runner limits mismatch''
     (needp (py_eq (jget r ''environment'') (restrict (jget m ''environment'') RUNNER_KEYS) \<and> jget r ''opt_in_flags'' = JObj []) ''runner environment mismatch''
     (Inr ())))"

definition check_raw :: "json \<Rightarrow> (string \<times> json) list \<Rightarrow> unit res" where
  "check_raw r artifacts =
     needp (is_dict (jget r ''raw'')) ''malformed raw output evidence''
     (needp (list_all (\<lambda>n. (case map_of artifacts (''supervised/inner/'' @ n) of Some ref \<Rightarrow> py_eq (jget (jget r ''raw'') n) ref | None \<Rightarrow> False))
              [''stdout'', ''stderr'']) ''runner output hash mismatch'' (Inr ()))"

text \<open>What the runner's records \<open>r\<close> (result), \<open>st\<close> (started) and \<open>ow\<close> (owner) and the supervisor's \<open>s\<close> agree on.\<close>

definition check_runner :: "json \<Rightarrow> json \<Rightarrow> json \<Rightarrow> json \<Rightarrow> json \<Rightarrow> unit res" where
  "check_runner s st r ow cleanup =
     needp (is_dict st \<and> is_dict r \<and> is_dict ow) ''malformed runner records''
     (bindr (check_target_cleanup cleanup) (\<lambda>_.
     needp (is_dict (jget r ''primary'') \<and> is_str (jget (jget r ''primary'') ''outcome'')) ''malformed target outcome''
     (needp (is_leader ow \<and> py_eq ow (jget r ''owner'') \<and> py_eq (jget r ''owner'') (jget s ''target_owner'')) ''target ownership mismatch''
     (needp (py_eq (jget s ''inner_result'') r) ''embedded runner evidence disagreement''
     (needp (py_eq (jget s ''inner_primary'') (jget r ''primary'') \<and> py_eq (jget s ''inner_cleanup'') (jget r ''cleanup''))
       ''supervisor runner summary disagreement'' (Inr ()))))))"

text \<open>The state the records show, in the order the code asks.\<close>

definition verdict :: "json \<Rightarrow> json \<Rightarrow> run_outcome \<Rightarrow> run_outcome res" where
  "verdict s r o' =
     (let c = jget s ''cleanup''; tc = jget r ''cleanup'' in
      if jget c ''success'' \<noteq> JBool True \<or> jget c ''residual_live'' \<noteq> JArr [] \<or> jget tc ''success'' \<noteq> JBool True then Inr (o'\<lparr>oc_state := ''cleanup_failed''\<rparr>)
      else if jget r ''evidence_complete'' \<noteq> JBool True \<or> truthy (jget r ''evidence_errors'') \<or> truthy (jget s ''errors'') \<or> truthy (jget r ''execution_errors'')
        then Inr (o'\<lparr>oc_state := ''evidence_incomplete''\<rparr>)
      else if jget c ''runner_exit_code'' \<noteq> JInt 0 \<or> jget s ''success'' \<noteq> JBool True \<or> jget r ''overall_success'' \<noteq> JBool True \<or>
              jget (jget r ''primary'') ''outcome'' \<noteq> JStr ''command_success'' \<or> truthy (jget r ''runner_signals'') \<or> truthy (jget r ''stop_escalation'') \<or>
              jget tc ''direct_exit_code'' \<noteq> JInt 0
        then Inr (o'\<lparr>oc_state := ''runner_failed_or_stopped''\<rparr>)
      else needp (jget s ''reason'' = JNull \<and> jget s ''observation_complete'' = JBool True \<and> jget c ''direct_reaped'' = JBool True \<and>
                  is_nil (jget c ''errors'') \<and> jget tc ''direct_reaped'' = JBool True \<and> is_nil (jget tc ''errors'') \<and>
                  is_nil (jget (jget tc ''final'') ''live'') \<and> is_nil (jget (jget tc ''final'') ''errors'')) ''contradictory successful cleanup/observation''
        (Inr (o'\<lparr>oc_state := ''target_completed'', oc_succeeded := True\<rparr>)))"

definition read_record :: "run_view \<Rightarrow> string \<Rightarrow> json res" where
  "read_record v name = bindr (read_regular MiB2 (ed_file (rv_again v) name)) decode_evidence"

definition completed_run :: "run_view \<Rightarrow> json \<Rightarrow> json \<Rightarrow> json \<Rightarrow> run_outcome \<Rightarrow> run_outcome res" where
  "completed_run v m policy s o' =
     (let c = jget s ''cleanup'' in
      needp (is_int (jget c ''runner_exit_code'')) ''missing or malformed Runner exit status''
      (needp (is_bool (jget c ''direct_reaped'')) ''malformed Runner reap status''
      (bindr (read_record v ''supervised/inner/started.json'') (\<lambda>st.
       bindr (read_record v ''supervised/inner/result.json'') (\<lambda>r.
       bindr (read_record v ''supervised/inner/owner.json'') (\<lambda>ow.
       bindr (check_runner s st r ow (jget r ''cleanup'')) (\<lambda>_.
       bindr (read_regular MiB2 (ed_file (rv_again v) ''supervised/resources.jsonl'')) (\<lambda>trace.
       bindr (check_trace s ow trace) (\<lambda>_.
       bindr (check_record m policy st) (\<lambda>_.
       bindr (check_record m policy r) (\<lambda>_.
       bindr (check_raw r (oc_artifacts o')) (\<lambda>_.
       verdict s r o'))))))))))))"

definition supervised_run :: "run_view \<Rightarrow> json \<Rightarrow> json \<Rightarrow> json \<Rightarrow> run_outcome \<Rightarrow> run_outcome res" where
  "supervised_run v m policy s o' =
     (let o1 = o'\<lparr>oc_runner_owner := jget s ''runner_owner'', oc_target_owner := jget s ''target_owner'',
           oc_runner_spawned := is_leader (jget s ''runner_owner''), oc_target_spawned := is_leader (jget s ''target_owner'')\<rparr> in
      if \<not> oc_runner_spawned o1 then spawn_failure s o1
      else if oc_missing o1 \<noteq> [] then Inr o1
      else completed_run v m policy s o1)"

definition observed_outcome :: "(string \<Rightarrow> string) \<Rightarrow> run_view \<Rightarrow> json \<Rightarrow> json \<Rightarrow> run_outcome res" where
  "observed_outcome sha v m policy =
     bindr (collect_artifacts sha v) (\<lambda>(artifacts, missing).
     bindr (read_regular MiB2 (ed_file (rv_dir v) ''manifest.json'')) (\<lambda>mraw.
     (let o' = \<lparr>oc_run_id = jget m ''run_id'', oc_state = ''evidence_incomplete'', oc_manifest_sha = sha mraw, oc_artifacts = artifacts,
            oc_missing = missing, oc_runner_owner = JNull, oc_target_owner = JNull, oc_runner_spawned = False, oc_target_spawned = False,
            oc_succeeded = False\<rparr> in
      if hd BASE \<notin> set (map fst artifacts) then Inr o'
      else bindr (read_record v (hd BASE)) (\<lambda>s.
       bindr (check_supervisor m policy s) (\<lambda>_.
       supervised_run v m policy s o')))))"

section \<open>Verifying and launching\<close>

definition request_json :: "(string \<Rightarrow> string) \<Rightarrow> json \<Rightarrow> string \<Rightarrow> json" where
  "request_json sha m mraw = JObj [(''schema'', JInt 1), (''run_id'', jget m ''run_id''), (''state'', JStr ''launch_requested''),
     (''manifest_sha256'', JStr (sha mraw))]"

definition prepared_report :: "json \<Rightarrow> json" where
  "prepared_report m = JObj [(''binding_valid'', JBool True), (''run_id'', jget m ''run_id''), (''state'', JStr ''prepared''),
     (''run_succeeded'', JBool False), (''policy_sha256'', jget (jget m ''policy'') ''sha256'')]"

definition executed_report :: "json \<Rightarrow> run_outcome \<Rightarrow> json" where
  "executed_report m o' = JObj [(''binding_valid'', JBool True), (''run_id'', jget m ''run_id''), (''state'', JStr (oc_state o')),
     (''run_succeeded'', JBool (oc_succeeded o')), (''runner_spawned'', JBool (oc_runner_spawned o')),
     (''target_spawned'', JBool (oc_target_spawned o')), (''policy_sha256'', jget (jget m ''policy'') ''sha256'')]"

definition verify :: "(string \<Rightarrow> bool option) \<Rightarrow> (string \<Rightarrow> string) \<Rightarrow> run_view \<Rightarrow> bool \<Rightarrow> json res" where
  "verify utc_offset sha v prepared =
     bindr (check_binding utc_offset sha (rv_dir v)) (\<lambda>(m, policy).
     if prepared then needp (\<not> rv_exists v ''execution.json'' \<and> \<not> rv_exists v ''outcome.json'') ''run is not merely prepared'' (Inr (prepared_report m))
     else
       bindr (bindr (read_regular MiB2 (ed_file (rv_dir v) ''execution.json'')) decode_evidence) (\<lambda>req.
       bindr (read_regular MiB2 (ed_file (rv_dir v) ''manifest.json'')) (\<lambda>mraw.
       needp (encoded req = encoded (request_json sha m mraw)) ''execution identity mismatch''
       (bindr (bindr (read_regular MiB2 (ed_file (rv_dir v) ''outcome.json'')) decode_evidence) (\<lambda>stored.
        bindr (observed_outcome sha v m policy) (\<lambda>derived.
        needp (encoded stored = encoded (outcome_json derived)) ''outcome/evidence disagreement''
        (Inr (executed_report m derived))))))))"

text \<open>
  The launch as the sequence of its effects: the two exclusive writes, the replaced and restored
  environment, and the call of the supervisor, whose effect on the directory is the argument \<open>run\<close>.
\<close>

datatype launch_event =
    Wrote string string
  | Environ json
  | Supervised json json json json

record launch_site =
  ls_inst :: installation
  ls_uid :: int
  ls_stat :: file_stat
  ls_path :: string
  ls_environ :: json

definition launch_checks :: "(string \<Rightarrow> bool option) \<Rightarrow> (string \<Rightarrow> string) \<Rightarrow> launch_site \<Rightarrow> run_view \<Rightarrow> (json \<times> json) res" where
  "launch_checks utc_offset sha site v =
     bindr (check_binding utc_offset sha (rv_dir v)) (\<lambda>(m, policy).
     needp (fs_uid (ls_stat site) = ls_uid site \<and> fs_private (ls_stat site)) ''private owned evidence directory required''
     (needp (py_eq (jget m ''evidence_directory'') (JObj [(''path'', JStr (ls_path site)), (''device'', JInt (fs_dev (ls_stat site))),
             (''inode'', JInt (fs_ino (ls_stat site))), (''uid'', JInt (fs_uid (ls_stat site)))])) ''launch directory substituted''
     (needp (jget m ''cwd'' = JStr (in_repo (ls_inst site)) \<and> jget m ''tool_directory'' = JStr (in_tools (ls_inst site)) \<and>
             jget m ''python'' = JStr (in_python (ls_inst site))) ''prepared invocation belongs to another installation''
     (bindr (fold_res (\<lambda>(name, ref) u. bindr (read_regular MiB2 (in_source (ls_inst site) name)) (\<lambda>data.
               needp (JStr (sha data) = jget ref ''sha256'') ''tool source changed before launch'' (Inr ()))) (pairs (jget m ''tool_sources'')) ()) (\<lambda>_.
      Inr (m, policy))))))"

text \<open>\<open>write_private\<close> creates the file or fails.\<close>

definition with_file :: "string \<Rightarrow> string \<Rightarrow> run_view \<Rightarrow> run_view" where
  "with_file name data v = v\<lparr>rv_dir := (rv_dir v)\<lparr>ed_file := (ed_file (rv_dir v))(name := quiet_view data)\<rparr>,
     rv_again := (rv_again v)\<lparr>ed_file := (ed_file (rv_again v))(name := quiet_view data)\<rparr>, rv_exists := (rv_exists v)(name := True)\<rparr>"

definition write_private :: "string \<Rightarrow> string \<Rightarrow> run_view \<Rightarrow> run_view res" where
  "write_private name data v = (if rv_exists v name then Inl FileExistsError else Inr (with_file name data v))"

definition outcome_step :: "(string \<Rightarrow> bool option) \<Rightarrow> (string \<Rightarrow> string) \<Rightarrow> json \<Rightarrow> json \<Rightarrow> run_view \<Rightarrow> launch_event list \<times> json res" where
  "outcome_step utc_offset sha m policy v =
     (case observed_outcome sha v m policy of
        Inl e \<Rightarrow> ([], Inl e)
      | Inr o' \<Rightarrow>
          (let data = encoded (outcome_json o') in
           case write_private ''outcome.json'' data v of
             Inl e \<Rightarrow> ([], Inl e)
           | Inr v' \<Rightarrow> ([Wrote ''outcome.json'' data], verify utc_offset sha v' False)))"

definition launch :: "(string \<Rightarrow> bool option) \<Rightarrow> (string \<Rightarrow> string) \<Rightarrow> launch_site \<Rightarrow> (json \<Rightarrow> json \<Rightarrow> json \<Rightarrow> json \<Rightarrow> run_view \<Rightarrow> run_view \<times> unit res) \<Rightarrow>
    run_view \<Rightarrow> launch_event list \<times> json res" where
  "launch utc_offset sha site run v =
     (case bindr (launch_checks utc_offset sha site v) (\<lambda>(m, policy).
             bindr (read_regular MiB2 (ed_file (rv_dir v) ''manifest.json'')) (\<lambda>mraw.
             (let data = encoded (request_json sha m mraw) in
              bindr (write_private ''execution.json'' data v) (\<lambda>v1. Inr (m, policy, data, v1))))) of
        Inl e \<Rightarrow> ([], Inl e)
      | Inr (m, policy, data, v1) \<Rightarrow>
          (let argv = jget m ''target_argv''; barrier = jget policy ''barrier_seconds''; outer = jget policy ''outer_seconds'';
               inner = jget policy ''wall_seconds'';
               events = [Wrote ''execution.json'' data, Environ (jget m ''environment''), Supervised argv barrier outer inner, Environ (ls_environ site)] in
           case run argv barrier outer inner v1 of
             (v2, Inl e) \<Rightarrow> (events, Inl e)
           | (v2, Inr u) \<Rightarrow> (case outcome_step utc_offset sha m policy v2 of (es, res) \<Rightarrow> (events @ es, res))))"

section \<open>What a successful verdict rests on\<close>

text \<open>The records of a run that completed: both cleanups clean, both processes reaped with status 0, no signal and no stop.\<close>

definition clean_records :: "json \<Rightarrow> json \<Rightarrow> bool" where
  "clean_records s r \<longleftrightarrow>
     (let c = jget s ''cleanup''; tc = jget r ''cleanup'' in
      jget c ''success'' = JBool True \<and> jget c ''residual_live'' = JArr [] \<and> jget c ''errors'' = JArr [] \<and> jget c ''direct_reaped'' = JBool True \<and>
      jget c ''runner_exit_code'' = JInt 0 \<and>
      jget tc ''success'' = JBool True \<and> jget tc ''errors'' = JArr [] \<and> jget tc ''direct_reaped'' = JBool True \<and> jget tc ''direct_exit_code'' = JInt 0 \<and>
      jget (jget tc ''final'') ''live'' = JArr [] \<and> jget (jget tc ''final'') ''errors'' = JArr [] \<and>
      jget s ''success'' = JBool True \<and> jget s ''reason'' = JNull \<and> jget s ''observation_complete'' = JBool True \<and> \<not> truthy (jget s ''errors'') \<and>
      jget r ''overall_success'' = JBool True \<and> jget r ''evidence_complete'' = JBool True \<and> \<not> truthy (jget r ''evidence_errors'') \<and>
      \<not> truthy (jget r ''execution_errors'') \<and> jget (jget r ''primary'') ''outcome'' = JStr ''command_success'' \<and>
      \<not> truthy (jget r ''runner_signals'') \<and> \<not> truthy (jget r ''stop_escalation''))"

lemma verdict_success:
  assumes "verdict s r o' = Inr o2" "\<not> oc_succeeded o'"
  shows "oc_succeeded o2 \<longleftrightarrow> oc_state o2 = ''target_completed''" and "oc_succeeded o2 \<Longrightarrow> clean_records s r"
    and "oc_artifacts o2 = oc_artifacts o'" and "oc_missing o2 = oc_missing o'" and "oc_manifest_sha o2 = oc_manifest_sha o'"
    and "oc_run_id o2 = oc_run_id o'" and "oc_runner_spawned o2 = oc_runner_spawned o'" and "oc_runner_owner o2 = oc_runner_owner o'"
    and "oc_target_owner o2 = oc_target_owner o'"
  using assms unfolding verdict_def Let_def clean_records_def
  by (auto simp: requires_Inr_iff is_nil_def split: if_splits)

lemma collect_fold:
  assumes "fold_res (collect_step sha v) names acc = Inr res"
  shows "map fst (fst res) = map fst (fst acc) @ filter (rv_exists v) names \<and>
    snd res = snd acc @ filter (\<lambda>n. \<not> rv_exists v n) names \<and>
    (\<forall>(n, ref) \<in> set (fst res). (n, ref) \<in> set (fst acc) \<or> (\<exists>data. read_regular MiB2 (ed_file (rv_dir v) n) = Inr data \<and> ref = content_ref sha data))"
  using assms
proof (induction names arbitrary: acc)
  case (Cons n names)
  from Cons.prems obtain acc1 where step: "collect_step sha v n acc = Inr acc1" and rest: "fold_res (collect_step sha v) names acc1 = Inr res"
    by (auto simp: bindr_Inr_iff)
  note ih = Cons.IH [OF rest]
  show ?case
  proof (cases "rv_exists v n")
    case True
    then obtain data where d: "read_regular MiB2 (ed_file (rv_dir v) n) = Inr data" "acc1 = (fst acc @ [(n, content_ref sha data)], snd acc)"
      using step by (auto simp: collect_step_def requires_Inr_iff bindr_Inr_iff)
    then show ?thesis using ih True by fastforce
  next
    case False
    then show ?thesis using ih step by (auto simp: collect_step_def)
  qed
qed auto

lemma collect_artifactsD:
  assumes "collect_artifacts sha v = Inr (artifacts, missing)"
  shows "map fst artifacts = filter (rv_exists v) ARTIFACTS" "missing = filter (\<lambda>n. \<not> rv_exists v n) ARTIFACTS"
    and "(n, ref) \<in> set artifacts \<Longrightarrow> \<exists>data. read_regular MiB2 (ed_file (rv_dir v) n) = Inr data \<and> ref = content_ref sha data"
  using collect_fold [OF assms [unfolded collect_artifacts_def]] by auto

lemma ARTIFACTS_distinct: "distinct ARTIFACTS"
  by (simp add: ARTIFACTS_def BASE_def INNER_def)

lemma read_recordD:
  assumes "read_record v name = Inr x"
  shows "loads (fv_first (ed_file (rv_again v) name)) = Some x" "json_ok x"
proof -
  from assms obtain data where d: "read_regular MiB2 (ed_file (rv_again v) name) = Inr data" "decode_evidence data = Inr x"
    by (auto simp: read_record_def bindr_Inr_iff)
  then show "loads (fv_first (ed_file (rv_again v) name)) = Some x" using read_regularD [OF d(1)]
    by (auto simp: decode_evidence_def split: option.splits)
  show "json_ok x" using d(2) by (rule decode_evidence_ok)
qed

text \<open>The checks between the records and the verdict.\<close>

definition agreed_records :: "json \<Rightarrow> json \<Rightarrow> json \<Rightarrow> json \<Rightarrow> bool" where
  "agreed_records m s r ow \<longleftrightarrow> is_leader ow \<and> py_eq ow (jget r ''owner'') \<and> py_eq (jget r ''owner'') (jget s ''target_owner'') \<and>
     py_eq (jget s ''inner_result'') r \<and> py_eq (jget r ''argv'') (jget m ''target_argv'') \<and> py_eq (jget r ''cwd'') (jget m ''cwd'') \<and>
     py_eq (jget s ''target_argv'') (jget m ''target_argv'') \<and> py_eq (jget s ''runner_argv'') (jget m ''runner_argv'')"

lemma completed_runD:
  assumes "completed_run v m policy s o' = Inr o2" and c: "check_supervisor m policy s = Inr ()"
  obtains st r ow where "read_record v ''supervised/inner/result.json'' = Inr r" "read_record v ''supervised/inner/owner.json'' = Inr ow"
    "verdict s r o' = Inr o2" "agreed_records m s r ow" "check_raw r (oc_artifacts o') = Inr ()" "check_record m policy r = Inr ()"
proof -
  from assms(1) obtain st r ow where r: "read_record v ''supervised/inner/result.json'' = Inr r" "read_record v ''supervised/inner/owner.json'' = Inr ow"
    "check_runner s st r ow (jget r ''cleanup'') = Inr ()" "check_record m policy r = Inr ()" "check_raw r (oc_artifacts o') = Inr ()" "verdict s r o' = Inr o2"
    unfolding completed_run_def Let_def requires_Inr_iff bindr_Inr_iff by auto
  have "agreed_records m s r ow"
    using r(3,4) c unfolding agreed_records_def check_runner_def check_record_def check_supervisor_def Let_def requires_Inr_iff bindr_Inr_iff by blast
  with r show ?thesis using that by blast
qed

text \<open>The outcome before and after the records are read.\<close>

lemma observed_outcomeD:
  assumes "observed_outcome sha v m policy = Inr o2"
  obtains artifacts missing mraw where "collect_artifacts sha v = Inr (artifacts, missing)"
    "read_regular MiB2 (ed_file (rv_dir v) ''manifest.json'') = Inr mraw"
    "oc_run_id o2 = jget m ''run_id''" "oc_manifest_sha o2 = sha mraw" "oc_artifacts o2 = artifacts" "oc_missing o2 = missing"
    "json_ok (oc_runner_owner o2) \<and> json_ok (oc_target_owner o2)"
    "oc_succeeded o2 \<longrightarrow> oc_state o2 = ''target_completed'' \<and> missing = [] \<and> oc_runner_spawned o2 \<and>
       (\<exists>s r ow. read_record v (hd BASE) = Inr s \<and> read_record v ''supervised/inner/result.json'' = Inr r \<and>
         read_record v ''supervised/inner/owner.json'' = Inr ow \<and> clean_records s r \<and> agreed_records m s r ow \<and> check_raw r artifacts = Inr ())"
proof -
  from assms obtain artifacts missing mraw where c: "collect_artifacts sha v = Inr (artifacts, missing)"
    and m: "read_regular MiB2 (ed_file (rv_dir v) ''manifest.json'') = Inr mraw"
    unfolding observed_outcome_def by (auto simp: bindr_Inr_iff)
  define o1 where "o1 = \<lparr>oc_run_id = jget m ''run_id'', oc_state = ''evidence_incomplete'', oc_manifest_sha = sha mraw, oc_artifacts = artifacts,
            oc_missing = missing, oc_runner_owner = JNull, oc_target_owner = JNull, oc_runner_spawned = False, oc_target_spawned = False,
            oc_succeeded = False\<rparr>"
  have null: "json_ok JNull" by (simp add: json_ok_def)
  show ?thesis
  proof (cases "hd BASE \<in> set (map fst artifacts)")
    case False
    then have "o2 = o1" using assms c m by (simp add: observed_outcome_def Let_def o1_def)
    then show ?thesis using that [OF c m] null by (simp add: o1_def)
  next
    case True
    then obtain s where s: "read_record v (hd BASE) = Inr s" and cs: "check_supervisor m policy s = Inr ()"
      using assms c m by (auto simp: observed_outcome_def Let_def bindr_Inr_iff)
    define o3 where "o3 = o1\<lparr>oc_runner_owner := jget s ''runner_owner'', oc_target_owner := jget s ''target_owner'',
             oc_runner_spawned := is_leader (jget s ''runner_owner''), oc_target_spawned := is_leader (jget s ''target_owner'')\<rparr>"
    have res: "(if \<not> oc_runner_spawned o3 then spawn_failure s o3 else if missing \<noteq> [] then Inr o3 else completed_run v m policy s o3) = Inr o2"
    proof -
      have "supervised_run v m policy s o1 = Inr o2"
        using assms c m True s cs by (simp add: observed_outcome_def Let_def o1_def)
      moreover have "oc_missing o3 = missing" by (simp add: o3_def o1_def)
      ultimately show ?thesis unfolding supervised_run_def Let_def o3_def [symmetric] by (simp only:)
    qed
    have own: "json_ok (jget s ''runner_owner'') \<and> json_ok (jget s ''target_owner'')" using read_recordD(2) [OF s] by (simp add: json_ok_jget)
    have f: "\<not> oc_succeeded o3" "oc_run_id o3 = jget m ''run_id''" "oc_manifest_sha o3 = sha mraw" "oc_artifacts o3 = artifacts" "oc_missing o3 = missing"
      "oc_runner_owner o3 = jget s ''runner_owner''" "oc_target_owner o3 = jget s ''target_owner''" by (simp_all add: o3_def o1_def)
    consider (failed) "\<not> oc_runner_spawned o3" | (partial) "oc_runner_spawned o3" "missing \<noteq> []" | (full) "oc_runner_spawned o3" "missing = []" by blast
    then show ?thesis
    proof cases
      case failed
      then have "spawn_failure s o3 = Inr o2" using res by simp
      then have "o2 = o3 \<or> o2 = o3\<lparr>oc_state := ''spawn_failed''\<rparr>" unfolding spawn_failure_def requires_Inr_iff by (auto split: if_splits)
      then show ?thesis using that [OF c m] f own by auto
    next
      case partial
      then have "o2 = o3" using res by simp
      then show ?thesis using that [OF c m] f own by simp
    next
      case full
      then have "completed_run v m policy s o3 = Inr o2" using res by simp
      then obtain r ow where r: "read_record v ''supervised/inner/result.json'' = Inr r" "read_record v ''supervised/inner/owner.json'' = Inr ow"
        "verdict s r o3 = Inr o2" "agreed_records m s r ow" "check_raw r artifacts = Inr ()"
        by (rule completed_runD [OF _ cs]) (simp add: f)
      note v = verdict_success [OF r(3) f(1)]
      have "oc_succeeded o2 \<longrightarrow> oc_state o2 = ''target_completed'' \<and> missing = [] \<and> oc_runner_spawned o2 \<and>
         (\<exists>s r ow. read_record v (hd BASE) = Inr s \<and> read_record v ''supervised/inner/result.json'' = Inr r \<and>
           read_record v ''supervised/inner/owner.json'' = Inr ow \<and> clean_records s r \<and> agreed_records m s r ow \<and> check_raw r artifacts = Inr ())"
        using v(1,2,7) full r s by blast
      then show ?thesis by (rule that [OF c m, rotated -1]) (simp_all add: v f own)
    qed
  qed
qed

lemma outcome_json_ok:
  assumes "observed_outcome sha v m policy = Inr o2" "json_ok (jget m ''run_id'')"
  shows "json_ok (outcome_json o2)"
proof -
  obtain artifacts missing mraw where c: "collect_artifacts sha v = Inr (artifacts, missing)"
    "oc_run_id o2 = jget m ''run_id''" "oc_artifacts o2 = artifacts" "json_ok (oc_runner_owner o2) \<and> json_ok (oc_target_owner o2)"
    by (rule observed_outcomeD [OF assms(1)]) blast
  have "distinct (map fst artifacts)" using collect_artifactsD(1) [OF c(1)] ARTIFACTS_distinct by simp
  moreover have "json_ok ref" if "(n, ref) \<in> set artifacts" for n ref
    using collect_artifactsD(3) [OF c(1) that] by (auto simp: content_ref_def json_ok_def)
  ultimately have "json_ok (JObj artifacts)" unfolding json_ok_JObj by blast
  moreover have "json_ok (JArr (map JStr xs))" "json_ok (JStr x)" "json_ok (JInt i)" "json_ok (JBool b)" for xs x i b by (auto simp: json_ok_def)
  ultimately show ?thesis using c assms(2) by (simp add: outcome_json_def json_ok_JObj)
qed

lemma with_file_unrelated:
  "name \<notin> insert ''manifest.json'' (set ARTIFACTS) \<Longrightarrow> observed_outcome sha (with_file name data v) m policy = observed_outcome sha v m policy"
proof -
  assume n: "name \<notin> insert ''manifest.json'' (set ARTIFACTS)"
  have step: "collect_step sha (with_file name data v) x acc = collect_step sha v x acc" if "x \<in> set ARTIFACTS" for x acc
    using that n by (auto simp: collect_step_def with_file_def)
  have "fold_res (collect_step sha (with_file name data v)) xs acc = fold_res (collect_step sha v) xs acc" if "set xs \<subseteq> set ARTIFACTS" for xs acc
    using that by (induction xs arbitrary: acc) (auto simp: step intro!: arg_cong2 [where f = bindr])
  then have col: "collect_artifacts sha (with_file name data v) = collect_artifacts sha v" by (simp add: collect_artifacts_def)
  have files: "ed_file (rv_dir (with_file name data v)) x = ed_file (rv_dir v) x" "ed_file (rv_again (with_file name data v)) x = ed_file (rv_again v) x"
    if "x \<in> insert ''manifest.json'' (set ARTIFACTS)" for x using that n by (auto simp: with_file_def)
  have rec: "read_record (with_file name data v) x = read_record v x" if "x \<in> set ARTIFACTS" for x using files that by (simp add: read_record_def)
  have mem: "hd BASE \<in> set ARTIFACTS" "''supervised/inner/started.json'' \<in> set ARTIFACTS" "''supervised/inner/result.json'' \<in> set ARTIFACTS"
    "''supervised/inner/owner.json'' \<in> set ARTIFACTS" "''supervised/resources.jsonl'' \<in> set ARTIFACTS" by (simp_all add: ARTIFACTS_def BASE_def INNER_def)
  have "completed_run (with_file name data v) = completed_run v"
    using rec mem files by (simp add: completed_run_def fun_eq_iff)
  then have "supervised_run (with_file name data v) = supervised_run v" unfolding supervised_run_def by (intro ext) (simp only:)
  moreover have "ed_file (rv_dir (with_file name data v)) ''manifest.json'' = ed_file (rv_dir v) ''manifest.json''" using files by blast
  moreover note rec [OF mem(1)]
  ultimately show ?thesis unfolding observed_outcome_def col by (simp only:)
qed

text \<open>The binding depends on the bound files only.\<close>

definition BOUND :: "string list" where
  "BOUND = [''manifest.json'', ''policy.snapshot.json''] @ map (\<lambda>name. ''sources/'' @ name) SOURCES"

definition same_binding :: "evidence_dir \<Rightarrow> evidence_dir \<Rightarrow> bool" where
  "same_binding d d' \<longleftrightarrow> ed_symlink d' = ed_symlink d \<and> ed_sources_symlink d' = ed_sources_symlink d \<and> (\<forall>n \<in> set BOUND. ed_file d' n = ed_file d n)"

lemma check_binding_cong:
  assumes "same_binding d d'"
  shows "check_binding utc_offset sha d' = check_binding utc_offset sha d"
proof -
  have files: "ed_file d' ''manifest.json'' = ed_file d ''manifest.json''" "ed_file d' ''policy.snapshot.json'' = ed_file d ''policy.snapshot.json''"
    and src: "\<And>n. n \<in> set SOURCES \<Longrightarrow> ed_file d' (''sources/'' @ n) = ed_file d (''sources/'' @ n)"
    and sym: "ed_symlink d' = ed_symlink d" "ed_sources_symlink d' = ed_sources_symlink d"
    using assms by (simp_all add: same_binding_def BOUND_def)
  have one: "check_source sha d' m n u = check_source sha d m n u" if "n \<in> set SOURCES" for n u m
    unfolding check_source_def src [OF that] ..
  have "fold_res (check_source sha d' m) xs u = fold_res (check_source sha d m) xs u" if "set xs \<subseteq> set SOURCES" for xs u m
    using that by (induction xs arbitrary: u) (auto simp: one intro!: arg_cong2 [where f = bindr])
  then have "fold_res (check_source sha d' m) SOURCES () = fold_res (check_source sha d m) SOURCES ()" for m by simp
  then show ?thesis unfolding check_binding_def files sym by (simp only:)
qed

lemma same_binding_trans: "same_binding a b \<Longrightarrow> same_binding b c \<Longrightarrow> same_binding a c"
  by (simp add: same_binding_def)

lemma same_binding_with_file: "name \<notin> set BOUND \<Longrightarrow> same_binding (rv_dir v) (rv_dir (with_file name data v))"
  by (auto simp: same_binding_def with_file_def)

lemma own_files: "''outcome.json'' \<notin> set BOUND" "''execution.json'' \<notin> set BOUND" "''outcome.json'' \<notin> insert ''manifest.json'' (set ARTIFACTS)"
  by (simp_all add: BOUND_def ARTIFACTS_def BASE_def INNER_def image_iff)

lemma run_id_ok: "check_binding utc_offset sha d = Inr (m, policy) \<Longrightarrow> json_ok (jget m ''run_id'')"
  by (drule check_bindingD) (metis decode_evidence_def decode_evidence_ok json_ok_jget option.simps(5))

lemma read_back: "json_ok x \<Longrightarrow> length (encoded x) \<le> MiB2 \<Longrightarrow>
    bindr (read_regular MiB2 (quiet_view (encoded x))) decode_evidence = Inr (sort_keys x)"
  by (simp add: read_quiet decode_evidence_def encoded_codec.read_render)

lemma encoded_sorted: "encoded (sort_keys x) = encoded x"
  by (simp add: encoded_def dumps_indent_def sort_keys_idem)

text \<open>A written outcome is read back as itself.\<close>

lemma verify_written:
  assumes "check_binding utc_offset sha (rv_dir v) = Inr (m, policy)" "ed_file (rv_dir v) ''execution.json'' = quiet_view (encoded (request_json sha m mraw))"
    and mraw: "read_regular MiB2 (ed_file (rv_dir v) ''manifest.json'') = Inr mraw"
    and o: "observed_outcome sha v m policy = Inr o'" and small: "length (encoded (outcome_json o')) \<le> MiB2"
      "length (encoded (request_json sha m mraw)) \<le> MiB2"
  shows "verify utc_offset sha (with_file ''outcome.json'' (encoded (outcome_json o')) v) False = Inr (executed_report m o')"
proof -
  let ?v = "with_file ''outcome.json'' (encoded (outcome_json o')) v"
  have id: "json_ok (jget m ''run_id'')" using assms(1) by (rule run_id_ok)
  have req: "json_ok (request_json sha m mraw)" using id by (simp add: request_json_def json_ok_JObj) (simp add: json_ok_def)
  have files: "ed_file (rv_dir ?v) ''execution.json'' = ed_file (rv_dir v) ''execution.json''" "ed_file (rv_dir ?v) ''manifest.json'' = ed_file (rv_dir v) ''manifest.json''"
    "ed_file (rv_dir ?v) ''outcome.json'' = quiet_view (encoded (outcome_json o'))" by (simp_all add: with_file_def)
  have b: "check_binding utc_offset sha (rv_dir ?v) = Inr (m, policy)"
    using check_binding_cong [OF same_binding_with_file [OF own_files(1)]] assms(1) by simp
  have "observed_outcome sha ?v m policy = Inr o'" using o with_file_unrelated [OF own_files(3)] by simp
  then show ?thesis
    unfolding verify_def b files assms(2) mraw using read_back [OF req small(2)] read_back [OF outcome_json_ok [OF o id] small(1)]
    by (simp add: encoded_sorted)
qed

end
