(* ===== verification/Policy_Launch.thy ===== *)
theory Policy_Launch
  imports Policy_Verify
begin

text \<open>
  An executed run in full: the files a successful probe leaves behind, read back and verified, and
  the properties of the verdict and of the launch.
\<close>

section \<open>An example run\<close>

definition ex_leader :: "int \<Rightarrow> json" where
  "ex_leader p = JObj [(''pgid'', JInt p), (''pid'', JInt p), (''sid'', JInt p), (''start_ticks'', JInt 5)]"

definition ex_cleanup :: json where
  "ex_cleanup = JObj [(''direct_exit_code'', JInt 0), (''direct_reaped'', JBool True), (''errors'', JArr []),
     (''final'', JObj [(''errors'', JArr []), (''live'', JArr [])]), (''success'', JBool True)]"

definition ex_primary :: json where
  "ex_primary = JObj [(''outcome'', JStr ''command_success'')]"

definition ex_result :: json where
  "ex_result = JObj [(''argv'', JArr [JStr ''/x'']), (''cleanup'', ex_cleanup), (''cwd'', JStr ''/r''),
     (''environment'', restrict ENVIRONMENT RUNNER_KEYS), (''evidence_complete'', JBool True), (''limits'', expected_limits example_policy),
     (''opt_in_flags'', JObj []), (''overall_success'', JBool True), (''owner'', ex_leader 10), (''primary'', ex_primary),
     (''raw'', JObj [(''stderr'', content_ref (\<lambda>x. x) []), (''stdout'', content_ref (\<lambda>x. x) [])])]"

definition ex_sample :: json where
  "ex_sample = JObj [(''identity'', ex_leader 10), (''live'', JBool True), (''valid'', JBool True)]"

definition ex_runner_argv :: json where
  "ex_runner_argv = JArr (map JStr [''/p'', ''-B'', ''/r/t/run_check.py'', ''--out'', ''/e/supervised/inner'', ''--label'', ''p4b2-rss-barrier'', ''--cwd'', ''/r'',
     ''--wall-seconds'', ''3'', ''--term-grace'', ''.15'', ''--kill-grace'', ''.5'', ''--'', ''/x''])"

definition ex_supervisor :: json where
  "ex_supervisor = JObj [(''barrier_seconds'', JInt 2),
     (''cleanup'', JObj [(''direct_reaped'', JBool True), (''errors'', JArr []), (''residual_live'', JArr []), (''runner_exit_code'', JInt 0), (''success'', JBool True)]),
     (''inner_cleanup'', ex_cleanup), (''inner_primary'', ex_primary), (''inner_result'', ex_result), (''inner_seconds'', JInt 3),
     (''observation_complete'', JBool True), (''outer_seconds'', JInt 8), (''pre_release_live_sample'', ex_sample), (''role'', JStr ''probe''),
     (''runner_argv'', ex_runner_argv), (''runner_owner'', ex_leader 9), (''runner_sha256'', JStr RUN_CHECK_SHA),
     (''safe_environment'', restrict ENVIRONMENT SAFE_KEYS), (''success'', JBool True),
     (''supervisor_sha256'', JStr (example_source ''supervise.py'')), (''target_argv'', JArr [JStr ''/x'']), (''target_owner'', ex_leader 10)]"

definition ex_artifacts :: "(string \<times> string) list" where
  "ex_artifacts = [(''supervised/supervisor.json'', encoded ex_supervisor), (''supervised/resources.jsonl'', jsonl ex_sample),
     (''supervised/runner.stdout'', []), (''supervised/runner.stderr'', []), (''supervised/inner/started.json'', encoded ex_result),
     (''supervised/inner/owner.json'', encoded (ex_leader 10)), (''supervised/inner/result.json'', encoded ex_result),
     (''supervised/inner/stdout'', []), (''supervised/inner/stderr'', [])]"

abbreviation ex_bound :: json where "ex_bound \<equiv> sort_keys example_manifest"
abbreviation ex_policy :: json where "ex_policy \<equiv> sort_keys example_policy"

text \<open>The supervisor of the example delivers the artifacts.\<close>

definition overlay :: "evidence_dir \<Rightarrow> evidence_dir" where
  "overlay d = d\<lparr>ed_file := (\<lambda>n. case map_of ex_artifacts n of Some x \<Rightarrow> quiet_view x | None \<Rightarrow> ed_file d n)\<rparr>"

definition deliver :: "run_view \<Rightarrow> run_view" where
  "deliver v = v\<lparr>rv_dir := overlay (rv_dir v), rv_again := overlay (rv_again v), rv_exists := (\<lambda>n. n \<in> set ARTIFACTS \<or> rv_exists v n)\<rparr>"

definition ex_start :: run_view where
  "ex_start = \<lparr>rv_dir = example_dir, rv_again = example_dir, rv_exists = (\<lambda>_. False), rv_linked = (\<lambda>_. False)\<rparr>"

definition ex_request :: string where
  "ex_request = encoded (request_json (\<lambda>x. x) ex_bound (encoded example_manifest))"

definition ex_view :: run_view where
  "ex_view = deliver (with_file ''execution.json'' ex_request ex_start)"

lemma example_sources_distinct: "distinct (map fst example_sources)"
  by (simp add: example_sources_def comp_def)

lemma ex_policy_ok: "json_ok ex_policy"
  by (rule json_ok_sort_keys [OF example_policy_ok])

lemma example_manifest_ok: "json_ok example_manifest"
  unfolding example_manifest_def by (rule json_ok_manifest [OF ex_policy_ok example_sources_distinct])

lemma ex_policy_get: "jget ex_policy ''wall_seconds'' = JInt 3" "jget ex_policy ''barrier_seconds'' = JInt 2" "jget ex_policy ''outer_seconds'' = JInt 8"
  unfolding jget_sorted [OF example_policy_ok] by (simp_all add: example_policy_def jget_def)

lemma ex_bound_get:
  "jget ex_bound ''target_argv'' = JArr [JStr ''/x'']" "jget ex_bound ''cwd'' = JStr ''/r''" "jget ex_bound ''runner_argv'' = ex_runner_argv"
  "jget ex_bound ''environment'' = sort_keys ENVIRONMENT" "jget ex_bound ''run_id'' = JStr ''0123456789abcdef0123456789abcdef''"
  "jget ex_bound ''tool_directory'' = JStr ''/r/t''" "jget ex_bound ''python'' = JStr ''/p''"
proof -
  note g = example_manifest_def sorted_get [OF ex_policy_ok example_sources_distinct] manifest_get
  show "jget ex_bound ''target_argv'' = JArr [JStr ''/x'']" "jget ex_bound ''environment'' = sort_keys ENVIRONMENT"
    "jget ex_bound ''run_id'' = JStr ''0123456789abcdef0123456789abcdef''" unfolding g by simp_all
  show "jget ex_bound ''cwd'' = JStr ''/r''" "jget ex_bound ''tool_directory'' = JStr ''/r/t''" "jget ex_bound ''python'' = JStr ''/p''"
    unfolding g by (simp_all add: example_installation_def)
  have "joined ''/r/t'' ''run_check.py'' = ''/r/t/run_check.py''" "joined ''/e'' ''supervised/inner'' = ''/e/supervised/inner''" "show_int 3 = ''3''"
    by code_simp+
  then show "jget ex_bound ''runner_argv'' = ex_runner_argv"
    unfolding g runner_argv_def base_get ex_policy_get by (simp add: example_installation_def example_place_def py_str_number_def ex_runner_argv_def)
qed

text \<open>The checks see the manifest through these fields only, so they can be evaluated on a small one.\<close>

definition ex_fields :: json where
  "ex_fields = JObj [(''target_argv'', JArr [JStr ''/x'']), (''cwd'', JStr ''/r''), (''runner_argv'', ex_runner_argv), (''environment'', sort_keys ENVIRONMENT)]"

definition ex_budgets :: json where
  "ex_budgets = JObj [(''barrier_seconds'', JInt 2), (''outer_seconds'', JInt 8), (''wall_seconds'', JInt 3)]"

lemma ex_fields_get:
  "jget ex_bound k = jget ex_fields k" if "k \<in> {''target_argv'', ''cwd'', ''runner_argv'', ''environment''}"
  using that ex_bound_get by (auto simp: ex_fields_def jget_def)

lemma ex_budgets_get: "jget ex_policy k = jget ex_budgets k" if "k \<in> {''barrier_seconds'', ''outer_seconds'', ''wall_seconds''}"
  using that ex_policy_get by (auto simp: ex_budgets_def jget_def)

lemma ex_supervisor_accepted: "check_supervisor ex_bound ex_policy (sort_keys ex_supervisor) = Inr ()"
proof -
  have "check_supervisor ex_bound ex_policy s = check_supervisor ex_fields ex_budgets s" for s
    unfolding check_supervisor_def using ex_fields_get ex_budgets_get by simp
  moreover have "check_supervisor ex_fields ex_budgets (sort_keys ex_supervisor) = Inr ()" by code_simp
  ultimately show ?thesis by simp
qed

lemma ex_runner_accepted:
  "check_runner (sort_keys ex_supervisor) (sort_keys ex_result) (sort_keys ex_result) (sort_keys (ex_leader 10)) (jget (sort_keys ex_result) ''cleanup'') = Inr ()"
  by code_simp

lemma ex_json_ok: "json_ok ex_result" "json_ok ex_supervisor" "json_ok (ex_leader 10)" "json_ok ex_sample"
  by code_simp+

lemma ex_record_accepted: "check_record ex_bound ex_policy (sort_keys ex_result) = Inr ()"
proof -
  have "expected_limits ex_policy = expected_limits example_policy"
    unfolding expected_limits_def ex_policy_get by (simp add: example_policy_def jget_def)
  moreover have "jget ex_result ''limits'' = expected_limits example_policy" by (simp add: ex_result_def jget_def)
  ultimately have lim: "encoded (jget (sort_keys ex_result) ''limits'') = encoded (expected_limits ex_policy)"
    by (simp add: jget_sorted [OF ex_json_ok(1)] encoded_sorted)
  have "py_eq (jget (sort_keys ex_result) ''argv'') (jget ex_fields ''target_argv'')" "py_eq (jget (sort_keys ex_result) ''cwd'') (jget ex_fields ''cwd'')"
    "py_eq (jget (sort_keys ex_result) ''environment'') (restrict (jget ex_fields ''environment'') RUNNER_KEYS)"
    "jget (sort_keys ex_result) ''opt_in_flags'' = JObj []"
    by code_simp+
  then show ?thesis unfolding check_record_def lim using ex_fields_get by (simp add: requires_def)
qed

lemma ex_trace_accepted: "check_trace (sort_keys ex_supervisor) (sort_keys (ex_leader 10)) (jsonl ex_sample) = Inr ()"
proof -
  have "py_splitlines (jsonl ex_sample) = [dumps ex_sample]" using splitlines_jsonl [of "[ex_sample]"] by simp
  moreover have "\<not> blank (dumps ex_sample)" by code_simp
  moreover have "decode_evidence (dumps ex_sample) = Inr (sort_keys ex_sample)" by (simp add: decode_evidence_def loads_dumps [OF ex_json_ok(4)])
  ultimately have "bindr (map_res decode_evidence (filter (\<lambda>l. \<not> blank l) (py_splitlines (jsonl ex_sample)))) f = f [sort_keys ex_sample]" for f :: "json list \<Rightarrow> unit res"
    by simp
  moreover have "(let pre = jget (sort_keys ex_supervisor) ''pre_release_live_sample'' in is_dict pre \<and> list_ex (\<lambda>r. py_eq r pre) [sort_keys ex_sample] \<and>
     jget pre ''valid'' = JBool True \<and> jget pre ''live'' = JBool True \<and> is_dict (jget pre ''identity'') \<and>
     list_all (\<lambda>k. py_eq (jget (jget pre ''identity'') k) (jget (sort_keys (ex_leader 10)) k)) [''pid'', ''pgid'', ''sid'', ''start_ticks''])" by code_simp
  moreover have "is_dict (sort_keys ex_sample)" by code_simp
  ultimately show ?thesis unfolding check_trace_def by (simp add: Let_def requires_def)
qed

lemma ex_verdict: "verdict (sort_keys ex_supervisor) (sort_keys ex_result) o' = Inr (o'\<lparr>oc_state := ''target_completed'', oc_succeeded := True\<rparr>)"
proof -
  let ?s = "sort_keys ex_supervisor" and ?r = "sort_keys ex_result"
  have "clean_records ?s ?r" by code_simp
  then show ?thesis by (simp add: clean_records_def verdict_def Let_def requires_def is_nil_def)
qed

definition ex_refs :: "(string \<times> json) list" where
  "ex_refs = map (\<lambda>(n, x). (n, content_ref (\<lambda>x. x) x)) ex_artifacts"

lemma ex_raw_accepted: "check_raw (sort_keys ex_result) ex_refs = Inr ()"
proof -
  have "map_of ex_refs (''supervised/inner/'' @ n) = Some (content_ref (\<lambda>x. x) [])" if "n \<in> {''stdout'', ''stderr''}" for n
    using that by (auto simp: ex_refs_def ex_artifacts_def)
  moreover have "list_all (\<lambda>n. py_eq (jget (jget (sort_keys ex_result) ''raw'') n) (content_ref (\<lambda>x. x) [])) [''stdout'', ''stderr'']"
    "is_dict (jget (sort_keys ex_result) ''raw'')" by code_simp+
  ultimately show ?thesis by (simp add: check_raw_def requires_def)
qed

lemma ex_sizes: "length (encoded ex_supervisor) \<le> 30000" "length (encoded ex_result) \<le> 9000" "length (encoded (ex_leader 10)) \<le> 600"
  "length (jsonl ex_sample) \<le> 200"
proof -
  have f: "to_float (JInt 3) = JFloat 3 0" by code_simp
  have lim: "weight l (expected_limits example_policy) \<le> 2500 + 300 * l" for l
    by (simp add: expected_limits_def FIXED_def show_int_def show_nat.simps float_repr_def Let_def f example_policy_def jget_def)
  have env: "weight l (restrict ENVIRONMENT RUNNER_KEYS) \<le> 500 + 50 * l" "weight l (restrict ENVIRONMENT SAFE_KEYS) \<le> 1500 + 50 * l" for l
    by (simp_all add: restrict_def ENVIRONMENT_def RUNNER_KEYS_def SAFE_KEYS_def jget_def)
  have res: "weight l ex_result \<le> 6000 + 500 * l" for l
    using lim [of "Suc l"] env [of "Suc l"]
    by (simp add: ex_result_def ex_cleanup_def ex_primary_def ex_leader_def content_ref_def show_int_def show_nat.simps)
  have "weight 0 (ex_leader 10) \<le> 500" by (simp add: ex_leader_def show_int_def show_nat.simps)
  moreover have "weight 0 ex_supervisor \<le> 20000"
    using env [of 1] res [of 1]
    by (simp add: ex_supervisor_def ex_cleanup_def ex_primary_def ex_leader_def ex_sample_def ex_runner_argv_def RUN_CHECK_SHA_def
        example_source_def APPROVED_def show_int_def show_nat.simps)
  moreover note res [of 0]
  ultimately show "length (encoded ex_supervisor) \<le> 30000" "length (encoded ex_result) \<le> 9000" "length (encoded (ex_leader 10)) \<le> 600"
    using length_encoded [of ex_supervisor] length_encoded [of ex_result] length_encoded [of "ex_leader 10"] by simp_all
  show "length (jsonl ex_sample) \<le> 200" by code_simp
qed

lemma ex_artifact_names: "map fst ex_artifacts = ARTIFACTS"
  by (simp add: ex_artifacts_def ARTIFACTS_def BASE_def INNER_def)

lemma ex_artifacts_small: "(n, x) \<in> set ex_artifacts \<Longrightarrow> length x \<le> 30000"
  using ex_sizes by (auto simp: ex_artifacts_def)

lemma ex_files: "map_of ex_artifacts n = Some x \<Longrightarrow> ed_file (rv_dir ex_view) n = quiet_view x \<and> ed_file (rv_again ex_view) n = quiet_view x"
  by (simp add: ex_view_def deliver_def overlay_def)

lemma ex_read: "(n, x) \<in> set ex_artifacts \<Longrightarrow> read_regular MiB2 (ed_file (rv_dir ex_view) n) = Inr x \<and> read_regular MiB2 (ed_file (rv_again ex_view) n) = Inr x"
proof -
  assume a: "(n, x) \<in> set ex_artifacts"
  have "distinct (map fst ex_artifacts)" by (simp add: ex_artifact_names ARTIFACTS_distinct)
  with a have "map_of ex_artifacts n = Some x" by simp
  with ex_artifacts_small [OF a] show ?thesis by (simp add: ex_files read_quiet MiB2_def)
qed

lemma ex_record: "(n, encoded x) \<in> set ex_artifacts \<Longrightarrow> json_ok x \<Longrightarrow> read_record ex_view n = Inr (sort_keys x)"
  by (simp add: read_record_def ex_read decode_evidence_def encoded_codec.read_render)

lemma ex_collected: "collect_artifacts (\<lambda>x. x) ex_view = Inr (ex_refs, [])"
proof -
  have ex: "rv_exists ex_view n" if "n \<in> set ARTIFACTS" for n using that by (simp add: ex_view_def deliver_def)
  have lk: "\<not> rv_linked ex_view n" for n by (simp add: ex_view_def deliver_def with_file_def ex_start_def)
  have "fold_res (collect_step (\<lambda>x. x) ex_view) (map fst xs) (acc, []) = Inr (acc @ map (\<lambda>(n, x). (n, content_ref (\<lambda>x. x) x)) xs, [])"
    if "set xs \<subseteq> set ex_artifacts" for xs acc
    using that
  proof (induction xs arbitrary: acc)
    case (Cons f xs)
    obtain n x where f: "f = (n, x)" by (cases f)
    then have "n \<in> set ARTIFACTS" using Cons.prems ex_artifact_names by (metis fst_conv image_eqI list.set_intros(1) list.set_map subsetD)
    then have "collect_step (\<lambda>x. x) ex_view n (acc, []) = Inr (acc @ [(n, content_ref (\<lambda>x. x) x)], [])"
      using Cons.prems f ex lk ex_read [of n x] by (simp add: collect_step_def requires_def)
    then show ?case using Cons f by simp
  qed simp
  from this [of ex_artifacts "[]"] show ?thesis by (simp add: collect_artifacts_def ex_artifact_names ex_refs_def)
qed

lemma ex_manifest_file: "ed_file (rv_dir ex_view) ''manifest.json'' = quiet_view (encoded example_manifest)" "ed_file (rv_dir ex_start) ''manifest.json'' = quiet_view (encoded example_manifest)"
proof -
  have "map_of ex_artifacts ''manifest.json'' = None" by (simp add: ex_artifacts_def)
  moreover have "map_of example_files ''manifest.json'' = Some (encoded example_manifest)"
    by (rule map_of_is_SomeI [OF example_files_names]) (simp add: example_files_def prepared_files_def example_manifest_def)
  ultimately show "ed_file (rv_dir ex_view) ''manifest.json'' = quiet_view (encoded example_manifest)" "ed_file (rv_dir ex_start) ''manifest.json'' = quiet_view (encoded example_manifest)"
    by (simp_all add: ex_view_def deliver_def overlay_def with_file_def ex_start_def example_dir_def)
qed

definition ex_outcome :: run_outcome where
  "ex_outcome = \<lparr>oc_run_id = jget ex_bound ''run_id'', oc_state = ''target_completed'', oc_manifest_sha = encoded example_manifest, oc_artifacts = ex_refs,
     oc_missing = [], oc_runner_owner = ex_leader 9, oc_target_owner = ex_leader 10, oc_runner_spawned = True, oc_target_spawned = True, oc_succeeded = True\<rparr>"

lemma ex_owners: "jget (sort_keys ex_supervisor) ''runner_owner'' = ex_leader 9" "jget (sort_keys ex_supervisor) ''target_owner'' = ex_leader 10"
  "is_leader (ex_leader 9)" "is_leader (ex_leader 10)" "is_int (jget (jget (sort_keys ex_supervisor) ''cleanup'') ''runner_exit_code'')"
  "is_bool (jget (jget (sort_keys ex_supervisor) ''cleanup'') ''direct_reaped'')"
  by code_simp+

lemma ex_observed: "observed_outcome (\<lambda>x. x) ex_view ex_bound ex_policy = Inr ex_outcome"
proof -
  have m: "read_regular MiB2 (ed_file (rv_dir ex_view) ''manifest.json'') = Inr (encoded example_manifest)"
    unfolding ex_manifest_file by (rule read_quiet [OF example_manifest_length])
  have files: "(''supervised/supervisor.json'', encoded ex_supervisor) \<in> set ex_artifacts" "(''supervised/inner/started.json'', encoded ex_result) \<in> set ex_artifacts"
    "(''supervised/inner/result.json'', encoded ex_result) \<in> set ex_artifacts" "(''supervised/inner/owner.json'', encoded (ex_leader 10)) \<in> set ex_artifacts"
    "(''supervised/resources.jsonl'', jsonl ex_sample) \<in> set ex_artifacts" by (simp_all add: ex_artifacts_def)
  note r = ex_record [OF files(1) ex_json_ok(2)] ex_record [OF files(2) ex_json_ok(1)] ex_record [OF files(3) ex_json_ok(1)]
    ex_record [OF files(4) ex_json_ok(3)] ex_read [OF files(5)]
  have base: "hd BASE = ''supervised/supervisor.json''" "''supervised/supervisor.json'' \<in> set (map fst ex_refs)"
    by (simp_all add: BASE_def ex_refs_def ex_artifacts_def)
  have "completed_run ex_view ex_bound ex_policy (sort_keys ex_supervisor) o' = Inr (o'\<lparr>oc_state := ''target_completed'', oc_succeeded := True\<rparr>)"
    if "oc_artifacts o' = ex_refs" for o'
    unfolding completed_run_def Let_def r that
    using r(5) ex_owners by (simp add: requires_def ex_runner_accepted ex_trace_accepted ex_record_accepted ex_raw_accepted ex_verdict)
  then show ?thesis
    unfolding observed_outcome_def ex_collected base using base(2)
    by (simp add: m r ex_supervisor_accepted supervised_run_def ex_owners Let_def ex_outcome_def)
qed

lemma ex_dir_binding: "check_binding (\<lambda>_. Some True) (\<lambda>x. x) example_dir = Inr (ex_bound, ex_policy)"
proof -
  have sym: "\<not> ed_symlink example_dir" "\<not> ed_sources_symlink example_dir" by (simp_all add: example_dir_def)
  obtain m policy where c: "check_binding (\<lambda>_. Some True) (\<lambda>x. x) example_dir = Inr (m, policy)"
    "parse_policy (fv_first (quiet_view (encoded example_policy))) = Inr policy"
    by (rule prepared_accepted [OF example_prepare example_installed sym example_dir_holds])
  have "fv_first (ed_file example_dir ''manifest.json'') = encoded example_manifest" using ex_manifest_file(2) by (simp add: ex_start_def quiet_view_def)
  then have "m = ex_bound" using check_bindingD [OF c(1)] encoded_codec.read_render [OF example_manifest_ok] by simp
  moreover have "policy = ex_policy" using c(2) example_policy_parses by (simp add: quiet_view_def)
  ultimately show ?thesis using c(1) by simp
qed

lemma ex_same_binding: "same_binding (rv_dir ex_start) (rv_dir ex_view)"
proof -
  have "ed_file (rv_dir ex_view) n = ed_file (rv_dir ex_start) n" if "n \<in> set BOUND" for n
  proof -
    have "n \<notin> set ARTIFACTS" "n \<noteq> ''execution.json''" using that by (auto simp: BOUND_def ARTIFACTS_def BASE_def INNER_def)
    then have "map_of ex_artifacts n = None" using ex_artifact_names by (metis map_of_eq_None_iff set_map)
    then show ?thesis using \<open>n \<noteq> _\<close> by (simp add: ex_view_def deliver_def overlay_def with_file_def)
  qed
  then show ?thesis by (simp add: same_binding_def) (simp add: ex_view_def deliver_def overlay_def with_file_def)
qed

lemma ex_request_small: "length ex_request \<le> MiB2"
  and ex_outcome_small: "length (encoded (outcome_json ex_outcome)) \<le> MiB2"
proof -
  have m: "length (encoded example_manifest) \<le> 200001" by (rule example_manifest_bound)
  have "weight 0 (request_json (\<lambda>x. x) ex_bound (encoded example_manifest)) \<le> 1300000"
    using m by (simp add: request_json_def ex_bound_get show_int_def show_nat.simps)
  then show "length ex_request \<le> MiB2" using length_encoded [of "request_json (\<lambda>x. x) ex_bound (encoded example_manifest)"]
    by (simp add: ex_request_def MiB2_def)
  have ref: "weight (Suc (Suc 0)) (content_ref (\<lambda>x. x) x) \<le> 6 * length x + 300" if "length x \<le> 30000" for x
    using that length_show_nat [of "length x" 9] by (simp add: content_ref_def show_int_def)
  have refs: "weight 1 (JObj ex_refs) \<le> 400000"
    using ref [of "encoded ex_supervisor"] ref [of "encoded ex_result"] ref [of "encoded (ex_leader 10)"] ref [of "jsonl ex_sample"] ref [of "[]"] ex_sizes
    by (simp add: ex_refs_def ex_artifacts_def)
  have own: "weight 1 (ex_leader 9) \<le> 500" "weight 1 (ex_leader 10) \<le> 500" by (simp_all add: ex_leader_def show_int_def show_nat.simps)
  have "length (show_int 1) \<le> 2" by code_simp
  then have "weight 0 (outcome_json ex_outcome) \<le> 1800000"
    using m refs own by (simp add: outcome_json_def ex_outcome_def ex_bound_get del: weight.simps(5)) (simp add: weight.simps(5))
  then show "length (encoded (outcome_json ex_outcome)) \<le> MiB2" using length_encoded [of "outcome_json ex_outcome"] by (simp add: MiB2_def)
qed

lemma ex_verified:
  "verify (\<lambda>_. Some True) (\<lambda>x. x) (with_file ''outcome.json'' (encoded (outcome_json ex_outcome)) ex_view) False = Inr (executed_report ex_bound ex_outcome)"
proof (rule verify_written)
  show "check_binding (\<lambda>_. Some True) (\<lambda>x. x) (rv_dir ex_view) = Inr (ex_bound, ex_policy)"
    using check_binding_cong [OF ex_same_binding] ex_dir_binding by (simp add: ex_start_def)
  show "ed_file (rv_dir ex_view) ''execution.json'' = quiet_view (encoded (request_json (\<lambda>x. x) ex_bound (encoded example_manifest)))"
    by (simp add: ex_view_def deliver_def overlay_def with_file_def ex_artifacts_def ex_request_def)
  show "read_regular MiB2 (ed_file (rv_dir ex_view) ''manifest.json'') = Inr (encoded example_manifest)"
    unfolding ex_manifest_file by (rule read_quiet [OF example_manifest_length])
  show "length (encoded (request_json (\<lambda>x. x) ex_bound (encoded example_manifest))) \<le> MiB2" using ex_request_small by (simp add: ex_request_def)
qed (rule ex_observed ex_outcome_small)+

definition ex_site :: launch_site where
  "ex_site = \<lparr>ls_inst = example_installation, ls_uid = 0, ls_stat = private_stat [], ls_path = ''/e'', ls_environ = JObj []\<rparr>"

lemma ex_launch_checks: "launch_checks (\<lambda>_. Some True) (\<lambda>x. x) ex_site ex_start = Inr (ex_bound, ex_policy)"
proof -
  note g = example_manifest_def sorted_get [OF ex_policy_ok example_sources_distinct] manifest_get
  have dir: "py_eq (jget ex_bound ''evidence_directory'') (JObj [(''path'', JStr (ls_path ex_site)), (''device'', JInt (fs_dev (ls_stat ex_site))),
      (''inode'', JInt (fs_ino (ls_stat ex_site))), (''uid'', JInt (fs_uid (ls_stat ex_site)))])"
  proof -
    have "py_eq (sort_keys (JObj [(''path'', JStr ''/e''), (''device'', JInt 0), (''inode'', JInt 0), (''uid'', JInt 0)]))
        (JObj [(''path'', JStr ''/e''), (''device'', JInt 0), (''inode'', JInt 0), (''uid'', JInt 0)])" by code_simp
    moreover have "pl_path example_place = ''/e''" "pl_dir example_place = private_stat []" "fs_dev (private_stat []) = 0" "fs_ino (private_stat []) = 0"
      "fs_uid (private_stat []) = 0" "ls_path ex_site = ''/e''" "ls_stat ex_site = private_stat []"
      by (simp_all add: example_place_def private_stat_def ex_site_def)
    ultimately show ?thesis unfolding g by (simp only:)
  qed
  have "fold_res (\<lambda>(name, ref) u. bindr (read_regular MiB2 (in_source (ls_inst ex_site) name)) (\<lambda>data.
               needp (JStr data = jget ref ''sha256'') ''tool source changed before launch'' (Inr ()))) (pairs (jget ex_bound ''tool_sources'')) () = Inr ()"
    unfolding fold_unit
  proof
    fix f assume "f \<in> set (pairs (jget ex_bound ''tool_sources''))"
    then obtain name where f: "f = (name, sort_keys (file_ref (\<lambda>x. x) (''sources/'' @ name) (example_source name)))"
      unfolding g by (auto simp: example_sources_def)
    have "read_regular MiB2 (in_source (ls_inst ex_site) name) = Inr (example_source name)"
      using read_quiet [of "example_source name" MiB2] example_source_length [of name] by (simp add: ex_site_def example_installation_def MiB2_def)
    then show "(case f of (name, ref) \<Rightarrow> \<lambda>u. bindr (read_regular MiB2 (in_source (ls_inst ex_site) name)) (\<lambda>data.
               needp (JStr data = jget ref ''sha256'') ''tool source changed before launch'' (Inr ()))) () = Inr ()"
      by (simp add: f ref_get requires_def)
  qed
  then show ?thesis
    unfolding launch_checks_def using dir ex_dir_binding ex_bound_get
    by (simp add: ex_start_def requires_def ex_site_def example_installation_def private_stat_def)
qed

section \<open>Properties\<close>





text \<open>
  C33: a launch whose supervisor returns ends with the verdict of the evidence: when the supervisor
  left the bound files and the request alone, the outcome rebuilt from its files is written, read
  back, recomputed and reported, for every state it can have and not only for success.
\<close>

theorem launch_completes:
  assumes "launch_checks utc_offset sha site v = Inr (m, policy)" "\<not> rv_exists v ''execution.json''"
    and "req = encoded (request_json sha m (fv_first (ed_file (rv_dir v) ''manifest.json'')))"
    and "run (jget m ''target_argv'') (jget policy ''barrier_seconds'') (jget policy ''outer_seconds'') (jget policy ''wall_seconds'')
           (with_file ''execution.json'' req v) = (v2, Inr ())"
    and "same_binding (rv_dir v) (rv_dir v2)" "ed_file (rv_dir v2) ''execution.json'' = quiet_view req" "\<not> rv_exists v2 ''outcome.json''"
    and "observed_outcome sha v2 m policy = Inr o'" "length req \<le> MiB2" "length (encoded (outcome_json o')) \<le> MiB2"
  shows "snd (launch utc_offset sha site run v) = Inr (executed_report m o')"
proof -
  have b: "check_binding utc_offset sha (rv_dir v) = Inr (m, policy)"
    using assms(1) unfolding launch_checks_def by (auto simp: bindr_Inr_iff requires_Inr_iff)
  then obtain mraw where r: "read_regular MiB2 (ed_file (rv_dir v) ''manifest.json'') = Inr mraw"
    unfolding check_binding_def by (auto simp: bindr_Inr_iff requires_Inr_iff)
  then have req: "req = encoded (request_json sha m mraw)" using assms(3) read_regularD [OF r] by simp
  have "ed_file (rv_dir v2) ''manifest.json'' = ed_file (rv_dir v) ''manifest.json''" using assms(5) by (simp add: same_binding_def BOUND_def)
  then have r2: "read_regular MiB2 (ed_file (rv_dir v2) ''manifest.json'') = Inr mraw" using r by simp
  have "check_binding utc_offset sha (rv_dir v2) = Inr (m, policy)" using check_binding_cong [OF assms(5)] b by simp
  from verify_written [OF this _ r2 assms(8,10)] assms(6,9)
  have "verify utc_offset sha (with_file ''outcome.json'' (encoded (outcome_json o')) v2) False = Inr (executed_report m o')" by (simp add: req)
  then show ?thesis
    unfolding launch_def outcome_step_def using assms(1,2,4,7,8) r by (simp add: write_private_def Let_def req)
qed

theorem launch_completes_witness:
  "snd (launch (\<lambda>_. Some True) (\<lambda>x. x) ex_site (\<lambda>_ _ _ _ v. (deliver v, Inr ())) ex_start) = Inr (executed_report ex_bound ex_outcome)"
proof -
  have "ex_request = encoded (request_json (\<lambda>x. x) ex_bound (fv_first (ed_file (rv_dir ex_start) ''manifest.json'')))"
    by (simp only: ex_manifest_file) (simp add: ex_request_def quiet_view_def)
  moreover have "\<not> rv_exists ex_start ''execution.json''" "\<not> rv_exists ex_view ''outcome.json''"
    by (simp_all add: ex_start_def ex_view_def deliver_def with_file_def ARTIFACTS_def BASE_def INNER_def)
  moreover have "ed_file (rv_dir ex_view) ''execution.json'' = quiet_view ex_request"
    by (simp add: ex_view_def deliver_def overlay_def with_file_def ex_artifacts_def)
  ultimately show ?thesis
    using launch_completes [OF ex_launch_checks _ _ _ ex_same_binding _ _ ex_observed ex_request_small ex_outcome_small] by (simp add: ex_view_def)
qed

end
