(* ===== verification/Proc_Identity.thy ===== *)
theory Proc_Identity
  imports Json_Codec
begin

text \<open>
  The kernel as the tools see it, and process identities.

  A \<open>kernel\<close> answers the \<open>n\<close>-th system call of a run in an arbitrary way: every field is a
  function of the number of calls made so far (the tick), so a theorem for all kernels holds
  for every behaviour of the host, every scheduling and every race between two reads.
  A \<open>world\<close> is the tick and the log of the effects the tool had on the host.

  \<open>parse_stat\<close>, \<open>run_identity\<close>, \<open>ps_identity\<close> and the \<open>same\<close> functions model
  \<^verbatim>\<open>run_check.identity\<close>, \<^verbatim>\<open>run_check.same_process\<close>, \<^verbatim>\<open>processes.identity\<close>,
  \<^verbatim>\<open>processes.same\<close>, \<^verbatim>\<open>processes.members\<close> and \<^verbatim>\<open>processes.send\<close>. The locale
  \<open>generation_match\<close> is the contract of the identity comparison: the runner, the supervisor and
  the sampler each have their own copy of it.
\<close>

section \<open>The kernel and the world\<close>

type_synonym ns = int

record wait_event =
  si_code :: int
  si_status :: int

record kernel =
  k_entries :: "nat \<Rightarrow> string list res"
  k_stat :: "nat \<Rightarrow> int \<Rightarrow> string res"
  k_status :: "nat \<Rightarrow> int \<Rightarrow> string res"
  k_meminfo :: "nat \<Rightarrow> string res"
  k_clock :: "nat \<Rightarrow> ns"
  k_signal :: "nat \<Rightarrow> int option"
  k_killpg :: "nat \<Rightarrow> int \<Rightarrow> int \<Rightarrow> unit res"
  k_waitid :: "nat \<Rightarrow> int \<Rightarrow> wait_event option res"
  k_wait :: "nat \<Rightarrow> int \<Rightarrow> int res"
  k_popen :: "nat \<Rightarrow> string list \<Rightarrow> (string \<rightharpoonup> string) \<Rightarrow> int res"
  k_mkdir :: "nat \<Rightarrow> unit res"
  k_open :: "nat \<Rightarrow> unit res"
  k_close :: "nat \<Rightarrow> unit res"
  k_write :: "nat \<Rightarrow> string \<Rightarrow> unit res"
  k_tail :: "nat \<Rightarrow> string res"
  k_read :: "nat \<Rightarrow> string \<Rightarrow> string res"
  k_getpgrp :: int

datatype effect =
    Killpg int int nat
  | Popen "string list" "string \<rightharpoonup> string" int
  | Reaped int int
  | Wrote string

record world =
  tick :: nat
  log :: "effect list"

definition sys :: "(nat \<Rightarrow> 'a res) \<Rightarrow> ('b world_scheme, 'a) io" where
  "sys f = (\<lambda>w. Some (f (tick w), w\<lparr>tick := Suc (tick w)\<rparr>))"

definition emit :: "effect \<Rightarrow> ('b world_scheme, unit) io" where
  "emit x = modify (\<lambda>w. w\<lparr>log := log w @ [x]\<rparr>)"

definition clock :: "kernel \<Rightarrow> ('b world_scheme, ns) io" where
  "clock K = sys (\<lambda>t. Inr (k_clock K t))"

definition sleep :: "('b world_scheme, unit) io" where
  "sleep = sys (\<lambda>t. Inr ())"

text \<open>Create a file exclusively and write it.\<close>

definition write_file :: "kernel \<Rightarrow> string \<Rightarrow> ('b world_scheme, unit) io" where
  "write_file K path = bindi (sys (\<lambda>t. k_write K t path)) (\<lambda>_. emit (Wrote path))"

text \<open>\<open>os.killpg(pgid, number)\<close>; the effect is logged with the tick of the call.\<close>

definition killpg :: "kernel \<Rightarrow> int \<Rightarrow> int \<Rightarrow> ('b world_scheme, unit) io" where
  "killpg K g s = (\<lambda>w. Some (k_killpg K (tick w) g s,
     w\<lparr>tick := Suc (tick w), log := log w @ [Killpg g s (tick w)]\<rparr>))"

abbreviation SIGINT :: int where "SIGINT \<equiv> 2"
abbreviation SIGKILL :: int where "SIGKILL \<equiv> 9"
abbreviation SIGTERM :: int where "SIGTERM \<equiv> 15"

section \<open>Process identities\<close>

text \<open>The fields every identity has (\<open>KEYS\<close> and the state); the runner's has the parent too.\<close>

record ident =
  p_pid :: int
  p_state :: string
  p_pgid :: int
  p_sid :: int
  p_ticks :: int

record proc_id = ident +
  p_ppid :: int

text \<open>\<open>state in ('Z', 'X')\<close>\<close>

definition dead_state :: "string \<Rightarrow> bool" where
  "dead_state s \<longleftrightarrow> s = ''Z'' \<or> s = ''X''"

text \<open>
  The parser of \<^verbatim>\<open>/proc/PID/stat\<close>: the fields after the last closing parenthesis, so that a
  command name with spaces or parentheses in it cannot shift them.
\<close>

definition stat_fields :: "string \<Rightarrow> string list" where
  "stat_fields raw = py_split (py_slice_from raw (py_rfind CHR '')'' raw + 2))"

definition parse_stat :: "int \<Rightarrow> string \<Rightarrow> proc_id res" where
  "parse_stat pid raw =
     (let fields = stat_fields raw in
      bindr (nth_res fields 0) (\<lambda>st.
      bindr (bindr (nth_res fields 1) py_int) (\<lambda>ppid.
      bindr (bindr (nth_res fields 2) py_int) (\<lambda>pgid.
      bindr (bindr (nth_res fields 3) py_int) (\<lambda>sid.
      bindr (bindr (nth_res fields 19) py_int) (\<lambda>ticks.
      Inr \<lparr>p_pid = pid, p_state = st, p_pgid = pgid, p_sid = sid, p_ticks = ticks, p_ppid = ppid\<rparr>))))))"

text \<open>\<open>run_check.identity\<close> maps only a missing file to \<open>None\<close>.\<close>

definition run_identity :: "kernel \<Rightarrow> int \<Rightarrow> ('b world_scheme, proc_id option) io" where
  "run_identity K pid =
     bindi (attempt (sys (\<lambda>t. k_stat K t pid))) (\<lambda>r.
       case r of
         Inl e \<Rightarrow> if e = FileNotFoundError then ret None else raise e
       | Inr raw \<Rightarrow> bindi (lift_res (parse_stat pid raw)) (\<lambda>i. ret (Some i)))"

text \<open>\<open>processes.identity\<close> also maps a vanished process to \<open>None\<close>.\<close>

definition ps_identity :: "kernel \<Rightarrow> int \<Rightarrow> ('b world_scheme, proc_id option) io" where
  "ps_identity K pid =
     bindi (attempt (bindi (sys (\<lambda>t. k_stat K t pid)) (\<lambda>raw. lift_res (parse_stat pid raw)))) (\<lambda>r.
       case r of
         Inl e \<Rightarrow> if e = FileNotFoundError \<or> e = ProcessLookupError then ret None else raise e
       | Inr i \<Rightarrow> ret (Some i))"

definition same_process :: "'a ident_scheme option \<Rightarrow> 'b ident_scheme option \<Rightarrow> bool" where
  "same_process a b = (case (a, b) of
      (Some x, Some y) \<Rightarrow> p_pid x = p_pid y \<and> p_ticks x = p_ticks y \<and> p_pgid x = p_pgid y \<and> p_sid x = p_sid y
    | _ \<Rightarrow> False)"

text \<open>\<open>processes.same\<close>: the same comparison over its own \<open>KEYS\<close> tuple.\<close>

definition key_values :: "'a ident_scheme \<Rightarrow> int list" where
  "key_values x = [p_pid x, p_ticks x, p_pgid x, p_sid x]"

definition ps_same :: "'a ident_scheme option \<Rightarrow> 'b ident_scheme option \<Rightarrow> bool" where
  "ps_same a b \<longleftrightarrow> a \<noteq> None \<and> b \<noteq> None \<and>
     list_all2 (=) (key_values (the a)) (key_values (the b))"

text \<open>\<open>processes.members\<close>: the live members of the owner's session.\<close>

fun ps_scan :: "kernel \<Rightarrow> int \<Rightarrow> string list \<Rightarrow> ('b world_scheme, proc_id list) io" where
  "ps_scan K sid [] = ret []"
| "ps_scan K sid (name # names) =
     (if \<not> py_isdigit name then ps_scan K sid names
      else bindi (lift_res (py_int name)) (\<lambda>pid.
           bindi (ps_identity K pid) (\<lambda>i.
           bindi (ps_scan K sid names) (\<lambda>rest.
             ret (case i of
                Some p \<Rightarrow> if p_sid p = sid \<and> \<not> dead_state (p_state p) then p # rest else rest
              | None \<Rightarrow> rest)))))"

definition ps_members :: "kernel \<Rightarrow> proc_id option \<Rightarrow> ('b world_scheme, proc_id list) io" where
  "ps_members K owner = (case owner of
      None \<Rightarrow> ret []
    | Some o' \<Rightarrow> bindi (sys (k_entries K)) (ps_scan K (p_sid o')))"

text \<open>A session leader that may be signalled: never PID 1, never our own group.\<close>

definition safe_anchor :: "kernel \<Rightarrow> 'a ident_scheme \<Rightarrow> bool" where
  "safe_anchor K o' \<longleftrightarrow> \<not> (p_pid o' \<le> 1 \<or> p_pgid o' \<noteq> p_pid o' \<or> p_sid o' \<noteq> p_pid o' \<or> p_pgid o' = k_getpgrp K)"

definition ps_send :: "kernel \<Rightarrow> proc_id option \<Rightarrow> int \<Rightarrow> ('b world_scheme, unit) io" where
  "ps_send K owner number = (case owner of
      None \<Rightarrow> raise (RuntimeError ''unverifiable_session_anchor'')
    | Some o' \<Rightarrow>
        bindi (ps_identity K (p_pid o')) (\<lambda>current.
          if \<not> ps_same (Some o') current then raise (RuntimeError ''unverifiable_session_anchor'')
          else if \<not> safe_anchor K o' then raise (RuntimeError ''unsafe_session_anchor'')
          else bindi (attempt (killpg K (p_pgid o') number)) (\<lambda>r.
            case r of
              Inl e \<Rightarrow> if e = ProcessLookupError then ret () else raise e
            | Inr u \<Rightarrow> ret ())))"

section \<open>Frame conditions\<close>

text \<open>
  \<open>logs P m\<close>: \<open>m\<close> never turns the tick back, and every effect it has on the host satisfies \<open>P\<close>.
  Code that only reads satisfies it for every \<open>P\<close>.
\<close>

named_theorems logs_intros \<open>compositional rules for \<open>logs\<close>\<close>

definition logs :: "(effect \<Rightarrow> bool) \<Rightarrow> ('b world_scheme, 'a) io \<Rightarrow> bool" where
  "logs P m \<longleftrightarrow> (\<forall>w r w'. m w = Some (r, w') \<longrightarrow>
     (\<exists>xs. log w' = log w @ xs \<and> (\<forall>x \<in> set xs. P x)) \<and> tick w \<le> tick w')"

lemma logsI:
  "(\<And>w r w'. m w = Some (r, w') \<Longrightarrow>
      (\<exists>xs. log w' = log w @ xs \<and> (\<forall>x \<in> set xs. P x)) \<and> tick w \<le> tick w') \<Longrightarrow> logs P m"
  by (auto simp: logs_def)

lemma logsD: "logs P m \<Longrightarrow> m w = Some (r, w') \<Longrightarrow>
    (\<exists>xs. log w' = log w @ xs \<and> (\<forall>x \<in> set xs. P x)) \<and> tick w \<le> tick w'"
  by (auto simp: logs_def)

lemma logs_quietD: "logs (\<lambda>x. False) m \<Longrightarrow> m w = Some (r, w') \<Longrightarrow> log w' = log w \<and> tick w \<le> tick w'"
  by (drule (1) logsD) auto

lemma logs_mono: "logs P m \<Longrightarrow> (\<And>x. P x \<Longrightarrow> Q x) \<Longrightarrow> logs Q m"
  unfolding logs_def by meson

lemma logs_basic [logs_intros]:
  "logs P (ret x)" "logs P (raise e)" "logs P (lift_res r)" "logs P (gets f)" "logs P (sys g)"
  "logs P (clock K)" "logs P sleep"
  by (auto simp: logs_def io_simps sys_def clock_def sleep_def)

lemma logs_emit [logs_intros]: "P x \<Longrightarrow> logs P (emit x)"
  by (auto simp: logs_def emit_def io_simps)

lemma logs_killpg: "(\<And>t. P (Killpg g s t)) \<Longrightarrow> logs P (killpg K g s)"
  by (auto simp: logs_def killpg_def)

lemma logs_bindi [logs_intros]:
  assumes "logs P m" and "\<And>x. logs P (f x)"
  shows "logs P (bindi m f)"
proof (rule logsI)
  fix w r w' assume "bindi m f w = Some (r, w')"
  then consider e where "m w = Some (Inl e, w')" | x w1 where "m w = Some (Inr x, w1)" "f x w1 = Some (r, w')"
    by (auto simp: bindi_Some_iff)
  then show "(\<exists>xs. log w' = log w @ xs \<and> (\<forall>x \<in> set xs. P x)) \<and> tick w \<le> tick w'"
  proof cases
    case 1
    with assms(1) show ?thesis by (rule logsD)
  next
    case 2
    obtain xs where xs: "log w1 = log w @ xs" "\<forall>x \<in> set xs. P x" "tick w \<le> tick w1"
      using logsD [OF assms(1) 2(1)] by blast
    obtain ys where ys: "log w' = log w1 @ ys" "\<forall>x \<in> set ys. P x" "tick w1 \<le> tick w'"
      using logsD [OF assms(2) 2(2)] by blast
    from xs ys have "log w' = log w @ xs @ ys" "\<forall>x \<in> set (xs @ ys). P x" "tick w \<le> tick w'" by auto
    then show ?thesis by blast
  qed
qed

lemma logs_attempt [logs_intros]: "logs P m \<Longrightarrow> logs P (attempt m)"
  unfolding logs_def by (auto simp: attempt_Some_iff)

lemma total_sys [total_intros]: "total (sys g)" "total (clock K)" "total sleep" "total (killpg K a b)" "total (emit x)"
  by (simp_all add: total_def sys_def clock_def sleep_def killpg_def emit_def io_simps)

lemma logs_run_identity [logs_intros]: "logs P (run_identity K pid)"
  unfolding run_identity_def by (intro logs_intros) (auto split: sum.split intro!: logs_intros)

lemma total_run_identity [total_intros]: "total (run_identity K pid)"
  unfolding run_identity_def by (intro total_intros) (auto split: sum.split intro!: total_intros)

lemma keeps_sys [keeps_intros]: "(\<And>w n. f (w\<lparr>tick := n\<rparr>) = f w) \<Longrightarrow> keeps f (sys g)"
  by (auto simp: keeps_def sys_def)

lemma keeps_clock [keeps_intros]:
  "(\<And>w n. f (w\<lparr>tick := n\<rparr>) = f w) \<Longrightarrow> keeps f (clock K)"
  "(\<And>w n. f (w\<lparr>tick := n\<rparr>) = f w) \<Longrightarrow> keeps f sleep"
  by (auto simp: clock_def sleep_def intro: keeps_sys)

lemma keeps_run_identity [keeps_intros]:
  "(\<And>w n. f (w\<lparr>tick := n\<rparr>) = f w) \<Longrightarrow> keeps f (run_identity K pid)"
  unfolding run_identity_def by (intro keeps_intros) (auto split: sum.split intro!: keeps_intros)

lemma logs_ps_identity [logs_intros]: "logs P (ps_identity K pid)"
  unfolding ps_identity_def by (intro logs_intros) (auto split: sum.split intro!: logs_intros)

lemma total_ps_identity [total_intros]: "total (ps_identity K pid)"
  unfolding ps_identity_def by (intro total_intros) (auto split: sum.split intro!: total_intros)

lemma logs_ps_scan [logs_intros]: "logs P (ps_scan K sid names)"
  by (induction names) (auto intro!: logs_intros)

lemma logs_ps_members [logs_intros]: "logs P (ps_members K owner)"
  unfolding ps_members_def by (cases owner) (auto intro!: logs_intros)

text \<open>What a successful identity read says about the kernel at that tick.\<close>

definition seen_as :: "kernel \<Rightarrow> nat \<Rightarrow> int \<Rightarrow> proc_id \<Rightarrow> bool" where
  "seen_as K t pid i \<longleftrightarrow> (\<exists>raw. k_stat K t pid = Inr raw \<and> parse_stat pid raw = Inr i)"

lemma run_identity_SomeD:
  assumes "run_identity K pid w = Some (Inr (Some i), w')"
  shows "seen_as K (tick w) pid i \<and> w' = w\<lparr>tick := Suc (tick w)\<rparr>"
  using assms unfolding run_identity_def
  by (auto simp: io_simps sys_def seen_as_def split: sum.splits if_splits)

lemma ps_identity_SomeD:
  assumes "ps_identity K pid w = Some (Inr (Some i), w')"
  shows "seen_as K (tick w) pid i \<and> w' = w\<lparr>tick := Suc (tick w)\<rparr>"
  using assms unfolding ps_identity_def
  by (cases "k_stat K (tick w) pid"; cases "parse_stat pid (projr (k_stat K (tick w) pid))")
    (auto simp: bindi_def attempt_def lift_res_def sys_def io_apply seen_as_def split: if_splits)

section \<open>The contract of the identity comparison\<close>

locale generation_match =
  fixes same :: "'a ident_scheme option \<Rightarrow> 'a ident_scheme option \<Rightarrow> bool"
  assumes same_Some: "same (Some x) (Some y) \<longleftrightarrow> key_values x = key_values y"
    and same_None: "\<not> same None b" "\<not> same a None"
begin

lemma same_obtain:
  assumes "same a b"
  obtains x y where "a = Some x" and "b = Some y" and "key_values x = key_values y"
  using assms same_None by (cases a; cases b) (auto simp: same_Some)

lemma same_sym: "same a b \<Longrightarrow> same b a"
  by (erule same_obtain) (simp add: same_Some)

lemma same_trans: "same a b \<Longrightarrow> same b c \<Longrightarrow> same a c"
  by (elim same_obtain) (simp add: same_Some)

text \<open>A reused PID (another start time) or a process that left its session never matches.\<close>

lemma reused_pid_differs: "p_ticks x \<noteq> p_ticks y \<Longrightarrow> \<not> same (Some x) (Some y)"
  by (simp add: same_Some key_values_def)

lemma anchor_transfer: "same (Some x) (Some y) \<Longrightarrow> safe_anchor K x \<longleftrightarrow> safe_anchor K y"
  by (simp add: same_Some key_values_def safe_anchor_def)

end

interpretation runner_same: generation_match same_process
  by unfold_locales (auto simp: same_process_def key_values_def split: option.splits)

interpretation ps_match: generation_match ps_same
  by unfold_locales (auto simp: ps_same_def key_values_def)

section \<open>Parsing the stat record\<close>

text \<open>The record as the kernel prints it, for any command name.\<close>

definition render_stat :: "int \<Rightarrow> string \<Rightarrow> string list \<Rightarrow> string" where
  "render_stat pid comm fs = show_int pid @ '' ('' @ comm @ '') '' @ join '' '' fs @ [LF]"

lemma join_chars: "c \<in> set (join sep ws) \<Longrightarrow> c \<in> set sep \<or> (\<exists>w \<in> set ws. c \<in> set w)"
  by (induction ws rule: induct_list012) auto

lemma stat_fields_render:
  assumes "\<forall>f \<in> set fs. is_word f \<and> CHR '')'' \<notin> set f"
  shows "stat_fields (render_stat pid comm fs) = fs"
proof -
  let ?pre = "show_int pid @ '' ('' @ comm"
  let ?post = "'' '' @ join '' '' fs @ [LF]"
  have raw: "render_stat pid comm fs = ?pre @ CHR '')'' # ?post" by (simp add: render_stat_def)
  have "CHR '')'' \<notin> set (join '' '' fs)" using assms by (auto dest!: join_chars)
  then have "CHR '')'' \<notin> set ?post" by simp
  from py_rfind_append [OF this, of ?pre]
  have rfind: "py_rfind CHR '')'' (render_stat pid comm fs) = int (length ?pre)" by (simp only: raw)
  have skip: "py_slice_from (pre @ c # d # r) (int (length pre) + 2) = r" for pre r c d
    by (simp add: py_slice_from_def nat_add_distrib)
  have "py_slice_from (render_stat pid comm fs) (int (length ?pre) + 2) = join '' '' fs @ [LF]"
    using skip [of ?pre "CHR '')''" "CHR '' ''" "join '' '' fs @ [LF]"] by (simp only: raw append.simps)
  then have "stat_fields (render_stat pid comm fs) = py_split (join '' '' fs @ [LF])"
    by (simp only: stat_fields_def rfind)
  also have "\<dots> = fs"
    by (rule py_split_join) (use assms in \<open>auto simp: is_space_def Let_def\<close>)
  finally show ?thesis .
qed

section \<open>Properties\<close>

lemma show_int_plain: "is_word (show_int i) \<and> CHR '')'' \<notin> set (show_int i)"
proof -
  have "CHR '')'' \<notin> set (show_nat n)" for n
  proof
    assume "CHR '')'' \<in> set (show_nat n)"
    then have "is_digit CHR '')''" using show_nat_digits [of n] by (simp add: list_all_iff)
    then show False by (simp add: is_digit_def)
  qed
  then show ?thesis using show_int_is_word by (simp add: show_int_def)
qed

text \<open>
  C8: the identity that is read from a stat record is the one the kernel wrote, for every command
  name, also one with spaces, newlines and closing parentheses in it that imitates the fields.
\<close>

theorem parse_stat_any_name:
  assumes "is_word st" "CHR '')'' \<notin> set st" "\<forall>f \<in> set (mid @ rest). is_word f \<and> CHR '')'' \<notin> set f" "length mid = 15"
  shows "parse_stat pid (render_stat pid comm
      (st # show_int ppid # show_int pgid # show_int sid # mid @ show_int ticks # rest)) =
    Inr \<lparr>p_pid = pid, p_state = st, p_pgid = pgid, p_sid = sid, p_ticks = ticks, p_ppid = ppid\<rparr>"
proof -
  let ?fs = "st # show_int ppid # show_int pgid # show_int sid # mid @ show_int ticks # rest"
  have "stat_fields (render_stat pid comm ?fs) = ?fs"
    by (rule stat_fields_render) (use assms show_int_plain in auto)
  moreover have "?fs ! 19 = show_int ticks" using assms(4) by (simp add: nth_append numeral_eq_Suc)
  ultimately show ?thesis
    using assms(4) by (simp add: parse_stat_def nth_res_def py_int_show_int)
qed

theorem parse_stat_any_name_witness:
  "parse_stat 42 (render_stat 42 '') S 1 1 1 ('' (''S'' # show_int 1 # show_int 42 # show_int 42 #
      replicate 15 ''0'' @ show_int 77 # [])) =
    Inr \<lparr>p_pid = 42, p_state = ''S'', p_pgid = 42, p_sid = 42, p_ticks = 77, p_ppid = 1\<rparr>"
  by (rule parse_stat_any_name) (auto simp: is_word_def is_space_def)

end
