(* ===== verification/Runner.thy ===== *)
theory Runner
  imports Proc_Identity
begin

text \<open>
  The bounded command runner, \<^verbatim>\<open>run_check.py\<close>: the sampled process-group snapshot, the
  TERM/KILL cleanup of the owned session, and \<open>run_command\<close> with its monitor loop.

  Wall-clock strings and elapsed times of the reports are left out; durations are integers in
  nanoseconds, and a budget that is not finite is \<open>None\<close>. The monitor and the reporter are
  parameters, as they are in the code. Loops that wait for the clock take fuel; running out of
  it is \<open>None\<close>, and a theorem says when that does not happen.
\<close>

section \<open>Sampling a process group\<close>

record snapshot =
  live :: "proc_id list"
  zombies :: "proc_id list"
  sn_errors :: "(int \<times> string) list"
  rss_kib :: int

definition empty_snapshot :: snapshot where
  "empty_snapshot = \<lparr>live = [], zombies = [], sn_errors = [], rss_kib = 0\<rparr>"

text \<open>\<open>sum(int(x.split()[1]) for x in status if x.startswith("VmRSS:"))\<close>\<close>

definition second_field_int :: "string \<Rightarrow> int res" where
  "second_field_int x = bindr (nth_res (py_split x) 1) py_int"

definition vm_rss :: "string list \<Rightarrow> int res" where
  "vm_rss ls = bindr (map_res second_field_int (filter (\<lambda>x. py_startswith x ''VmRSS:'') ls))
     (\<lambda>xs. Inr (sum_list xs))"

text \<open>
  One entry of the scan. The member is appended before its RSS is added, so a malformed status
  leaves it in \<open>live\<close> and records an error.
\<close>

definition snapshot_entry :: "kernel \<Rightarrow> int \<Rightarrow> int \<Rightarrow> snapshot \<Rightarrow>
    ('b world_scheme, snapshot \<times> py_error option) io" where
  "snapshot_entry K pgid pid s =
     bindi (run_identity K pid) (\<lambda>it.
       case it of
         None \<Rightarrow> ret (s, None)
       | Some i \<Rightarrow>
           if p_pgid i \<noteq> pgid then ret (s, None)
           else if dead_state (p_state i) then ret (s\<lparr>zombies := zombies s @ [i]\<rparr>, None)
           else
             bindi (sys (\<lambda>t. k_status K t pid)) (\<lambda>status.
             bindi (run_identity K (p_pid i)) (\<lambda>current.
               if \<not> same_process (Some i) current then ret (s, None)
               else
                 let s' = s\<lparr>live := live s @ [the current]\<rparr> in
                 (case vm_rss (str_splitlines status) of
                    Inl e \<Rightarrow> ret (s', Some e)
                  | Inr n \<Rightarrow> ret (s'\<lparr>rss_kib := rss_kib s' + n\<rparr>, None)))))"

text \<open>The two \<open>except\<close> clauses of the scan: a vanished process is skipped, an unreadable one recorded.\<close>

definition absorb :: "int \<Rightarrow> snapshot \<Rightarrow> py_error \<Rightarrow> snapshot res" where
  "absorb pid s e =
     (if e = FileNotFoundError \<or> e = ProcessLookupError then Inr s
      else if is_OSError e \<or> is_ValueError e then Inr (s\<lparr>sn_errors := sn_errors s @ [(pid, error_type e)]\<rparr>)
      else Inl e)"

fun scan_entries :: "kernel \<Rightarrow> int \<Rightarrow> string list \<Rightarrow> snapshot \<Rightarrow> ('b world_scheme, snapshot) io" where
  "scan_entries K pgid [] s = ret s"
| "scan_entries K pgid (name # names) s =
     (if \<not> py_isdigit name then scan_entries K pgid names s
      else bindi (lift_res (py_int name)) (\<lambda>pid.
           bindi (attempt (snapshot_entry K pgid pid s)) (\<lambda>r.
             case r of
               Inr (s', None) \<Rightarrow> scan_entries K pgid names s'
             | Inr (s', Some e) \<Rightarrow> bindi (lift_res (absorb pid s' e)) (scan_entries K pgid names)
             | Inl e \<Rightarrow> bindi (lift_res (absorb pid s e)) (scan_entries K pgid names))))"

definition group_snapshot :: "kernel \<Rightarrow> int \<Rightarrow> ('b world_scheme, snapshot) io" where
  "group_snapshot K pgid = bindi (sys (k_entries K)) (\<lambda>names. scan_entries K pgid names empty_snapshot)"

text \<open>\<open>next(int(x.split()[1]) for x in meminfo if x.startswith("MemAvailable:"))\<close>\<close>

fun first_available :: "string list \<Rightarrow> int res" where
  "first_available [] = Inl StopIteration"
| "first_available (x # xs) =
     (if py_startswith x ''MemAvailable:'' then second_field_int x else first_available xs)"

definition sample :: "kernel \<Rightarrow> int \<Rightarrow> ('b world_scheme, snapshot \<times> int) io" where
  "sample K pgid =
     bindi (group_snapshot K pgid) (\<lambda>group.
       if sn_errors group \<noteq> [] then raise (RuntimeError ''process-group observation incomplete'')
       else bindi (sys (k_meminfo K)) (\<lambda>text.
            bindi (lift_res (first_available (str_splitlines text))) (\<lambda>available. ret (group, available))))"

section \<open>Cleanup\<close>

datatype cleanup_outcome = Unverifiable | NotNeeded | AfterSigterm | AfterSigkill | Incomplete

record cleanup_result =
  outcome :: cleanup_outcome
  signals :: "(int \<times> bool) list"
  cl_errors :: "(string \<times> string \<times> string) list"
  direct_reaped :: "bool option"
  direct_exit_code :: "int option"
  initial :: "snapshot option"
  final :: "snapshot option"
  success :: bool

text \<open>The variables the nested functions of \<open>cleanup\<close> share live beside the world.\<close>

record cleanup_world = world +
  snapshots :: "snapshot list"
  result :: cleanup_result

definition set_result :: "(cleanup_result \<Rightarrow> cleanup_result) \<Rightarrow> ('b cleanup_world_scheme, unit) io" where
  "set_result f = modify (\<lambda>w. w\<lparr>result := f (result w)\<rparr>)"

definition inspect :: "kernel \<Rightarrow> int \<Rightarrow> ('b cleanup_world_scheme, snapshot) io" where
  "inspect K pid =
     bindi (group_snapshot K pid) (\<lambda>found.
     bindi (modify (\<lambda>w. w\<lparr>snapshots := snapshots w @ [found]\<rparr>)) (\<lambda>_. ret found))"

definition signal_group :: "kernel \<Rightarrow> int \<Rightarrow> proc_id option \<Rightarrow> int \<Rightarrow> ('b cleanup_world_scheme, unit) io" where
  "signal_group K pid owner number =
     bindi (run_identity K pid) (\<lambda>current.
       case owner of
         None \<Rightarrow> raise (RuntimeError ''original session leader identity no longer verifiable'')
       | Some o' \<Rightarrow>
           if \<not> same_process (Some o') current
           then raise (RuntimeError ''original session leader identity no longer verifiable'')
           else if \<not> safe_anchor K o' then raise (RuntimeError ''unsafe process-group identity'')
           else bindi (inspect K pid) (\<lambda>s.
             if \<exists>p \<in> set (live s). p_sid p \<noteq> p_sid o'
             then raise (RuntimeError ''unexpected session in owned process group'')
             else bindi (attempt (killpg K (p_pgid o') number)) (\<lambda>r.
               case r of
                 Inr u \<Rightarrow> set_result (\<lambda>c. c\<lparr>signals := signals c @ [(number, False)]\<rparr>)
               | Inl e \<Rightarrow>
                   if e = ProcessLookupError
                   then set_result (\<lambda>c. c\<lparr>signals := signals c @ [(number, True)]\<rparr>)
                   else raise e)))"

fun wait_loop :: "nat \<Rightarrow> kernel \<Rightarrow> int \<Rightarrow> ns \<Rightarrow> ('b cleanup_world_scheme, snapshot) io" where
  "wait_loop 0 K pid deadline = (\<lambda>w. None)"
| "wait_loop (Suc n) K pid deadline =
     bindi (inspect K pid) (\<lambda>s.
       if live s = [] then ret s
       else bindi (clock K) (\<lambda>now.
         if deadline \<le> now then ret s
         else bindi (clock K) (\<lambda>_. bindi sleep (\<lambda>_. wait_loop n K pid deadline))))"

definition wait_group :: "nat \<Rightarrow> kernel \<Rightarrow> int \<Rightarrow> ns \<Rightarrow> ('b cleanup_world_scheme, snapshot) io" where
  "wait_group n K pid seconds = bindi (clock K) (\<lambda>now. wait_loop n K pid (now + seconds))"

definition set_outcome :: "cleanup_outcome \<Rightarrow> ('b cleanup_world_scheme, unit) io" where
  "set_outcome oc = set_result (\<lambda>c. c\<lparr>outcome := oc\<rparr>)"

definition add_error :: "string \<Rightarrow> py_error \<Rightarrow> ('b cleanup_world_scheme, unit) io" where
  "add_error stage e = set_result (\<lambda>c. c\<lparr>cl_errors := cl_errors c @ [(stage, error_type e, error_message e)]\<rparr>)"

text \<open>The body of the first \<open>try\<close>.\<close>

definition escalate :: "nat \<Rightarrow> kernel \<Rightarrow> int \<Rightarrow> proc_id option \<Rightarrow> ns \<Rightarrow> ns \<Rightarrow>
    ('b cleanup_world_scheme, unit) io" where
  "escalate n K pid owner term_grace kill_grace =
     bindi (inspect K pid) (\<lambda>s0.
     bindi (set_result (\<lambda>c. c\<lparr>initial := Some s0\<rparr>)) (\<lambda>_.
     bindi (if live s0 = [] then set_outcome NotNeeded
            else bindi (signal_group K pid owner SIGTERM) (\<lambda>_.
                 bindi (wait_group n K pid term_grace) (\<lambda>s1.
                 bindi (set_outcome AfterSigterm) (\<lambda>_.
                 if live s1 = [] then ret ()
                 else bindi (signal_group K pid owner SIGKILL) (\<lambda>_.
                      bindi (wait_group n K pid kill_grace) (\<lambda>s2.
                        set_outcome (if live s2 = [] then AfterSigkill else Incomplete))))))) (\<lambda>_.
     bindi (gets snapshots) (\<lambda>ss.
       if \<exists>s \<in> set ss. sn_errors s \<noteq> [] then set_outcome Unverifiable else ret ()))))"

text \<open>\<open>process.wait(timeout=kill_grace)\<close>: the exit code, or \<open>TimeoutExpired\<close>.\<close>

definition reap :: "kernel \<Rightarrow> int \<Rightarrow> ('b cleanup_world_scheme, unit) io" where
  "reap K pid =
     bindi (sys (\<lambda>t. k_wait K t pid)) (\<lambda>code.
     bindi (emit (Reaped pid code)) (\<lambda>_.
       set_result (\<lambda>c. c\<lparr>direct_reaped := Some True, direct_exit_code := Some code\<rparr>)))"

definition final_inspection :: "kernel \<Rightarrow> int \<Rightarrow> ('b cleanup_world_scheme, unit) io" where
  "final_inspection K pid =
     bindi (inspect K pid) (\<lambda>s.
     bindi (set_result (\<lambda>c. c\<lparr>final := Some s\<rparr>)) (\<lambda>_.
       if sn_errors s \<noteq> [] then set_outcome Unverifiable
       else if live s \<noteq> [] then set_outcome Incomplete
       else ret ()))"

definition cleanup_succeeds :: "cleanup_result \<Rightarrow> bool" where
  "cleanup_succeeds c \<longleftrightarrow> outcome c \<in> {NotNeeded, AfterSigterm, AfterSigkill} \<and> direct_reaped c = Some True"

definition cleanup_body :: "nat \<Rightarrow> kernel \<Rightarrow> int \<Rightarrow> proc_id option \<Rightarrow> ns \<Rightarrow> ns \<Rightarrow>
    (cleanup_world, cleanup_result) io" where
  "cleanup_body n K pid owner term_grace kill_grace =
     bindi (attempt (escalate n K pid owner term_grace kill_grace)) (\<lambda>r.
     bindi (case r of Inr u \<Rightarrow> ret ()
            | Inl e \<Rightarrow> bindi (add_error '''' e) (\<lambda>_. set_outcome Unverifiable)) (\<lambda>_.
     bindi (attempt (reap K pid)) (\<lambda>r.
     bindi (case r of Inr u \<Rightarrow> ret ()
            | Inl e \<Rightarrow> bindi (add_error ''reap'' e) (\<lambda>_. set_outcome Incomplete)) (\<lambda>_.
     bindi (attempt (final_inspection K pid)) (\<lambda>r.
     bindi (case r of Inr u \<Rightarrow> ret ()
            | Inl e \<Rightarrow> bindi (add_error ''final_inspection'' e) (\<lambda>_. set_outcome Unverifiable)) (\<lambda>_.
     bindi (set_result (\<lambda>c. c\<lparr>success := cleanup_succeeds c\<rparr>)) (\<lambda>_.
       gets result)))))))"

definition new_result :: "int option \<Rightarrow> cleanup_result" where
  "new_result returncode = \<lparr>outcome = Unverifiable, signals = [], cl_errors = [],
     direct_reaped = Some False, direct_exit_code = returncode, initial = None, final = None, success = False\<rparr>"

definition enter :: "int option \<Rightarrow> world \<Rightarrow> cleanup_world" where
  "enter returncode w = world.extend w (cleanup_world.fields [] (new_result returncode))"

definition cleanup :: "nat \<Rightarrow> kernel \<Rightarrow> int \<Rightarrow> int option \<Rightarrow> proc_id option \<Rightarrow> ns \<Rightarrow> ns \<Rightarrow>
    ('b world_scheme, cleanup_result) io" where
  "cleanup n K pid returncode owner term_grace kill_grace = (\<lambda>w.
     case cleanup_body n K pid owner term_grace kill_grace (enter returncode (world.truncate w)) of
       None \<Rightarrow> None
     | Some (r, w') \<Rightarrow> Some (r, w\<lparr>tick := tick w', log := log w'\<rparr>))"

section \<open>Cleanup: what it does to the host\<close>

lemma logs_modify_local [logs_intros]:
  "logs P (set_result f)" "logs P (modify (\<lambda>w. w\<lparr>snapshots := g (snapshots w)\<rparr>))"
  "logs P (set_outcome oc)" "logs P (add_error st e)"
  by (auto simp: logs_def set_result_def set_outcome_def add_error_def io_simps)

lemma logs_snapshot_entry [logs_intros]: "logs P (snapshot_entry K pgid pid s)"
  unfolding snapshot_entry_def Let_def
  by (intro logs_intros) (auto split: option.split sum.split intro!: logs_intros)

lemma logs_scan_entries [logs_intros]: "logs P (scan_entries K pgid names s)"
  by (induction names arbitrary: s)
    (auto split: sum.split option.split prod.split intro!: logs_intros)

lemma logs_group_snapshot [logs_intros]: "logs P (group_snapshot K pgid)"
  unfolding group_snapshot_def by (intro logs_intros)

lemma logs_inspect [logs_intros]: "logs P (inspect K pid)"
  unfolding inspect_def by (intro logs_intros)

lemma logs_wait_loop [logs_intros]: "logs P (wait_loop n K pid d)"
proof (induction n)
  case 0
  show ?case by (simp add: logs_def)
next
  case (Suc n)
  then show ?case by (auto intro!: logs_intros)
qed

lemma logs_wait_group [logs_intros]: "logs P (wait_group n K pid s)"
  unfolding wait_group_def by (intro logs_intros)

text \<open>
  When a group signal is justified: it goes to the owner's own group, the owner is a session
  leader other than PID 1 and other than the runner's group, the owner's identity was read back
  from the kernel before, and the scan that ended at the very tick of the signal found only
  members of the owner's session.
\<close>

definition group_verified :: "kernel \<Rightarrow> int \<Rightarrow> proc_id \<Rightarrow> nat \<Rightarrow> bool" where
  "group_verified K pid o' t \<longleftrightarrow>
     (\<exists>t0 cur (u :: cleanup_world) u' s.
        seen_as K t0 pid cur \<and> same_process (Some o') (Some cur) \<and> t0 < tick u \<and>
        group_snapshot K pid u = Some (Inr s, u') \<and> tick u' = t \<and>
        (\<forall>p \<in> set (live s). p_sid p = p_sid o'))"

fun justified :: "kernel \<Rightarrow> int \<Rightarrow> proc_id option \<Rightarrow> effect \<Rightarrow> bool" where
  "justified K pid owner (Killpg g s t) = (\<exists>o'. owner = Some o' \<and> g = p_pgid o' \<and>
     s \<in> {SIGTERM, SIGKILL} \<and> safe_anchor K o' \<and> group_verified K pid o' t)"
| "justified K pid owner (Reaped p code) = (p = pid)"
| "justified K pid owner _ = False"

lemma inspect_run:
  "inspect K pid w = Some (Inr s, w') \<longleftrightarrow>
     (\<exists>w1. group_snapshot K pid w = Some (Inr s, w1) \<and> w' = w1\<lparr>snapshots := snapshots w1 @ [s]\<rparr>)"
  by (auto simp: inspect_def io_simps)

lemma signal_group_log:
  assumes run: "signal_group K pid owner number (w :: cleanup_world) = Some (r, w')"
    and num: "number \<in> {SIGTERM, SIGKILL}"
  shows "(log w' = log w \<and> (\<exists>e. r = Inl e)) \<or>
    (\<exists>g t. log w' = log w @ [Killpg g number t] \<and> justified K pid owner (Killpg g number t))"
proof (cases "log w' = log w \<and> (\<exists>e. r = Inl e)")
  case False
  have quiet: "logs (\<lambda>x. False) (run_identity K pid :: (cleanup_world, _) io)"
    "logs (\<lambda>x. False) (inspect K pid :: (cleanup_world, _) io)"
    by (intro logs_intros)+
  obtain cur w1 where cur: "run_identity K pid w = Some (Inr cur, w1)"
    using run False logs_quietD [OF quiet(1)] unfolding signal_group_def by (auto simp: io_simps)
  have w1: "log w1 = log w" using logs_quietD [OF quiet(1) cur] by auto
  obtain o' where o': "owner = Some o'" "same_process (Some o') cur" "safe_anchor K o'"
    using run cur False w1 unfolding signal_group_def
    by (cases owner) (auto simp: io_simps bindi_def split: if_splits)
  obtain c where c: "cur = Some c" using o'(2) by (cases cur) (auto simp: same_process_def)
  have at: "seen_as K (tick w) pid c" "w1 = w\<lparr>tick := Suc (tick w)\<rparr>"
    using run_identity_SomeD [OF cur [unfolded c]] by simp_all
  obtain s w2 where s: "inspect K pid w1 = Some (Inr s, w2)" "\<forall>p \<in> set (live s). p_sid p = p_sid o'"
    and rest: "bindi (attempt (killpg K (p_pgid o') number)) (\<lambda>r.
             case r of
               Inr u \<Rightarrow> set_result (\<lambda>c. c\<lparr>signals := signals c @ [(number, False)]\<rparr>)
             | Inl e \<Rightarrow>
                 if e = ProcessLookupError
                 then set_result (\<lambda>c. c\<lparr>signals := signals c @ [(number, True)]\<rparr>)
                 else raise e) w2 = Some (r, w')"
    using run cur o' c False w1 logs_quietD [OF quiet(2)] unfolding signal_group_def
    by (fastforce simp: io_simps bindi_def split: option.splits sum.splits if_splits)
  obtain w2a where snap: "group_snapshot K pid w1 = Some (Inr s, w2a)" "tick w2a = tick w2"
    using s(1) by (auto simp: inspect_run)
  have "log w' = log w2 @ [Killpg (p_pgid o') number (tick w2)]"
    using rest by (auto simp: io_simps killpg_def set_result_def split: sum.splits if_splits)
  moreover have "log w2 = log w1" using logs_quietD [OF quiet(2) s(1)] by auto
  moreover have "group_verified K pid o' (tick w2)"
    unfolding group_verified_def using at o'(2) c snap s(2)
    by (intro exI [of _ "tick w"] exI [of _ c] exI [of _ w1] exI [of _ w2a] exI [of _ s]) simp
  ultimately show ?thesis using o' w1 num by auto
qed simp

text \<open>The signal numbers of a list of effects, in order.\<close>

fun killed :: "effect list \<Rightarrow> int list" where
  "killed [] = []"
| "killed (Killpg g s t # xs) = s # killed xs"
| "killed (_ # xs) = killed xs"

lemma killed_append [simp]: "killed (xs @ ys) = killed xs @ killed ys"
  by (induction xs rule: killed.induct) auto

text \<open>
  The log so far is \<open>L\<close> and then effects that are all justified, with signal numbers in \<open>ks\<close>.
\<close>

definition sent :: "kernel \<Rightarrow> int \<Rightarrow> proc_id option \<Rightarrow> effect list \<Rightarrow> int list set \<Rightarrow> cleanup_world \<Rightarrow> bool" where
  "sent K pid owner L ks w \<longleftrightarrow> (\<exists>xs. log w = L @ xs \<and> (\<forall>x \<in> set xs. justified K pid owner x) \<and> killed xs \<in> ks)"

lemma sent_mono: "sent K pid owner L ks w \<Longrightarrow> ks \<subseteq> ks' \<Longrightarrow> sent K pid owner L ks' w"
  by (auto simp: sent_def)

lemma sent_quiet:
  assumes "logs (\<lambda>x. False) m" and "ks \<subseteq> ks'"
  shows "hoare (sent K pid owner L ks) m (\<lambda>_. sent K pid owner L ks) (\<lambda>_. sent K pid owner L ks')"
  unfolding hoare_def
  using logs_quietD [OF assms(1)] assms(2) by (fastforce simp: sent_def split: sum.split)

lemma sent_signal:
  assumes "number \<in> {SIGTERM, SIGKILL}" "{k, k @ [number]} \<subseteq> ks'"
  shows "hoare (sent K pid owner L {k}) (signal_group K pid owner number)
    (\<lambda>_. sent K pid owner L {k @ [number]}) (\<lambda>_. sent K pid owner L ks')"
  unfolding hoare_def
proof (intro allI impI)
  fix w r w' assume pre: "sent K pid owner L {k} w" and run: "signal_group K pid owner number w = Some (r, w')"
  from pre obtain xs where xs: "log w = L @ xs" "\<forall>x \<in> set xs. justified K pid owner x" "killed xs = k"
    by (auto simp: sent_def)
  from signal_group_log [OF run assms(1)] show "case r of Inl e \<Rightarrow> sent K pid owner L ks' w' | Inr x \<Rightarrow> sent K pid owner L {k @ [number]} w'"
  proof (elim disjE conjE exE)
    fix e assume "log w' = log w" "r = Inl e"
    then show ?thesis using xs assms(2) by (auto simp: sent_def)
  next
    fix g t assume "log w' = log w @ [Killpg g number t]" "justified K pid owner (Killpg g number t)"
    then have "sent K pid owner L {k @ [number]} w'"
      unfolding sent_def using xs by (intro exI [of _ "xs @ [Killpg g number t]"]) auto
    then show ?thesis using assms(2) by (auto split: sum.split intro: sent_mono)
  qed
qed

abbreviation lawful :: "int list set" where
  "lawful \<equiv> {[], [SIGTERM], [SIGTERM, SIGKILL]}"

lemma escalate_sent:
  "hoare (sent K pid owner L {[]}) (escalate n K pid owner tg kg)
     (\<lambda>_. sent K pid owner L lawful) (\<lambda>_. sent K pid owner L lawful)"
proof -
  let ?S = "sent K pid owner L" and ?E = "\<lambda>_. sent K pid owner L lawful"
  have quiet: "hoare (?S ks) m (\<lambda>_. ?S ks) ?E" if "logs (\<lambda>x. False) m" "ks \<subseteq> lawful" for m ks
    by (rule sent_quiet) fact+
  have final: "hoare (?S ks) m ?E ?E" if "logs (\<lambda>x. False) m" "ks \<subseteq> lawful" for m :: "(cleanup_world, unit) io" and ks
    by (rule hoare_weaken [OF quiet [OF that]]) (auto intro: sent_mono [OF _ that(2)])
  have verdict: "hoare (?S lawful) (bindi (gets snapshots) (\<lambda>ss.
      if \<exists>s \<in> set ss. sn_errors s \<noteq> [] then set_outcome Unverifiable else ret ())) ?E ?E"
    by (rule final) (auto intro!: logs_intros)
  have kill: "hoare (?S {[SIGTERM]}) (bindi (signal_group K pid owner SIGKILL) (\<lambda>_.
      bindi (wait_group n K pid kg) (\<lambda>s2. set_outcome (if live s2 = [] then AfterSigkill else Incomplete)))) ?E ?E"
    by (rule hoare_bindi [OF sent_signal], simp, simp, rule final) (intro logs_intros, simp)
  have step: "hoare (?S {k}) (bindi m f) ?E ?E"
    if "logs (\<lambda>x. False) m" "k \<in> lawful" "\<And>x. hoare (?S {k}) (f x) ?E ?E" for k m f
    by (rule hoare_bindi [OF quiet]) (use that in auto)
  have trm: "hoare (?S {[]}) (bindi (signal_group K pid owner SIGTERM) (\<lambda>_.
      bindi (wait_group n K pid tg) (\<lambda>s1. bindi (set_outcome AfterSigterm) (\<lambda>_.
        if live s1 = [] then ret ()
        else bindi (signal_group K pid owner SIGKILL) (\<lambda>_.
          bindi (wait_group n K pid kg) (\<lambda>s2.
            set_outcome (if live s2 = [] then AfterSigkill else Incomplete))))))) ?E ?E"
    by (rule hoare_bindi [OF sent_signal], simp, simp, (rule step, rule logs_intros, simp)+)
      (auto simp: kill intro!: hoare_ret elim: sent_mono)
  show ?thesis
    unfolding escalate_def
    by ((rule step, rule logs_intros, simp)+, rule hoare_bindi [OF _ verdict])
      (simp add: trm final [OF logs_modify_local(3)])
qed

lemma cleanup_body_sent:
  "hoare (sent K pid owner L {[]}) (cleanup_body n K pid owner tg kg)
     (\<lambda>_. sent K pid owner L lawful) (\<lambda>_. sent K pid owner L lawful)"
proof -
  let ?S = "sent K pid owner L" and ?E = "\<lambda>_. sent K pid owner L lawful"
  have step: "hoare (?S lawful) m ?E ?E" if "logs (\<lambda>x. False) m" for m
    by (rule sent_quiet) (use that in auto)
  have reap: "hoare (?S lawful) (reap K pid) ?E ?E"
    unfolding hoare_def
  proof (intro allI impI)
    fix w r w' assume pre: "?S lawful w" and run: "reap K pid w = Some (r, w')"
    then obtain ys where "log w' = log w @ ys" "set ys \<subseteq> range (Reaped pid)" "killed ys = []"
      by (auto simp: reap_def io_simps sys_def emit_def set_result_def)
    with pre obtain xs where "log w' = L @ xs @ ys" "\<forall>x \<in> set (xs @ ys). justified K pid owner x"
      "killed (xs @ ys) \<in> lawful" by (fastforce simp: sent_def)
    then have "?S lawful w'" unfolding sent_def by blast
    then show "case r of Inl e \<Rightarrow> ?S lawful w' | Inr x \<Rightarrow> ?S lawful w'" by (cases r) auto
  qed
  show ?thesis
    unfolding cleanup_body_def final_inspection_def
    by (rule hoare_bindi [OF hoare_attempt [OF escalate_sent]],
        rule hoare_bindi [OF step], (auto split: sum.split intro!: logs_intros)[1],
        rule hoare_bindi [OF hoare_attempt [OF reap]],
        rule step, auto split: sum.split intro!: logs_intros)
qed

lemma sent_enter: "sent K pid owner (log w) {[]} (enter rc (world.truncate w))"
  by (auto simp: sent_def enter_def world.defs cleanup_world.defs)

lemma cleanup_effects:
  assumes "cleanup n K pid rc owner tg kg w = Some (r, w')"
  shows "\<exists>xs. log w' = log w @ xs \<and> (\<forall>x \<in> set xs. justified K pid owner x) \<and> killed xs \<in> lawful"
proof -
  from assms obtain v where v: "cleanup_body n K pid owner tg kg (enter rc (world.truncate w)) = Some (r, v)"
    "log w' = log v" by (auto simp: cleanup_def split: option.splits)
  from hoareD [OF cleanup_body_sent sent_enter v(1)] have "sent K pid owner (log w) lawful v"
    by (cases r) auto
  then show ?thesis using v(2) by (auto simp: sent_def)
qed

section \<open>Cleanup: what success means\<close>

definition accepted_so_far :: "(cleanup_result \<Rightarrow> effect list \<Rightarrow> bool) \<Rightarrow> cleanup_world \<Rightarrow> bool" where
  "accepted_so_far P w \<longleftrightarrow> (outcome (result w) \<notin> {Unverifiable, Incomplete} \<longrightarrow>
     cl_errors (result w) = [] \<and> P (result w) (log w))"

definition reaped :: "int \<Rightarrow> cleanup_result \<Rightarrow> effect list \<Rightarrow> bool" where
  "reaped pid c l \<longleftrightarrow> direct_reaped c = Some True \<and>
     (\<exists>code. direct_exit_code c = Some code \<and> Reaped pid code \<in> set l)"

definition emptied :: "cleanup_result \<Rightarrow> bool" where
  "emptied c \<longleftrightarrow> (\<exists>s. final c = Some s \<and> live s = [] \<and> sn_errors s = [])"

lemma keeps_set_result [keeps_intros]:
  "(\<And>c. f (g c) = f c) \<Longrightarrow> keeps (\<lambda>w. f (result w)) (set_result g)"
  by (auto simp: keeps_def set_result_def io_simps)

lemma keeps_killpg [keeps_intros]:
  "(\<And>w n l. f (w\<lparr>tick := n, log := l\<rparr>) = f w) \<Longrightarrow> keeps f (killpg K g s)"
  by (auto simp: keeps_def killpg_def)

lemma keeps_group_snapshot [keeps_intros]:
  assumes t: "\<And>w n. f (w\<lparr>tick := n\<rparr>) = f w"
  shows "keeps f (group_snapshot K pid)"
proof -
  have entry: "keeps f (snapshot_entry K pgid p s)" for pgid p s
    unfolding snapshot_entry_def Let_def
    by (auto split: option.split sum.split intro!: keeps_intros t)
  have "keeps f (scan_entries K pgid names s)" for pgid names s
    by (induction names arbitrary: s)
      (auto split: sum.split option.split prod.split intro!: keeps_intros entry)
  then show ?thesis unfolding group_snapshot_def by (intro keeps_intros t)
qed

lemma keeps_inspect [keeps_intros]: "keeps (\<lambda>w. f (result w)) (inspect K pid)"
  unfolding inspect_def by (auto intro!: keeps_intros keeps_modify)

lemma keeps_wait_group [keeps_intros]: "keeps (\<lambda>w. f (result w)) (wait_group n K pid sec)"
proof -
  have "keeps (\<lambda>w. f (result w)) (wait_loop n K pid d)" for d
  proof (induction n)
    case (Suc n)
    then show ?case by (auto intro!: keeps_intros)
  qed (simp add: keeps_def)
  then show ?thesis unfolding wait_group_def by (auto intro!: keeps_intros)
qed

lemma escalate_keeps_errors: "keeps (\<lambda>w. cl_errors (result w)) (escalate n K pid owner tg kg)"
  unfolding escalate_def signal_group_def set_outcome_def
  by (auto split: option.split sum.split intro!: keeps_intros)

lemma cleanup_stage1:
  assumes "bindi (attempt (escalate n K pid owner tg kg)) (\<lambda>r.
     case r of Inr u \<Rightarrow> ret () | Inl e \<Rightarrow> bindi (add_error '''' e) (\<lambda>_. set_outcome Unverifiable)) w = Some (r, w')"
    and "cl_errors (result w) = []"
  shows "accepted_so_far (\<lambda>c l. True) w'"
  using assms(1) unfolding try_Some_iff
  using keepsD [OF escalate_keeps_errors, of n K pid owner tg kg w] assms(2)
  by (auto simp: accepted_so_far_def io_simps add_error_def set_outcome_def set_result_def)

lemma cleanup_stage2:
  assumes "bindi (attempt (reap K pid)) (\<lambda>r.
     case r of Inr u \<Rightarrow> ret () | Inl e \<Rightarrow> bindi (add_error ''reap'' e) (\<lambda>_. set_outcome Incomplete)) w = Some (r, w')"
    and "accepted_so_far (\<lambda>c l. True) w"
  shows "accepted_so_far (reaped pid) w'"
  using assms(1) unfolding try_Some_iff
  using assms(2)
  by (auto simp: accepted_so_far_def io_simps add_error_def set_outcome_def set_result_def reap_def sys_def
      emit_def reaped_def)

lemma cleanup_stage3:
  assumes run: "bindi (attempt (final_inspection K pid)) (\<lambda>r.
     case r of Inr u \<Rightarrow> ret ()
     | Inl e \<Rightarrow> bindi (add_error ''final_inspection'' e) (\<lambda>_. set_outcome Unverifiable)) w = Some (r, w')"
    and pre: "accepted_so_far (reaped pid) (w :: cleanup_world)"
  shows "accepted_so_far (\<lambda>c l. reaped pid c l \<and> emptied c) w'"
proof -
  have kept: "result v' = result v \<and> log v' = log v" if "inspect K pid v = Some (x, v')" for v v' :: cleanup_world and x
    using keepsD [OF keeps_inspect [where f = id], of K pid v x v'] that
      logs_quietD [OF logs_inspect, OF that] by simp
  show ?thesis
    using run unfolding try_Some_iff
  proof (elim disjE exE conjE)
    fix e w1 assume "bindi (add_error ''final_inspection'' e) (\<lambda>_. set_outcome Unverifiable) w1 = Some (r, w')"
    then show ?thesis by (auto simp: accepted_so_far_def io_simps add_error_def set_outcome_def set_result_def)
  next
    fix x w1 assume "final_inspection K pid w = Some (Inr x, w1)" "ret () w1 = Some (r, w')"
    then show ?thesis
      using pre kept unfolding final_inspection_def
      by (auto simp: accepted_so_far_def io_simps set_outcome_def set_result_def reaped_def emptied_def
          split: if_splits)
  qed
qed

lemma cleanup_body_split:
  "cleanup_body n K pid owner tg kg =
     bindi (bindi (attempt (escalate n K pid owner tg kg)) (\<lambda>r. case r of Inr u \<Rightarrow> ret ()
            | Inl e \<Rightarrow> bindi (add_error '''' e) (\<lambda>_. set_outcome Unverifiable))) (\<lambda>_.
     bindi (bindi (attempt (reap K pid)) (\<lambda>r. case r of Inr u \<Rightarrow> ret ()
            | Inl e \<Rightarrow> bindi (add_error ''reap'' e) (\<lambda>_. set_outcome Incomplete))) (\<lambda>_.
     bindi (bindi (attempt (final_inspection K pid)) (\<lambda>r. case r of Inr u \<Rightarrow> ret ()
            | Inl e \<Rightarrow> bindi (add_error ''final_inspection'' e) (\<lambda>_. set_outcome Unverifiable))) (\<lambda>_.
     bindi (set_result (\<lambda>c. c\<lparr>success := cleanup_succeeds c\<rparr>)) (\<lambda>_. gets result))))"
  unfolding cleanup_body_def by (simp add: bindi_assoc)

lemma cleanup_success:
  assumes run: "cleanup n K pid rc owner tg kg w = Some (Inr c, w')" and ok: "success c"
  shows "cl_errors c = [] \<and> reaped pid c (log w') \<and> emptied c"
proof -
  let ?w0 = "enter rc (world.truncate w)"
  have start: "cl_errors (result ?w0) = []" by (simp add: enter_def new_result_def world.defs cleanup_world.defs)
  from run obtain v where v: "cleanup_body n K pid owner tg kg ?w0 = Some (Inr c, v)" "log w' = log v"
    by (auto simp: cleanup_def split: option.splits)
  have step: "\<exists>w1. m u = Some (Inr (), w1) \<and> f () w1 = Some (Inr c, v)"
    if "bindi m f u = Some (Inr c, v)" for m :: "(cleanup_world, unit) io" and f u
    using that by (auto simp: bindi_Some_iff)
  obtain v1 where v1: "accepted_so_far (\<lambda>c l. True) v1" and r1: "bindi (bindi (attempt (reap K pid)) (\<lambda>r. case r of Inr u \<Rightarrow> ret ()
            | Inl e \<Rightarrow> bindi (add_error ''reap'' e) (\<lambda>_. set_outcome Incomplete))) (\<lambda>_.
     bindi (bindi (attempt (final_inspection K pid)) (\<lambda>r. case r of Inr u \<Rightarrow> ret ()
            | Inl e \<Rightarrow> bindi (add_error ''final_inspection'' e) (\<lambda>_. set_outcome Unverifiable))) (\<lambda>_.
     bindi (set_result (\<lambda>c. c\<lparr>success := cleanup_succeeds c\<rparr>)) (\<lambda>_. gets result))) v1 = Some (Inr c, v)"
    using step [OF v(1) [unfolded cleanup_body_split]] cleanup_stage1 start by blast
  obtain v2 where v2: "accepted_so_far (reaped pid) v2" and r2: "bindi (bindi (attempt (final_inspection K pid)) (\<lambda>r. case r of Inr u \<Rightarrow> ret ()
            | Inl e \<Rightarrow> bindi (add_error ''final_inspection'' e) (\<lambda>_. set_outcome Unverifiable))) (\<lambda>_.
     bindi (set_result (\<lambda>c. c\<lparr>success := cleanup_succeeds c\<rparr>)) (\<lambda>_. gets result)) v2 = Some (Inr c, v)"
    using step [OF r1] cleanup_stage2 v1 by blast
  obtain v3 where "accepted_so_far (\<lambda>c l. reaped pid c l \<and> emptied c) v3"
    and "bindi (set_result (\<lambda>c. c\<lparr>success := cleanup_succeeds c\<rparr>)) (\<lambda>_. gets result) v3 = Some (Inr c, v)"
    using step [OF r2] cleanup_stage3 v2 by blast
  then show ?thesis
    using ok v(2)
    by (auto simp: io_simps set_result_def cleanup_succeeds_def accepted_so_far_def reaped_def emptied_def)
qed

lemma no_raise_clock [no_raise_intros]: "no_raise (clock K)" "no_raise sleep" "no_raise (emit x)"
  by (auto simp: no_raise_def clock_def sleep_def sys_def emit_def io_simps)

section \<open>Cleanup always returns\<close>

text \<open>The monotonic clock passes every bound: what \<open>time.monotonic\<close> of a running host does.\<close>

definition clock_diverges :: "kernel \<Rightarrow> bool" where
  "clock_diverges K \<longleftrightarrow> (\<forall>c. \<exists>T. \<forall>t\<ge>T. c \<le> k_clock K t)"

lemma total_set_result [total_intros]: "total (set_result f)" "total (set_outcome oc)" "total (add_error st e)"
  by (auto simp: set_result_def set_outcome_def add_error_def intro: total_intros)

lemma total_group_snapshot [total_intros]: "total (group_snapshot K pid)"
proof -
  have entry: "total (snapshot_entry K pgid p s)" for pgid p s
    unfolding snapshot_entry_def Let_def by (auto split: option.split sum.split intro!: total_intros)
  have "total (scan_entries K pgid names s)" for pgid names s
    by (induction names arbitrary: s)
      (auto split: sum.split option.split prod.split intro!: total_intros entry)
  then show ?thesis unfolding group_snapshot_def by (intro total_intros)
qed

lemma total_inspect [total_intros]: "total (inspect K pid)"
  unfolding inspect_def by (intro total_intros)

lemma total_reap [total_intros]: "total (reap K pid)"
  unfolding reap_def by (intro total_intros)

lemma total_final_inspection [total_intros]: "total (final_inspection K pid)"
  unfolding final_inspection_def by (auto intro!: total_intros)

lemma total_signal_group [total_intros]: "total (signal_group K pid owner number)"
  unfolding signal_group_def by (auto split: option.split sum.split intro!: total_intros)

lemma settles_total [settles_intros]: "total m \<Longrightarrow> settles (\<lambda>n. m) w"
  by (rule total_settles)


lemma wait_loop_settles:
  assumes "\<forall>t\<ge>T. deadline \<le> k_clock K t"
  shows "settles (\<lambda>n. wait_loop n K pid deadline) w"
proof (induction "T - tick w" arbitrary: w rule: less_induct)
  case less
  have "settles (\<lambda>n. wait_loop (Suc n) K pid deadline) w"
    unfolding wait_loop.simps
  proof (rule settles_bindi [OF settles_total [OF total_inspect]])
    fix s w1 assume "inspect K pid w = Some (Inr s, w1)"
    then have w1: "tick w \<le> tick w1" using logs_quietD [OF logs_inspect] by blast
    show "settles (\<lambda>n. if live s = [] then ret s else bindi (clock K) (\<lambda>now.
        if deadline \<le> now then ret s
        else bindi (clock K) (\<lambda>_. bindi sleep (\<lambda>_. wait_loop n K pid deadline)))) w1"
    proof (intro settles_if settles_bindi [OF settles_total] settles_total total_intros)
      fix now w2 u w3 v w4
      assume c: "clock K w1 = Some (Inr now, w2)" "\<not> deadline \<le> now" and "clock K w2 = Some (Inr u, w3)"
        "sleep w3 = Some (Inr v, w4)"
      then have t: "tick w1 < tick w4" by (auto simp: clock_def sleep_def sys_def)
      have "\<not> T \<le> tick w1" using c assms by (auto simp: clock_def sys_def)
      then show "settles (\<lambda>n. wait_loop n K pid deadline) w4" using t w1 by (intro less) simp
    qed
  qed
  then show ?case by (rule settles_Suc)
qed

lemma wait_group_settles [settles_intros]:
  assumes "clock_diverges K"
  shows "settles (\<lambda>n. wait_group n K pid seconds) w"
  unfolding wait_group_def
proof (rule settles_bindi [OF settles_total [OF total_sys(2)]])
  fix now w1
  obtain T where "\<forall>t\<ge>T. now + seconds \<le> k_clock K t" using assms unfolding clock_diverges_def by blast
  then show "settles (\<lambda>n. wait_loop n K pid (now + seconds)) w1" by (rule wait_loop_settles)
qed

lemma escalate_settles:
  assumes "clock_diverges K"
  shows "settles (\<lambda>n. escalate n K pid owner tg kg) w"
  unfolding escalate_def
  by (intro settles_bindi settles_if settles_total total_intros wait_group_settles [OF assms])
    (auto intro: total_intros)

lemma cleanup_body_settles:
  assumes "clock_diverges K"
  shows "settles (\<lambda>n. cleanup_body n K pid owner tg kg) w"
  unfolding cleanup_body_def
  by (rule settles_bindi, rule settles_attempt, rule escalate_settles, rule assms,
      rule settles_total) (auto split: sum.split intro!: total_intros)

lemma cleanup_settles:
  assumes "clock_diverges K"
  shows "settles (\<lambda>n. cleanup n K pid rc owner tg kg) w"
proof -
  obtain n0 x where x: "\<forall>n\<ge>n0. cleanup_body n K pid owner tg kg (enter rc (world.truncate w)) = Some x"
    using cleanup_body_settles [OF assms] unfolding settles_def by blast
  then show ?thesis unfolding settles_def cleanup_def
    by (intro exI [of _ n0] exI [of _ "(fst x, w\<lparr>tick := tick (snd x), log := log (snd x)\<rparr>)"])
      (auto split: prod.split)
qed

text \<open>Whatever happens, the caller gets a report: \<open>cleanup\<close> itself never raises.\<close>

lemma no_raise_cleanup [no_raise_intros]: "no_raise (cleanup n K pid rc owner tg kg)"
proof -
  have "no_raise (cleanup_body n K pid owner tg kg)"
    unfolding cleanup_body_def set_result_def set_outcome_def add_error_def
    by (intro no_raise_intros) (auto split: sum.split intro!: no_raise_intros)
  then show ?thesis by (auto simp: no_raise_def cleanup_def split: option.splits)
qed

section \<open>An example host\<close>

text \<open>
  A host with one session leader, PID 100, that lives for the first seven calls and is then a
  zombie until it is reaped. The witnesses of the properties run on it.
\<close>

definition stat_line :: "string \<Rightarrow> string" where
  "stat_line st = ''100 (a) b) '' @ st @ '' 1 100 100 0 0 0 0 0 0 0 0 0 0 0 0 0 0 0 77 0''"

definition example_host :: kernel where
  "example_host = \<lparr>k_entries = (\<lambda>t. Inr [''100'', ''self'']),
     k_stat = (\<lambda>t pid. if pid = 100 then Inr (stat_line (if t < 8 then ''S'' else ''Z'')) else Inl FileNotFoundError),
     k_status = (\<lambda>t pid. Inr (''VmRSS:  512 kB'')),
     k_meminfo = (\<lambda>t. Inr (''MemAvailable: 4000000 kB'')),
     k_clock = (\<lambda>t. int t), k_signal = (\<lambda>t. None), k_killpg = (\<lambda>t g s. Inr ()),
     k_waitid = (\<lambda>t pid. if t < 8 then Inr None else Inr (Some \<lparr>si_code = 1, si_status = 0\<rparr>)),
     k_wait = (\<lambda>t pid. Inr 0), k_popen = (\<lambda>t a e. Inr 100), k_mkdir = (\<lambda>t. Inr ()),
     k_open = (\<lambda>t. Inr ()), k_close = (\<lambda>t. Inr ()), k_write = (\<lambda>t p. Inr ()),
     k_tail = (\<lambda>t. Inr []), k_read = (\<lambda>t p. Inr []), k_getpgrp = 50\<rparr>"

definition example_owner :: proc_id where
  "example_owner = \<lparr>p_pid = 100, p_state = ''S'', p_pgid = 100, p_sid = 100, p_ticks = 77, p_ppid = 1\<rparr>"

definition fresh :: world where
  "fresh = \<lparr>tick = 0, log = []\<rparr>"

lemma example_diverges: "clock_diverges example_host"
  unfolding clock_diverges_def example_host_def
  by (intro allI, rule_tac x = "nat c" in exI) auto

lemma example_numbers:
  "py_int ''1'' = Inr 1" "py_int ''100'' = Inr 100" "py_int ''77'' = Inr 77"
  "vm_rss (str_splitlines ''VmRSS:  512 kB'') = Inr 512" "py_isdigit ''100''" "\<not> py_isdigit ''self''"
  by code_simp+

lemma example_available: "first_available (str_splitlines ''MemAvailable: 4000000 kB'') = Inr 4000000"
proof -
  have "str_splitlines ''MemAvailable: 4000000 kB'' = [''MemAvailable: 4000000 kB'']"
    "py_split ''MemAvailable: 4000000 kB'' = [''MemAvailable:'', ''4000000'', ''kB'']"
    "py_startswith ''MemAvailable: 4000000 kB'' ''MemAvailable:''" by code_simp+
  moreover have "py_int ''4000000'' = Inr 4000000" by (simp add: py_int_def py_nat_def is_digit_def digit_val_def)
  ultimately show ?thesis by (simp add: second_field_int_def nth_res_def)
qed

lemma example_fields:
  "stat_fields (stat_line ''S'') = ''S'' # ''1'' # ''100'' # ''100'' # replicate 15 ''0'' @ [''77'', ''0'']"
  "stat_fields (stat_line ''Z'') = ''Z'' # ''1'' # ''100'' # ''100'' # replicate 15 ''0'' @ [''77'', ''0'']"
  by code_simp+

lemma example_stat:
  "parse_stat 100 (stat_line ''S'') = Inr example_owner"
  "parse_stat 100 (stat_line ''Z'') = Inr (example_owner\<lparr>p_state := ''Z''\<rparr>)"
  by (simp_all add: parse_stat_def example_fields nth_res_def example_numbers example_owner_def numeral_eq_Suc)

lemma example_kernel:
  "k_entries example_host = (\<lambda>t. Inr [''100'', ''self''])"
  "k_stat example_host = (\<lambda>t pid. if pid = 100 then Inr (stat_line (if t < 8 then ''S'' else ''Z'')) else Inl FileNotFoundError)"
  "k_status example_host = (\<lambda>t pid. Inr (''VmRSS:  512 kB''))"
  "k_meminfo example_host = (\<lambda>t. Inr (''MemAvailable: 4000000 kB''))"
  "k_clock example_host = (\<lambda>t. int t)" "k_signal example_host = (\<lambda>t. None)"
  "k_killpg example_host = (\<lambda>t g s. Inr ())"
  "k_waitid example_host = (\<lambda>t pid. if t < 8 then Inr None else Inr (Some \<lparr>si_code = 1, si_status = 0\<rparr>))"
  "k_wait example_host = (\<lambda>t pid. Inr 0)" "k_popen example_host = (\<lambda>t a e. Inr 100)"
  "k_mkdir example_host = (\<lambda>t. Inr ())" "k_open example_host = (\<lambda>t. Inr ())" "k_close example_host = (\<lambda>t. Inr ())"
  "k_write example_host = (\<lambda>t p. Inr ())" "k_tail example_host = (\<lambda>t. Inr [])" "k_read example_host = (\<lambda>t p. Inr [])"
  "k_getpgrp example_host = 50"
  by (simp_all add: example_host_def)

lemma bindi_apply: "bindi m f w = (case m w of None \<Rightarrow> None | Some (r, w') \<Rightarrow> (case r of Inl e \<Rightarrow> Some (Inl e, w') | Inr x \<Rightarrow> f x w'))"
  by (auto simp: bindi_def split: option.split sum.split)

lemma attempt_apply: "attempt m w = (case m w of None \<Rightarrow> None | Some (r, w') \<Rightarrow> Some (Inr r, w'))"
  by (simp add: attempt_def)

lemmas run_steps = bindi_apply attempt_apply io_apply sys_def clock_def sleep_def emit_def killpg_def write_file_def

lemma example_identity:
  "run_identity example_host 100 w =
     Some (Inr (Some (if tick w < 8 then example_owner else example_owner\<lparr>p_state := ''Z''\<rparr>)), w\<lparr>tick := Suc (tick w)\<rparr>)"
  by (simp add: run_identity_def run_steps example_kernel example_stat)


lemma example_snapshot:
  "group_snapshot example_host 100 w =
     (if tick w < 7
      then Some (Inr \<lparr>live = [if tick w < 5 then example_owner else example_owner\<lparr>p_state := ''Z''\<rparr>], zombies = [], sn_errors = [], rss_kib = 512\<rparr>, w\<lparr>tick := tick w + 4\<rparr>)
      else Some (Inr \<lparr>live = [], zombies = [example_owner\<lparr>p_state := ''Z''\<rparr>], sn_errors = [], rss_kib = 0\<rparr>, w\<lparr>tick := tick w + 2\<rparr>))"
  by (simp add: group_snapshot_def snapshot_entry_def run_steps example_kernel example_stat example_identity example_numbers
      empty_snapshot_def dead_state_def same_process_def example_owner_def numeral_eq_Suc)

lemmas cleanup_steps = cleanup_def cleanup_body_def escalate_def signal_group_def wait_group_def reap_def
  final_inspection_def inspect_def set_outcome_def set_result_def add_error_def run_steps

lemma example_cleanup: "case cleanup 5 example_host 100 None (Some example_owner) 100 100 fresh of
   Some (Inr c, w') \<Rightarrow> success c \<and> killed (log w') = [SIGTERM] | _ \<Rightarrow> False"
  by (simp add: cleanup_steps example_snapshot example_identity example_kernel fresh_def enter_def new_result_def
      world.defs cleanup_world.defs same_process_def safe_anchor_def example_owner_def numeral_eq_Suc cleanup_succeeds_def)

section \<open>Properties\<close>


lemma example_cleanup_run:
  obtains c w' where "cleanup 5 example_host 100 None (Some example_owner) 100 100 fresh = Some (Inr c, w')"
    "success c" "killed (log w') = [SIGTERM]"
  using example_cleanup unfolding run_outcome_iff by blast




text \<open>
  C3: when the monotonic clock passes every bound, a cleanup returns, and it returns a report: no
  exception of the scans, the signals, the waits or the reap leaves it.
\<close>

theorem cleanup_returns:
  assumes "clock_diverges K"
  shows "\<exists>n0 c w'. \<forall>n\<ge>n0. cleanup n K pid rc owner tg kg w = Some (Inr c, w')"
proof -
  obtain n0 r w' where run: "\<forall>n\<ge>n0. cleanup n K pid rc owner tg kg w = Some (r, w')"
    using cleanup_settles [OF assms] unfolding settles_def by (metis surj_pair)
  then have "\<exists>c. r = Inr c" by (intro no_raiseD [OF no_raise_cleanup]) blast
  with run show ?thesis by blast
qed

theorem cleanup_returns_witness:
  "clock_diverges example_host \<and>
   (\<exists>n0 c w'. \<forall>n\<ge>n0. cleanup n example_host 100 None (Some example_owner) 100 100 fresh = Some (Inr c, w'))"
  using example_diverges cleanup_returns [OF example_diverges] by blast

end
