(* ===== verification/Run_Command.thy ===== *)
theory Run_Command
  imports Runner "HOL-Library.AList"
begin

text \<open>
  \<open>run_command\<close> of \<^verbatim>\<open>run_check.py\<close>: validation, the child's environment, the monitor loop with
  its watchdogs, and the \<open>finally\<close> that always cleans up and reports.

  What the loop keeps in local variables and in \<open>record\<close> is the record \<open>run_state\<close>; it is passed
  along explicitly, because it survives an exception. The monitor and the reporter are arguments,
  as in the code. A tail read of the child's output (\<open>k_tail\<close>) is the text that arrived since the
  last one. The signals that arrived while the handlers are installed are a function of the tick.
\<close>

section \<open>Configuration and state\<close>

datatype primary =
    NotStarted
  | Interrupted int
  | CommandSuccess int int
  | CommandFailed int int
  | TimedOut string
  | ResourceStop string
  | RunnerError string string

record run_config =
  argv :: "string list"
  label :: string
  environ :: "string \<rightharpoonup> string"
  wall_seconds :: "ns option"
  term_grace :: "ns option"
  kill_grace :: "ns option"

record run_state =
  process :: "int option"
  owner :: "proc_id option"
  primary :: primary
  peak :: int
  min_available :: "int option"
  stages :: "json list"
  partial :: string
  phase :: json
  phase_start :: "ns option"
  execution_errors :: "primary list"
  evidence_complete :: bool

definition CLD_EXITED :: int where "CLD_EXITED = 1"
definition RSS_STOP_KIB :: int where "RSS_STOP_KIB = 2 * 1024 * 1024"
definition AVAILABLE_STOP_KIB :: int where "AVAILABLE_STOP_KIB = 2 * 1024 * 1024"
definition ESCALATION_STOP_KIB :: int where "ESCALATION_STOP_KIB = 1024 * 1024"

definition second :: ns where "second = 1000000000"

definition PHASE_BUDGETS :: "(string \<times> ns) list" where
  "PHASE_BUDGETS = [(''compile'', 30 * second), (''setup'', 90 * second),
     (''setup_wrong_vk'', 90 * second), (''prove'', 60 * second)]"

text \<open>The environment of the child: the overrides, and at most one opt-in flag.\<close>

definition OVERRIDES :: "(string \<times> string) list" where
  "OVERRIDES = [(''GOTOOLCHAIN'', ''local''), (''GOPROXY'', ''off''), (''GOSUMDB'', ''off''), (''GOMAXPROCS'', ''4'')]"

abbreviation CALIBRATE :: string where "CALIBRATE \<equiv> ''DZKR_MIMCCHAIN_CALIBRATE''"
abbreviation GROTH16 :: string where "GROTH16 \<equiv> ''DZKR_MIMCCHAIN_GROTH16''"

definition FLAGS :: "string list" where "FLAGS = [CALIBRATE, GROTH16]"

definition child_env :: "(string \<rightharpoonup> string) \<Rightarrow> string \<Rightarrow> (string \<rightharpoonup> string)" where
  "child_env env lab =
     (let e1 = env ++ map_of OVERRIDES;
          e2 = foldl (\<lambda>e f. e(f := None)) e1 FLAGS
      in if lab = ''calibration'' \<or> lab = ''groth16''
         then e2(FLAGS ! (if lab = ''calibration'' then 0 else 1) \<mapsto> ''1'')
         else e2)"

definition valid_budget :: "ns option \<Rightarrow> bool" where
  "valid_budget x = (case x of Some n \<Rightarrow> 0 < n | None \<Rightarrow> False)"

definition valid_config :: "run_config \<Rightarrow> bool" where
  "valid_config c \<longleftrightarrow> argv c \<noteq> [] \<and> list_all valid_budget [wall_seconds c, term_grace c, kill_grace c]"

section \<open>Interrupts\<close>

text \<open>\<open>Interrupts.signals\<close>: SIGINT and SIGTERM delivered since the handlers were installed.\<close>

definition pending :: "kernel \<Rightarrow> nat \<Rightarrow> nat \<Rightarrow> int list" where
  "pending K t0 t = List.map_filter (\<lambda>i. case k_signal K i of
      Some s \<Rightarrow> if s = SIGINT \<or> s = SIGTERM then Some s else None
    | None \<Rightarrow> None) [t0..<t]"

definition interrupts :: "kernel \<Rightarrow> nat \<Rightarrow> ('b world_scheme, int list) io" where
  "interrupts K t0 = gets (\<lambda>w. pending K t0 (tick w))"

section \<open>Stage markers\<close>

text \<open>
  \<open>json.loads\<close> without a hook: a repeated key keeps the place of its first occurrence and the
  value of the last one.
\<close>

fun last_wins :: "json \<Rightarrow> json" where
  "last_wins (JArr xs) = JArr (map last_wins xs)"
| "last_wins (JObj kvs) =
     JObj (foldl (\<lambda>d p. AList.update (fst p) (snd p) d) [] (map (\<lambda>(k, v). (k, last_wins v)) kvs))"
| "last_wins x = x"

definition loads_plain :: "string \<Rightarrow> json res" where
  "loads_plain s = (case pval (Suc (length s)) (skip_ws s) of
      Some (v, r) \<Rightarrow> if skip_ws r = [] then Inr (last_wins v) else Inl (ValueError ''JSONDecodeError'')
    | None \<Rightarrow> Inl (ValueError ''JSONDecodeError''))"

definition MARKER :: string where "MARKER = ''MIMCCHAIN_STAGE ''"

text \<open>One marker: it is recorded before its fields are looked up.\<close>

definition take_marker :: "ns \<Rightarrow> string \<Rightarrow> run_state \<Rightarrow> run_state \<times> py_error option" where
  "take_marker now body s =
     (case loads_plain body of
        Inl e \<Rightarrow> (s, Some e)
      | Inr marker \<Rightarrow>
          let s1 = s\<lparr>stages := stages s @ [marker]\<rparr> in
          (case item marker ''event'' of
             Inl e \<Rightarrow> (s1, Some e)
           | Inr ev \<Rightarrow>
               if py_eq ev (JStr ''start'') then
                 (case item marker ''stage'' of
                    Inl e \<Rightarrow> (s1, Some e)
                  | Inr st \<Rightarrow> (s1\<lparr>phase := st, phase_start := Some now\<rparr>, None))
               else (s1\<lparr>phase := JNull, phase_start := None\<rparr>, None)))"

fun take_lines :: "ns \<Rightarrow> string list \<Rightarrow> run_state \<Rightarrow> run_state \<times> py_error option" where
  "take_lines now [] s = (s, None)"
| "take_lines now (line # lines) s =
     (case after_first MARKER line of
        None \<Rightarrow> take_lines now lines s
      | Some body \<Rightarrow>
          (case take_marker now body s of
             (s', None) \<Rightarrow> take_lines now lines s'
           | (s', Some e) \<Rightarrow> (s', Some e)))"

definition take_text :: "ns \<Rightarrow> string \<Rightarrow> run_state \<Rightarrow> run_state \<times> py_error option" where
  "take_text now chunk s =
     (let lines = split_on LF (partial s @ chunk)
      in take_lines now (butlast lines) (s\<lparr>partial := last lines\<rparr>))"

section \<open>The monitor loop\<close>

datatype step = Continue | Break | Raised py_error

definition guarded :: "('w, 'a) io \<Rightarrow> run_state \<Rightarrow> ('a \<Rightarrow> ('w, run_state \<times> step) io) \<Rightarrow> ('w, run_state \<times> step) io" where
  "guarded m s k = bindi (attempt m) (\<lambda>r. case r of Inl e \<Rightarrow> ret (s, Raised e) | Inr x \<Rightarrow> k x)"

definition note_sample :: "snapshot \<times> int \<Rightarrow> run_state \<Rightarrow> run_state" where
  "note_sample x s = s\<lparr>peak := max (peak s) (rss_kib (fst x)),
     min_available := Some (case min_available s of None \<Rightarrow> snd x | Some m \<Rightarrow> min (snd x) m)\<rparr>"

text \<open>
  \<open>phase in PHASE_BUDGETS and now - phase_start > PHASE_BUDGETS[phase]\<close>; a phase that cannot be
  hashed raises.
\<close>

definition phase_expired :: "ns \<Rightarrow> run_state \<Rightarrow> string option res" where
  "phase_expired now s = (case phase s of
      JArr xs \<Rightarrow> Inl TypeError
    | JObj kvs \<Rightarrow> Inl TypeError
    | JStr p \<Rightarrow> (case map_of PHASE_BUDGETS p of
          None \<Rightarrow> Inr None
        | Some budget \<Rightarrow> (case phase_start s of
              None \<Rightarrow> Inl TypeError
            | Some t \<Rightarrow> Inr (if now - t > budget then Some p else None)))
    | _ \<Rightarrow> Inr None)"

definition watchdogs :: "ns \<Rightarrow> snapshot \<times> int \<Rightarrow> run_state \<Rightarrow> run_state \<times> step" where
  "watchdogs now x s =
     (case phase_expired now s of
        Inl e \<Rightarrow> (s, Raised e)
      | Inr (Some p) \<Rightarrow> (s\<lparr>primary := TimedOut (''phase watchdog: '' @ p)\<rparr>, Break)
      | Inr None \<Rightarrow>
          if rss_kib (fst x) > RSS_STOP_KIB \<or> snd x < AVAILABLE_STOP_KIB
          then (s\<lparr>primary := ResourceStop (if rss_kib (fst x) > RSS_STOP_KIB then ''group RSS'' else ''system MemAvailable'')\<rparr>, Break)
          else (s, Continue))"

definition observed_exit :: "kernel \<Rightarrow> int \<Rightarrow> ('b world_scheme, wait_event option) io" where
  "observed_exit K pid = sys (\<lambda>t. k_waitid K t pid)"

definition exit_primary :: "wait_event \<Rightarrow> primary" where
  "exit_primary ev = (if si_code ev = CLD_EXITED \<and> si_status ev = 0
     then CommandSuccess (si_code ev) (si_status ev) else CommandFailed (si_code ev) (si_status ev))"

type_synonym 'b monitor = "int \<Rightarrow> ('b world_scheme, snapshot \<times> int) io"

definition iteration :: "kernel \<Rightarrow> 'b monitor \<Rightarrow> ns \<Rightarrow> nat \<Rightarrow> ns \<Rightarrow> int \<Rightarrow> run_state \<Rightarrow>
    ('b world_scheme, run_state \<times> step) io" where
  "iteration K monitor wall t0 start pid s =
     bindi (interrupts K t0) (\<lambda>sigs.
       if sigs \<noteq> [] then ret (s\<lparr>primary := Interrupted (hd sigs)\<rparr>, Break)
       else guarded (observed_exit K pid) s (\<lambda>event.
         case event of
           Some ev \<Rightarrow> ret (s\<lparr>primary := exit_primary ev\<rparr>, Break)
         | None \<Rightarrow>
             bindi (clock K) (\<lambda>now.
               if now - start > wall then ret (s\<lparr>primary := TimedOut ''overall wall watchdog''\<rparr>, Break)
               else guarded (monitor pid) s (\<lambda>x.
                 let s1 = note_sample x s in
                 guarded (sys (k_tail K)) s1 (\<lambda>chunk.
                   case take_text now chunk s1 of
                     (s2, Some e) \<Rightarrow> ret (s2, Raised e)
                   | (s2, None) \<Rightarrow> ret (watchdogs now x s2))))))"

fun run_loop :: "nat \<Rightarrow> kernel \<Rightarrow> 'b monitor \<Rightarrow> ns \<Rightarrow> nat \<Rightarrow> ns \<Rightarrow> int \<Rightarrow> run_state \<Rightarrow>
    ('b world_scheme, run_state \<times> step) io" where
  "run_loop 0 K monitor wall t0 start pid s = (\<lambda>w. None)"
| "run_loop (Suc n) K monitor wall t0 start pid s =
     bindi (iteration K monitor wall t0 start pid s) (\<lambda>(s', st).
       if st = Continue then bindi sleep (\<lambda>_. run_loop n K monitor wall t0 start pid s')
       else ret (s', st))"

section \<open>The lifecycle of one command\<close>

text \<open>What the report of a run holds; the raw captures are size and digest of the two files.\<close>

record run_record =
  rr_argv :: "string list"
  rr_flags :: "(string \<times> string) list"
  rr_owner :: "proc_id option"
  rr_primary :: primary
  rr_cleanup :: cleanup_result
  rr_signals :: "int list"
  rr_peak :: int
  rr_min_available :: "int option"
  rr_stages :: "json list"
  rr_execution_errors :: "primary list"
  rr_evidence_errors :: "(string \<times> string \<times> string) list"
  rr_evidence_complete :: bool
  rr_stop_escalation :: bool
  rr_raw :: "(string \<times> nat \<times> string) list"
  rr_overall_success :: bool

definition initial_state :: run_state where
  "initial_state = \<lparr>process = None, owner = None, primary = NotStarted, peak = 0, min_available = None,
     stages = [], partial = [], phase = JNull, phase_start = None, execution_errors = [], evidence_complete = True\<rparr>"

text \<open>From the identity of the new session leader to the end of the monitor loop.\<close>

definition supervise_child :: "nat \<Rightarrow> kernel \<Rightarrow> 'b monitor \<Rightarrow> ns \<Rightarrow> nat \<Rightarrow> ns \<Rightarrow> int \<Rightarrow> run_state \<Rightarrow>
    ('b world_scheme, run_state \<times> step) io" where
  "supervise_child n K monitor wall t0 start pid s =
     guarded (run_identity K pid) s (\<lambda>i.
       let s1 = s\<lparr>owner := i\<rparr> in
       if (case i of None \<Rightarrow> True | Some o' \<Rightarrow> p_sid o' \<noteq> pid \<or> p_pgid o' \<noteq> pid)
       then ret (s1, Raised (RuntimeError ''unable to establish owned session''))
       else guarded (write_file K ''owner.json'') s1 (\<lambda>_. run_loop n K monitor wall t0 start pid s1))"

text \<open>The \<open>with\<close> over the two output files: they are closed on every way out.\<close>

definition with_files :: "kernel \<Rightarrow> ('b world_scheme, run_state \<times> step) io \<Rightarrow> ('b world_scheme, run_state \<times> step) io" where
  "with_files K m =
     bindi m (\<lambda>(s, st).
     bindi (attempt (sys (k_close K))) (\<lambda>r.
       ret (s, case r of Inl e \<Rightarrow> Raised e | Inr _ \<Rightarrow> st)))"

definition popen :: "kernel \<Rightarrow> string list \<Rightarrow> (string \<rightharpoonup> string) \<Rightarrow> ('b world_scheme, int) io" where
  "popen K args env = bindi (sys (\<lambda>t. k_popen K t args env)) (\<lambda>pid.
     bindi (emit (Popen args env pid)) (\<lambda>_. ret pid))"

definition execute :: "nat \<Rightarrow> kernel \<Rightarrow> 'b monitor \<Rightarrow> run_config \<Rightarrow> nat \<Rightarrow> ns \<Rightarrow> run_state \<Rightarrow>
    ('b world_scheme, run_state \<times> step) io" where
  "execute n K monitor cfg t0 start s =
     guarded (write_file K ''started.json'') s (\<lambda>_.
     guarded (sys (k_open K)) s (\<lambda>_.
     with_files K (guarded (popen K (argv cfg) (child_env (environ cfg) (label cfg))) s (\<lambda>pid.
       supervise_child n K monitor (the (wall_seconds cfg)) t0 start pid (s\<lparr>process := Some pid\<rparr>)))))"

text \<open>\<open>except BaseException\<close>\<close>

definition record_failure :: "run_state \<times> step \<Rightarrow> run_state" where
  "record_failure x = (case x of
      (s, Raised e) \<Rightarrow>
        let failure = RunnerError (error_type e) (error_message e) in
        if primary s = NotStarted then s\<lparr>primary := failure\<rparr>
        else s\<lparr>execution_errors := execution_errors s @ [failure], evidence_complete := False\<rparr>
    | (s, _) \<Rightarrow> s)"

definition no_cleanup :: cleanup_result where
  "no_cleanup = (new_result None)\<lparr>outcome := NotNeeded, success := True, direct_reaped := None\<rparr>"

text \<open>\<open>finally\<close>: a child that was started is always cleaned up.\<close>

definition conclude :: "nat \<Rightarrow> kernel \<Rightarrow> run_config \<Rightarrow> run_state \<Rightarrow> ('b world_scheme, cleanup_result) io" where
  "conclude n K cfg s = (case process s of
      Some pid \<Rightarrow> cleanup n K pid None (owner s) (the (term_grace cfg)) (the (kill_grace cfg))
    | None \<Rightarrow> ret no_cleanup)"

definition is_success :: "primary \<Rightarrow> bool" where
  "is_success p = (case p of CommandSuccess c st \<Rightarrow> True | _ \<Rightarrow> False)"

definition late_interrupt :: "int list \<Rightarrow> primary \<Rightarrow> primary" where
  "late_interrupt sigs p = (if sigs \<noteq> [] \<and> is_success p then Interrupted (hd sigs) else p)"

text \<open>The raw captures; a file that cannot be read makes the evidence incomplete.\<close>

definition raw_capture :: "kernel \<Rightarrow> (string \<Rightarrow> string) \<Rightarrow> string \<Rightarrow> run_record \<Rightarrow> ('b world_scheme, run_record) io" where
  "raw_capture K sha path r =
     bindi (attempt (sys (\<lambda>t. k_read K t path))) (\<lambda>x. ret (case x of
        Inr text \<Rightarrow> r\<lparr>rr_raw := rr_raw r @ [(path, length text, sha text)]\<rparr>
      | Inl e \<Rightarrow> r\<lparr>rr_evidence_errors := rr_evidence_errors r @ [(''raw_capture'', error_type e, error_message e)],
                   rr_evidence_complete := False\<rparr>))"

definition flags_of :: "(string \<rightharpoonup> string) \<Rightarrow> (string \<times> string) list" where
  "flags_of env = List.map_filter (\<lambda>f. map_option (Pair f) (env f)) FLAGS"

definition report_of :: "run_config \<Rightarrow> run_state \<Rightarrow> cleanup_result \<Rightarrow> int list \<Rightarrow> run_record" where
  "report_of cfg s c sigs = \<lparr>rr_argv = argv cfg, rr_flags = flags_of (child_env (environ cfg) (label cfg)),
     rr_owner = owner s, rr_primary = late_interrupt sigs (primary s), rr_cleanup = c, rr_signals = sigs,
     rr_peak = peak s, rr_min_available = min_available s, rr_stages = stages s,
     rr_execution_errors = execution_errors s, rr_evidence_errors = [],
     rr_evidence_complete = evidence_complete s, rr_stop_escalation = peak s > ESCALATION_STOP_KIB,
     rr_raw = [], rr_overall_success = False\<rparr>"

definition overall :: "run_record \<Rightarrow> int list \<Rightarrow> bool" where
  "overall r sigs \<longleftrightarrow> is_success (rr_primary r) \<and> success (rr_cleanup r) \<and> rr_evidence_complete r \<and>
     \<not> rr_stop_escalation r \<and> sigs = []"

type_synonym 'b reporter = "run_record \<Rightarrow> ('b world_scheme, unit) io"

text \<open>A report that cannot be written turns the run into a failure; a second report is tried.\<close>

definition file_report :: "kernel \<Rightarrow> 'b reporter \<Rightarrow> run_record \<Rightarrow> ('b world_scheme, run_record) io" where
  "file_report K reporter r =
     bindi (attempt (reporter r)) (\<lambda>x. case x of
        Inr u \<Rightarrow> ret r
      | Inl e \<Rightarrow> bindi (attempt (write_file K ''report-failure.json'')) (\<lambda>_.
          ret (r\<lparr>rr_evidence_errors := rr_evidence_errors r @ [(''report'', error_type e, error_message e)],
                 rr_evidence_complete := False, rr_overall_success := False\<rparr>)))"

definition finish_report :: "kernel \<Rightarrow> (string \<Rightarrow> string) \<Rightarrow> 'b reporter \<Rightarrow> run_config \<Rightarrow> nat \<Rightarrow> run_state \<Rightarrow> cleanup_result \<Rightarrow>
    ('b world_scheme, run_record) io" where
  "finish_report K sha reporter cfg t0 s c =
     bindi (interrupts K t0) (\<lambda>sigs.
     bindi (raw_capture K sha ''stdout'' (report_of cfg s c sigs)) (\<lambda>r1.
     bindi (raw_capture K sha ''stderr'' r1) (\<lambda>r2.
     bindi (interrupts K t0) (\<lambda>sigs'.
       file_report K reporter (r2\<lparr>rr_overall_success := overall r2 sigs', rr_signals := sigs'\<rparr>)))))"

definition run_command :: "nat \<Rightarrow> kernel \<Rightarrow> (string \<Rightarrow> string) \<Rightarrow> 'b monitor \<Rightarrow> 'b reporter \<Rightarrow> run_config \<Rightarrow>
    ('b world_scheme, run_record) io" where
  "run_command n K sha monitor reporter cfg =
     (if \<not> valid_config cfg then raise (ValueError ''command and finite positive lifecycle budgets required'')
      else
        bindi (sys (k_mkdir K)) (\<lambda>_.
        bindi (clock K) (\<lambda>start.
        bindi (gets tick) (\<lambda>t0.
        bindi (execute n K monitor cfg t0 start initial_state) (\<lambda>x.
        let s = record_failure x in
        bindi (conclude n K cfg s) (\<lambda>c. finish_report K sha reporter cfg t0 s c))))))"

text \<open>\<open>main\<close>: the exit status of the process.\<close>

definition exit_status :: "run_record \<Rightarrow> int" where
  "exit_status r = (if rr_overall_success r then 0 else 1)"

section \<open>The monitor loop keeps the limits\<close>

lemma guarded_Some_iff:
  "guarded m s k w = Some (r, w') \<longleftrightarrow>
     (\<exists>e. m w = Some (Inl e, w') \<and> r = Inr (s, Raised e)) \<or>
     (\<exists>x w1. m w = Some (Inr x, w1) \<and> k x w1 = Some (r, w'))"
  unfolding guarded_def try_Some_iff by (auto simp: io_simps)

text \<open>Reading the child's output changes only what belongs to the markers.\<close>

lemma take_marker_keeps:
  assumes "\<And>x s. f (s\<lparr>stages := x\<rparr>) = f s" "\<And>p q s. f (s\<lparr>phase := p, phase_start := q\<rparr>) = f s"
  shows "f (fst (take_marker now body s)) = f s"
  by (auto simp: take_marker_def Let_def assms split: sum.split)

lemma take_lines_keeps:
  assumes "\<And>x s. f (s\<lparr>stages := x\<rparr>) = f s" "\<And>p q s. f (s\<lparr>phase := p, phase_start := q\<rparr>) = f s"
  shows "f (fst (take_lines now lines s)) = f s"
proof (induction lines arbitrary: s)
  case (Cons l lines)
  have "f (fst (take_marker now body s)) = f s" for body by (rule take_marker_keeps) (fact assms)+
  then have "take_marker now body s = (t, e) \<Longrightarrow> f t = f s" for body t e by (metis fst_conv)
  then show ?case using Cons.IH by (auto split: option.split prod.split)
qed simp

lemma take_text_keeps:
  assumes "take_text now chunk s = (s', e)"
  shows "primary s' = primary s" "peak s' = peak s" "min_available s' = min_available s"
    "process s' = process s" "owner s' = owner s" "evidence_complete s' = evidence_complete s"
proof -
  let ?lines = "butlast (split_on LF (partial s @ chunk))"
  let ?s = "s\<lparr>partial := last (split_on LF (partial s @ chunk))\<rparr>"
  have s': "s' = fst (take_lines now ?lines ?s)" using assms by (simp add: take_text_def Let_def)
  show "primary s' = primary s" using take_lines_keeps [of primary now ?lines ?s] s' by simp
  show "peak s' = peak s" using take_lines_keeps [of peak now ?lines ?s] s' by simp
  show "min_available s' = min_available s" using take_lines_keeps [of min_available now ?lines ?s] s' by simp
  show "process s' = process s" using take_lines_keeps [of process now ?lines ?s] s' by simp
  show "owner s' = owner s" using take_lines_keeps [of owner now ?lines ?s] s' by simp
  show "evidence_complete s' = evidence_complete s" using take_lines_keeps [of evidence_complete now ?lines ?s] s' by simp
qed

definition within_limits :: "run_state \<Rightarrow> bool" where
  "within_limits s \<longleftrightarrow> peak s \<le> RSS_STOP_KIB \<and> (\<forall>m. min_available s = Some m \<longrightarrow> AVAILABLE_STOP_KIB \<le> m)"

text \<open>The child ended by itself with status 0.\<close>

definition exited_ok :: "kernel \<Rightarrow> int \<Rightarrow> bool" where
  "exited_ok K pid \<longleftrightarrow> (\<exists>t ev. k_waitid K t pid = Inr (Some ev) \<and> si_code ev = CLD_EXITED \<and> si_status ev = 0)"

definition loop_ok :: "kernel \<Rightarrow> int \<Rightarrow> run_state \<times> step \<Rightarrow> bool" where
  "loop_ok K pid x \<longleftrightarrow> (case x of (s, st) \<Rightarrow>
     (st = Break \<longleftrightarrow> primary s \<noteq> NotStarted) \<and> (st = Continue \<longrightarrow> within_limits s) \<and>
     (is_success (primary s) \<longrightarrow> within_limits s \<and> exited_ok K pid))"

lemma watchdogs_ok:
  assumes "primary s = NotStarted" "peak s = max p (rss_kib (fst x))" "p \<le> RSS_STOP_KIB"
    "min_available s = Some (case m of None \<Rightarrow> snd x | Some m \<Rightarrow> min (snd x) m)"
    "\<forall>v. m = Some v \<longrightarrow> AVAILABLE_STOP_KIB \<le> v"
  shows "loop_ok K pid (watchdogs now x s)"
  using assms by (auto simp: watchdogs_def loop_ok_def is_success_def within_limits_def
      split: sum.split option.split option.splits)

text \<open>What one iteration returns, and what it leaves alone.\<close>

definition iterates :: "kernel \<Rightarrow> int \<Rightarrow> run_state \<Rightarrow> run_state \<times> step \<Rightarrow> bool" where
  "iterates K pid s x \<longleftrightarrow> loop_ok K pid x \<and> process (fst x) = process s \<and> owner (fst x) = owner s \<and>
     evidence_complete (fst x) = evidence_complete s"

lemma returns_guarded:
  "returns R m \<Longrightarrow> (\<And>e. Q (s, Raised e)) \<Longrightarrow> (\<And>x. R x \<Longrightarrow> returns Q (k x)) \<Longrightarrow> returns Q (guarded m s k)"
  by (fastforce simp: returns_def guarded_Some_iff)

lemma returns_observed_exit: "returns (\<lambda>ev. \<exists>t. k_waitid K t pid = Inr ev) (observed_exit K pid)"
  by (auto simp: returns_def observed_exit_def sys_def)

lemma iterates_raised: "primary u = NotStarted \<Longrightarrow> process u = process s \<Longrightarrow> owner u = owner s \<Longrightarrow>
    evidence_complete u = evidence_complete s \<Longrightarrow> iterates K pid s (u, Raised e)"
  by (simp add: iterates_def loop_ok_def is_success_def)

lemma note_sample_fields:
  "primary (note_sample x s) = primary s" "process (note_sample x s) = process s"
  "owner (note_sample x s) = owner s" "evidence_complete (note_sample x s) = evidence_complete s"
  by (simp_all add: note_sample_def)

lemma iterates_text_raised:
  assumes "take_text now chunk (note_sample x s) = (s2, e')" "primary s = NotStarted"
  shows "iterates K pid s (s2, Raised e)"
  by (rule iterates_raised) (use take_text_keeps [OF assms(1)] assms(2) in \<open>simp_all add: note_sample_fields\<close>)

lemma iterates_watchdogs:
  assumes tk: "take_text now chunk (note_sample x s) = (s2, e)"
    and pre: "primary s = NotStarted" "within_limits s"
  shows "iterates K pid s (watchdogs now x s2)"
proof -
  have wd: "process (fst (watchdogs now x s2)) = process s2 \<and> owner (fst (watchdogs now x s2)) = owner s2 \<and>
      evidence_complete (fst (watchdogs now x s2)) = evidence_complete s2"
    by (auto simp: watchdogs_def split: sum.split option.split)
  have "loop_ok K pid (watchdogs now x s2)"
    using take_text_keeps [OF tk] pre
    by (intro watchdogs_ok [of s2 "peak s" x "min_available s"]) (auto simp: note_sample_def within_limits_def)
  with wd take_text_keeps [OF tk] show ?thesis by (simp add: iterates_def note_sample_def)
qed

lemma iteration_returns:
  assumes pre: "primary s = NotStarted" "within_limits s"
  shows "returns (iterates K pid s) (iteration K monitor wall t0 start pid s)"
proof -
  have exit: "iterates K pid s (s\<lparr>primary := exit_primary ev\<rparr>, Break)" if "k_waitid K t pid = Inr (Some ev)" for ev t
    using that pre
    by (auto simp: iterates_def loop_ok_def exit_primary_def is_success_def within_limits_def exited_ok_def)
  have stop: "iterates K pid s (s\<lparr>primary := p\<rparr>, Break)" if "p \<noteq> NotStarted" "\<not> is_success p" for p
    using that by (simp add: iterates_def loop_ok_def)
  have tail: "returns (iterates K pid s) (guarded (sys (k_tail K)) (note_sample x s) (\<lambda>chunk.
      case take_text now chunk (note_sample x s) of
        (s2, Some e) \<Rightarrow> ret (s2, Raised e) | (s2, None) \<Rightarrow> ret (watchdogs now x s2)))" for now x
    by (rule returns_guarded [OF returns_any], rule iterates_raised)
      (auto simp: pre note_sample_fields intro!: returns_intros
        iterates_watchdogs [OF _ pre] iterates_text_raised [OF _ pre(1)] split: prod.split option.split)
  have "returns (iterates K pid s) (bindi (clock K) (\<lambda>now.
      if now - start > wall then ret (s\<lparr>primary := TimedOut ''overall wall watchdog''\<rparr>, Break)
      else guarded (monitor pid) s (\<lambda>x. let s1 = note_sample x s in
        guarded (sys (k_tail K)) s1 (\<lambda>chunk. case take_text now chunk s1 of
          (s2, Some e) \<Rightarrow> ret (s2, Raised e) | (s2, None) \<Rightarrow> ret (watchdogs now x s2)))))"
    unfolding Let_def
    by (rule returns_bindi [OF returns_any])
      (auto intro!: returns_intros stop returns_guarded [OF returns_any] iterates_raised pre tail simp: is_success_def)
  then show ?thesis
    unfolding iteration_def
    by (intro returns_bindi [OF returns_any])
      (auto intro!: returns_intros stop exit returns_guarded [OF returns_observed_exit] iterates_raised pre
        simp: is_success_def split: option.split)
qed

lemma run_loop_returns:
  "\<lbrakk>primary s = NotStarted; within_limits s\<rbrakk> \<Longrightarrow>
     returns (\<lambda>x. iterates K pid s x \<and> snd x \<noteq> Continue) (run_loop n K monitor wall t0 start pid s)"
proof (induction n arbitrary: s)
  case (Suc n)
  have "returns (\<lambda>x. iterates K pid s x \<and> snd x \<noteq> Continue) (run_loop n K monitor wall t0 start pid s')"
    if "iterates K pid s (s', Continue)" for s'
  proof -
    from that have "returns (\<lambda>x. iterates K pid s' x \<and> snd x \<noteq> Continue) (run_loop n K monitor wall t0 start pid s')"
      by (intro Suc.IH) (auto simp: iterates_def loop_ok_def)
    with that show ?thesis by (auto simp: returns_def iterates_def)
  qed
  then have "returns (\<lambda>x. iterates K pid s x \<and> snd x \<noteq> Continue) (case x of (s', st) \<Rightarrow>
      if st = Continue then bindi sleep (\<lambda>_. run_loop n K monitor wall t0 start pid s') else ret (s', st))"
    if "iterates K pid s x" for x
    using that by (cases x) (auto intro!: returns_bindi [OF returns_any] returns_intros)
  then show ?case
    unfolding run_loop.simps by (rule returns_bindi [OF iteration_returns [OF Suc.prems]])
qed (simp add: returns_intros)

section \<open>What a run does to the host\<close>

fun is_wrote :: "effect \<Rightarrow> bool" where
  "is_wrote (Wrote p) = True"
| "is_wrote _ = False"

fun launched :: "effect list \<Rightarrow> (string list \<times> (string \<rightharpoonup> string) \<times> int) list" where
  "launched [] = []"
| "launched (Popen a e p # xs) = (a, e, p) # launched xs"
| "launched (_ # xs) = launched xs"

lemma launched_append [simp]: "launched (xs @ ys) = launched xs @ launched ys"
  by (induction xs rule: launched.induct) auto

lemma wrote_only [simp]: "\<forall>x \<in> set xs. is_wrote x \<Longrightarrow> killed xs = [] \<and> launched xs = []"
  by (induction xs) (auto elim: is_wrote.elims)

text \<open>The effects of a part of the run: no signals, and the launches \<open>ls\<close>.\<close>

definition starts :: "effect list \<Rightarrow> (string list \<times> (string \<rightharpoonup> string) \<times> int) list \<Rightarrow> effect list \<Rightarrow> bool" where
  "starts L ls l \<longleftrightarrow> (\<exists>xs. l = L @ xs \<and> killed xs = [] \<and> launched xs = ls \<and> (\<forall>p c. Reaped p c \<notin> set xs))"

lemma starts_refl [simp]: "starts L [] L"
  by (simp add: starts_def)

lemma starts_wrote:
  assumes "logs is_wrote m" "m w = Some (r, w')" "starts L ls (log w)"
  shows "starts L ls (log w')"
proof -
  obtain xs where xs: "log w = L @ xs" "killed xs = []" "launched xs = ls" "\<forall>p c. Reaped p c \<notin> set xs"
    using assms(3) by (auto simp: starts_def)
  obtain ys where ys: "log w' = log w @ ys" "\<forall>x \<in> set ys. is_wrote x"
    using logsD [OF assms(1,2)] by auto
  have "\<forall>p c. Reaped p c \<notin> set ys" using ys(2) by auto
  with xs ys show ?thesis unfolding starts_def by (intro exI [of _ "xs @ ys"]) simp
qed

lemma starts_popen:
  assumes "popen K a env w = Some (Inr pid, w')" "starts L [] (log w)"
  shows "starts L [(a, env, pid)] (log w')"
proof -
  obtain xs where xs: "log w = L @ xs" "killed xs = []" "launched xs = []" "\<forall>p c. Reaped p c \<notin> set xs"
    using assms(2) by (auto simp: starts_def)
  have "log w' = log w @ [Popen a env pid]" using assms(1)
    by (auto simp: popen_def io_simps sys_def emit_def)
  then show ?thesis using xs unfolding starts_def by (intro exI [of _ "xs @ [Popen a env pid]"]) simp
qed

lemma starts_popen_fails:
  "popen K a env w = Some (Inl e, w') \<Longrightarrow> starts L [] (log w) \<Longrightarrow> starts L [] (log w')"
  by (auto simp: popen_def io_simps sys_def emit_def)

lemma logs_write_file [logs_intros]: "logs is_wrote (write_file K path)"
  unfolding write_file_def by (intro logs_intros) simp

lemma total_write_file [total_intros]: "total (write_file K path)"
  unfolding write_file_def by (intro total_intros)

lemma logs_guarded [logs_intros]: "logs P m \<Longrightarrow> (\<And>x. logs P (k x)) \<Longrightarrow> logs P (guarded m s k)"
  unfolding guarded_def by (intro logs_intros) (auto split: sum.split intro!: logs_intros)

lemma logs_iteration:
  assumes "logs P (monitor pid)"
  shows "logs P (iteration K monitor wall t0 start pid s)"
  unfolding iteration_def observed_exit_def interrupts_def Let_def
  by (auto intro!: logs_intros assms split: option.split prod.split)

lemma logs_run_loop:
  assumes "logs P (monitor pid)"
  shows "logs P (run_loop n K monitor wall t0 start pid s)"
proof (induction n arbitrary: s)
  case (Suc n)
  then show ?case by (auto intro!: logs_intros logs_iteration assms split: prod.split)
qed (simp add: logs_def)

lemma logs_supervise_child:
  assumes "\<And>p. logs is_wrote (monitor p)"
  shows "logs is_wrote (supervise_child n K monitor wall t0 start pid s)"
  unfolding supervise_child_def Let_def
  by (auto intro!: logs_intros logs_run_loop assms split: option.split)

text \<open>The state when the \<open>try\<close> is left: a child that is reported as successful exited with 0 inside the limits.\<close>

definition executed :: "kernel \<Rightarrow> run_state \<Rightarrow> bool" where
  "executed K s \<longleftrightarrow> (is_success (primary s) \<longrightarrow> within_limits s \<and> (\<exists>pid. process s = Some pid \<and> exited_ok K pid))"

lemma supervise_child_returns:
  "returns (\<lambda>x. executed K (fst x) \<and> process (fst x) = Some pid)
     (supervise_child n K monitor wall t0 start pid (initial_state\<lparr>process := Some pid\<rparr>))"
proof -
  let ?s = "initial_state\<lparr>process := Some pid\<rparr>"
  have "returns (\<lambda>x. iterates K pid (?s\<lparr>owner := i\<rparr>) x \<and> snd x \<noteq> Continue)
      (run_loop n K monitor wall t0 start pid (?s\<lparr>owner := i\<rparr>))" for i
    by (rule run_loop_returns) (simp_all add: initial_state_def within_limits_def RSS_STOP_KIB_def)
  then have "returns (\<lambda>x. executed K (fst x) \<and> process (fst x) = Some pid)
      (run_loop n K monitor wall t0 start pid (?s\<lparr>owner := i\<rparr>))" for i
    by (auto simp: returns_def iterates_def loop_ok_def executed_def initial_state_def)
  moreover have "executed K (?s\<lparr>owner := i\<rparr>)" "executed K ?s" for i
    by (simp_all add: executed_def initial_state_def is_success_def)
  ultimately show ?thesis
    unfolding supervise_child_def Let_def
    by (auto intro!: returns_guarded [OF returns_any] returns_intros simp: initial_state_def)
qed

lemma no_raise_guarded [no_raise_intros]: "(\<And>x. no_raise (k x)) \<Longrightarrow> no_raise (guarded m s k)"
  unfolding guarded_def by (auto intro!: no_raise_intros split: sum.split)

lemma no_raise_iteration [no_raise_intros]: "no_raise (iteration K monitor wall t0 start pid s)"
  unfolding iteration_def interrupts_def Let_def
  by (auto intro!: no_raise_intros split: option.split prod.split)

lemma no_raise_run_loop [no_raise_intros]: "no_raise (run_loop n K monitor wall t0 start pid s)"
proof (induction n arbitrary: s)
  case (Suc n)
  then show ?case by (auto intro!: no_raise_intros split: prod.split)
qed (simp add: no_raise_def)

lemma no_raise_supervise_child: "no_raise (supervise_child n K monitor wall t0 start pid s)"
  unfolding supervise_child_def Let_def by (auto intro!: no_raise_intros split: option.split)

lemma execute_effects:
  assumes mon: "\<And>pid. logs is_wrote (monitor pid)"
    and run: "execute n K monitor cfg t0 start initial_state w = Some (r, w')"
  shows "\<exists>s st. r = Inr (s, st) \<and> executed K s \<and>
    starts (log w) (case process s of None \<Rightarrow> [] | Some pid \<Rightarrow> [(argv cfg, child_env (environ cfg) (label cfg), pid)]) (log w')"
proof -
  let ?env = "child_env (environ cfg) (label cfg)"
  let ?s = initial_state
  let ?goal = "\<lambda>r w'. \<exists>s st. r = Inr (s, st) \<and> executed K s \<and>
    starts (log w) (case process s of None \<Rightarrow> [] | Some pid \<Rightarrow> [(argv cfg, ?env, pid)]) (log w')"
  let ?child = "\<lambda>pid. supervise_child n K monitor (the (wall_seconds cfg)) t0 start pid (?s\<lparr>process := Some pid\<rparr>)"
  have init: "executed K ?s" "process ?s = None" by (simp_all add: executed_def initial_state_def is_success_def)
  have inner: "?goal r2 v'" if "starts (log w) [] (log v)" "guarded (popen K (argv cfg) ?env) ?s ?child v = Some (r2, v')" for r2 v v'
    using that(2) unfolding guarded_Some_iff
  proof (elim disjE exE conjE)
    fix e assume "popen K (argv cfg) ?env v = Some (Inl e, v')" "r2 = Inr (?s, Raised e)"
    then show ?thesis using starts_popen_fails that(1) init by fastforce
  next
    fix pid v1 assume p: "popen K (argv cfg) ?env v = Some (Inr pid, v1)" and c: "?child pid v1 = Some (r2, v')"
    obtain s st where "r2 = Inr (s, st)" using no_raiseD [OF no_raise_supervise_child c] by auto
    moreover have "starts (log w) [(argv cfg, ?env, pid)] (log v')"
      by (rule starts_wrote [OF logs_supervise_child [OF mon] c starts_popen [OF p that(1)]])
    moreover note returnsD [OF supervise_child_returns, OF c [unfolded \<open>r2 = _\<close>]]
    ultimately show ?thesis by auto
  qed
  have files: "?goal r2 v'" if "starts (log w) [] (log v)"
    "with_files K (guarded (popen K (argv cfg) ?env) ?s ?child) v = Some (r2, v')" for r2 v v'
  proof -
    from that(2) obtain r1 v1 where g: "guarded (popen K (argv cfg) ?env) ?s ?child v = Some (r1, v1)"
      and rest: "(\<exists>e. r1 = Inl e) \<or> (\<exists>s st st'. r1 = Inr (s, st) \<and> r2 = Inr (s, st') \<and> log v' = log v1)"
      unfolding with_files_def by (auto simp: bindi_Some_iff attempt_Some_iff io_apply sys_def)
    from inner [OF that(1) g] rest show ?thesis by auto
  qed
  have wrote: "starts (log w) [] (log v')" if "starts (log w) [] (log v)" "logs is_wrote m" "m v = Some (r, v')" for m r v v'
    using starts_wrote that by blast
  have quiet: "?goal (Inr (?s, Raised e)) v" if "starts (log w) [] (log v)" for e v
    using that init by auto
  from run show ?thesis
    unfolding execute_def guarded_Some_iff [of "write_file K ''started.json''"] guarded_Some_iff [of "sys (k_open K)"]
  proof (elim disjE exE conjE)
    fix e assume "write_file K ''started.json'' w = Some (Inl e, w')" "r = Inr (?s, Raised e)"
    with quiet wrote [OF starts_refl logs_write_file] show ?thesis by blast
  next
    fix u v e assume "write_file K ''started.json'' w = Some (Inr u, v)" "sys (k_open K) v = Some (Inl e, w')"
      "r = Inr (?s, Raised e)"
    with quiet wrote [OF wrote [OF starts_refl logs_write_file] logs_basic(5)] show ?thesis by blast
  next
    fix u v u' v' assume "write_file K ''started.json'' w = Some (Inr u, v)" "sys (k_open K) v = Some (Inr u', v')"
      "with_files K (guarded (popen K (argv cfg) ?env) ?s ?child) v' = Some (r, w')"
    with files wrote [OF wrote [OF starts_refl logs_write_file] logs_basic(5)] show ?thesis by blast
  qed
qed

lemma justified_no_launch: "\<forall>x \<in> set xs. justified K pid ow x \<Longrightarrow> launched xs = []"
  by (induction xs) (auto elim: justified.elims)

text \<open>The report carries the state of the run, and only success of every part is success.\<close>

definition reports :: "run_config \<Rightarrow> run_state \<Rightarrow> cleanup_result \<Rightarrow> run_record \<Rightarrow> bool" where
  "reports cfg s c r \<longleftrightarrow> rr_argv r = argv cfg \<and> rr_cleanup r = c \<and> rr_owner r = owner s \<and> rr_peak r = peak s \<and>
     rr_min_available r = min_available s \<and>
     (rr_overall_success r \<longrightarrow> is_success (primary s) \<and> rr_primary r = primary s \<and>
       success c \<and> evidence_complete s \<and> rr_evidence_errors r = [] \<and>
       peak s \<le> ESCALATION_STOP_KIB \<and> rr_signals r = [] \<and> map fst (rr_raw r) = [''stdout'', ''stderr''])"

definition captured :: "string \<Rightarrow> run_record \<Rightarrow> run_record \<Rightarrow> bool" where
  "captured p r r1 \<longleftrightarrow>
     r1 = r\<lparr>rr_raw := rr_raw r1, rr_evidence_errors := rr_evidence_errors r1, rr_evidence_complete := rr_evidence_complete r1\<rparr> \<and>
     (rr_evidence_complete r1 \<longrightarrow> rr_evidence_complete r \<and> rr_evidence_errors r1 = rr_evidence_errors r \<and>
        map fst (rr_raw r1) = map fst (rr_raw r) @ [p])"

lemma raw_capture_returns: "returns (captured p r) (raw_capture K sha p r)"
  unfolding raw_capture_def
  by (rule returns_bindi [OF returns_any]) (auto intro!: returns_intros simp: captured_def split: sum.split)

lemma captured_twice:
  assumes "captured p r r1" "captured q r1 r2"
  shows "r2 = r\<lparr>rr_raw := rr_raw r2, rr_evidence_errors := rr_evidence_errors r2, rr_evidence_complete := rr_evidence_complete r2\<rparr> \<and>
     (rr_evidence_complete r2 \<longrightarrow> rr_evidence_complete r \<and> rr_evidence_errors r2 = rr_evidence_errors r \<and>
        map fst (rr_raw r2) = map fst (rr_raw r) @ [p, q])"
  using assms unfolding captured_def
  by (cases r; cases r1; cases r2) simp

lemma late_interrupt_success: "is_success (late_interrupt sigs p) \<Longrightarrow> is_success p \<and> late_interrupt sigs p = p"
  by (auto simp: late_interrupt_def is_success_def split: if_splits)

lemma reports_captured:
  assumes "captured p (report_of cfg s c sigs) r1" "captured q r1 r2" "p = ''stdout''" "q = ''stderr''"
  shows "reports cfg s c (r2\<lparr>rr_overall_success := overall r2 sigs', rr_signals := sigs'\<rparr>)"
proof -
  define r0 where "r0 = report_of cfg s c sigs"
  have r0: "rr_argv r0 = argv cfg" "rr_cleanup r0 = c" "rr_owner r0 = owner s" "rr_peak r0 = peak s"
    "rr_min_available r0 = min_available s" "rr_primary r0 = late_interrupt sigs (primary s)"
    "rr_evidence_errors r0 = []" "rr_evidence_complete r0 = evidence_complete s"
    "rr_stop_escalation r0 = (peak s > ESCALATION_STOP_KIB)" "rr_raw r0 = []"
    by (simp_all add: r0_def report_of_def)
  have two: "r2 = r0\<lparr>rr_raw := rr_raw r2, rr_evidence_errors := rr_evidence_errors r2, rr_evidence_complete := rr_evidence_complete r2\<rparr>"
    "rr_evidence_complete r2 \<longrightarrow> rr_evidence_complete r0 \<and> rr_evidence_errors r2 = rr_evidence_errors r0 \<and>
      map fst (rr_raw r2) = map fst (rr_raw r0) @ [p, q]"
    using captured_twice [OF assms(1,2)] by (simp_all add: r0_def)
  have same: "rr_argv r2 = argv cfg" "rr_cleanup r2 = c" "rr_owner r2 = owner s" "rr_peak r2 = peak s"
    "rr_min_available r2 = min_available s" "rr_primary r2 = late_interrupt sigs (primary s)"
    "rr_stop_escalation r2 = (peak s > ESCALATION_STOP_KIB)"
    by (subst two(1), simp add: r0)+
  show ?thesis
    using two(2) same assms(3,4) by (auto simp: reports_def overall_def r0 dest: late_interrupt_success)
qed

lemma finish_report_returns: "returns (reports cfg s c) (finish_report K sha reporter cfg t0 s c)"
proof -
  have rep: "returns (reports cfg s c) (file_report K reporter r)" if "reports cfg s c r" for r
    unfolding file_report_def
    by (rule returns_bindi [OF returns_any])
      (use that in \<open>auto intro!: returns_intros returns_bindi [OF returns_any] split: sum.split simp: reports_def\<close>)
  show ?thesis
    unfolding finish_report_def
    by (rule returns_bindi [OF returns_any], rule returns_bindi [OF raw_capture_returns],
        rule returns_bindi [OF raw_capture_returns], rule returns_bindi [OF returns_any], rule rep)
      (auto intro: reports_captured)
qed

section \<open>The seams of the runner\<close>

text \<open>
  What \<open>run_command\<close> relies on in its monitor and its reporter: they return, and the only effect
  they have on the host is to write files. Every driver of the runner passes its own pair.
\<close>

lemma record_failure_fields [simp]:
  "process (record_failure (s, st)) = process s" "owner (record_failure (s, st)) = owner s"
  "peak (record_failure (s, st)) = peak s" "min_available (record_failure (s, st)) = min_available s"
  by (auto simp: record_failure_def Let_def split: step.split)

lemma record_failure_success:
  "is_success (primary (record_failure (s, st))) \<Longrightarrow> is_success (primary s)"
  by (auto simp: record_failure_def Let_def is_success_def split: step.splits if_splits)

lemma bindi_steps:
  "bindi (sys g) k w = (case g (tick w) of Inl e \<Rightarrow> Some (Inl e, w\<lparr>tick := Suc (tick w)\<rparr>)
     | Inr x \<Rightarrow> k x (w\<lparr>tick := Suc (tick w)\<rparr>))"
  "bindi (clock K) k' w = k' (k_clock K (tick w)) (w\<lparr>tick := Suc (tick w)\<rparr>)"
  "bindi (gets h) k'' w = k'' (h w) w"
  by (auto simp: bindi_def sys_def clock_def io_apply split: sum.split)

lemma total_guarded [total_intros]: "total m \<Longrightarrow> (\<And>x. total (k x)) \<Longrightarrow> total (guarded m s k)"
  unfolding guarded_def by (auto intro!: total_intros split: sum.split)

lemma settles_guarded [settles_intros]:
  assumes "settles m w" and "\<And>n x w'. m n w = Some (Inr x, w') \<Longrightarrow> settles (\<lambda>n. k n x) w'"
  shows "settles (\<lambda>n. guarded (m n) s (k n)) w"
  unfolding guarded_def
proof (rule settles_bindi [OF settles_attempt [OF assms(1)]])
  fix n r w' assume "attempt (m n) w = Some (Inr r, w')"
  then show "settles (\<lambda>n. case r of Inl e \<Rightarrow> ret (s, Raised e) | Inr x \<Rightarrow> k n x) w'"
    using assms(2) by (cases r) (auto simp: attempt_Some_iff intro: settles_total total_intros)
qed

locale run_seams =
  fixes K :: kernel and monitor :: "'b monitor" and reporter :: "'b reporter"
  assumes monitor_logs: "logs is_wrote (monitor pid)"
    and monitor_total: "total (monitor pid)"
    and reporter_logs: "logs is_wrote (reporter r)"
    and reporter_total: "total (reporter r)"
begin

lemma logs_finish_report: "logs is_wrote (finish_report K sha reporter cfg t0 s c)"
  unfolding finish_report_def file_report_def raw_capture_def interrupts_def
  by (auto intro!: logs_intros reporter_logs split: sum.split)

lemma total_finish_report: "total (finish_report K sha reporter cfg t0 s c)"
  unfolding finish_report_def file_report_def raw_capture_def interrupts_def
  by (auto intro!: total_intros reporter_total split: sum.split)

lemma run_parts:
  assumes "run_command n K sha monitor reporter cfg w = Some (Inr r, w')"
  obtains v t0 start s st v1 c v2 where "valid_config cfg" "log v = log w"
    "execute n K monitor cfg t0 start initial_state v = Some (Inr (s, st), v1)"
    "conclude n K cfg (record_failure (s, st)) v1 = Some (Inr c, v2)"
    "reports cfg (record_failure (s, st)) c r" "starts (log v2) [] (log w')"
proof -
  have valid: "valid_config cfg" by (rule ccontr) (use assms in \<open>simp add: run_command_def io_simps\<close>)
  let ?v = "w\<lparr>tick := Suc (Suc (tick w))\<rparr>" and ?t0 = "Suc (Suc (tick w))" and ?start = "k_clock K (Suc (tick w))"
  have "bindi (execute n K monitor cfg ?t0 ?start initial_state) (\<lambda>x. bindi (conclude n K cfg (record_failure x))
      (finish_report K sha reporter cfg ?t0 (record_failure x))) ?v = Some (Inr r, w')"
    using assms valid unfolding run_command_def Let_def
    by (cases "k_mkdir K (tick w)") (simp_all add: bindi_steps)
  then obtain x v1 c v2 where p: "execute n K monitor cfg ?t0 ?start initial_state ?v = Some (Inr x, v1)"
    "conclude n K cfg (record_failure x) v1 = Some (Inr c, v2)"
    "finish_report K sha reporter cfg ?t0 (record_failure x) c v2 = Some (Inr r, w')"
    unfolding bindi_Some_iff by blast
  have parts: "log ?v = log w" "execute n K monitor cfg ?t0 ?start initial_state ?v = Some (Inr x, v1)"
    "conclude n K cfg (record_failure x) v1 = Some (Inr c, v2)"
    "finish_report K sha reporter cfg ?t0 (record_failure x) c v2 = Some (Inr r, w')"
    using p by simp_all
  obtain s st where x: "x = (s, st)" by (cases x)
  show thesis
    by (rule that [OF valid parts(1) parts(2) [unfolded x] parts(3) [unfolded x]
        returnsD [OF finish_report_returns parts(4), unfolded x] starts_wrote [OF logs_finish_report parts(4) starts_refl]])
qed

end

text \<open>The whole footprint of a run.\<close>

definition lawful_run :: "kernel \<Rightarrow> run_config \<Rightarrow> proc_id option \<Rightarrow> effect list \<Rightarrow> bool" where
  "lawful_run K cfg ow xs \<longleftrightarrow>
     (launched xs = [] \<and> killed xs = [] \<and> (\<forall>p c. Reaped p c \<notin> set xs)) \<or>
     (\<exists>pid. launched xs = [(argv cfg, child_env (environ cfg) (label cfg), pid)] \<and> killed xs \<in> lawful \<and>
        (\<forall>x \<in> set xs. justified K pid ow x \<or> is_wrote x \<or> x = Popen (argv cfg) (child_env (environ cfg) (label cfg)) pid))"

lemma conclude_effects:
  assumes "conclude n K cfg s w = Some (Inr c, w')"
  shows "\<exists>xs. log w' = log w @ xs \<and> (case process s of
      None \<Rightarrow> xs = [] \<and> c = no_cleanup
    | Some pid \<Rightarrow> (\<forall>x \<in> set xs. justified K pid (owner s) x) \<and> killed xs \<in> lawful \<and>
        (success c \<longrightarrow> cl_errors c = [] \<and> reaped pid c (log w') \<and> emptied c))"
proof (cases "process s")
  case None
  then show ?thesis using assms by (simp add: conclude_def io_simps)
next
  case (Some pid)
  then have run: "cleanup n K pid None (owner s) (the (term_grace cfg)) (the (kill_grace cfg)) w = Some (Inr c, w')"
    using assms by (simp add: conclude_def)
  show ?thesis using cleanup_effects [OF run] cleanup_success [OF run] Some by auto
qed

lemma footprint_elem:
  "killed xs = [] \<Longrightarrow> \<forall>p c. Reaped p c \<notin> set xs \<Longrightarrow> x \<in> set xs \<Longrightarrow>
     is_wrote x \<or> (\<exists>a e p. x = Popen a e p \<and> (a, e, p) \<in> set (launched xs))"
  by (induction xs rule: launched.induct) auto

lemma lawful_run_compose:
  assumes "starts L (case process s of None \<Rightarrow> [] | Some pid \<Rightarrow> [(argv cfg, child_env (environ cfg) (label cfg), pid)]) l1"
    and "l2 = l1 @ xs" "case process s of None \<Rightarrow> xs = []
      | Some pid \<Rightarrow> (\<forall>x \<in> set xs. justified K pid ow x) \<and> killed xs \<in> lawful"
    and "starts l2 [] l3"
  shows "\<exists>zs. l3 = L @ zs \<and> lawful_run K cfg ow zs"
proof -
  let ?ls = "case process s of None \<Rightarrow> [] | Some pid \<Rightarrow> [(argv cfg, child_env (environ cfg) (label cfg), pid)]"
  obtain as where as: "l1 = L @ as" "killed as = []" "launched as = ?ls" "\<forall>p c. Reaped p c \<notin> set as"
    using assms(1) by (auto simp: starts_def)
  obtain bs where bs: "l3 = l2 @ bs" "killed bs = []" "launched bs = []" "\<forall>p c. Reaped p c \<notin> set bs"
    using assms(4) by (auto simp: starts_def)
  have all: "l3 = L @ as @ xs @ bs" using as(1) bs(1) assms(2) by simp
  show ?thesis
  proof (cases "process s")
    case None
    then show ?thesis
      using all as bs assms(3) by (intro exI [of _ "as @ xs @ bs"]) (auto simp: lawful_run_def)
  next
    case (Some pid)
    then have xs: "\<forall>x \<in> set xs. justified K pid ow x" "killed xs \<in> lawful" "launched xs = []"
      using assms(3) justified_no_launch by auto
    have "launched (as @ xs @ bs) = ?ls" "killed (as @ xs @ bs) \<in> lawful" using as bs xs by auto
    moreover have "\<forall>x \<in> set (as @ xs @ bs). justified K pid ow x \<or> is_wrote x \<or>
        x = Popen (argv cfg) (child_env (environ cfg) (label cfg)) pid"
      using xs(1) footprint_elem [OF as(2,4)] footprint_elem [OF bs(2,4)] as(3) bs(3) Some by auto
    ultimately show ?thesis using all Some unfolding lawful_run_def
      by (intro exI [of _ "as @ xs @ bs"]) auto
  qed
qed

context run_seams
begin

lemma run_effects:
  assumes "run_command n K sha monitor reporter cfg w = Some (Inr r, w')"
  shows "\<exists>xs. log w' = log w @ xs \<and> lawful_run K cfg (rr_owner r) xs"
proof -
  obtain v t0 start s st v1 c v2 where p: "log v = log w"
    "execute n K monitor cfg t0 start initial_state v = Some (Inr (s, st), v1)"
    "conclude n K cfg (record_failure (s, st)) v1 = Some (Inr c, v2)"
    "reports cfg (record_failure (s, st)) c r" "starts (log v2) [] (log w')"
    by (rule run_parts [OF assms])
  have ex: "starts (log w) (case process s of None \<Rightarrow> [] | Some pid \<Rightarrow> [(argv cfg, child_env (environ cfg) (label cfg), pid)]) (log v1)"
    using execute_effects [OF monitor_logs p(2)] p(1) by auto
  obtain xs where xs: "log v2 = log v1 @ xs" "case process s of None \<Rightarrow> xs = []
      | Some pid \<Rightarrow> (\<forall>x \<in> set xs. justified K pid (owner s) x) \<and> killed xs \<in> lawful"
    using conclude_effects [OF p(3)] by (auto split: option.splits)
  have "rr_owner r = owner s" using p(4) by (simp add: reports_def)
  with lawful_run_compose [OF ex xs p(5)] show ?thesis by simp
qed

text \<open>What an overall success says about the child, the group and the evidence.\<close>

lemma run_success:
  assumes run: "run_command n K sha monitor reporter cfg w = Some (Inr r, w')" and ok: "rr_overall_success r"
  shows "\<exists>pid. exited_ok K pid \<and> reaped pid (rr_cleanup r) (log w') \<and> emptied (rr_cleanup r) \<and>
    cl_errors (rr_cleanup r) = [] \<and> is_success (rr_primary r) \<and> rr_signals r = [] \<and> rr_evidence_errors r = [] \<and>
    map fst (rr_raw r) = [''stdout'', ''stderr''] \<and> rr_peak r \<le> ESCALATION_STOP_KIB \<and>
    (\<forall>m. rr_min_available r = Some m \<longrightarrow> AVAILABLE_STOP_KIB \<le> m)"
proof -
  obtain v t0 start s st v1 c v2 where p: "log v = log w"
    "execute n K monitor cfg t0 start initial_state v = Some (Inr (s, st), v1)"
    "conclude n K cfg (record_failure (s, st)) v1 = Some (Inr c, v2)"
    "reports cfg (record_failure (s, st)) c r" "starts (log v2) [] (log w')"
    by (rule run_parts [OF run])
  have "executed K s" using execute_effects [OF monitor_logs p(2)] by auto
  moreover have suc: "is_success (primary (record_failure (s, st)))" "success c" using p(4) ok by (auto simp: reports_def)
  ultimately obtain pid where pid: "process s = Some pid" "exited_ok K pid" "within_limits s"
    using record_failure_success by (auto simp: executed_def)
  have "cl_errors c = [] \<and> reaped pid c (log v2) \<and> emptied c"
    using conclude_effects [OF p(3)] pid(1) suc(2) by auto
  moreover have "reaped pid c (log v2) \<Longrightarrow> reaped pid c (log w')"
    using p(5) by (auto simp: reaped_def starts_def)
  ultimately show ?thesis using p(4) ok pid(2,3) suc(1)
    by (intro exI [of _ pid]) (auto simp: reports_def within_limits_def)
qed

end

section \<open>A run always returns\<close>

lemma total_iteration:
  assumes "total (monitor pid)"
  shows "total (iteration K monitor wall t0 start pid s)"
  unfolding iteration_def interrupts_def observed_exit_def Let_def
  by (auto intro!: total_intros assms split: option.split prod.split)

lemma iteration_continues:
  assumes "iteration K monitor wall t0 start pid s w = Some (Inr (s', Continue), w')"
    and "\<And>p. logs is_wrote (monitor p)"
  shows "k_clock K (Suc (tick w)) - start \<le> wall \<and> tick w < tick w'"
proof -
  have mono: "tick u \<le> tick u'" if "monitor pid u = Some (r, u')" for u r u'
    using logsD [OF assms(2) that] by simp
  show ?thesis
    using assms(1) unfolding iteration_def interrupts_def observed_exit_def
    by (auto simp: bindi_steps guarded_Some_iff io_apply sys_def Let_def split: if_splits option.splits dest!: mono)
      (auto simp: io_apply split: prod.splits option.splits)
qed

lemma run_loop_settles:
  assumes "\<forall>t\<ge>T. start + wall < k_clock K t" and mon: "\<And>p. logs is_wrote (monitor p)" "\<And>p. total (monitor p)"
  shows "settles (\<lambda>n. run_loop n K monitor wall t0 start pid s) w"
proof (induction "T - tick w" arbitrary: s w rule: less_induct)
  case less
  have "settles (\<lambda>n. run_loop (Suc n) K monitor wall t0 start pid s) w"
    unfolding run_loop.simps
  proof (rule settles_bindi [OF settles_total [OF total_iteration [OF mon(2)]]])
    fix x w1 assume it: "iteration K monitor wall t0 start pid s w = Some (Inr x, w1)"
    obtain s' st where x: "x = (s', st)" by (cases x)
    have "settles (\<lambda>n. bindi sleep (\<lambda>_. run_loop n K monitor wall t0 start pid s')) w1" if "st = Continue"
    proof (rule settles_bindi [OF settles_total [OF total_sys(3)]])
      fix u w2 assume "sleep w1 = Some (Inr u, w2)"
      then have "tick w2 = Suc (tick w1)" by (auto simp: sleep_def sys_def)
      moreover have "k_clock K (Suc (tick w)) - start \<le> wall" "tick w < tick w1"
        using iteration_continues [OF it [unfolded x that] mon(1)] by auto
      moreover from this(1) have "\<not> T \<le> Suc (tick w)" using assms(1) by force
      ultimately show "settles (\<lambda>n. run_loop n K monitor wall t0 start pid s') w2" by (intro less) linarith
    qed
    then show "settles (\<lambda>n. case x of (s', st) \<Rightarrow> if st = Continue
        then bindi sleep (\<lambda>_. run_loop n K monitor wall t0 start pid s') else ret (s', st)) w1"
      unfolding x prod.case by (intro settles_if settles_total total_intros)
  qed
  then show ?case by (rule settles_Suc)
qed

context run_seams
begin

lemma run_settles:
  assumes div: "clock_diverges K"
  shows "settles (\<lambda>n. run_command n K sha monitor reporter cfg) w"
proof (cases "valid_config cfg")
  case False
  then show ?thesis unfolding run_command_def by (simp add: settles_total total_intros)
next
  case True
  have loop: "settles (\<lambda>n. run_loop n K monitor wall t0 start pid s) w'" for wall t0 start pid s w'
  proof -
    obtain T where "\<forall>t\<ge>T. start + wall + 1 \<le> k_clock K t" using div unfolding clock_diverges_def by blast
    then have "\<forall>t\<ge>T. start + wall < k_clock K t" by force
    then show ?thesis by (rule run_loop_settles [OF _ monitor_logs monitor_total])
  qed
  have child: "settles (\<lambda>n. supervise_child n K monitor wall t0 start pid s) w'" for wall t0 start pid s w'
    unfolding supervise_child_def Let_def
    by (intro settles_guarded settles_if settles_total total_intros loop)
  have files: "settles (\<lambda>n. with_files K (m n)) w'" if "settles m w'" for m :: "nat \<Rightarrow> ('b world_scheme, run_state \<times> step) io" and w'
    unfolding with_files_def
    by (rule settles_bindi [OF that]) (auto intro!: settles_total total_intros split: prod.split)
  have exec: "settles (\<lambda>n. execute n K monitor cfg t0 start s) w'" for t0 start s w'
    unfolding execute_def popen_def
    by (intro settles_guarded files settles_total total_intros child)
  have conc: "settles (\<lambda>n. conclude n K cfg s) w'" for s w'
    unfolding conclude_def by (cases "process s") (auto intro: settles_total total_intros cleanup_settles div)
  show ?thesis
    unfolding run_command_def Let_def using True
    by (simp, intro settles_bindi settles_total total_finish_report exec conc total_intros)
qed

end

text \<open>The standalone runner: \<open>sample\<close> and \<open>write_json\<close>.\<close>

definition standalone :: "nat \<Rightarrow> kernel \<Rightarrow> (string \<Rightarrow> string) \<Rightarrow> run_config \<Rightarrow> (world, run_record) io" where
  "standalone n K sha cfg = run_command n K sha (sample K) (\<lambda>r. write_file K ''result.json'') cfg"

lemma logs_sample [logs_intros]: "logs P (sample K pid)"
  unfolding sample_def by (auto intro!: logs_intros)

lemma total_sample [total_intros]: "total (sample K pid)"
  unfolding sample_def by (auto intro!: total_intros)

interpretation standalone_seams: run_seams K "sample K" "\<lambda>r. write_file K ''result.json''" for K
  by unfold_locales (auto intro: logs_intros total_intros)

section \<open>Properties\<close>

definition example_config :: run_config where
  "example_config = \<lparr>argv = [''go'', ''test''], label = ''groth16'', environ = Map.empty,
     wall_seconds = Some 210, term_grace = Some 1, kill_grace = Some 2\<rparr>"

lemma example_sample:
  "tick w \<ge> 7 \<Longrightarrow> sample example_host 100 w =
     Some (Inr (\<lparr>live = [], zombies = [example_owner\<lparr>p_state := ''Z''\<rparr>], sn_errors = [], rss_kib = 0\<rparr>, 4000000), w\<lparr>tick := tick w + 3\<rparr>)"
  by (simp add: sample_def run_steps example_snapshot example_kernel example_available)

lemma example_no_signals: "pending example_host a b = []"
  by (simp add: pending_def example_kernel map_filter_def)

lemmas run_command_steps = standalone_def run_command_def valid_config_def valid_budget_def execute_def guarded_def
  with_files_def popen_def supervise_child_def run_steps

lemma example_iterations:
  "tick w = 7 \<Longrightarrow> 0 \<le> start \<Longrightarrow> iteration example_host (sample example_host) 210 t0 start 100 (initial_state\<lparr>process := Some 100, owner := x\<rparr>) w =
     Some (Inr ((initial_state\<lparr>process := Some 100, owner := x, min_available := Some 4000000\<rparr>), Continue), w\<lparr>tick := 13\<rparr>)"
  "tick w = 14 \<Longrightarrow> iteration example_host (sample example_host) 210 t0 start 100 s w =
     Some (Inr (s\<lparr>primary := CommandSuccess 1 0\<rparr>, Break), w\<lparr>tick := 15\<rparr>)"
  by (simp_all add: iteration_def guarded_def run_steps example_kernel interrupts_def example_no_signals
      observed_exit_def exit_primary_def CLD_EXITED_def example_sample note_sample_def initial_state_def take_text_def
      watchdogs_def phase_expired_def RSS_STOP_KIB_def AVAILABLE_STOP_KIB_def)

lemma example_execute:
  assumes "tick w = 2" "0 \<le> start"
  shows "execute (Suc (Suc 0)) example_host (sample example_host) example_config t0 start initial_state w =
    Some (Inr (initial_state\<lparr>process := Some 100, owner := Some example_owner, min_available := Some 4000000,
        primary := CommandSuccess 1 0\<rparr>, Break),
      w\<lparr>tick := 16, log := log w @ [Wrote ''started.json'', Popen [''go'', ''test''] (child_env Map.empty ''groth16'') 100, Wrote ''owner.json'']\<rparr>)"
proof -
  have o: "p_sid example_owner = 100" "p_pgid example_owner = 100" by (simp_all add: example_owner_def)
  show ?thesis
    using assms by (simp add: execute_def guarded_def with_files_def popen_def supervise_child_def run_steps
        example_kernel example_identity example_iterations example_config_def Let_def o)
qed

lemma example_conclude:
  assumes "tick w = 16"
  shows "case conclude (Suc (Suc 0)) example_host example_config (initial_state\<lparr>process := Some 100,
      owner := Some example_owner, min_available := Some 4000000, primary := CommandSuccess 1 0\<rparr>) w of
    Some (Inr c, w') \<Rightarrow> success c \<and> killed (log w') = killed (log w) \<and> length (log w') = Suc (length (log w)) | _ \<Rightarrow> False"
  using assms
  by (simp add: conclude_def initial_state_def cleanup_steps example_snapshot example_kernel enter_def new_result_def
      world.defs cleanup_world.defs cleanup_succeeds_def)

lemma example_run: "case standalone (Suc (Suc 0)) example_host id example_config fresh of
   Some (Inr r, w') \<Rightarrow> rr_overall_success r \<and> killed (log w') = [] | _ \<Rightarrow> False"
proof -
  let ?s = "initial_state\<lparr>process := Some 100, owner := Some example_owner, min_available := Some 4000000,
        primary := CommandSuccess 1 0\<rparr>"
  let ?v = "fresh\<lparr>tick := 16, log := [Wrote ''started.json'', Popen [''go'', ''test''] (child_env Map.empty ''groth16'') 100, Wrote ''owner.json'']\<rparr>"
  have valid: "valid_config example_config" by (simp add: example_config_def valid_config_def valid_budget_def)
  obtain c v' where c: "conclude (Suc (Suc 0)) example_host example_config ?s ?v = Some (Inr c, v')" "success c" "killed (log v') = []"
    using example_conclude [of ?v] unfolding run_outcome_iff by auto
  have "standalone (Suc (Suc 0)) example_host id example_config fresh =
      finish_report example_host id (\<lambda>r. write_file example_host ''result.json'') example_config 2 ?s c v'"
    using c(1) valid by (simp add: standalone_def run_command_def example_execute example_kernel bindi_apply sys_def clock_def
        io_apply fresh_def record_failure_def Let_def numeral_2_eq_2)
  then show ?thesis
    using c(2,3)
    by (simp add: finish_report_def run_steps raw_capture_def interrupts_def example_no_signals example_kernel
        file_report_def overall_def report_of_def late_interrupt_def is_success_def initial_state_def ESCALATION_STOP_KIB_def)
qed
lemma example_run_obtain:
  obtains r w' where "standalone (Suc (Suc 0)) example_host id example_config fresh = Some (Inr r, w')"
    "rr_overall_success r" "killed (log w') = []"
  using example_run unfolding run_outcome_iff by blast

text \<open>
  C4: the whole footprint of a run of the standalone runner on the host, whatever the host does:
  either no child was started and nothing was signalled or reaped, or exactly one child was
  started, with the requested command and environment, and every signal and every reap is one
  that the cleanup contract justifies for that child.
\<close>

theorem run_footprint:
  assumes "standalone n K sha cfg w = Some (Inr r, w')"
  shows "\<exists>xs. log w' = log w @ xs \<and> lawful_run K cfg (rr_owner r) xs"
  using assms unfolding standalone_def by (rule standalone_seams.run_effects)

theorem run_footprint_witness:
  "\<exists>r w'. standalone (Suc (Suc 0)) example_host id example_config fresh = Some (Inr r, w') \<and>
     lawful_run example_host example_config (rr_owner r) (log w')"
proof -
  obtain r w' where run: "standalone (Suc (Suc 0)) example_host id example_config fresh = Some (Inr r, w')"
    by (rule example_run_obtain)
  with run_footprint [OF run] show ?thesis by (auto simp: fresh_def)
qed



text \<open>
  C6: when the monotonic clock passes every bound, a run returns, whatever the child, the host and
  the monitor do: the wall watchdog ends the loop and the cleanup is bounded.
\<close>

theorem run_returns:
  assumes "clock_diverges K"
  shows "\<exists>n0 r w'. \<forall>n\<ge>n0. standalone n K sha cfg w = Some (r, w')"
  using standalone_seams.run_settles [OF assms] unfolding standalone_def settles_def by (metis surj_pair)

theorem run_returns_witness:
  "clock_diverges example_host \<and>
   (\<exists>n0 r w'. \<forall>n\<ge>n0. standalone n example_host id example_config fresh = Some (r, w'))"
  using example_diverges run_returns [OF example_diverges] by blast

text \<open>
  C7: the environment of the child pins the four toolchain overrides, hands an opt-in flag to the
  child only when its label asks for it, never both flags, and leaves every other variable as
  the runner got it.
\<close>

theorem child_env_isolates:
  "child_env env lab ''GOPROXY'' = Some ''off'' \<and> child_env env lab ''GOTOOLCHAIN'' = Some ''local'' \<and>
   child_env env lab ''GOSUMDB'' = Some ''off'' \<and> child_env env lab ''GOMAXPROCS'' = Some ''4'' \<and>
   child_env env lab CALIBRATE = (if lab = ''calibration'' then Some ''1'' else None) \<and>
   child_env env lab GROTH16 = (if lab = ''groth16'' then Some ''1'' else None) \<and>
   (v \<notin> fst ` set OVERRIDES \<union> set FLAGS \<longrightarrow> child_env env lab v = env v)"
  by (auto simp: child_env_def OVERRIDES_def FLAGS_def Let_def map_add_def split: option.splits if_splits)

theorem child_env_isolates_witness:
  "child_env (Map.empty(''HOME'' \<mapsto> ''/root'')) ''groth16'' ''HOME'' = Some ''/root''"
  using child_env_isolates [of "Map.empty(''HOME'' \<mapsto> ''/root'')" "''groth16''" "''HOME''"]
  by (simp add: OVERRIDES_def FLAGS_def)

end
