(* ===== verification/Group_Rss.thy ===== *)
theory Group_Rss
  imports Run_Command "HOL-Library.Multiset" "HOL-Library.Sublist"
begin

text \<open>
  The bounded observer of a process group and the recorder of its raw evidence stream,
  \<^verbatim>\<open>group_rss.py\<close> with the bounds of \<^verbatim>\<open>group_schema.py\<close>.

  An observation brackets the reads of the members between two scans of the group and two
  reads of the session leader. A row is a record; \<open>row_json\<close> is the dictionary the code builds.
  Only observations that the code's \<open>except\<close> clauses catch end up in a row; any other exception
  leaves \<open>observe\<close>.
\<close>

section \<open>Bounds and names\<close>

definition VERSION :: int where "VERSION = 1"
definition CONTRACT :: string where "CONTRACT = ''g3-raw-group-rss-v1''"
definition MAX_MEMBERS :: nat where "MAX_MEMBERS = 256"
definition MAX_PROC_ENTRIES :: nat where "MAX_PROC_ENTRIES = 65536"
definition MAX_RECORD_BYTES :: nat where "MAX_RECORD_BYTES = 256 * 1024"
definition MAX_STREAM_BYTES :: nat where "MAX_STREAM_BYTES = 16 * 1024 * 1024"
definition MAX_SAMPLES :: nat where "MAX_SAMPLES = 8192"
definition MAX_RSS_BYTES :: int where "MAX_RSS_BYTES = 2 ^ 63 - 1"

definition PHASES :: "string list" where
  "PHASES = [''unknown'', ''readiness'', ''workload'', ''cleanup'']"

datatype sample_status = COMPLETE | PARTIAL | INVALID | NO_LIVE_MEMBERS | ZOMBIE_ONLY

definition STATUSES :: "sample_status list" where
  "STATUSES = [COMPLETE, PARTIAL, INVALID, NO_LIVE_MEMBERS, ZOMBIE_ONLY]"

fun status_name :: "sample_status \<Rightarrow> string" where
  "status_name COMPLETE = ''COMPLETE''"
| "status_name PARTIAL = ''PARTIAL''"
| "status_name INVALID = ''INVALID''"
| "status_name NO_LIVE_MEMBERS = ''NO_LIVE_MEMBERS''"
| "status_name ZOMBIE_ONLY = ''ZOMBIE_ONLY''"

section \<open>Reading the host\<close>

text \<open>\<open>ProcReader._read\<close>: at most 64 KiB of ASCII.\<close>

definition proc_text :: "string \<Rightarrow> string res" where
  "proc_text data =
     (if length data > 65536 then Inl (ValueError ''proc record bound'')
      else if \<not> list_all (\<lambda>c. (of_char c :: nat) < 128) data then Inl (ValueError ''UnicodeDecodeError'')
      else Inr data)"

definition proc_read :: "(nat \<Rightarrow> string res) \<Rightarrow> ('b world_scheme, string) io" where
  "proc_read f = bindi (sys f) (\<lambda>data. lift_res (proc_text data))"

definition reader_pids :: "kernel \<Rightarrow> ('b world_scheme, int list) io" where
  "reader_pids K =
     bindi (sys (k_entries K)) (\<lambda>names.
     bindi (lift_res (map_res py_int (filter py_isdigit names))) (\<lambda>found.
       if length found > MAX_PROC_ENTRIES then raise (ValueError ''proc enumeration bound'')
       else ret (sort found)))"

definition parse_ident :: "int \<Rightarrow> string \<Rightarrow> ident res" where
  "parse_ident pid raw =
     (let fs = stat_fields raw in
      bindr (nth_res fs 0) (\<lambda>st.
      bindr (bindr (nth_res fs 2) py_int) (\<lambda>pgid.
      bindr (bindr (nth_res fs 3) py_int) (\<lambda>sid.
      bindr (bindr (nth_res fs 19) py_int) (\<lambda>ticks.
      Inr \<lparr>p_pid = pid, p_state = st, p_pgid = pgid, p_sid = sid, p_ticks = ticks\<rparr>)))))"

definition reader_identity :: "kernel \<Rightarrow> int \<Rightarrow> ('b world_scheme, ident option) io" where
  "reader_identity K pid =
     bindi (attempt (proc_read (\<lambda>t. k_stat K t pid))) (\<lambda>r.
       case r of
         Inl e \<Rightarrow> if e = FileNotFoundError \<or> e = ProcessLookupError then ret None else raise e
       | Inr raw \<Rightarrow> bindi (lift_res (parse_ident pid raw)) (\<lambda>i. ret (Some i)))"

text \<open>\<open>re.fullmatch(name + r'\s+\d+\s+kB', line)\<close>: for ASCII, the words of the line are the name, digits and kB.\<close>

definition kib_line :: "string \<Rightarrow> string \<Rightarrow> bool" where
  "kib_line name line \<longleftrightarrow> (\<exists>n \<in> set (py_split line). py_split line = [name, n, ''kB''] \<and> py_isdigit n) \<and>
     py_startswith line name \<and> line \<noteq> [] \<and> last line = CHR ''B''"

definition kib_value :: "string \<Rightarrow> string \<Rightarrow> int res" where
  "kib_value name text =
     (let values = filter (\<lambda>line. py_startswith line name) (str_splitlines text) in
      case values of
        [line] \<Rightarrow> if kib_line name line then bindr (second_field_int line) (\<lambda>n. Inr (n * 1024))
                  else Inl (ValueError (''missing or malformed '' @ butlast name))
      | _ \<Rightarrow> Inl (ValueError (''missing or malformed '' @ butlast name)))"

definition reader_rss :: "kernel \<Rightarrow> int \<Rightarrow> ('b world_scheme, int) io" where
  "reader_rss K pid = bindi (proc_read (\<lambda>t. k_status K t pid)) (\<lambda>text. lift_res (kib_value ''VmRSS:'' text))"

definition reader_available :: "kernel \<Rightarrow> ('b world_scheme, int) io" where
  "reader_available K = bindi (proc_read (k_meminfo K)) (\<lambda>text. lift_res (kib_value ''MemAvailable:'' text))"

definition gr_same :: "'a ident_scheme option \<Rightarrow> 'b ident_scheme option \<Rightarrow> bool" where
  "gr_same a b = (case (a, b) of (Some x, Some y) \<Rightarrow> key_values x = key_values y | _ \<Rightarrow> False)"

interpretation rss_match: generation_match gr_same
  by unfold_locales (auto simp: gr_same_def split: option.splits)

text \<open>The exceptions the observer turns into evidence: \<open>(OSError, ValueError, IndexError)\<close>.\<close>

definition absorbed :: "py_error \<Rightarrow> bool" where
  "absorbed e \<longleftrightarrow> is_OSError e \<or> is_ValueError e \<or> e = IndexError"

section \<open>Scanning\<close>

fun scan_pids :: "kernel \<Rightarrow> int \<Rightarrow> int list \<Rightarrow> ident list \<Rightarrow> string list \<Rightarrow> ('b world_scheme, ident list \<times> string list) io" where
  "scan_pids K pgid [] found errors = ret (found, errors)"
| "scan_pids K pgid (pid # pids) found errors =
     bindi (attempt (reader_identity K pid)) (\<lambda>r.
       case r of
         Inl e \<Rightarrow> if absorbed e then scan_pids K pgid pids found (errors @ [''unreadable_pid:'' @ show_int pid])
                  else raise e
       | Inr None \<Rightarrow> scan_pids K pgid pids found errors
       | Inr (Some it) \<Rightarrow>
           if p_pgid it = pgid then
             (if length (found @ [it]) > MAX_MEMBERS
              then ret (take MAX_MEMBERS (found @ [it]), errors @ [''member_bound''])
              else scan_pids K pgid pids (found @ [it]) errors)
           else scan_pids K pgid pids found errors)"

definition scan :: "kernel \<Rightarrow> 'a ident_scheme \<Rightarrow> ('b world_scheme, ident list \<times> string list) io" where
  "scan K ow =
     bindi (attempt (reader_pids K)) (\<lambda>r.
       case r of
         Inl e \<Rightarrow> if is_OSError e \<or> is_ValueError e then ret ([], [''enumeration_failed'']) else raise e
       | Inr pids \<Rightarrow> scan_pids K (p_pgid ow) pids [] [])"

section \<open>Members\<close>

datatype member_status = LIVE | ZOMBIE | VANISHED | IDENTITY_CHANGED | UNREADABLE | MISSING

record member =
  m_before :: ident
  m_after :: "ident option"
  m_rss :: "int option"
  m_status :: member_status

text \<open>The verdict on a member whose reads all returned.\<close>

definition judge :: "ident \<Rightarrow> ident option \<Rightarrow> member_status \<Rightarrow> member_status" where
  "judge i after st = (case after of
      None \<Rightarrow> VANISHED
    | Some a \<Rightarrow>
        if \<not> gr_same (Some i) (Some a) then IDENTITY_CHANGED
        else if p_state a \<noteq> p_state i \<and> dead_state (p_state a) then VANISHED
        else st)"

definition member_error :: "ident \<Rightarrow> int option \<Rightarrow> py_error \<Rightarrow> ('b world_scheme, member) io" where
  "member_error i rss e =
     (if e = FileNotFoundError \<or> e = ProcessLookupError
      then ret \<lparr>m_before = i, m_after = None, m_rss = rss, m_status = VANISHED\<rparr>
      else if absorbed e then ret \<lparr>m_before = i, m_after = None, m_rss = rss, m_status = UNREADABLE\<rparr>
      else raise e)"

definition observe_member :: "kernel \<Rightarrow> ident \<Rightarrow> ('b world_scheme, member) io" where
  "observe_member K i =
     (if dead_state (p_state i) then
        bindi (attempt (reader_identity K (p_pid i))) (\<lambda>r. case r of
          Inl e \<Rightarrow> member_error i None e
        | Inr a \<Rightarrow> ret \<lparr>m_before = i, m_after = a, m_rss = None, m_status = judge i a ZOMBIE\<rparr>)
      else
        bindi (attempt (reader_rss K (p_pid i))) (\<lambda>r. case r of
          Inl e \<Rightarrow> member_error i None e
        | Inr rss \<Rightarrow>
            bindi (attempt (reader_identity K (p_pid i))) (\<lambda>r. case r of
              Inl e \<Rightarrow> member_error i (Some rss) e
            | Inr a \<Rightarrow> ret \<lparr>m_before = i, m_after = a, m_rss = Some rss, m_status = judge i a LIVE\<rparr>)))"

fun observe_members :: "kernel \<Rightarrow> ident list \<Rightarrow> ('b world_scheme, member list) io" where
  "observe_members K [] = ret []"
| "observe_members K (i # is) =
     bindi (observe_member K i) (\<lambda>m. bindi (observe_members K is) (\<lambda>ms. ret (m # ms)))"

definition undiscovered :: "ident list \<Rightarrow> ident list \<Rightarrow> member list" where
  "undiscovered before after =
     map (\<lambda>i. \<lparr>m_before = i, m_after = None, m_rss = None, m_status = MISSING\<rparr>)
       (filter (\<lambda>i. p_pid i \<notin> p_pid ` set before) after)"

section \<open>One observation\<close>

record phase_event =
  ev_kind :: string
  ev_ns :: ns
  ev_owner :: ident

record phase =
  ph_name :: string
  ph_event :: "phase_event option"

definition unknown_phase :: phase where
  "unknown_phase = \<lparr>ph_name = ''unknown'', ph_event = None\<rparr>"

record row =
  r_run_id :: string
  r_sequence :: int
  r_start :: ns
  r_end :: ns
  r_phase :: phase
  r_site :: string
  r_owner :: ident
  r_anchor_before :: "ident option"
  r_anchor_after :: "ident option"
  r_scan_before :: "ident list"
  r_scan_after :: "ident list"
  r_scan_errors :: "string list"
  r_members :: "member list"
  r_status :: sample_status
  r_rss :: "int option"
  r_available :: "int option"
  r_errors :: "string list"

definition new_row :: "ident \<Rightarrow> string \<Rightarrow> int \<Rightarrow> phase \<Rightarrow> string \<Rightarrow> ns \<Rightarrow> row" where
  "new_row ow rid seq ph site start = \<lparr>r_run_id = rid, r_sequence = seq, r_start = start, r_end = start,
     r_phase = ph, r_site = site, r_owner = ow, r_anchor_before = None, r_anchor_after = None,
     r_scan_before = [], r_scan_after = [], r_scan_errors = [], r_members = [], r_status = PARTIAL,
     r_rss = None, r_available = None, r_errors = []\<rparr>"

text \<open>
  The body of the outer \<open>try\<close>. The reads of the two anchors are the places where it can be
  interrupted: everything in between has its own handler.
\<close>

definition interrupted :: "row \<Rightarrow> row" where
  "interrupted r = r\<lparr>r_errors := r_errors r @ [''observation_interrupted'']\<rparr>"

definition observe_close :: "kernel \<Rightarrow> ident \<Rightarrow> row \<Rightarrow> ('b world_scheme, row) io" where
  "observe_close K ow r =
     bindi (attempt (reader_identity K (p_pid ow))) (\<lambda>x. case x of
       Inl e \<Rightarrow> if absorbed e then ret (interrupted r) else raise e
     | Inr a \<Rightarrow>
         (let r1 = r\<lparr>r_anchor_after := a\<rparr> in
          bindi (attempt (reader_available K)) (\<lambda>x. case x of
            Inl e \<Rightarrow> if is_OSError e \<or> is_ValueError e
                     then ret (r1\<lparr>r_errors := r_errors r1 @ [''mem_available_unreadable'']\<rparr>)
                     else if absorbed e then ret (interrupted r1) else raise e
          | Inr n \<Rightarrow> ret (r1\<lparr>r_available := Some n\<rparr>))))"

definition observe_body :: "kernel \<Rightarrow> ident \<Rightarrow> row \<Rightarrow> ('b world_scheme, row) io" where
  "observe_body K ow r =
     bindi (attempt (reader_identity K (p_pid ow))) (\<lambda>x. case x of
       Inl e \<Rightarrow> if absorbed e then ret (interrupted r) else raise e
     | Inr a \<Rightarrow>
         bindi (scan K ow) (\<lambda>(before, errors).
         bindi (observe_members K before) (\<lambda>ms.
         bindi (scan K ow) (\<lambda>(after, errors').
           observe_close K ow (r\<lparr>r_anchor_before := a, r_scan_before := before, r_scan_after := after,
             r_scan_errors := errors @ errors', r_members := ms @ undiscovered before after\<rparr>)))))"

text \<open>The verdict on the whole sample.\<close>

definition signature :: "ident list \<Rightarrow> int list list" where
  "signature xs = sort (map key_values xs)"

definition anchors :: "row \<Rightarrow> ident option list" where
  "anchors r = [r_anchor_before r, r_anchor_after r]"

definition row_invalid :: "row \<Rightarrow> bool" where
  "row_invalid r \<longleftrightarrow>
     list_ex (\<lambda>a. a \<noteq> None \<and> \<not> gr_same a (Some (r_owner r))) (anchors r) \<or>
     list_ex (\<lambda>m. p_sid (m_before m) \<noteq> p_sid (r_owner r) \<or> m_status m = IDENTITY_CHANGED) (r_members r)"

definition row_partial :: "row \<Rightarrow> bool" where
  "row_partial r \<longleftrightarrow>
     r_scan_errors r \<noteq> [] \<or> r_errors r \<noteq> [] \<or>
     signature (r_scan_before r) \<noteq> signature (r_scan_after r) \<or>
     list_ex (\<lambda>m. m_status m \<noteq> LIVE \<and> m_status m \<noteq> ZOMBIE) (r_members r) \<or>
     list_ex (\<lambda>(a, xs). a \<noteq> None \<and> \<not> list_ex (\<lambda>x. gr_same a (Some x)) xs)
       (zip (anchors r) [r_scan_before r, r_scan_after r]) \<or>
     (r_members r \<noteq> [] \<and> list_ex (\<lambda>a. a = None) (anchors r))"

definition live_rss :: "member list \<Rightarrow> int" where
  "live_rss ms = sum_list (map (\<lambda>m. case m_rss m of Some n \<Rightarrow> n | None \<Rightarrow> 0) (filter (\<lambda>m. m_status m = LIVE) ms))"

definition classify :: "row \<Rightarrow> row" where
  "classify r =
     (if row_invalid r then r\<lparr>r_status := INVALID\<rparr>
      else if row_partial r then r\<lparr>r_status := PARTIAL\<rparr>
      else if r_members r = [] \<and> list_all (\<lambda>a. a = None) (anchors r) then r\<lparr>r_status := NO_LIVE_MEMBERS\<rparr>
      else if r_members r = [] then r\<lparr>r_status := PARTIAL\<rparr>
      else if list_all (\<lambda>m. m_status m = ZOMBIE) (r_members r) then r\<lparr>r_status := ZOMBIE_ONLY\<rparr>
      else r\<lparr>r_status := COMPLETE, r_rss := Some (live_rss (r_members r))\<rparr>)"

definition observe :: "kernel \<Rightarrow> ident \<Rightarrow> string \<Rightarrow> int \<Rightarrow> phase option \<Rightarrow> string \<Rightarrow> ('b world_scheme, row) io" where
  "observe K ow rid seq ph site =
     bindi (clock K) (\<lambda>start.
     bindi (observe_body K ow (new_row ow rid seq (case ph of Some p \<Rightarrow> p | None \<Rightarrow> unknown_phase) site start)) (\<lambda>r.
     bindi (clock K) (\<lambda>end_ns. ret (classify (r\<lparr>r_end := end_ns\<rparr>)))))"

section \<open>The row as the code writes it\<close>

text \<open>The keys are listed in sorted order, as \<open>json.dumps(..., sort_keys=True)\<close> writes them.\<close>

definition owner_json :: "'a ident_scheme \<Rightarrow> json" where
  "owner_json i = JObj [(''pgid'', JInt (p_pgid i)), (''pid'', JInt (p_pid i)), (''sid'', JInt (p_sid i)),
     (''start_ticks'', JInt (p_ticks i))]"

definition ident_json :: "ident \<Rightarrow> json" where
  "ident_json i = JObj [(''pgid'', JInt (p_pgid i)), (''pid'', JInt (p_pid i)), (''sid'', JInt (p_sid i)),
     (''start_ticks'', JInt (p_ticks i)), (''state'', JStr (p_state i))]"

definition opt_json :: "('a \<Rightarrow> json) \<Rightarrow> 'a option \<Rightarrow> json" where
  "opt_json f x = (case x of Some y \<Rightarrow> f y | None \<Rightarrow> JNull)"

fun member_status_name :: "member_status \<Rightarrow> string" where
  "member_status_name LIVE = ''LIVE''"
| "member_status_name ZOMBIE = ''ZOMBIE''"
| "member_status_name VANISHED = ''VANISHED''"
| "member_status_name IDENTITY_CHANGED = ''IDENTITY_CHANGED''"
| "member_status_name UNREADABLE = ''UNREADABLE''"
| "member_status_name MISSING = ''MISSING''"

definition member_json :: "member \<Rightarrow> json" where
  "member_json m = JObj [(''after'', opt_json ident_json (m_after m)), (''before'', ident_json (m_before m)),
     (''rss_bytes'', opt_json JInt (m_rss m)), (''status'', JStr (member_status_name (m_status m)))]"

definition event_json :: "phase_event \<Rightarrow> json" where
  "event_json e = JObj [(''kind'', JStr (ev_kind e)), (''monotonic_ns'', JInt (ev_ns e)), (''owner'', owner_json (ev_owner e))]"

definition phase_json :: "phase \<Rightarrow> json" where
  "phase_json p = JObj [(''event'', opt_json event_json (ph_event p)), (''name'', JStr (ph_name p))]"

definition row_json :: "row \<Rightarrow> json" where
  "row_json r = JObj [
     (''anchor_after'', opt_json ident_json (r_anchor_after r)),
     (''anchor_before'', opt_json ident_json (r_anchor_before r)),
     (''end_ns'', JInt (r_end r)),
     (''group_rss_bytes'', opt_json JInt (r_rss r)),
     (''mem_available_bytes'', opt_json JInt (r_available r)),
     (''members'', JArr (map member_json (r_members r))),
     (''membership_scan_status'', JStr (if r_scan_errors r \<noteq> [] then ''partial'' else ''complete'')),
     (''owner'', owner_json (r_owner r)),
     (''phase'', phase_json (r_phase r)),
     (''run_id'', JStr (r_run_id r)),
     (''sample_status'', JStr (status_name (r_status r))),
     (''sampling_errors'', JArr (map JStr (r_errors r))),
     (''scan_after'', JArr (map ident_json (r_scan_after r))),
     (''scan_before'', JArr (map ident_json (r_scan_before r))),
     (''scan_errors'', JArr (map JStr (r_scan_errors r))),
     (''schema_version'', JInt VERSION),
     (''sequence'', JInt (r_sequence r)),
     (''site'', JStr (r_site r)),
     (''start_ns'', JInt (r_start r))]"

section \<open>The recorder\<close>

record phase_stat =
  ps_samples :: nat
  ps_complete :: nat
  ps_peak :: "int option"

record recorder =
  rc_run_id :: string
  rc_max_bytes :: nat
  rc_max_samples :: nat
  rc_stream :: string
  rc_bytes :: nat
  rc_count :: nat
  rc_error :: "string option"
  rc_statuses :: "sample_status \<Rightarrow> nat"
  rc_phases :: "string \<Rightarrow> phase_stat"
  rc_monitor_peak :: "int option"
  rc_last_end :: "ns option"
  rc_max_gap :: "ns option"

definition no_samples :: phase_stat where
  "no_samples = \<lparr>ps_samples = 0, ps_complete = 0, ps_peak = None\<rparr>"

definition new_recorder :: "string \<Rightarrow> nat \<Rightarrow> nat \<Rightarrow> recorder" where
  "new_recorder rid max_bytes max_samples = \<lparr>rc_run_id = rid, rc_max_bytes = min max_bytes MAX_STREAM_BYTES,
     rc_max_samples = min max_samples MAX_SAMPLES, rc_stream = [], rc_bytes = 0, rc_count = 0, rc_error = None,
     rc_statuses = (\<lambda>_. 0), rc_phases = (\<lambda>_. no_samples), rc_monitor_peak = None, rc_last_end = None,
     rc_max_gap = None\<rparr>"

definition or_zero :: "int option \<Rightarrow> int" where
  "or_zero x = (case x of Some n \<Rightarrow> n | None \<Rightarrow> 0)"

text \<open>The refusals of \<open>append\<close>.\<close>

definition over_bound :: "recorder \<Rightarrow> row \<Rightarrow> bool" where
  "over_bound rc r \<longleftrightarrow> rc_error rc \<noteq> None \<or> length (r_members r) > MAX_MEMBERS \<or>
     length (jsonl (row_json r)) > MAX_RECORD_BYTES \<or>
     rc_bytes rc + length (jsonl (row_json r)) > rc_max_bytes rc \<or> rc_count rc \<ge> rc_max_samples rc"

definition storage_failure :: "py_error \<Rightarrow> string" where
  "storage_failure e = ''storage_failure:'' @ error_type e"

text \<open>What a stored row adds to the aggregates.\<close>

definition tally_phase :: "row \<Rightarrow> phase_stat \<Rightarrow> phase_stat" where
  "tally_phase r p =
     (let p1 = p\<lparr>ps_samples := Suc (ps_samples p)\<rparr> in
      if r_status r = COMPLETE
      then p1\<lparr>ps_complete := Suc (ps_complete p1), ps_peak := Some (max (or_zero (ps_peak p1)) (or_zero (r_rss r)))\<rparr>
      else p1)"

definition tally :: "row \<Rightarrow> recorder \<Rightarrow> recorder" where
  "tally r rc = rc\<lparr>
     rc_phases := (rc_phases rc)(ph_name (r_phase r) := tally_phase r (rc_phases rc (ph_name (r_phase r)))),
     rc_monitor_peak := (if r_status r = COMPLETE \<and> r_site r = ''runner_monitor''
        then Some (max (or_zero (rc_monitor_peak rc)) (or_zero (r_rss r))) else rc_monitor_peak rc),
     rc_max_gap := (case rc_last_end rc of None \<Rightarrow> rc_max_gap rc
        | Some t \<Rightarrow> Some (max (or_zero (rc_max_gap rc)) (r_start r - t))),
     rc_last_end := Some (r_end r)\<rparr>"

text \<open>
  \<open>append\<close>; \<open>out\<close> is what the write and the flush of the line returned. A phase that is not one
  of the four names raises after the line was stored.
\<close>

definition append_row :: "unit res \<Rightarrow> row \<Rightarrow> recorder \<Rightarrow> recorder \<times> unit res" where
  "append_row out r rc =
     (let data = jsonl (row_json r) in
      case (if over_bound rc r then Inl (EvidenceError ''raw evidence storage bound'') else out) of
        Inl e \<Rightarrow>
          if is_OSError e \<or> is_ValueError e
          then (rc\<lparr>rc_error := Some (storage_failure e)\<rparr>, Inl (EvidenceError (storage_failure e)))
          else (rc, Inl e)
      | Inr u \<Rightarrow>
          let rc1 = rc\<lparr>rc_stream := rc_stream rc @ data, rc_bytes := rc_bytes rc + length data,
                rc_count := Suc (rc_count rc),
                rc_statuses := (rc_statuses rc)(r_status r := Suc (rc_statuses rc (r_status r)))\<rparr> in
          if ph_name (r_phase r) \<notin> set PHASES then (rc1, Inl KeyError) else (tally r rc1, Inr ()))"

definition phase_stat_json :: "phase_stat \<Rightarrow> json" where
  "phase_stat_json p = JObj [(''samples'', JInt (int (ps_samples p))), (''complete'', JInt (int (ps_complete p))),
     (''peak_bytes'', opt_json JInt (ps_peak p))]"

fun max_opt :: "int option list \<Rightarrow> int option" where
  "max_opt [] = None"
| "max_opt (None # xs) = max_opt xs"
| "max_opt (Some x # xs) = (case max_opt xs of None \<Rightarrow> Some x | Some y \<Rightarrow> Some (max x y))"

definition coverage_text :: "phase_stat \<Rightarrow> string" where
  "coverage_text p = (if ps_samples p = 0 then ''unobserved''
     else if ps_samples p = ps_complete p then ''all_samples_complete_not_lifetime_peak'' else ''partial'')"

text \<open>
  The part of the summary that the auditor derives again from the raw stream, as a function of
  the stream and the aggregates.
\<close>

definition derived_json :: "(string \<Rightarrow> string) \<Rightarrow> string \<Rightarrow> nat \<Rightarrow> nat \<Rightarrow> (sample_status \<Rightarrow> nat) \<Rightarrow> (string \<Rightarrow> phase_stat) \<Rightarrow>
    int option \<Rightarrow> ns option \<Rightarrow> (string \<times> json) list" where
  "derived_json sha data sz n statuses phases monitor gap =
     [(''raw'', JObj [(''bytes'', JInt (int sz)), (''sha256'', JStr (sha data))]),
      (''samples'', JInt (int n)),
      (''status_counts'', JObj (map (\<lambda>s. (status_name s, JInt (int (statuses s)))) STATUSES)),
      (''phases'', JObj (map (\<lambda>p. (p, phase_stat_json (phases p))) PHASES)),
      (''runner_monitor_peak_bytes'', opt_json JInt monitor), (''max_gap_ns'', opt_json JInt gap),
      (''complete_sample_peak_bytes'', opt_json JInt (max_opt (map (\<lambda>p. ps_peak (phases p)) PHASES))),
      (''workload_coverage'', JStr (coverage_text (phases ''workload''))),
      (''actual_lifetime_peak_bytes'', JNull)]"

definition close_recorder :: "(string \<Rightarrow> string) \<Rightarrow> unit res \<Rightarrow> int option \<Rightarrow> recorder \<Rightarrow> (recorder \<times> json) res" where
  "close_recorder sha out legacy rc =
     (case (case out of Inr u \<Rightarrow> Inr rc
            | Inl e \<Rightarrow> if is_OSError e then Inr (rc\<lparr>rc_error := Some ''storage_failure:close''\<rparr>) else Inl e) of
        Inl e \<Rightarrow> Inl e
      | Inr rc1 \<Rightarrow> Inr (rc1, JObj ([(''contract'', JStr CONTRACT), (''schema_version'', JInt VERSION), (''run_id'', JStr (rc_run_id rc1)),
          (''legacy_runner_peak_bytes'', opt_json JInt legacy), (''storage_complete'', JBool (rc_error rc1 = None)),
          (''storage_error'', opt_json JStr (rc_error rc1))] @
          derived_json sha (rc_stream rc1) (rc_bytes rc1) (rc_count rc1) (rc_statuses rc1) (rc_phases rc1)
            (rc_monitor_peak rc1) (rc_max_gap rc1))))"

section \<open>What an observation shows\<close>

definition member_ok :: "member \<Rightarrow> bool" where
  "member_ok m \<longleftrightarrow>
     (m_status m = LIVE \<longrightarrow> \<not> dead_state (p_state (m_before m)) \<and> m_rss m \<noteq> None \<and>
        (\<exists>a. m_after m = Some a \<and> key_values a = key_values (m_before m) \<and> \<not> dead_state (p_state a))) \<and>
     (m_status m = ZOMBIE \<longrightarrow> dead_state (p_state (m_before m)) \<and> m_rss m = None \<and>
        (\<exists>a. m_after m = Some a \<and> key_values a = key_values (m_before m)))"

lemma judge_LIVE: "judge i a LIVE = LIVE \<Longrightarrow> \<not> dead_state (p_state i) \<Longrightarrow>
    \<exists>x. a = Some x \<and> key_values x = key_values i \<and> \<not> dead_state (p_state x)"
  by (auto simp: judge_def gr_same_def split: option.splits if_splits)

lemma judge_ZOMBIE: "judge i a ZOMBIE = ZOMBIE \<Longrightarrow> \<exists>x. a = Some x \<and> key_values x = key_values i"
  by (auto simp: judge_def gr_same_def split: option.splits if_splits)

lemma judge_other: "judge i a st = st' \<Longrightarrow> st' = st \<or> st' = VANISHED \<or> st' = IDENTITY_CHANGED"
  by (auto simp: judge_def split: option.splits if_splits)

lemma observe_member_returns: "returns (\<lambda>m. m_before m = i \<and> member_ok m) (observe_member K i)"
proof -
  have err: "returns (\<lambda>m. m_before m = i \<and> member_ok m) (member_error i rss e)" for rss e
    unfolding member_error_def by (auto intro!: returns_intros simp: member_ok_def)
  have z: "member_ok \<lparr>m_before = i, m_after = a, m_rss = None, m_status = judge i a ZOMBIE\<rparr>" if "dead_state (p_state i)" for a
    using that judge_ZOMBIE judge_other [of i a ZOMBIE LIVE] by (auto simp: member_ok_def)
  have l: "member_ok \<lparr>m_before = i, m_after = a, m_rss = Some n, m_status = judge i a LIVE\<rparr>" if "\<not> dead_state (p_state i)" for a n
    using that judge_LIVE judge_other [of i a LIVE ZOMBIE] by (auto simp: member_ok_def)
  show ?thesis
    unfolding observe_member_def
    by (auto intro!: returns_bindi [OF returns_any] returns_intros err z l split: sum.split)
qed

lemma observe_members_returns:
  "returns (\<lambda>ms. map m_before ms = is \<and> list_all member_ok ms) (observe_members K is)"
  by (induction "is") (auto intro!: returns_intros returns_bindi [OF observe_member_returns] returns_bindi)

definition scan_ok :: "int \<Rightarrow> ident list \<times> string list \<Rightarrow> bool" where
  "scan_ok pgid x \<longleftrightarrow> length (fst x) \<le> MAX_MEMBERS \<and> (\<forall>i \<in> set (fst x). p_pgid i = pgid)"

lemma scan_pids_returns:
  "scan_ok pgid (found, errors) \<Longrightarrow> returns (scan_ok pgid) (scan_pids K pgid pids found errors)"
proof (induction pids arbitrary: found errors)
  case Nil
  then show ?case by (simp add: returns_intros)
next
  case (Cons pid pids)
  then show ?case
    by (auto intro!: returns_bindi [OF returns_any] returns_intros split: sum.split option.split
        simp: scan_ok_def dest: in_set_takeD)
qed

lemma scan_returns: "returns (scan_ok (p_pgid ow)) (scan K ow)"
  unfolding scan_def
  by (rule returns_bindi [OF returns_any])
    (auto intro!: returns_intros scan_pids_returns split: sum.split simp: scan_ok_def)

text \<open>What holds of every row, however the reads went.\<close>

definition row_ok :: "row \<Rightarrow> bool" where
  "row_ok r \<longleftrightarrow>
     map m_before (r_members r) = r_scan_before r @ filter (\<lambda>i. p_pid i \<notin> p_pid ` set (r_scan_before r)) (r_scan_after r) \<and>
     list_all member_ok (r_members r) \<and>
     length (r_scan_before r) \<le> MAX_MEMBERS \<and> length (r_scan_after r) \<le> MAX_MEMBERS \<and>
     (\<forall>i \<in> set (r_scan_before r @ r_scan_after r). p_pgid i = p_pgid (r_owner r)) \<and>
     (r_available r = None \<longrightarrow> r_errors r \<noteq> [])"

definition row_open :: "row \<Rightarrow> bool" where
  "row_open r \<longleftrightarrow> row_ok (r\<lparr>r_available := Some 0\<rparr>) \<and> r_rss r = None \<and> r_available r = None"

lemma observe_close_returns: "row_open r \<Longrightarrow> returns (\<lambda>r'. row_ok r' \<and> r_rss r' = None \<and> r_owner r' = r_owner r) (observe_close K ow r)"
  unfolding observe_close_def Let_def interrupted_def
  by (rule returns_bindi [OF returns_any])
    (auto intro!: returns_bindi [OF returns_any] returns_intros split: sum.split simp: row_open_def row_ok_def)

lemma undiscovered_ok: "map m_before (undiscovered b a) = filter (\<lambda>i. p_pid i \<notin> p_pid ` set b) a"
    "list_all member_ok (undiscovered b a)"
  by (auto simp: undiscovered_def member_ok_def list_all_iff o_def)

lemma observe_body_returns:
  "returns (\<lambda>r'. row_ok r' \<and> r_rss r' = None \<and> r_owner r' = ow) (observe_body K ow (new_row ow rid seq ph site start))"
proof -
  let ?r = "new_row ow rid seq ph site start" and ?Q = "\<lambda>r'. row_ok r' \<and> r_rss r' = None \<and> r_owner r' = ow"
  have stop: "?Q (interrupted ?r)" by (simp add: interrupted_def new_row_def row_ok_def)
  have close: "returns ?Q (observe_close K ow (?r\<lparr>r_anchor_before := a, r_scan_before := fst b, r_scan_after := fst c,
      r_scan_errors := es, r_members := ms @ undiscovered (fst b) (fst c)\<rparr>))"
    if "scan_ok (p_pgid ow) b" "scan_ok (p_pgid ow) c" "map m_before ms = fst b \<and> list_all member_ok ms"
    for a b c es ms
    by (rule returns_weaken [OF observe_close_returns])
      (use that in \<open>auto simp: row_open_def row_ok_def new_row_def scan_ok_def undiscovered_ok\<close>)
  have body: "returns ?Q (bindi (scan K ow) (\<lambda>(before, errors).
         bindi (observe_members K before) (\<lambda>ms.
         bindi (scan K ow) (\<lambda>(after, errors').
           observe_close K ow (?r\<lparr>r_anchor_before := a, r_scan_before := before, r_scan_after := after,
             r_scan_errors := errors @ errors', r_members := ms @ undiscovered before after\<rparr>)))))" for a
    unfolding case_prod_beta
    by (rule returns_bindi [OF scan_returns], rule returns_bindi [OF observe_members_returns],
        rule returns_bindi [OF scan_returns], rule close) simp_all
  show ?thesis
    unfolding observe_body_def
    by (rule returns_bindi [OF returns_any]) (auto intro!: returns_intros stop body split: sum.split)
qed

lemma classify_keeps:
  "r_members (classify r) = r_members r" "r_scan_before (classify r) = r_scan_before r"
  "r_scan_after (classify r) = r_scan_after r" "r_owner (classify r) = r_owner r"
  "r_scan_errors (classify r) = r_scan_errors r" "r_errors (classify r) = r_errors r"
  "r_anchor_before (classify r) = r_anchor_before r" "r_anchor_after (classify r) = r_anchor_after r"
  "r_available (classify r) = r_available r"
  by (simp_all add: classify_def)

text \<open>The rows that \<open>observe\<close> returns: well-formed, and with the verdict of \<open>classify\<close>.\<close>

definition observed :: "ident \<Rightarrow> row \<Rightarrow> bool" where
  "observed ow r \<longleftrightarrow> row_ok r \<and> r_owner r = ow \<and> (\<exists>r0. r = classify r0 \<and> r_rss r0 = None \<and> row_ok r0)"

lemma observe_returns: "returns (observed ow) (observe K ow rid seq ph site)"
proof -
  have "observed ow (classify (r\<lparr>r_end := t\<rparr>))" if "row_ok r \<and> r_rss r = None \<and> r_owner r = ow" for r t
    using that unfolding observed_def
    by (intro conjI exI [of _ "r\<lparr>r_end := t\<rparr>"]) (auto simp: row_ok_def classify_keeps)
  then show ?thesis
    unfolding observe_def
    by (intro returns_bindi [OF returns_any] returns_bindi [OF observe_body_returns] returns_intros) auto
qed

text \<open>The meaning of a \<open>COMPLETE\<close> sample.\<close>

definition complete_sample :: "row \<Rightarrow> bool" where
  "complete_sample r \<longleftrightarrow>
     r_rss r = Some (live_rss (r_members r)) \<and> r_members r \<noteq> [] \<and> r_scan_errors r = [] \<and> r_errors r = [] \<and>
     (\<exists>n. r_available r = Some n) \<and>
     (\<exists>a b. r_anchor_before r = Some a \<and> r_anchor_after r = Some b \<and>
        key_values a = key_values (r_owner r) \<and> key_values b = key_values (r_owner r)) \<and>
     mset (map key_values (r_scan_before r)) = mset (map key_values (r_scan_after r)) \<and>
     map m_before (r_members r) = r_scan_before r \<and>
     (\<forall>m \<in> set (r_members r). p_pgid (m_before m) = p_pgid (r_owner r) \<and> p_sid (m_before m) = p_sid (r_owner r) \<and>
        m_status m \<in> {LIVE, ZOMBIE} \<and> member_ok m) \<and>
     (\<exists>m \<in> set (r_members r). m_status m = LIVE)"

lemma signature_mset: "signature a = signature b \<Longrightarrow> mset (map key_values a) = mset (map key_values b)"
  unfolding signature_def by (metis mset_sort)

lemma signature_pids: "signature a = signature b \<Longrightarrow> p_pid ` set a = p_pid ` set b"
proof -
  assume "signature a = signature b"
  then have "set (map key_values a) = set (map key_values b)" by (metis signature_mset mset_eq_setD)
  then have "hd ` (key_values ` set a) = hd ` (key_values ` set b)" by simp
  then show ?thesis by (simp add: image_image key_values_def)
qed

lemma classify_COMPLETE:
  assumes "r_status (classify r) = COMPLETE"
  shows "\<not> row_invalid r \<and> \<not> row_partial r \<and> r_members r \<noteq> [] \<and> r_rss (classify r) = Some (live_rss (r_members r)) \<and>
     (\<exists>m \<in> set (r_members r). m_status m \<noteq> ZOMBIE)"
  using assms by (auto simp: classify_def list_all_iff split: if_splits)

lemma complete_is_complete:
  assumes "observed ow r" "r_status r = COMPLETE"
  shows "complete_sample r"
proof -
  obtain r0 where r: "r = classify r0" and ok: "row_ok r0" using assms(1) by (auto simp: observed_def)
  note c = classify_COMPLETE [OF assms(2) [unfolded r]]
  have np: "\<not> row_partial r0" "\<not> row_invalid r0" and ne: "r_members r0 \<noteq> []" using c by auto
  have sig: "signature (r_scan_before r0) = signature (r_scan_after r0)" using np by (simp add: row_partial_def)
  then have "filter (\<lambda>i. p_pid i \<notin> p_pid ` set (r_scan_before r0)) (r_scan_after r0) = []"
    using signature_pids [OF sig] by (auto simp: filter_empty_conv)
  then have before: "map m_before (r_members r0) = r_scan_before r0" using ok by (simp add: row_ok_def)
  have anchors: "\<exists>a. x = Some a \<and> key_values a = key_values (r_owner r0)"
    if "x \<in> set (anchors r0)" for x
  proof -
    have "None \<notin> set (anchors r0)" "x = None \<or> gr_same x (Some (r_owner r0))"
      using np ne that by (auto simp: row_partial_def row_invalid_def list_ex_iff)
    with that have "gr_same x (Some (r_owner r0))" by metis
    then show ?thesis by (cases x) (auto simp: gr_same_def)
  qed
  have mem: "p_pgid (m_before m) = p_pgid (r_owner r0)" if "m \<in> set (r_members r0)" for m
    using that before ok by (metis (no_types, lifting) Un_iff image_eqI list.set_map row_ok_def set_append)
  have st: "m_status m \<in> {LIVE, ZOMBIE} \<and> member_ok m \<and> p_sid (m_before m) = p_sid (r_owner r0)" if "m \<in> set (r_members r0)" for m
    using that np ok by (auto simp: row_partial_def row_invalid_def row_ok_def list_ex_iff list_all_iff)
  have av: "\<exists>n. r_available r0 = Some n" using np ok by (auto simp: row_partial_def row_ok_def)
  show ?thesis
    unfolding complete_sample_def r classify_keeps
    using c before anchors [of "r_anchor_before r0"] anchors [of "r_anchor_after r0"] mem st av np signature_mset [OF sig]
    by (auto simp: anchors_def row_partial_def)
qed

section \<open>The recorder's invariant\<close>

text \<open>
  The recorder describes exactly the rows it stored: the stream is their JSON lines, the counters
  count them, and no bound is passed.
\<close>

definition holds_rows :: "row list \<Rightarrow> recorder \<Rightarrow> bool" where
  "holds_rows rows rc \<longleftrightarrow>
     rc_stream rc = concat (map (\<lambda>r. jsonl (row_json r)) rows) \<and> rc_bytes rc = length (rc_stream rc) \<and>
     rc_count rc = length rows \<and> rc_statuses rc = (\<lambda>s. length (filter (\<lambda>r. r_status r = s) rows)) \<and>
     rc_bytes rc \<le> rc_max_bytes rc \<and> rc_count rc \<le> rc_max_samples rc \<and>
     rc_max_bytes rc \<le> MAX_STREAM_BYTES \<and> rc_max_samples rc \<le> MAX_SAMPLES \<and>
     (\<forall>r \<in> set rows. length (jsonl (row_json r)) \<le> MAX_RECORD_BYTES \<and> length (r_members r) \<le> MAX_MEMBERS)"

lemma holds_new: "holds_rows [] (new_recorder rid mb ms)"
  by (simp add: holds_rows_def new_recorder_def)

lemma tally_keeps:
  "rc_stream (tally r rc) = rc_stream rc" "rc_bytes (tally r rc) = rc_bytes rc" "rc_count (tally r rc) = rc_count rc"
  "rc_statuses (tally r rc) = rc_statuses rc" "rc_max_bytes (tally r rc) = rc_max_bytes rc"
  "rc_max_samples (tally r rc) = rc_max_samples rc" "rc_error (tally r rc) = rc_error rc" "rc_run_id (tally r rc) = rc_run_id rc"
  by (simp_all add: tally_def)

lemma tally_holds [simp]: "holds_rows rows (tally r rc) = holds_rows rows rc"
  by (simp only: holds_rows_def tally_keeps)

lemma append_row_cases:
  obtains e where "append_row out r rc = (rc\<lparr>rc_error := Some e\<rparr>, Inl (EvidenceError e))"
  | e where "append_row out r rc = (rc, Inl e)" "rc_error rc = None" "out = Inl e"
  | rc1 where "\<not> over_bound rc r" "out = Inr ()"
      "rc1 = rc\<lparr>rc_stream := rc_stream rc @ jsonl (row_json r), rc_bytes := rc_bytes rc + length (jsonl (row_json r)),
        rc_count := Suc (rc_count rc), rc_statuses := (rc_statuses rc)(r_status r := Suc (rc_statuses rc (r_status r)))\<rparr>"
      "append_row out r rc = (if ph_name (r_phase r) \<notin> set PHASES then (rc1, Inl KeyError) else (tally r rc1, Inr ()))"
proof (cases "over_bound rc r")
  case True
  then show thesis by (intro that(1)) (simp add: append_row_def Let_def)
next
  case False
  show thesis
  proof (cases out)
    case (Inl e)
    show thesis
    proof (cases "is_OSError e \<or> is_ValueError e")
      case True
      then show thesis using that(1) False Inl by (simp add: append_row_def Let_def)
    next
      case no: False
      show thesis
        by (rule that(2) [of e]) (use no False Inl in \<open>simp_all add: append_row_def Let_def over_bound_def\<close>)
    qed
  next
    case (Inr u)
    then show thesis using that(3) False by (simp add: append_row_def Let_def)
  qed
qed

lemma append_holds:
  assumes "holds_rows rows rc"
  shows "holds_rows rows (fst (append_row out r rc)) \<or> holds_rows (rows @ [r]) (fst (append_row out r rc))"
proof (cases rule: append_row_cases [of out r rc])
  case (3 rc1)
  then have "holds_rows (rows @ [r]) rc1"
    using assms by (auto simp: holds_rows_def over_bound_def fun_eq_iff)
  then show ?thesis using 3(4) by simp
qed (use assms in \<open>auto simp: holds_rows_def\<close>)

lemma append_Inr:
  assumes "append_row out r rc = (rc', Inr ())" and "holds_rows rows rc"
  shows "holds_rows (rows @ [r]) rc' \<and> rc_error rc' = None \<and> ph_name (r_phase r) \<in> set PHASES"
proof (cases rule: append_row_cases [of out r rc])
  case (3 rc1)
  then have "holds_rows (rows @ [r]) rc1" "rc_error rc1 = None"
    using assms(2) by (auto simp: holds_rows_def over_bound_def fun_eq_iff)
  with 3(4) assms(1) show ?thesis by (auto simp: tally_keeps split: if_splits)
qed (use assms in auto)

interpretation recorder_latch: fail_closed "\<lambda>(out, r). append_row out r" "\<lambda>rc. rc_error rc \<noteq> None"
  "\<lambda>rc. (rc_stream rc, rc_count rc, rc_statuses rc, rc_phases rc, rc_monitor_peak rc)"
proof unfold_locales
  fix s :: recorder and i :: "unit res \<times> row"
  assume "rc_error s \<noteq> None"
  then have *: "append_row (fst i) (snd i) s = (s\<lparr>rc_error := Some (storage_failure (EvidenceError []))\<rparr>,
      Inl (EvidenceError (storage_failure (EvidenceError []))))"
    by (simp add: append_row_def over_bound_def storage_failure_def)
  show "\<exists>e. snd ((case i of (out, r) \<Rightarrow> append_row out r) s) = Inl e" using * by (simp add: case_prod_beta)
  show "rc_error (fst ((case i of (out, r) \<Rightarrow> append_row out r) s)) \<noteq> None" using * by (simp add: case_prod_beta)
  let ?s = "fst ((case i of (out, r) \<Rightarrow> append_row out r) s)"
  show "(rc_stream ?s, rc_count ?s, rc_statuses ?s, rc_phases ?s, rc_monitor_peak ?s) =
      (rc_stream s, rc_count s, rc_statuses s, rc_phases s, rc_monitor_peak s)" using * by (simp add: case_prod_beta)
qed

text \<open>The states a recorder reaches.\<close>

primrec record_all :: "(unit res \<times> row) list \<Rightarrow> recorder \<Rightarrow> recorder" where
  "record_all [] rc = rc"
| "record_all (x # xs) rc = record_all xs (fst (append_row (fst x) (snd x) rc))"

lemma record_all_steps: "record_all xs rc = recorder_latch.steps xs rc"
  by (induction xs arbitrary: rc) (simp_all add: case_prod_beta)

lemma record_all_holds:
  assumes "holds_rows rows rc"
  shows "\<exists>rows'. subseq rows' (map snd xs) \<and> holds_rows (rows @ rows') (record_all xs rc)"
  using assms
proof (induction xs arbitrary: rows rc)
  case Nil
  then show ?case by (intro exI [of _ Nil]) simp
next
  case (Cons x xs)
  let ?rc = "fst (append_row (fst x) (snd x) rc)"
  from append_holds [OF Cons.prems] consider "holds_rows rows ?rc" | "holds_rows (rows @ [snd x]) ?rc" by blast
  then show ?case
  proof cases
    case 1
    then show ?thesis using Cons.IH [OF 1] by (auto intro: list_emb_Cons)
  next
    case 2
    then obtain ys where "subseq ys (map snd xs)" "holds_rows ((rows @ [snd x]) @ ys) (record_all xs ?rc)"
      using Cons.IH [OF 2] by blast
    then show ?thesis by (intro exI [of _ "snd x # ys"]) auto
  qed
qed

section \<open>The example host, observed\<close>

definition example_ident :: "string \<Rightarrow> ident" where
  "example_ident st = \<lparr>p_pid = 100, p_state = st, p_pgid = 100, p_sid = 100, p_ticks = 77\<rparr>"

lemma example_parse_ident: "st \<in> {''S'', ''Z''} \<Longrightarrow> parse_ident 100 (stat_line st) = Inr (example_ident st)"
  by (auto simp: parse_ident_def example_fields nth_res_def example_numbers example_ident_def numeral_eq_Suc)

lemma example_texts:
  "proc_text (stat_line ''S'') = Inr (stat_line ''S'')" "proc_text (stat_line ''Z'') = Inr (stat_line ''Z'')"
  "proc_text ''VmRSS:  512 kB'' = Inr ''VmRSS:  512 kB''" "proc_text ''MemAvailable: 4000000 kB'' = Inr ''MemAvailable: 4000000 kB''"
  by (simp_all add: proc_text_def stat_line_def)

lemma example_rss_value: "kib_value ''VmRSS:'' ''VmRSS:  512 kB'' = Inr 524288"
proof -
  have "str_splitlines ''VmRSS:  512 kB'' = [''VmRSS:  512 kB'']" "py_startswith ''VmRSS:  512 kB'' ''VmRSS:''"
    "kib_line ''VmRSS:'' ''VmRSS:  512 kB''" "second_field_int ''VmRSS:  512 kB'' = Inr 512" by code_simp+
  then show ?thesis by (simp add: kib_value_def)
qed

lemma example_available_value: "kib_value ''MemAvailable:'' ''MemAvailable: 4000000 kB'' = Inr 4096000000"
proof -
  have words: "str_splitlines ''MemAvailable: 4000000 kB'' = [''MemAvailable: 4000000 kB'']"
    "py_startswith ''MemAvailable: 4000000 kB'' ''MemAvailable:''" "kib_line ''MemAvailable:'' ''MemAvailable: 4000000 kB''"
    by code_simp+
  moreover from this have "second_field_int ''MemAvailable: 4000000 kB'' = Inr 4000000"
    using example_available by simp
  ultimately show ?thesis by (simp add: kib_value_def)
qed

lemma example_reader:
  "reader_identity example_host 100 w =
     Some (Inr (Some (example_ident (if tick w < 8 then ''S'' else ''Z''))), w\<lparr>tick := Suc (tick w)\<rparr>)"
  "reader_rss example_host 100 w = Some (Inr 524288, w\<lparr>tick := Suc (tick w)\<rparr>)"
  "reader_available example_host w = Some (Inr 4096000000, w\<lparr>tick := Suc (tick w)\<rparr>)"
  "reader_pids example_host w = Some (Inr [100], w\<lparr>tick := Suc (tick w)\<rparr>)"
  by (simp_all add: reader_identity_def reader_rss_def reader_available_def reader_pids_def proc_read_def run_steps
      example_kernel example_texts example_parse_ident example_rss_value example_available_value example_numbers
      MAX_PROC_ENTRIES_def)

definition example_row :: "string \<Rightarrow> row" where
  "example_row rid = \<lparr>r_run_id = rid, r_sequence = 0, r_start = 0, r_end = 10, r_phase = unknown_phase, r_site = ''runner_monitor'',
     r_owner = example_ident ''S'', r_anchor_before = Some (example_ident ''S''), r_anchor_after = Some (example_ident ''Z''),
     r_scan_before = [example_ident ''S''], r_scan_after = [example_ident ''S''], r_scan_errors = [],
     r_members = [\<lparr>m_before = example_ident ''S'', m_after = Some (example_ident ''S''), m_rss = Some 524288, m_status = LIVE\<rparr>],
     r_status = COMPLETE, r_rss = Some 524288, r_available = Some 4096000000, r_errors = []\<rparr>"

lemma example_observe:
  "observe example_host (example_ident ''S'') rid 0 None ''runner_monitor'' fresh = Some (Inr (example_row rid), fresh\<lparr>tick := 11\<rparr>)"
  by (simp add: example_row_def observe_def observe_body_def observe_close_def scan_def observe_member_def run_steps example_reader example_kernel
      fresh_def new_row_def example_ident_def dead_state_def judge_def gr_same_def key_values_def undiscovered_def
      classify_def row_invalid_def row_partial_def anchors_def signature_def live_rss_def MAX_MEMBERS_def Let_def)

section \<open>Properties\<close>

text \<open>
  C10: a sample that the observer calls \<open>COMPLETE\<close> is one: both scans and both reads of the leader
  succeeded and agree, every member of either scan is in the owner's group and session and was
  read as live (same identity before and after, with an RSS) or as a zombie, at least one is
  live, and the reported total is the sum over the live members.
\<close>

theorem observe_complete:
  assumes "observe K ow rid seq ph site w = Some (Inr r, w')" and "r_status r = COMPLETE"
  shows "complete_sample r \<and> r_owner r = ow"
  using complete_is_complete [OF returnsD [OF observe_returns assms(1)] assms(2)] returnsD [OF observe_returns assms(1)]
  by (simp add: observed_def)

theorem observe_complete_witness:
  "\<exists>r w'. observe example_host (example_ident ''S'') ''r'' 0 None ''runner_monitor'' fresh = Some (Inr r, w') \<and>
     complete_sample r \<and> r_rss r = Some 524288"
  using observe_complete [OF example_observe] by (simp add: example_observe example_row_def)


text \<open>
  The first storage failure is final: every later append is refused, and the stream and the
  aggregates stay as they were.
\<close>

theorem recorder_fails_closed:
  assumes "rc_error rc \<noteq> None"
  shows "rc_error (record_all xs rc) \<noteq> None \<and> rc_stream (record_all xs rc) = rc_stream rc \<and>
    rc_statuses (record_all xs rc) = rc_statuses rc \<and> (\<exists>e. snd (append_row out r (record_all xs rc)) = Inl e)"
  using recorder_latch.steps_after_failure [OF assms, of xs] recorder_latch.no_recovery [OF assms, of "(out, r)" xs]
  by (simp add: record_all_steps)

theorem recorder_fails_closed_witness:
  "rc_stream (record_all [(Inr (), new_row (example_ident []) [] 0 unknown_phase [] 0)] ((new_recorder [] 0 0)\<lparr>rc_error := Some ''storage_failure:OSError''\<rparr>)) = []"
  using recorder_fails_closed [of "(new_recorder [] 0 0)\<lparr>rc_error := Some ''storage_failure:OSError''\<rparr>" "[(Inr (), new_row (example_ident []) [] 0 unknown_phase [] 0)]"]
  by (simp add: new_recorder_def)

end
