(* ===== verification/Group_Audit.thy ===== *)
theory Group_Audit
  imports Group_Rss
begin

text \<open>
  The independent auditor of the raw group evidence, \<^verbatim>\<open>group_audit.py\<close>: it parses the JSON
  lines, checks every sample, recomputes the aggregates and compares them with the summary.

  A \<open>require\<close> is \<open>requires\<close> with an \<open>EvidenceError\<close>; the text that the code appends to two of
  the reasons (the type of the parser's exception, the offending status) is left out. A file is
  the string of its bytes, and reading it is done by the caller.
\<close>

section \<open>Decoding and identities\<close>

abbreviation need :: "bool \<Rightarrow> string \<Rightarrow> 'a res \<Rightarrow> 'a res" where
  "need c reason k \<equiv> requires c (EvidenceError reason) k"

definition decode :: "string \<Rightarrow> json res" where
  "decode raw = (case loads raw of Some v \<Rightarrow> Inr v | None \<Rightarrow> Inl (EvidenceError ''malformed JSON''))"

definition int_field :: "json \<Rightarrow> string \<Rightarrow> int" where
  "int_field v k = the_int (jget v k)"

definition valid_state :: "json \<Rightarrow> bool" where
  "valid_state v \<longleftrightarrow> is_str v \<and> length (the_str v) = 1 \<and> list_all is_alpha (the_str v)"

definition a_identity :: "json \<Rightarrow> int list res" where
  "a_identity v =
     need (is_dict v) ''identity mapping''
     (need (list_all (\<lambda>k. is_int (jget v k) \<and> int_field v k > 1) [''pid'', ''pgid'', ''sid''] \<and>
            is_int (jget v ''start_ticks'') \<and> int_field v ''start_ticks'' \<ge> 0) ''identity integer fields''
     (need (has_key v ''state'' \<longrightarrow> valid_state (jget v ''state'')) ''process state''
     (Inr (map (int_field v) [''pid'', ''start_ticks'', ''pgid'', ''sid'']))))"

definition dead_json :: "json \<Rightarrow> bool" where
  "dead_json v \<longleftrightarrow> dead_state (the_str (jget v ''state''))"

section \<open>One sample\<close>

text \<open>A membership scan: the members by PID, with their identity and their record.\<close>

type_synonym scan_table = "(int \<times> int list \<times> json) list"

definition scan_step :: "json \<Rightarrow> json \<Rightarrow> scan_table \<Rightarrow> scan_table res" where
  "scan_step ow v found =
     bindr (a_identity v) (\<lambda>key.
       need (has_key v ''state'') ''missing scan state''
       (need (hd key \<notin> fst ` set found) ''duplicate member PID in scan''
       (need (int_field v ''pgid'' = int_field ow ''pgid'' \<and> int_field v ''sid'' = int_field ow ''sid'') ''member PGID/SID''
       (Inr (found @ [(hd key, key, v)])))))"

definition read_scan :: "json \<Rightarrow> json \<Rightarrow> string \<Rightarrow> scan_table res" where
  "read_scan ow row name =
     need (is_list (jget row name) \<and> length (the_list (jget row name)) \<le> MAX_MEMBERS) ''membership scan bound/shape''
     (fold_res (scan_step ow) (the_list (jget row name)) [])"

record member_state =
  ms_members :: "(int \<times> int list) list"
  ms_live :: "int list"
  ms_partial :: bool
  ms_seen :: "(int \<times> int) list"

definition valid_bytes :: "json \<Rightarrow> bool" where
  "valid_bytes v \<longleftrightarrow> v = JNull \<or> (is_int v \<and> 0 \<le> the_int v \<and> the_int v \<le> MAX_RSS_BYTES)"

text \<open>The checks on the closing read of a member.\<close>

definition check_after :: "json \<Rightarrow> int list \<Rightarrow> json \<Rightarrow> unit res" where
  "check_after before key after =
     (if after = JNull then Inr ()
      else bindr (a_identity after) (\<lambda>k.
        need (k = key) ''member identity changed during measurement''
        (need (has_key after ''state'') ''missing after state''
        (need (\<not> dead_json before \<or> dead_json after) ''member state resurrection'' (Inr ())))))"

definition check_closing :: "scan_table \<Rightarrow> int \<Rightarrow> int list \<Rightarrow> json \<Rightarrow> json \<Rightarrow> unit res" where
  "check_closing s1 pid key before after =
     (case map_of s1 pid of
        None \<Rightarrow> Inr ()
      | Some (k, closing) \<Rightarrow>
          if k = key then
            need (\<not> (dead_json before \<or> (after \<noteq> JNull \<and> dead_json after)) \<or> dead_json closing)
              ''closing discovery state resurrection'' (Inr ())
          else Inr ())"

definition judge_member :: "scan_table \<Rightarrow> int \<Rightarrow> int list \<Rightarrow> json \<Rightarrow> json \<Rightarrow> json \<Rightarrow> json \<Rightarrow> member_state \<Rightarrow> member_state res" where
  "judge_member s1 pid key before after rss status ms =
     (if status = JStr ''LIVE'' then
        need (after \<noteq> JNull \<and> is_int rss \<and> \<not> dead_json before \<and> \<not> dead_json after) ''incomplete live member''
        (need (map_option fst (map_of s1 pid) = Some key) ''live member missing from closing scan''
        (Inr (ms\<lparr>ms_live := ms_live ms @ [the_int rss]\<rparr>)))
      else if status = JStr ''ZOMBIE'' then
        need (after \<noteq> JNull \<and> dead_json before \<and> dead_json after \<and> rss = JNull) ''zombie RSS/identity'' (Inr ms)
      else if status \<in> {JStr ''MISSING'', JStr ''UNREADABLE'', JStr ''VANISHED''} then Inr (ms\<lparr>ms_partial := True\<rparr>)
      else Inl (EvidenceError ''invalid member observation''))"

definition discovered :: "scan_table \<Rightarrow> scan_table \<Rightarrow> int \<Rightarrow> (int list \<times> json) option" where
  "discovered s0 s1 pid = (case map_of s0 pid of Some x \<Rightarrow> Some x | None \<Rightarrow> map_of s1 pid)"

definition member_step :: "json \<Rightarrow> scan_table \<Rightarrow> scan_table \<Rightarrow> json \<Rightarrow> member_state \<Rightarrow> member_state res" where
  "member_step ow s0 s1 value ms =
     need (is_dict value) ''member mapping''
     (let before = jget value ''before'' in
      bindr (a_identity before) (\<lambda>key.
      let pid = int_field before ''pid''; ticks = int_field before ''start_ticks'' in
      need (has_key before ''state'' \<and> pid \<notin> fst ` set (ms_members ms)) ''duplicate member or missing state''
      (case discovered s0 s1 pid of
         None \<Rightarrow> Inl (EvidenceError ''member discovery identity mismatch'')
       | Some (dkey, drec) \<Rightarrow>
         need (key = dkey) ''member discovery identity mismatch''
         (need (jget before ''state'' = jget drec ''state'') ''member discovery state mismatch''
         (need (int_field before ''pgid'' = int_field ow ''pgid'' \<and> int_field before ''sid'' = int_field ow ''sid'') ''member PGID/SID''
         (need (map_of (ms_seen ms) pid = None \<or> map_of (ms_seen ms) pid = Some ticks) ''PID reused across samples''
         (let seen = AList.update pid ticks (ms_seen ms) in
          need (length seen \<le> MAX_PROC_ENTRIES) ''stream identity history bound''
          (need (has_key value ''rss_bytes'' \<and> has_key value ''after'') ''missing member measurement''
          (let rss = jget value ''rss_bytes''; after = jget value ''after'' in
           need (valid_bytes rss) ''RSS must be nonnegative integer bytes''
           (bindr (check_after before key after) (\<lambda>_.
            bindr (check_closing s1 pid key before after) (\<lambda>_.
            bindr (judge_member s1 pid key before after rss (jget value ''status'') (ms\<lparr>ms_seen := seen\<rparr>)) (\<lambda>ms'.
            Inr (ms'\<lparr>ms_members := ms_members ms' @ [(pid, key)]\<rparr>))))))))))))))"

definition all_strings :: "json \<Rightarrow> bool" where
  "all_strings v \<longleftrightarrow> is_list v \<and> list_all is_str (the_list v)"

definition check_anchor :: "json \<Rightarrow> int list \<Rightarrow> string \<Rightarrow> unit res" where
  "check_anchor row expected name =
     need (has_key row name) ''missing anchor observation''
     (if jget row name = JNull then Inr ()
      else bindr (a_identity (jget row name)) (\<lambda>k. need (k = expected) ''anchor identity mismatch'' (Inr ())))"

text \<open>Two scans agree as dictionaries from PIDs to identities.\<close>

definition scan_keys :: "scan_table \<Rightarrow> (int \<times> int list) set" where
  "scan_keys s = set (map (\<lambda>(pid, key, v). (pid, key)) s)"

definition is_partial :: "json \<Rightarrow> json \<Rightarrow> scan_table \<Rightarrow> scan_table \<Rightarrow> member_state \<Rightarrow> bool" where
  "is_partial ow row s0 s1 ms \<longleftrightarrow>
     ms_partial ms \<or> the_list (jget row ''scan_errors'') \<noteq> [] \<or> the_list (jget row ''sampling_errors'') \<noteq> [] \<or>
     scan_keys s0 \<noteq> scan_keys s1 \<or>
     (ms_members ms \<noteq> [] \<and> (jget row ''anchor_before'' = JNull \<or> jget row ''anchor_after'' = JNull)) \<or>
     (jget row ''anchor_before'' \<noteq> JNull \<and> int_field ow ''pid'' \<notin> fst ` set s0) \<or>
     (jget row ''anchor_after'' \<noteq> JNull \<and> int_field ow ''pid'' \<notin> fst ` set s1)"

definition audit_status :: "bool \<Rightarrow> member_state \<Rightarrow> sample_status" where
  "audit_status part ms = (if part then PARTIAL else if ms_members ms = [] then NO_LIVE_MEMBERS
     else if ms_live ms \<noteq> [] then COMPLETE else ZOMBIE_ONLY)"

definition phase_kind :: "string \<Rightarrow> string" where
  "phase_kind p = (if p = ''readiness'' then ''ready_verified'' else if p = ''workload'' then ''release_acknowledged''
     else ''cleanup_completed'')"

definition check_phase :: "json \<Rightarrow> int list \<Rightarrow> string res" where
  "check_phase row expected =
     (let phase = jget row ''phase'' in
      need (is_dict phase \<and> (\<exists>p \<in> set PHASES. jget phase ''name'' = JStr p)) ''sampling phase''
      (let name = the_str (jget phase ''name''); event = jget phase ''event'' in
       if name = ''unknown'' then need (event = JNull) ''unknown phase event'' (Inr name)
       else
         need (is_dict event) ''missing explicit phase event''
         (need (jget event ''kind'' = JStr (phase_kind name) \<and> is_int (jget event ''monotonic_ns'') \<and>
                0 \<le> int_field event ''monotonic_ns'' \<and> int_field event ''monotonic_ns'' \<le> int_field row ''start_ns'')
            ''phase event identity/time''
         (bindr (a_identity (jget event ''owner'')) (\<lambda>k. need (k = expected) ''phase event identity/time'' (Inr name))))))"

definition check_total :: "json \<Rightarrow> sample_status \<Rightarrow> int list \<Rightarrow> int option res" where
  "check_total row status rss =
     (if status = COMPLETE then
        need (is_int (jget row ''group_rss_bytes'') \<and> int_field row ''group_rss_bytes'' = sum_list rss)
          ''group RSS sum disagreement'' (Inr (Some (sum_list rss)))
      else need (jget row ''group_rss_bytes'' = JNull) ''incomplete sample claimed complete total'' (Inr None))"

record verdict =
  v_status :: sample_status
  v_total :: "int option"
  v_phase :: string
  v_seen :: "(int \<times> int) list"

definition audit_members :: "json \<Rightarrow> json \<Rightarrow> int list \<Rightarrow> (int \<times> int) list \<Rightarrow> (scan_table \<times> scan_table \<times> member_state) res" where
  "audit_members row ow expected seen =
     bindr (check_anchor row expected ''anchor_before'') (\<lambda>_.
     bindr (check_anchor row expected ''anchor_after'') (\<lambda>_.
     bindr (read_scan ow row ''scan_before'') (\<lambda>s0.
     bindr (read_scan ow row ''scan_after'') (\<lambda>s1.
     need (all_strings (jget row ''scan_errors'')) ''scan errors shape''
     (need (all_strings (jget row ''sampling_errors'')) ''sampling errors shape''
     (need (jget row ''membership_scan_status'' =
            JStr (if the_list (jget row ''scan_errors'') \<noteq> [] then ''partial'' else ''complete'')) ''scan status contradiction''
     (need (is_list (jget row ''members'') \<and> length (the_list (jget row ''members'')) \<le> MAX_MEMBERS) ''member bound/shape''
     (bindr (fold_res (member_step ow s0 s1) (the_list (jget row ''members''))
        \<lparr>ms_members = [], ms_live = [], ms_partial = False, ms_seen = seen\<rparr>) (\<lambda>ms.
      need (fst ` set (ms_members ms) = fst ` set s0 \<union> fst ` set s1) ''missing discovered member''
      (Inr (s0, s1, ms)))))))))))"

definition audit_sample :: "json \<Rightarrow> json \<Rightarrow> int \<Rightarrow> int \<Rightarrow> json \<Rightarrow> (int \<times> int) list \<Rightarrow> verdict res" where
  "audit_sample row ow sequence last_end run_id seen =
     need (is_dict row \<and> jget row ''schema_version'' = JInt VERSION) ''unsupported sample version''
     (need (py_eq (jget row ''run_id'') run_id) ''run identity''
     (need (jget row ''sequence'' = JInt sequence) ''sample sequence''
     (need (is_int (jget row ''start_ns'') \<and> is_int (jget row ''end_ns'') \<and> 0 \<le> int_field row ''start_ns'' \<and>
            int_field row ''start_ns'' \<le> int_field row ''end_ns'' \<and> int_field row ''start_ns'' \<ge> last_end) ''sample time ordering''
     (bindr (a_identity ow) (\<lambda>expected.
      need (int_field ow ''pid'' = int_field ow ''pgid'' \<and> int_field ow ''pgid'' = int_field ow ''sid'') ''owned session anchor''
      (bindr (a_identity (jget row ''owner'')) (\<lambda>k.
       need (k = expected) ''group identity changed''
       (bindr (audit_members row ow expected seen) (\<lambda>(s0, s1, ms).
        let available = jget row ''mem_available_bytes''; errors = the_list (jget row ''sampling_errors'') in
        need (valid_bytes available) ''MemAvailable integer bytes''
        (need (available \<noteq> JNull \<or> JStr ''mem_available_unreadable'' \<in> set errors \<or> JStr ''observation_interrupted'' \<in> set errors)
           ''missing MemAvailable reason''
        (let status = audit_status (is_partial ow row s0 s1 ms) ms in
         need (jget row ''sample_status'' = JStr (status_name status)) ''sample status contradiction''
         (bindr (check_total row status (ms_live ms)) (\<lambda>total.
          bindr (check_phase row expected) (\<lambda>phase.
          need (jget row ''site'' \<in> {JStr ''runner_monitor'', JStr ''cleanup_check''}) ''sampling site''
          (Inr \<lparr>v_status = status, v_total = total, v_phase = phase, v_seen = ms_seen ms\<rparr>)))))))))))))))"

section \<open>The stream\<close>

record audit_state =
  au_count :: nat
  au_size :: nat
  au_last :: int
  au_owner :: "json option"
  au_seen :: "(int \<times> int) list"
  au_data :: string
  au_statuses :: "sample_status \<Rightarrow> nat"
  au_phases :: "string \<Rightarrow> phase_stat"
  au_monitor :: "int option"
  au_gap :: "int option"
  au_rank :: int
  au_event :: int
  au_readiness_end :: "int option"
  au_cleanup :: "int option"

definition new_audit :: audit_state where
  "new_audit = \<lparr>au_count = 0, au_size = 0, au_last = - 1, au_owner = None, au_seen = [], au_data = [],
     au_statuses = (\<lambda>_. 0), au_phases = (\<lambda>_. no_samples), au_monitor = None, au_gap = None, au_rank = - 1,
     au_event = - 1, au_readiness_end = None, au_cleanup = None\<rparr>"

text \<open>\<open>stream.readline(n)\<close>: up to a newline, at most \<open>n\<close> bytes.\<close>

fun readline :: "nat \<Rightarrow> string \<Rightarrow> string \<times> string" where
  "readline 0 s = ([], s)"
| "readline (Suc n) [] = ([], [])"
| "readline (Suc n) (c # cs) = (if c = LF then ([c], cs) else cons_fst c (readline n cs))"

lemma readline_shorter: "length (snd (readline n s)) \<le> length s"
  by (induction n s rule: readline.induct) (auto simp: cons_fst_def)

lemma readline_progress: "s \<noteq> [] \<Longrightarrow> length (snd (readline (Suc n) s)) < length s"
  by (cases s) (auto simp: cons_fst_def less_Suc_eq_le readline_shorter)

function raw_lines :: "nat \<Rightarrow> string \<Rightarrow> string list" where
  "raw_lines n s = (if s = [] then [] else fst (readline (Suc n) s) # raw_lines n (snd (readline (Suc n) s)))"
  by auto

termination raw_lines
  by (relation "measure (\<lambda>(n, s). length s)") (auto simp: readline_progress)

declare raw_lines.simps [simp del]

definition phase_rank :: "string \<Rightarrow> int" where
  "phase_rank p = (if p = ''unknown'' then 0 else if p = ''readiness'' then 1 else if p = ''workload'' then 2 else 3)"

text \<open>The order of the phases and of their events.\<close>

definition check_order :: "json \<Rightarrow> string \<Rightarrow> audit_state \<Rightarrow> audit_state res" where
  "check_order row ph st =
     (if ph = ''unknown'' then Inr st
      else
        let rank = phase_rank ph; event_ns = int_field (jget (jget row ''phase'') ''event'') ''monotonic_ns'' in
        need (rank \<ge> au_rank st) ''phase order reversed''
        (bindr (if ph = ''workload'' then
                  need (ps_samples (au_phases st ''readiness'') > 0) ''workload without readiness evidence''
                  (case au_readiness_end st of
                     None \<Rightarrow> Inl TypeError
                   | Some t \<Rightarrow> need (event_ns \<ge> t) ''phase chronology: acknowledgement precedes readiness end'' (Inr st))
                else if ph = ''readiness'' then Inr (st\<lparr>au_readiness_end := Some (int_field row ''end_ns'')\<rparr>)
                else
                  let b = (case au_cleanup st of None \<Rightarrow> au_last st | Some t \<Rightarrow> t) in
                  need (event_ns \<ge> b) ''phase chronology: cleanup precedes prior observation end''
                    (Inr (st\<lparr>au_cleanup := Some b\<rparr>))) (\<lambda>st'.
         need (event_ns \<ge> au_event st') ''phase chronology: event time reversed''
           (Inr (st'\<lparr>au_event := event_ns, au_rank := rank\<rparr>)))))"

definition max_with :: "int \<Rightarrow> int option \<Rightarrow> int option" where
  "max_with n x = Some (case x of None \<Rightarrow> n | Some m \<Rightarrow> max m n)"

definition count_phase :: "verdict \<Rightarrow> phase_stat \<Rightarrow> phase_stat" where
  "count_phase v p =
     (let p1 = p\<lparr>ps_samples := Suc (ps_samples p)\<rparr> in
      case v_total v of None \<Rightarrow> p1
      | Some n \<Rightarrow> p1\<lparr>ps_complete := Suc (ps_complete p1), ps_peak := max_with n (ps_peak p1)\<rparr>)"

definition aggregate :: "json \<Rightarrow> verdict \<Rightarrow> audit_state \<Rightarrow> audit_state" where
  "aggregate row v st = st\<lparr>
     au_statuses := (au_statuses st)(v_status v := Suc (au_statuses st (v_status v))),
     au_phases := (au_phases st)(v_phase v := count_phase v (au_phases st (v_phase v))),
     au_monitor := (case v_total v of None \<Rightarrow> au_monitor st
        | Some n \<Rightarrow> if jget row ''site'' = JStr ''runner_monitor'' then max_with n (au_monitor st) else au_monitor st),
     au_gap := (if au_count st > 0 then max_with (int_field row ''start_ns'' - au_last st) (au_gap st) else au_gap st),
     au_last := int_field row ''end_ns'',
     au_count := Suc (au_count st)\<rparr>"

definition audit_line :: "json \<Rightarrow> string \<Rightarrow> audit_state \<Rightarrow> audit_state res" where
  "audit_line run_id raw st =
     (let size' = au_size st + length raw in
      need (length raw \<le> MAX_RECORD_BYTES \<and> size' \<le> MAX_STREAM_BYTES \<and> au_count st < MAX_SAMPLES) ''evidence size/sample bound''
      (need (raw \<noteq> [] \<and> last raw = LF) ''truncated JSONL record''
      (bindr (decode raw) (\<lambda>row.
       need (is_dict row) ''sample mapping''
       (let ow = (case au_owner st of None \<Rightarrow> jget row ''owner'' | Some x \<Rightarrow> x) in
        bindr (audit_sample row ow (int (au_count st)) (au_last st) run_id (au_seen st)) (\<lambda>v.
        bindr (check_order row (v_phase v) (st\<lparr>au_size := size', au_data := au_data st @ raw,
            au_owner := (if ow = JNull then None else Some ow), au_seen := v_seen v\<rparr>)) (\<lambda>st'.
        Inr (aggregate row v st'))))))))"

definition audit_derived :: "(string \<Rightarrow> string) \<Rightarrow> audit_state \<Rightarrow> (string \<times> json) list" where
  "audit_derived sha st = derived_json sha (au_data st) (au_size st) (au_count st) (au_statuses st) (au_phases st)
     (au_monitor st) (au_gap st)"

record audit_report =
  ar_derived :: "(string \<times> json) list"
  ar_all_complete :: bool
  ar_has_partial :: bool

definition check_legacy :: "json \<Rightarrow> audit_state \<Rightarrow> string res \<Rightarrow> unit res" where
  "check_legacy summary st runner_result =
     (let legacy = jget summary ''legacy_runner_peak_bytes'' in
      need (legacy = JNull \<or> (is_int legacy \<and> the_int legacy \<ge> 0)) ''legacy peak integer bytes''
      (if legacy = JNull then Inr ()
       else
         need (au_monitor st = Some (the_int legacy)) ''same-event Runner peak disagreement''
         (bindr runner_result (\<lambda>data.
          need (length data \<le> 2 * 1024 * 1024) ''Runner result size bound''
          (bindr (decode data) (\<lambda>runner.
           need (is_dict runner) ''Runner result owner''
           (bindr (a_identity (jget runner ''owner'')) (\<lambda>k.
            bindr (a_identity (case au_owner st of None \<Rightarrow> JNull | Some ow \<Rightarrow> ow)) (\<lambda>k'.
            need (k = k') ''Runner result owner''
            (let reported = jget runner ''sampled_group_peak_rss_kib'' in
             need (is_int reported \<and> the_int reported \<ge> 0 \<and> the_int reported * 1024 = the_int legacy)
               ''published Runner peak disagreement'' (Inr ()))))))))))) "

definition audit :: "(string \<Rightarrow> string) \<Rightarrow> string \<Rightarrow> string \<Rightarrow> string res \<Rightarrow> audit_report res" where
  "audit sha raw summary_bytes runner_result =
     need (length summary_bytes \<le> MAX_RECORD_BYTES) ''summary size bound''
     (bindr (decode summary_bytes) (\<lambda>summary.
      need (is_dict summary \<and> jget summary ''contract'' = JStr CONTRACT \<and> jget summary ''schema_version'' = JInt VERSION) ''summary schema''
      (let run_id = jget summary ''run_id'' in
       need (is_str run_id \<and> fullmatch_hex 32 (the_str run_id)) ''run ID''
       (need (jget summary ''storage_complete'' = JBool True \<and> jget summary ''storage_error'' = JNull) ''incomplete evidence storage''
       (bindr (fold_res (audit_line run_id) (raw_lines MAX_RECORD_BYTES raw) new_audit) (\<lambda>st.
        need (au_count st > 0) ''missing samples''
        (need (list_all (\<lambda>(k, value). has_key summary k \<and> dumps (jget summary k) = dumps value) (audit_derived sha st)) ''summary disagreement''
        (bindr (check_legacy summary st runner_result) (\<lambda>_.
         Inr \<lparr>ar_derived = audit_derived sha st, ar_all_complete = (au_statuses st COMPLETE = au_count st),
               ar_has_partial = (au_statuses st PARTIAL > 0)\<rparr>)))))))))"

end
