(* ===== verification/Group_Proofs.thy ===== *)
theory Group_Proofs
  imports Group_Audit
begin

text \<open>
  The observer, the recorder and the auditor together: rows survive the trip through the JSON
  stream, the auditor accepts the samples the observer calls usable, its aggregates are the
  recorder's, and an audited stream is in order.
\<close>

section \<open>Rows through the stream\<close>

lemma is_json_simps [simp]:
  "is_dict (owner_json i)" "is_dict (ident_json i')" "is_dict (member_json m)" "is_dict (phase_json p)"
  "is_dict (event_json e)" "is_dict (row_json r)"
  by (simp_all add: owner_json_def ident_json_def member_json_def phase_json_def event_json_def row_json_def)

lemma json_ok_parts:
  "json_ok (owner_json i)" "json_ok (ident_json i')" "json_ok (event_json e)" "json_ok (phase_json p)" "json_ok (member_json m)"
  by (auto simp: json_ok_def owner_json_def ident_json_def event_json_def phase_json_def member_json_def opt_json_def
      split: option.split)

lemma json_ok_row [simp]: "json_ok (row_json r)"
  using json_ok_parts
  by (auto simp: json_ok_def row_json_def opt_json_def split: option.split)

lemma sort_keys_parts [simp]:
  "sort_keys (owner_json i) = owner_json i" "sort_keys (ident_json i') = ident_json i'"
  by (simp_all add: owner_json_def ident_json_def)

lemma sort_keys_opt: "(\<And>x. sort_keys (f x) = f x) \<Longrightarrow> sort_keys (opt_json f x) = opt_json f x"
  by (simp add: opt_json_def split: option.split)

lemma sort_keys_event [simp]: "sort_keys (event_json e) = event_json e"
  by (simp add: event_json_def)

lemma sort_keys_member [simp]: "sort_keys (member_json m) = member_json m" "sort_keys (phase_json p) = phase_json p"
  by (simp_all add: member_json_def phase_json_def sort_keys_opt)

lemma sort_keys_row [simp]: "sort_keys (row_json r) = row_json r"
  by (simp add: row_json_def sort_keys_opt comp_def)

lemma decode_row: "decode (jsonl (row_json r)) = Inr (row_json r)"
  using jsonl_codec.read_render [OF json_ok_row, of r] by (simp add: decode_def)

lemma row_get:
  "jget (row_json r) ''anchor_after'' = opt_json ident_json (r_anchor_after r)"
  "jget (row_json r) ''anchor_before'' = opt_json ident_json (r_anchor_before r)"
  "jget (row_json r) ''end_ns'' = JInt (r_end r)" "jget (row_json r) ''start_ns'' = JInt (r_start r)"
  "jget (row_json r) ''group_rss_bytes'' = opt_json JInt (r_rss r)"
  "jget (row_json r) ''mem_available_bytes'' = opt_json JInt (r_available r)"
  "jget (row_json r) ''members'' = JArr (map member_json (r_members r))"
  "jget (row_json r) ''membership_scan_status'' = JStr (if r_scan_errors r \<noteq> [] then ''partial'' else ''complete'')"
  "jget (row_json r) ''owner'' = owner_json (r_owner r)" "jget (row_json r) ''phase'' = phase_json (r_phase r)"
  "jget (row_json r) ''run_id'' = JStr (r_run_id r)" "jget (row_json r) ''sample_status'' = JStr (status_name (r_status r))"
  "jget (row_json r) ''sampling_errors'' = JArr (map JStr (r_errors r))"
  "jget (row_json r) ''scan_after'' = JArr (map ident_json (r_scan_after r))"
  "jget (row_json r) ''scan_before'' = JArr (map ident_json (r_scan_before r))"
  "jget (row_json r) ''scan_errors'' = JArr (map JStr (r_scan_errors r))"
  "jget (row_json r) ''schema_version'' = JInt VERSION" "jget (row_json r) ''sequence'' = JInt (r_sequence r)"
  "jget (row_json r) ''site'' = JStr (r_site r)"
  "has_key (row_json r) ''anchor_before''" "has_key (row_json r) ''anchor_after''"
  by (simp_all add: jget_def has_key_def keys_def row_json_def)

lemma part_get:
  "int_field (owner_json i) ''pid'' = p_pid i" "int_field (owner_json i) ''pgid'' = p_pgid i"
  "int_field (owner_json i) ''sid'' = p_sid i" "int_field (owner_json i) ''start_ticks'' = p_ticks i"
  "int_field (ident_json j) ''pid'' = p_pid j" "int_field (ident_json j) ''pgid'' = p_pgid j"
  "int_field (ident_json j) ''sid'' = p_sid j" "int_field (ident_json j) ''start_ticks'' = p_ticks j"
  "is_int (jget (owner_json i) ''pid'')" "is_int (jget (owner_json i) ''pgid'')"
  "is_int (jget (owner_json i) ''sid'')" "is_int (jget (owner_json i) ''start_ticks'')"
  "is_int (jget (ident_json j) ''pid'')" "is_int (jget (ident_json j) ''pgid'')"
  "is_int (jget (ident_json j) ''sid'')" "is_int (jget (ident_json j) ''start_ticks'')"
  "jget (ident_json j) ''state'' = JStr (p_state j)" "has_key (ident_json j) ''state''" "\<not> has_key (owner_json i) ''state''"
  "jget (member_json m) ''before'' = ident_json (m_before m)" "jget (member_json m) ''after'' = opt_json ident_json (m_after m)"
  "jget (member_json m) ''rss_bytes'' = opt_json JInt (m_rss m)"
  "jget (member_json m) ''status'' = JStr (member_status_name (m_status m))"
  "has_key (member_json m) ''rss_bytes''" "has_key (member_json m) ''after''"
  "jget (phase_json p) ''name'' = JStr (ph_name p)" "jget (phase_json p) ''event'' = opt_json event_json (ph_event p)"
  "int_field (event_json e) ''monotonic_ns'' = ev_ns e" "is_int (jget (event_json e) ''monotonic_ns'')"
  "jget (event_json e) ''kind'' = JStr (ev_kind e)" "jget (event_json e) ''owner'' = owner_json (ev_owner e)"
  by (simp_all add: int_field_def jget_def has_key_def keys_def owner_json_def ident_json_def member_json_def phase_json_def
      event_json_def)

lemma opt_json_JNull [simp]:
  "opt_json JInt x = JNull \<longleftrightarrow> x = None" "opt_json ident_json y = JNull \<longleftrightarrow> y = None" "opt_json event_json z = JNull \<longleftrightarrow> z = None"
  by (auto simp: opt_json_def ident_json_def event_json_def split: option.split)

lemma status_name_inj [simp]: "status_name a = status_name b \<longleftrightarrow> a = b"
  by (cases a; cases b) simp_all

section \<open>What an accepted sample says\<close>

text \<open>The checks of \<open>sample\<close>, in one place.\<close>

lemma audit_sampleD:
  assumes "audit_sample row ow sequence last_end run_id seen = Inr v"
  obtains expected s0 s1 ms where "is_dict row" "jget row ''sequence'' = JInt sequence"
    "last_end \<le> int_field row ''start_ns''" "0 \<le> int_field row ''start_ns''" "int_field row ''start_ns'' \<le> int_field row ''end_ns''"
    "a_identity ow = Inr expected" "a_identity (jget row ''owner'') = Inr expected"
    "int_field ow ''pid'' = int_field ow ''pgid''" "int_field ow ''pgid'' = int_field ow ''sid''"
    "audit_members row ow expected seen = Inr (s0, s1, ms)" "v_status v = audit_status (is_partial ow row s0 s1 ms) ms"
    "jget row ''sample_status'' = JStr (status_name (v_status v))" "check_total row (v_status v) (ms_live ms) = Inr (v_total v)"
    "check_phase row expected = Inr (v_phase v)" "v_seen v = ms_seen ms"
    "jget row ''site'' \<in> {JStr ''runner_monitor'', JStr ''cleanup_check''}"
proof -
  from assms obtain expected s0 s1 ms where "is_dict row" "jget row ''sequence'' = JInt sequence"
    "last_end \<le> int_field row ''start_ns''" "0 \<le> int_field row ''start_ns''" "int_field row ''start_ns'' \<le> int_field row ''end_ns''"
    "a_identity ow = Inr expected" "a_identity (jget row ''owner'') = Inr expected"
    "int_field ow ''pid'' = int_field ow ''pgid''" "int_field ow ''pgid'' = int_field ow ''sid''"
    "audit_members row ow expected seen = Inr (s0, s1, ms)"
    and rest: "(let status = audit_status (is_partial ow row s0 s1 ms) ms in
         need (jget row ''sample_status'' = JStr (status_name status)) ''sample status contradiction''
         (bindr (check_total row status (ms_live ms)) (\<lambda>total.
          bindr (check_phase row expected) (\<lambda>phase.
          need (jget row ''site'' \<in> {JStr ''runner_monitor'', JStr ''cleanup_check''}) ''sampling site''
          (Inr \<lparr>v_status = status, v_total = total, v_phase = phase, v_seen = ms_seen ms\<rparr>))))) = Inr v"
    unfolding audit_sample_def Let_def requires_Inr_iff bindr_Inr_iff by (auto simp: case_prod_beta res_simps)
  moreover from rest have "v_status v = audit_status (is_partial ow row s0 s1 ms) ms"
    "jget row ''sample_status'' = JStr (status_name (v_status v))" "check_total row (v_status v) (ms_live ms) = Inr (v_total v)"
    "check_phase row expected = Inr (v_phase v)" "v_seen v = ms_seen ms"
    "jget row ''site'' \<in> {JStr ''runner_monitor'', JStr ''cleanup_check''}"
    unfolding Let_def requires_Inr_iff bindr_Inr_iff by auto
  ultimately show thesis using that by blast
qed

lemma check_total_cases:
  "check_total row st xs = Inr t \<longleftrightarrow>
     (st = COMPLETE \<and> jget row ''group_rss_bytes'' = JInt (sum_list xs) \<and> t = Some (sum_list xs)) \<or>
     (st \<noteq> COMPLETE \<and> jget row ''group_rss_bytes'' = JNull \<and> t = None)"
  by (cases "jget row ''group_rss_bytes''") (auto simp: check_total_def res_simps int_field_def)

lemma check_phaseD:
  "check_phase row expected = Inr p \<Longrightarrow> jget (jget row ''phase'') ''name'' = JStr p \<and> p \<in> set PHASES"
  by (auto simp: check_phase_def Let_def res_simps split: if_splits)

section \<open>The members of an accepted sample\<close>

definition member_pid :: "json \<Rightarrow> int" where
  "member_pid m = int_field (jget m ''before'') ''pid''"

definition is_live :: "json \<Rightarrow> bool" where
  "is_live m \<longleftrightarrow> jget m ''status'' = JStr ''LIVE''"

definition is_zombie :: "json \<Rightarrow> bool" where
  "is_zombie m \<longleftrightarrow> jget m ''status'' = JStr ''ZOMBIE''"

definition live_total :: "json list \<Rightarrow> int list" where
  "live_total ms = map (\<lambda>m. int_field m ''rss_bytes'') (filter is_live ms)"

lemma judge_memberD:
  assumes "judge_member s1 pid key before after rss status ms = Inr ms'"
  shows "ms_members ms' = ms_members ms \<and> ms_seen ms' = ms_seen ms \<and>
    ms_live ms' = ms_live ms @ (if status = JStr ''LIVE'' then [the_int rss] else []) \<and>
    (ms_partial ms' \<longleftrightarrow> ms_partial ms \<or> (status \<noteq> JStr ''LIVE'' \<and> status \<noteq> JStr ''ZOMBIE'')) \<and>
    (status = JStr ''LIVE'' \<longrightarrow> is_int rss \<and> \<not> dead_json before \<and> \<not> dead_json after \<and> after \<noteq> JNull \<and>
       map_option fst (map_of s1 pid) = Some key)"
proof (cases "status = JStr ''LIVE''")
  case True
  then show ?thesis using assms by (auto simp: judge_member_def res_simps)
next
  case False
  show ?thesis
  proof (cases "status = JStr ''ZOMBIE''")
    case True
    then show ?thesis using assms by (simp add: judge_member_def res_simps)
  next
    case no: False
    have "status \<in> {JStr ''MISSING'', JStr ''UNREADABLE'', JStr ''VANISHED''}" "ms' = ms\<lparr>ms_partial := True\<rparr>"
      using assms False no unfolding judge_member_def by (simp_all split: if_splits)
    then show ?thesis using False no by simp
  qed
qed

lemma member_stepD:
  assumes "member_step ow s0 s1 m ms = Inr ms'"
  shows "\<exists>key. a_identity (jget m ''before'') = Inr key \<and> ms_members ms' = ms_members ms @ [(member_pid m, key)] \<and>
    member_pid m \<notin> fst ` set (ms_members ms) \<and> map_option fst (discovered s0 s1 (member_pid m)) = Some key \<and>
    ms_live ms' = ms_live ms @ (if is_live m then [int_field m ''rss_bytes''] else []) \<and>
    (ms_partial ms' \<longleftrightarrow> ms_partial ms \<or> (\<not> is_live m \<and> \<not> is_zombie m)) \<and>
    (is_live m \<longrightarrow> 0 \<le> int_field m ''rss_bytes'')"
proof -
  have "\<exists>key drec ms1. a_identity (jget m ''before'') = Inr key \<and> member_pid m \<notin> fst ` set (ms_members ms) \<and>
    discovered s0 s1 (member_pid m) = Some (key, drec) \<and> valid_bytes (jget m ''rss_bytes'') \<and>
    judge_member s1 (member_pid m) key (jget m ''before'') (jget m ''after'') (jget m ''rss_bytes'') (jget m ''status'')
      (ms\<lparr>ms_seen := AList.update (member_pid m) (int_field (jget m ''before'') ''start_ticks'') (ms_seen ms)\<rparr>) = Inr ms1 \<and>
    ms' = ms1\<lparr>ms_members := ms_members ms1 @ [(member_pid m, key)]\<rparr>"
    using assms unfolding member_step_def Let_def member_pid_def
    by (auto simp: res_simps split: option.splits)
  then obtain key drec ms1 where k: "a_identity (jget m ''before'') = Inr key" "member_pid m \<notin> fst ` set (ms_members ms)"
    "discovered s0 s1 (member_pid m) = Some (key, drec)" "valid_bytes (jget m ''rss_bytes'')"
    and j: "judge_member s1 (member_pid m) key (jget m ''before'') (jget m ''after'') (jget m ''rss_bytes'') (jget m ''status'')
      (ms\<lparr>ms_seen := AList.update (member_pid m) (int_field (jget m ''before'') ''start_ticks'') (ms_seen ms)\<rparr>) = Inr ms1"
    and ms': "ms' = ms1\<lparr>ms_members := ms_members ms1 @ [(member_pid m, key)]\<rparr>" by blast
  show ?thesis
    using judge_memberD [OF j] k ms' by (auto simp: is_live_def is_zombie_def int_field_def valid_bytes_def)
qed

definition members_ok :: "json list \<Rightarrow> member_state \<Rightarrow> bool" where
  "members_ok done ms \<longleftrightarrow> map fst (ms_members ms) = map member_pid done \<and> distinct (map member_pid done) \<and>
     ms_live ms = live_total done \<and> (ms_partial ms \<longleftrightarrow> (\<exists>m \<in> set done. \<not> is_live m \<and> \<not> is_zombie m)) \<and>
     (\<forall>m \<in> set done. is_live m \<longrightarrow> 0 \<le> int_field m ''rss_bytes'')"

lemma fold_members_ok:
  "fold_res (member_step ow s0 s1) vs \<lparr>ms_members = [], ms_live = [], ms_partial = False, ms_seen = seen\<rparr> = Inr ms \<Longrightarrow>
     members_ok vs ms"
proof (induction vs arbitrary: ms rule: rev_induct)
  case Nil
  then show ?case by (auto simp: members_ok_def live_total_def)
next
  case (snoc m vs)
  from snoc.prems obtain ms1 where "fold_res (member_step ow s0 s1) vs \<lparr>ms_members = [], ms_live = [], ms_partial = False, ms_seen = seen\<rparr> = Inr ms1"
    and step: "member_step ow s0 s1 m ms1 = Inr ms"
    by (auto simp: fold_res_append res_simps)
  with snoc.IH have ok: "members_ok vs ms1" by blast
  then have "fst ` set (ms_members ms1) = member_pid ` set vs" unfolding members_ok_def by (metis list.set_map)
  with ok member_stepD [OF step] show ?case
    by (auto simp: members_ok_def live_total_def)
qed

lemma read_scan_pids:
  "read_scan ow row name = Inr s \<Longrightarrow> map fst s = map (\<lambda>v. int_field v ''pid'') (the_list (jget row name)) \<and> distinct (map fst s)"
proof -
  have hd: "a_identity v = Inr key \<Longrightarrow> hd key = int_field v ''pid''" for v key by (auto simp: a_identity_def res_simps)
  have "fold_res (scan_step ow) vs [] = Inr s \<Longrightarrow> map fst s = map (\<lambda>v. int_field v ''pid'') vs \<and> distinct (map fst s)" for vs
  proof (induction vs arbitrary: s rule: rev_induct)
    case (snoc v vs)
    from snoc.prems obtain s1 where s1: "fold_res (scan_step ow) vs [] = Inr s1" and st: "scan_step ow v s1 = Inr s"
      by (auto simp: fold_res_append res_simps)
    from st obtain key where "a_identity v = Inr key" "hd key \<notin> fst ` set s1" "s = s1 @ [(hd key, key, v)]"
      by (auto simp: scan_step_def res_simps)
    then have "map fst s = map fst s1 @ [int_field v ''pid'']" "int_field v ''pid'' \<notin> set (map fst s1)"
      using hd [of v key] by simp_all
    with snoc.IH [OF s1] show ?case by (metis distinct_append distinct_singleton disjoint_insert(1) inf_bot_right
        list.simps(15) list.set(1) map_append list.map)
  qed simp
  then show "read_scan ow row name = Inr s \<Longrightarrow> map fst s = map (\<lambda>v. int_field v ''pid'') (the_list (jget row name)) \<and> distinct (map fst s)"
    by (auto simp: read_scan_def res_simps)
qed

lemma audit_membersD:
  assumes "audit_members row ow expected seen = Inr (s0, s1, ms)"
  shows "check_anchor row expected ''anchor_before'' = Inr () \<and> check_anchor row expected ''anchor_after'' = Inr () \<and>
    read_scan ow row ''scan_before'' = Inr s0 \<and> read_scan ow row ''scan_after'' = Inr s1 \<and>
    members_ok (the_list (jget row ''members'')) ms \<and>
    fst ` set (ms_members ms) = fst ` set s0 \<union> fst ` set s1"
proof -
  have "check_anchor row expected ''anchor_before'' = Inr () \<and> check_anchor row expected ''anchor_after'' = Inr () \<and>
    read_scan ow row ''scan_before'' = Inr s0 \<and> read_scan ow row ''scan_after'' = Inr s1 \<and>
    fold_res (member_step ow s0 s1) (the_list (jget row ''members''))
        \<lparr>ms_members = [], ms_live = [], ms_partial = False, ms_seen = seen\<rparr> = Inr ms \<and>
    fst ` set (ms_members ms) = fst ` set s0 \<union> fst ` set s1"
    using assms unfolding audit_members_def
    by (cases "check_anchor row expected ''anchor_before''"; cases "check_anchor row expected ''anchor_after''";
        cases "read_scan ow row ''scan_before''"; cases "read_scan ow row ''scan_after''")
      (simp_all add: requires_Inr_iff bindr_Inr_iff)
  then show ?thesis using fold_members_ok [of ow s0 s1 "the_list (jget row ''members'')" seen ms] by simp
qed

text \<open>What the auditor's \<open>COMPLETE\<close> means for the row it read.\<close>

definition complete_evidence :: "json \<Rightarrow> json \<Rightarrow> bool" where
  "complete_evidence row ow \<longleftrightarrow> (let ms = the_list (jget row ''members'') in
     distinct (map member_pid ms) \<and> (\<forall>m \<in> set ms. is_live m \<or> is_zombie m) \<and> (\<exists>m \<in> set ms. is_live m) \<and>
     (\<forall>m \<in> set ms. is_live m \<longrightarrow> 0 \<le> int_field m ''rss_bytes'') \<and>
     member_pid ` set ms = (\<lambda>v. int_field v ''pid'') ` set (the_list (jget row ''scan_before'')) \<and>
     member_pid ` set ms = (\<lambda>v. int_field v ''pid'') ` set (the_list (jget row ''scan_after'')) \<and>
     the_list (jget row ''scan_errors'') = [] \<and> the_list (jget row ''sampling_errors'') = [] \<and>
     a_identity (jget row ''anchor_before'') = a_identity ow \<and> a_identity (jget row ''anchor_after'') = a_identity ow \<and>
     jget row ''group_rss_bytes'' = JInt (sum_list (live_total ms)))"

lemma scan_keys_pids: "fst ` scan_keys s = fst ` set s"
  by (force simp: scan_keys_def)

lemma live_total_Nil: "live_total ms = [] \<longleftrightarrow> \<not> (\<exists>m \<in> set ms. is_live m)"
  by (auto simp: live_total_def filter_empty_conv)

lemma audit_complete:
  assumes run: "audit_sample row ow sequence last_end run_id seen = Inr v" and st: "v_status v = COMPLETE"
  shows "complete_evidence row ow \<and> v_total v = Some (sum_list (live_total (the_list (jget row ''members''))))"
  using run
proof (rule audit_sampleD)
  fix expected s0 s1 ms
  assume ow: "a_identity ow = Inr expected" and mem: "audit_members row ow expected seen = Inr (s0, s1, ms)"
    and stat: "v_status v = audit_status (is_partial ow row s0 s1 ms) ms"
    and tot: "check_total row (v_status v) (ms_live ms) = Inr (v_total v)"
  let ?ms = "the_list (jget row ''members'')"
  note d = audit_membersD [OF mem]
  have np: "\<not> is_partial ow row s0 s1 ms" and ne: "ms_members ms \<noteq> []" "ms_live ms \<noteq> []"
    using stat st by (auto simp: audit_status_def split: if_splits)
  have ok: "members_ok ?ms ms" using d by blast
  have keys: "scan_keys s0 = scan_keys s1" using np by (simp add: is_partial_def)
  then have "fst ` set s0 = fst ` set s1" by (metis scan_keys_pids)
  moreover have "fst ` set (ms_members ms) = fst ` set s0 \<union> fst ` set s1" using d by blast
  moreover have "fst ` set (ms_members ms) = member_pid ` set ?ms" using ok unfolding members_ok_def by (metis list.set_map)
  ultimately have pids: "member_pid ` set ?ms = fst ` set s0" "member_pid ` set ?ms = fst ` set s1" by auto
  have scans: "fst ` set s0 = (\<lambda>v. int_field v ''pid'') ` set (the_list (jget row ''scan_before''))"
    "fst ` set s1 = (\<lambda>v. int_field v ''pid'') ` set (the_list (jget row ''scan_after''))"
    using arg_cong [where f = set, OF read_scan_pids [THEN conjunct1, of ow row "''scan_before''" s0]]
      arg_cong [where f = set, OF read_scan_pids [THEN conjunct1, of ow row "''scan_after''" s1]] d by simp_all
  have anchor: "a_identity (jget row n) = a_identity ow" if "n \<in> {''anchor_before'', ''anchor_after''}" for n
  proof -
    have "check_anchor row expected n = Inr ()" using d that by auto
    moreover have "jget row n \<noteq> JNull" using np ne(1) that by (auto simp: is_partial_def)
    ultimately show ?thesis using ow by (auto simp: check_anchor_def res_simps)
  qed
  have live: "ms_live ms = live_total ?ms" using ok by (simp add: members_ok_def)
  have "\<exists>m \<in> set ?ms. is_live m" using ne(2) live live_total_Nil [of ?ms] by metis
  moreover have "\<forall>m \<in> set ?ms. is_live m \<or> is_zombie m" using ok np by (auto simp: members_ok_def is_partial_def)
  moreover have "the_list (jget row ''scan_errors'') = []" "the_list (jget row ''sampling_errors'') = []"
    using np by (simp_all add: is_partial_def)
  moreover have "jget row ''group_rss_bytes'' = JInt (sum_list (live_total ?ms))" "v_total v = Some (sum_list (live_total ?ms))"
    using tot st live by (simp_all add: check_total_cases)
  moreover have "distinct (map member_pid ?ms)" "\<forall>m \<in> set ?ms. is_live m \<longrightarrow> 0 \<le> int_field m ''rss_bytes''"
    using ok by (simp_all add: members_ok_def)
  ultimately show ?thesis
    unfolding complete_evidence_def Let_def using pids scans anchor by simp
qed

section \<open>The recorder and the auditor keep the same aggregates\<close>

text \<open>The simulation: what the auditor has derived so far is what the recorder holds.\<close>

definition tracks :: "recorder \<Rightarrow> audit_state \<Rightarrow> bool" where
  "tracks rc st \<longleftrightarrow> au_data st = rc_stream rc \<and> au_size st = rc_bytes rc \<and> au_count st = rc_count rc \<and>
     au_statuses st = rc_statuses rc \<and> au_phases st = rc_phases rc \<and> au_monitor st = rc_monitor_peak rc \<and>
     au_gap st = rc_max_gap rc \<and> (case rc_last_end rc of None \<Rightarrow> au_count st = 0 | Some t \<Rightarrow> au_count st > 0 \<and> au_last st = t) \<and>
     (\<forall>p n. ps_peak (rc_phases rc p) = Some n \<longrightarrow> 0 \<le> n) \<and> (\<forall>n. rc_monitor_peak rc = Some n \<longrightarrow> 0 \<le> n) \<and>
     (\<forall>n. rc_max_gap rc = Some n \<longrightarrow> 0 \<le> n)"

lemma tracks_new: "tracks (new_recorder rid mb ms) new_audit"
  by (simp add: tracks_def new_recorder_def new_audit_def no_samples_def)

lemma max_with_or_zero: "0 \<le> n \<Longrightarrow> (\<And>m. x = Some m \<Longrightarrow> 0 \<le> m) \<Longrightarrow> max_with n x = Some (max (or_zero x) n)"
  by (cases x) (auto simp: max_with_def or_zero_def)

lemma sum_list_nonneg_int: "(\<And>x. x \<in> set xs \<Longrightarrow> (0::int) \<le> x) \<Longrightarrow> 0 \<le> sum_list xs"
  by (induction xs) auto

text \<open>The auditor's verdict on a recorded row is the recorder's own reading of it.\<close>

lemma verdict_of_row:
  assumes "audit_sample (row_json r) ow sequence last_end run_id seen = Inr v"
  shows "v_status v = r_status r \<and> v_phase v = ph_name (r_phase r) \<and> last_end \<le> r_start r \<and>
    (case v_total v of None \<Rightarrow> r_status r \<noteq> COMPLETE | Some n \<Rightarrow> r_status r = COMPLETE \<and> r_rss r = Some n \<and> 0 \<le> n)"
  using assms
proof (rule audit_sampleD)
  fix expected s0 s1 ms
  assume time: "last_end \<le> int_field (row_json r) ''start_ns''"
    and mem: "audit_members (row_json r) ow expected seen = Inr (s0, s1, ms)"
    and name: "jget (row_json r) ''sample_status'' = JStr (status_name (v_status v))"
    and tot: "check_total (row_json r) (v_status v) (ms_live ms) = Inr (v_total v)"
    and ph: "check_phase (row_json r) expected = Inr (v_phase v)"
  have ok: "members_ok (the_list (jget (row_json r) ''members'')) ms" using audit_membersD [OF mem] by simp
  have "0 \<le> sum_list (ms_live ms)"
  proof (rule sum_list_nonneg_int)
    fix x assume "x \<in> set (ms_live ms)"
    then show "0 \<le> x" using ok unfolding members_ok_def live_total_def by auto
  qed
  moreover have "v_status v = r_status r" using name by (simp add: row_get)
  moreover have "v_phase v = ph_name (r_phase r)" using check_phaseD [OF ph] by (simp add: row_get part_get)
  ultimately show ?thesis
    using tot time unfolding check_total_cases
    by (auto simp: row_get int_field_def opt_json_def split: option.splits)
qed

lemma check_order_keeps:
  assumes "check_order row p st = Inr st'"
  shows "au_data st' = au_data st \<and> au_size st' = au_size st \<and> au_count st' = au_count st \<and> au_statuses st' = au_statuses st \<and>
    au_phases st' = au_phases st \<and> au_monitor st' = au_monitor st \<and> au_gap st' = au_gap st \<and> au_last st' = au_last st \<and>
    au_owner st' = au_owner st \<and> au_seen st' = au_seen st"
  using assms unfolding check_order_def Let_def
  by (auto simp: res_simps split: if_splits option.splits)

lemma audit_lineD:
  assumes "audit_line run_id raw st = Inr st'"
  obtains row v st1 where "decode raw = Inr row" "is_dict row" "raw \<noteq> []" "last raw = LF"
    "audit_sample row (case au_owner st of None \<Rightarrow> jget row ''owner'' | Some x \<Rightarrow> x) (int (au_count st)) (au_last st) run_id (au_seen st) = Inr v"
    "check_order row (v_phase v) (st\<lparr>au_size := au_size st + length raw, au_data := au_data st @ raw,
       au_owner := (if (case au_owner st of None \<Rightarrow> jget row ''owner'' | Some x \<Rightarrow> x) = JNull then None
          else Some (case au_owner st of None \<Rightarrow> jget row ''owner'' | Some x \<Rightarrow> x)), au_seen := v_seen v\<rparr>) = Inr st1"
    "st' = aggregate row v st1"
  using assms unfolding audit_line_def Let_def
  by (cases "decode raw") (auto simp: res_simps)

lemma tally_tracks:
  assumes tr: "tracks rc st" and v: "v_status v = r_status r" "v_phase v = ph_name (r_phase r)" "au_last st \<le> r_start r"
    "case v_total v of None \<Rightarrow> r_status r \<noteq> COMPLETE | Some n \<Rightarrow> r_status r = COMPLETE \<and> r_rss r = Some n \<and> 0 \<le> n"
    and st1: "au_data st1 = au_data st @ jsonl (row_json r)" "au_size st1 = au_size st + length (jsonl (row_json r))"
      "au_count st1 = au_count st" "au_statuses st1 = au_statuses st" "au_phases st1 = au_phases st" "au_monitor st1 = au_monitor st"
      "au_gap st1 = au_gap st" "au_last st1 = au_last st"
  shows "tracks (tally r (rc\<lparr>rc_stream := rc_stream rc @ jsonl (row_json r), rc_bytes := rc_bytes rc + length (jsonl (row_json r)),
      rc_count := Suc (rc_count rc), rc_statuses := (rc_statuses rc)(r_status r := Suc (rc_statuses rc (r_status r)))\<rparr>))
    (aggregate (row_json r) v st1)"
proof -
  let ?p = "rc_phases rc (ph_name (r_phase r))"
  have nn: "0 \<le> n \<Longrightarrow> 0 \<le> max (or_zero x) n" for x n by simp
  have phase: "count_phase v ?p = tally_phase r ?p"
    using v(4) tr max_with_or_zero [of _ "ps_peak ?p"]
    by (auto simp: count_phase_def tally_phase_def tracks_def Let_def or_zero_def split: option.splits)
  have peak: "ps_peak (tally_phase r ?p) = Some n \<Longrightarrow> 0 \<le> n" for n
    using v(4) tr by (auto simp: tally_phase_def tracks_def Let_def or_zero_def split: option.splits if_splits)
  have mon: "(case v_total v of None \<Rightarrow> au_monitor st
        | Some n \<Rightarrow> if jget (row_json r) ''site'' = JStr ''runner_monitor'' then max_with n (au_monitor st) else au_monitor st) =
      (if r_status r = COMPLETE \<and> r_site r = ''runner_monitor''
        then Some (max (or_zero (rc_monitor_peak rc)) (or_zero (r_rss r))) else rc_monitor_peak rc)"
    using v(4) tr max_with_or_zero [of _ "rc_monitor_peak rc"]
    by (auto simp: tracks_def row_get or_zero_def split: option.splits)
  have gap: "(if au_count st > 0 then max_with (r_start r - au_last st) (au_gap st) else au_gap st) =
      (case rc_last_end rc of None \<Rightarrow> rc_max_gap rc | Some t \<Rightarrow> Some (max (or_zero (rc_max_gap rc)) (r_start r - t)))"
    using tr v(3) max_with_or_zero [of "r_start r - au_last st" "rc_max_gap rc"]
    by (auto simp: tracks_def split: option.splits)
  let ?rc = "tally r (rc\<lparr>rc_stream := rc_stream rc @ jsonl (row_json r), rc_bytes := rc_bytes rc + length (jsonl (row_json r)),
      rc_count := Suc (rc_count rc), rc_statuses := (rc_statuses rc)(r_status r := Suc (rc_statuses rc (r_status r)))\<rparr>)"
  let ?st = "aggregate (row_json r) v st1"
  have fld: "au_data st = rc_stream rc" "au_size st = rc_bytes rc" "au_count st = rc_count rc" "au_statuses st = rc_statuses rc"
    "au_phases st = rc_phases rc" using tr by (simp_all add: tracks_def)
  have start: "int_field (row_json r) ''start_ns'' = r_start r" "int_field (row_json r) ''end_ns'' = r_end r"
    by (simp_all add: int_field_def row_get)
  have "au_data ?st = rc_stream ?rc" "au_size ?st = rc_bytes ?rc" "au_count ?st = rc_count ?rc" "au_statuses ?st = rc_statuses ?rc"
    by (simp_all add: aggregate_def tally_def st1 fld v(1))
  moreover have "au_phases ?st = rc_phases ?rc" by (simp add: aggregate_def tally_def st1 fld v(2) phase)
  moreover have "au_monitor ?st = rc_monitor_peak ?rc" using mon [folded st1(6)] by (simp add: aggregate_def tally_def)
  moreover have "au_gap ?st = rc_max_gap ?rc" using gap by (simp add: aggregate_def tally_def st1 start cong: option.case_cong split: if_splits)
  moreover have "rc_last_end ?rc = Some (r_end r)" "au_last ?st = r_end r" "au_count ?st > 0"
    by (simp_all add: tally_def aggregate_def start)
  moreover have "\<forall>p n. ps_peak (rc_phases ?rc p) = Some n \<longrightarrow> 0 \<le> n" using peak tr by (auto simp: tally_def tracks_def)
  moreover have "\<forall>n. rc_monitor_peak ?rc = Some n \<longrightarrow> 0 \<le> n"
    using tr v(4) by (auto simp: tally_def tracks_def or_zero_def split: option.splits)
  moreover have "\<forall>n. rc_max_gap ?rc = Some n \<longrightarrow> 0 \<le> n"
    using tr v(3) by (auto simp: tally_def tracks_def split: option.splits)
  ultimately show ?thesis unfolding tracks_def by simp
qed

text \<open>One row, appended and audited.\<close>

lemma append_tracks:
  assumes app: "append_row out r rc = (rc', Inr ())" and line: "audit_line run_id (jsonl (row_json r)) st = Inr st'"
    and tr: "tracks rc st"
  shows "tracks rc' st'"
proof (cases rule: append_row_cases [of out r rc])
  case (3 rc1)
  from line obtain row v st1 where row: "decode (jsonl (row_json r)) = Inr row"
    and smp: "audit_sample row (case au_owner st of None \<Rightarrow> jget row ''owner'' | Some x \<Rightarrow> x) (int (au_count st)) (au_last st) run_id (au_seen st) = Inr v"
    and ord: "check_order row (v_phase v) (st\<lparr>au_size := au_size st + length (jsonl (row_json r)), au_data := au_data st @ jsonl (row_json r),
       au_owner := (if (case au_owner st of None \<Rightarrow> jget row ''owner'' | Some x \<Rightarrow> x) = JNull then None
          else Some (case au_owner st of None \<Rightarrow> jget row ''owner'' | Some x \<Rightarrow> x)), au_seen := v_seen v\<rparr>) = Inr st1"
    and st': "st' = aggregate row v st1" by (rule audit_lineD)
  have r: "row = row_json r" using row by (simp add: decode_row)
  note v = verdict_of_row [OF smp [unfolded r]]
  have rc': "rc' = tally r rc1" using app 3(4) by (auto split: if_splits)
  show ?thesis
    unfolding rc' 3(3) st' r
    by (rule tally_tracks [OF tr]) (use v check_order_keeps [OF ord] in simp_all)
qed (use app in auto)

end
