(* ===== verification/Group_Stream.thy ===== *)
theory Group_Stream
  imports Group_Proofs
begin

text \<open>
  The evidence stream as a whole: the auditor accepts the summary of a recorder for every stream
  whose rows it accepts, and the rows of an audited stream are in order.
\<close>

section \<open>Lines\<close>

lemma readline_line:
  "LF \<notin> set d \<Longrightarrow> length d \<le> n \<Longrightarrow> readline (Suc n) (d @ LF # rest) = (d @ [LF], rest)"
proof (induction d arbitrary: n)
  case (Cons a d)
  then obtain m where "n = Suc m" "length d \<le> m" by (cases n) auto
  with Cons show ?case by (auto simp: cons_fst_def)
qed simp

lemma raw_lines_concat:
  "\<forall>l \<in> set ls. \<exists>d. l = d @ [LF] \<and> LF \<notin> set d \<and> length d \<le> n \<Longrightarrow> raw_lines n (concat ls) = ls"
proof (induction ls)
  case Nil
  then show ?case by (simp add: raw_lines.simps)
next
  case (Cons l ls)
  then obtain d where d: "l = d @ [LF]" "LF \<notin> set d" "length d \<le> n" by auto
  have "readline (Suc n) (concat (l # ls)) = (l, concat ls)" using readline_line [OF d(2,3), of "concat ls"] d(1) by simp
  with Cons d(1) show ?case by (subst raw_lines.simps) simp
qed

lemma raw_lines_jsonl:
  assumes "\<forall>v \<in> set vs. length (jsonl v) \<le> Suc n"
  shows "raw_lines n (concat (map jsonl vs)) = map jsonl vs"
  by (rule raw_lines_concat) (use assms dumps_one_line in \<open>auto simp: jsonl_def\<close>)

section \<open>Recording and auditing a whole run\<close>

definition store_row :: "row \<Rightarrow> recorder \<Rightarrow> recorder res" where
  "store_row r rc = (case append_row (Inr ()) r rc of (rc', Inr u) \<Rightarrow> Inr rc' | (rc', Inl e) \<Rightarrow> Inl e)"

lemma store_row_Inr: "store_row r rc = Inr rc' \<longleftrightarrow> append_row (Inr ()) r rc = (rc', Inr ())"
  by (auto simp: store_row_def split: prod.splits sum.splits)

lemma stored_tracks:
  assumes "fold_res store_row rows (new_recorder rid mb ms) = Inr rc"
    and "fold_res (audit_line run_id) (map (\<lambda>r. jsonl (row_json r)) rows) new_audit = Inr st"
  shows "tracks rc st \<and> holds_rows rows rc \<and> (rows \<noteq> [] \<longrightarrow> rc_error rc = None)"
  using assms
proof (induction rows arbitrary: rc st rule: rev_induct)
  case Nil
  then show ?case using tracks_new holds_new by auto
next
  case (snoc r rows)
  from snoc.prems(1) obtain rc1 where rc1: "fold_res store_row rows (new_recorder rid mb ms) = Inr rc1"
    and app: "append_row (Inr ()) r rc1 = (rc, Inr ())" by (auto simp: fold_res_append res_simps store_row_Inr)
  from snoc.prems(2) obtain st1 where st1: "fold_res (audit_line run_id) (map (\<lambda>r. jsonl (row_json r)) rows) new_audit = Inr st1"
    and line: "audit_line run_id (jsonl (row_json r)) st1 = Inr st" by (auto simp: fold_res_append res_simps)
  from snoc.IH [OF rc1 st1] append_tracks [OF app line] append_Inr [OF app] show ?case by auto
qed

lemma stored_run_id: "fold_res store_row rows rc = Inr rc' \<Longrightarrow> rc_run_id rc' = rc_run_id rc"
proof (rule fold_res_invariant [of rows "\<lambda>x. rc_run_id x = rc_run_id rc" store_row])
  fix x s s' assume "rc_run_id s = rc_run_id rc" "store_row x s = Inr s'"
  then show "rc_run_id s' = rc_run_id rc"
    by (cases rule: append_row_cases [of "Inr ()" x s]) (auto simp: store_row_Inr tally_keeps split: if_splits)
qed simp_all

definition summary_json :: "(string \<Rightarrow> string) \<Rightarrow> int option \<Rightarrow> recorder \<Rightarrow> json" where
  "summary_json sha legacy rc = JObj ([(''contract'', JStr CONTRACT), (''schema_version'', JInt VERSION), (''run_id'', JStr (rc_run_id rc)),
          (''legacy_runner_peak_bytes'', opt_json JInt legacy), (''storage_complete'', JBool (rc_error rc = None)),
          (''storage_error'', opt_json JStr (rc_error rc))] @
          derived_json sha (rc_stream rc) (rc_bytes rc) (rc_count rc) (rc_statuses rc) (rc_phases rc)
            (rc_monitor_peak rc) (rc_max_gap rc))"

lemma close_recorder_ok: "close_recorder sha (Inr ()) legacy rc = Inr (rc, summary_json sha legacy rc)"
  by (simp add: close_recorder_def summary_json_def)

lemma json_ok_opt: "json_ok (opt_json JInt x)" "json_ok (opt_json JStr y)"
  by (simp_all add: json_ok_def opt_json_def split: option.split)

lemma json_ok_summary: "json_ok (summary_json sha legacy rc)"
  using json_ok_opt
  by (auto simp: summary_json_def derived_json_def json_ok_def STATUSES_def PHASES_def phase_stat_json_def)

lemma summary_get:
  "jget (summary_json sha legacy rc) ''contract'' = JStr CONTRACT"
  "jget (summary_json sha legacy rc) ''schema_version'' = JInt VERSION"
  "jget (summary_json sha legacy rc) ''run_id'' = JStr (rc_run_id rc)"
  "jget (summary_json sha legacy rc) ''storage_complete'' = JBool (rc_error rc = None)"
  "jget (summary_json sha legacy rc) ''storage_error'' = opt_json JStr (rc_error rc)"
  "jget (summary_json sha legacy rc) ''legacy_runner_peak_bytes'' = opt_json JInt legacy"
  by (simp_all add: summary_json_def jget_def)

lemma derived_in_summary:
  "list_all (\<lambda>(k, value). has_key (summary_json sha legacy rc) k \<and> jget (summary_json sha legacy rc) k = value)
     (derived_json sha (rc_stream rc) (rc_bytes rc) (rc_count rc) (rc_statuses rc) (rc_phases rc)
            (rc_monitor_peak rc) (rc_max_gap rc))"
  by (simp add: derived_json_def summary_json_def has_key_def keys_def jget_def)

lemma audit_accepts_summary:
  assumes store: "fold_res store_row rows (new_recorder rid mb ms) = Inr rc" and ne: "rows \<noteq> []"
    and audited: "fold_res (audit_line (JStr rid)) (map (\<lambda>r. jsonl (row_json r)) rows) new_audit = Inr st"
    and rid: "fullmatch_hex 32 rid" and small: "length (encoded (summary_json sha None rc)) \<le> MAX_RECORD_BYTES"
  shows "audit sha (rc_stream rc) (encoded (summary_json sha None rc)) rr =
    Inr \<lparr>ar_derived = audit_derived sha st, ar_all_complete = (rc_statuses rc COMPLETE = rc_count rc),
          ar_has_partial = (rc_statuses rc PARTIAL > 0)\<rparr>"
proof -
  let ?s = "summary_json sha None rc"
  have tr: "tracks rc st" "holds_rows rows rc" "rc_error rc = None" using stored_tracks [OF store audited] ne by auto
  have id: "rc_run_id rc = rid" using stored_run_id [OF store] by (simp add: new_recorder_def)
  have dec: "decode (encoded ?s) = Inr (sort_keys ?s)"
    by (simp add: decode_def encoded_codec.read_render json_ok_summary)
  have get: "jget (sort_keys ?s) k = sort_keys (jget ?s k)" for k
    by (rule jget_sort_keys) (use json_ok_summary in \<open>simp add: json_ok_def\<close>)
  have dict: "is_dict (sort_keys ?s)" by (simp add: summary_json_def)
  have lines: "raw_lines MAX_RECORD_BYTES (rc_stream rc) = map (\<lambda>r. jsonl (row_json r)) rows"
  proof -
    have "\<forall>v \<in> set (map row_json rows). length (jsonl v) \<le> Suc MAX_RECORD_BYTES" using tr(2) by (auto simp: holds_rows_def)
    from raw_lines_jsonl [OF this] show ?thesis using tr(2) by (simp add: holds_rows_def comp_def)
  qed
  have der: "audit_derived sha st = derived_json sha (rc_stream rc) (rc_bytes rc) (rc_count rc) (rc_statuses rc) (rc_phases rc)
            (rc_monitor_peak rc) (rc_max_gap rc)" using tr(1) by (simp add: audit_derived_def tracks_def)
  have agree: "list_all (\<lambda>(k, value). has_key (sort_keys ?s) k \<and> dumps (jget (sort_keys ?s) k) = dumps value) (audit_derived sha st)"
    using derived_in_summary [of sha None rc] unfolding der get
    by (auto simp: list_all_iff dumps_def sort_keys_idem)
  have cnt: "au_count st > 0" "au_statuses st = rc_statuses rc" "au_count st = rc_count rc"
    using tr ne by (simp_all add: tracks_def holds_rows_def)
  show ?thesis
    unfolding audit_def dec
    using dict small rid agree cnt id tr(3)
    by (simp add: get summary_get lines audited check_legacy_def opt_json_def)
qed

section \<open>An audited stream is in order\<close>

definition row_start :: "json \<Rightarrow> int" where "row_start row = int_field row ''start_ns''"
definition row_end :: "json \<Rightarrow> int" where "row_end row = int_field row ''end_ns''"
definition row_phase :: "json \<Rightarrow> string" where "row_phase row = the_str (jget (jget row ''phase'') ''name'')"
definition row_event :: "json \<Rightarrow> int" where "row_event row = int_field (jget (jget row ''phase'') ''event'') ''monotonic_ns''"

text \<open>
  In order: numbered from zero, not overlapping in time, one owner throughout; the named phases
  never step back, and neither do their events; a workload sample comes after a readiness
  sample, and its release was acknowledged after the readiness sample had ended.
\<close>

definition in_order :: "json list \<Rightarrow> bool" where
  "in_order rows \<longleftrightarrow>
     (\<forall>i < length rows. jget (rows ! i) ''sequence'' = JInt (int i) \<and> row_start (rows ! i) \<le> row_end (rows ! i) \<and>
        (\<exists>k. a_identity (jget (rows ! i) ''owner'') = Inr k \<and> a_identity (jget (rows ! 0) ''owner'') = Inr k)) \<and>
     (\<forall>j < length rows. \<forall>i < j. row_end (rows ! i) \<le> row_start (rows ! j)) \<and>
     (\<forall>j < length rows. \<forall>i < j. row_phase (rows ! i) \<noteq> ''unknown'' \<longrightarrow> row_phase (rows ! j) \<noteq> ''unknown'' \<longrightarrow>
        phase_rank (row_phase (rows ! i)) \<le> phase_rank (row_phase (rows ! j)) \<and> row_event (rows ! i) \<le> row_event (rows ! j)) \<and>
     (\<forall>j < length rows. row_phase (rows ! j) = ''workload'' \<longrightarrow>
        (\<exists>i < j. row_phase (rows ! i) = ''readiness'' \<and> row_end (rows ! i) \<le> row_event (rows ! j)))"

text \<open>What the auditor's state remembers of the rows it has read.\<close>

definition remembers :: "json list \<Rightarrow> audit_state \<Rightarrow> bool" where
  "remembers rows st \<longleftrightarrow>
     in_order rows \<and> au_count st = length rows \<and>
     (if rows = [] then au_owner st = None else au_owner st = Some (jget (rows ! 0) ''owner'') \<and> au_last st = row_end (last rows)) \<and>
     (\<forall>r \<in> set rows. row_end r \<le> au_last st) \<and>
     (\<forall>r \<in> set rows. row_phase r \<noteq> ''unknown'' \<longrightarrow> phase_rank (row_phase r) \<le> au_rank st \<and> row_event r \<le> au_event st) \<and>
     (ps_samples (au_phases st ''readiness'') > 0 \<longrightarrow>
        (\<exists>r \<in> set rows. row_phase r = ''readiness'' \<and> au_readiness_end st = Some (row_end r)))"

lemma remembers_new: "remembers [] new_audit"
  by (simp add: remembers_def in_order_def new_audit_def no_samples_def)

lemma in_order_snoc:
  assumes "in_order rows" "jget row ''sequence'' = JInt (int (length rows))" "row_start row \<le> row_end row"
    "a_identity (jget row ''owner'') = Inr k" "rows \<noteq> [] \<Longrightarrow> a_identity (jget (rows ! 0) ''owner'') = Inr k"
    "\<forall>r \<in> set rows. row_end r \<le> row_start row"
    "row_phase row \<noteq> ''unknown'' \<Longrightarrow> \<forall>r \<in> set rows. row_phase r \<noteq> ''unknown'' \<longrightarrow>
       phase_rank (row_phase r) \<le> phase_rank (row_phase row) \<and> row_event r \<le> row_event row"
    "row_phase row = ''workload'' \<Longrightarrow> \<exists>r \<in> set rows. row_phase r = ''readiness'' \<and> row_end r \<le> row_event row"
  shows "in_order (rows @ [row])"
proof -
  have idx: "i < Suc (length rows) \<Longrightarrow> i = length rows \<or> i < length rows" for i by auto
  have zero: "(rows @ [row]) ! 0 = (if rows = [] then row else rows ! 0)" by (cases rows) auto
  show ?thesis
    unfolding in_order_def length_append_singleton
  proof (intro conjI allI impI)
    fix i assume i: "i < Suc (length rows)"
    show "jget ((rows @ [row]) ! i) ''sequence'' = JInt (int i)" "row_start ((rows @ [row]) ! i) \<le> row_end ((rows @ [row]) ! i)"
      using idx [OF i] assms(1-3) by (auto simp: in_order_def nth_append)
    show "\<exists>k. a_identity (jget ((rows @ [row]) ! i) ''owner'') = Inr k \<and> a_identity (jget ((rows @ [row]) ! 0) ''owner'') = Inr k"
    proof (cases "rows = []")
      case True
      then show ?thesis using i assms(4) by simp
    next
      case False
      then have z: "(rows @ [row]) ! 0 = rows ! 0" by (simp add: nth_append)
      show ?thesis
      proof (cases "i = length rows")
        case True
        then show ?thesis using z assms(4,5) False by simp
      next
        case no: False
        then have "i < length rows" using i by simp
        then show ?thesis using z assms(1) by (simp add: in_order_def nth_append)
      qed
    qed
  next
    fix j i assume j: "j < Suc (length rows)" and i: "i < j"
    show "row_end ((rows @ [row]) ! i) \<le> row_start ((rows @ [row]) ! j)"
      using idx [OF j] i assms(1,6) by (auto simp: in_order_def nth_append)
    assume "row_phase ((rows @ [row]) ! i) \<noteq> ''unknown''" "row_phase ((rows @ [row]) ! j) \<noteq> ''unknown''"
    then show "phase_rank (row_phase ((rows @ [row]) ! i)) \<le> phase_rank (row_phase ((rows @ [row]) ! j))"
      "row_event ((rows @ [row]) ! i) \<le> row_event ((rows @ [row]) ! j)"
      using idx [OF j] i assms(1,7) by (auto simp: in_order_def nth_append)
  next
    fix j assume j: "j < Suc (length rows)" and w: "row_phase ((rows @ [row]) ! j) = ''workload''"
    show "\<exists>i < j. row_phase ((rows @ [row]) ! i) = ''readiness'' \<and> row_end ((rows @ [row]) ! i) \<le> row_event ((rows @ [row]) ! j)"
    proof (cases "j = length rows")
      case True
      with w assms(8) obtain r where "r \<in> set rows" "row_phase r = ''readiness''" "row_end r \<le> row_event row" by auto
      with True show ?thesis by (auto simp: in_set_conv_nth nth_append)
    next
      case False
      with j have "j < length rows" by simp
      with w assms(1) obtain i where "i < j" "row_phase (rows ! i) = ''readiness''" "row_end (rows ! i) \<le> row_event (rows ! j)"
        by (auto simp: in_order_def nth_append)
      with \<open>j < length rows\<close> show ?thesis by (intro exI [of _ i]) (simp add: nth_append)
    qed
  qed
qed

lemma check_orderD:
  assumes "check_order row p st = Inr st'" "p \<noteq> ''unknown''"
  shows "au_rank st \<le> phase_rank p \<and> au_event st \<le> row_event row \<and> au_rank st' = phase_rank p \<and> au_event st' = row_event row \<and>
    (p = ''workload'' \<longrightarrow> ps_samples (au_phases st ''readiness'') > 0 \<and> (\<exists>t. au_readiness_end st = Some t \<and> t \<le> row_event row)) \<and>
    au_readiness_end st' = (if p = ''readiness'' then Some (row_end row) else au_readiness_end st)"
proof -
  consider (w) "p = ''workload''" | (r) "p = ''readiness''" | (c) "p \<noteq> ''workload''" "p \<noteq> ''readiness''" by blast
  then show ?thesis
  proof cases
    case w
    then show ?thesis using assms unfolding check_order_def Let_def row_event_def
      by (cases "au_readiness_end st") (auto simp: res_simps)
  next
    case r
    then show ?thesis using assms unfolding check_order_def Let_def row_event_def row_end_def by (auto simp: res_simps)
  next
    case c
    then show ?thesis using assms unfolding check_order_def Let_def row_event_def by (auto simp: res_simps)
  qed
qed

lemma check_order_unknown: "check_order row ''unknown'' st = Inr st"
  by (simp add: check_order_def)

lemma last_row_end: "rows \<noteq> [] \<Longrightarrow> (\<forall>r \<in> set rows. row_end r \<le> l) \<Longrightarrow> row_end (last rows) \<le> l"
  by simp

lemma count_phase_samples: "ps_samples (count_phase v p) = Suc (ps_samples p)"
  by (simp add: count_phase_def Let_def split: option.split)

lemma aggregate_fields:
  "au_count (aggregate row v st) = Suc (au_count st)" "au_last (aggregate row v st) = row_end row"
  "au_owner (aggregate row v st) = au_owner st" "au_rank (aggregate row v st) = au_rank st"
  "au_event (aggregate row v st) = au_event st" "au_readiness_end (aggregate row v st) = au_readiness_end st"
  "ps_samples (au_phases (aggregate row v st) p) = (if p = v_phase v then Suc (ps_samples (au_phases st p)) else ps_samples (au_phases st p))"
  by (simp_all add: aggregate_def row_end_def count_phase_samples)

lemma audit_line_remembers:
  assumes line: "audit_line run_id raw st = Inr st'" and rem: "remembers rows st"
  shows "\<exists>row. decode raw = Inr row \<and> remembers (rows @ [row]) st'"
proof -
  from line obtain row v st1 where dec: "decode raw = Inr row"
    and smp: "audit_sample row (case au_owner st of None \<Rightarrow> jget row ''owner'' | Some x \<Rightarrow> x) (int (au_count st)) (au_last st) run_id (au_seen st) = Inr v"
    and ord: "check_order row (v_phase v) (st\<lparr>au_size := au_size st + length raw, au_data := au_data st @ raw,
       au_owner := (if (case au_owner st of None \<Rightarrow> jget row ''owner'' | Some x \<Rightarrow> x) = JNull then None
          else Some (case au_owner st of None \<Rightarrow> jget row ''owner'' | Some x \<Rightarrow> x)), au_seen := v_seen v\<rparr>) = Inr st1"
    and st': "st' = aggregate row v st1" by (rule audit_lineD)
  let ?ow = "case au_owner st of None \<Rightarrow> jget row ''owner'' | Some x \<Rightarrow> x"
  obtain k where k: "jget row ''sequence'' = JInt (int (au_count st))" "au_last st \<le> row_start row" "row_start row \<le> row_end row"
    "a_identity ?ow = Inr k" "a_identity (jget row ''owner'') = Inr k" "v_phase v = row_phase row"
    using smp by (rule audit_sampleD) (auto simp: row_start_def row_end_def row_phase_def dest!: check_phaseD)
  have nn: "?ow \<noteq> JNull" using k(4) by (auto simp: a_identity_def res_simps)
  have st1: "au_owner st1 = Some ?ow" "au_count st1 = au_count st" "au_phases st1 = au_phases st"
    using check_order_keeps [OF ord] nn by simp_all
  let ?p = "row_phase row"
  have unk: "au_rank st1 = au_rank st" "au_event st1 = au_event st" "au_readiness_end st1 = au_readiness_end st" if "?p = ''unknown''"
    using ord that k(6) by (auto simp: check_order_unknown)
  have kn: "au_rank st \<le> phase_rank ?p" "au_event st \<le> row_event row" "au_rank st1 = phase_rank ?p" "au_event st1 = row_event row"
    "?p = ''workload'' \<longrightarrow> ps_samples (au_phases st ''readiness'') > 0 \<and> (\<exists>t. au_readiness_end st = Some t \<and> t \<le> row_event row)"
    "au_readiness_end st1 = (if ?p = ''readiness'' then Some (row_end row) else au_readiness_end st)" if "?p \<noteq> ''unknown''"
    using check_orderD [OF ord] that k(6) by simp_all
  have own: "?ow = (if rows = [] then jget row ''owner'' else jget (rows ! 0) ''owner'')"
    using rem by (simp add: remembers_def split: if_splits)
  have before: "\<forall>r \<in> set rows. row_end r \<le> row_start row" using rem k(2) by (auto simp: remembers_def)
  have "in_order (rows @ [row])"
  proof (rule in_order_snoc [where k = k])
    show "in_order rows" "jget row ''sequence'' = JInt (int (length rows))" using rem k(1) by (simp_all add: remembers_def)
    show "rows \<noteq> [] \<Longrightarrow> a_identity (jget (rows ! 0) ''owner'') = Inr k" using own k(4) by simp
    show "\<forall>r \<in> set rows. row_phase r \<noteq> ''unknown'' \<longrightarrow> phase_rank (row_phase r) \<le> phase_rank ?p \<and> row_event r \<le> row_event row"
      if "?p \<noteq> ''unknown''" using rem kn(1,2) [OF that] by (fastforce simp: remembers_def)
    show "\<exists>r \<in> set rows. row_phase r = ''readiness'' \<and> row_end r \<le> row_event row" if w: "?p = ''workload''"
    proof -
      obtain t where "ps_samples (au_phases st ''readiness'') > 0" "au_readiness_end st = Some t" "t \<le> row_event row"
        using kn(5) w by auto
      then show ?thesis using rem by (auto simp: remembers_def)
    qed
  qed (use k before in simp_all)
  moreover have "\<forall>r \<in> set (rows @ [row]). row_end r \<le> row_end row" using before k(3) by force
  moreover have "\<forall>r \<in> set (rows @ [row]). row_phase r \<noteq> ''unknown'' \<longrightarrow> phase_rank (row_phase r) \<le> au_rank st1 \<and> row_event r \<le> au_event st1"
    using rem unk kn by (cases "?p = ''unknown''") (fastforce simp: remembers_def)+
  moreover have "ps_samples (au_phases st' ''readiness'') > 0 \<longrightarrow>
      (\<exists>r \<in> set (rows @ [row]). row_phase r = ''readiness'' \<and> au_readiness_end st1 = Some (row_end r))"
  proof (cases "?p = ''readiness''")
    case True
    then show ?thesis using kn(6) by simp
  next
    case False
    then have "au_readiness_end st1 = au_readiness_end st" using unk(3) kn(6) by (cases "?p = ''unknown''") simp_all
    then show ?thesis using rem False k(6) by (auto simp: remembers_def st' aggregate_fields st1)
  qed
  moreover have "au_owner st' = Some (jget ((rows @ [row]) ! 0) ''owner'')"
    using own by (simp add: st' aggregate_fields st1 nth_append)
  moreover have "au_count st' = length (rows @ [row])" using rem by (simp add: remembers_def st' aggregate_fields st1)
  ultimately have "remembers (rows @ [row]) st'" unfolding remembers_def by (simp add: st' aggregate_fields)
  with dec show ?thesis by blast
qed

lemma audit_fold_remembers:
  assumes "fold_res (audit_line run_id) ls st = Inr st'" "remembers rows st"
  shows "\<exists>new. map_res decode ls = Inr new \<and> remembers (rows @ new) st'"
  using assms
proof (induction ls arbitrary: rows st)
  case Nil
  then show ?case by simp
next
  case (Cons l ls)
  from Cons.prems(1) obtain st1 where st1: "audit_line run_id l st = Inr st1" "fold_res (audit_line run_id) ls st1 = Inr st'"
    by (auto simp: res_simps)
  obtain row where row: "decode l = Inr row" "remembers (rows @ [row]) st1" using audit_line_remembers [OF st1(1) Cons.prems(2)] by blast
  from Cons.IH [OF st1(2) row(2)] obtain new where "map_res decode ls = Inr new" "remembers ((rows @ [row]) @ new) st'" by blast
  with row(1) show ?case by simp
qed

end
