(* ===== verification/Group_Agree.thy ===== *)
theory Group_Agree
  imports Group_Stream
begin

text \<open>
  The producer and the auditor agree: a sample that the observer calls usable (\<open>COMPLETE\<close>,
  \<open>ZOMBIE_ONLY\<close> or \<open>NO_LIVE_MEMBERS\<close>, the ones the monitor goes on with) is accepted by the auditor
  with the same status and the same total, when the host behaves like a Linux host: PIDs above 1,
  one entry per PID, one-letter states, and no process that comes back from the dead.
\<close>

section \<open>Values a host can show\<close>

definition ident_sane :: "'a ident_scheme \<Rightarrow> bool" where
  "ident_sane i \<longleftrightarrow> 1 < p_pid i \<and> 1 < p_pgid i \<and> 1 < p_sid i \<and> 0 \<le> p_ticks i \<and> valid_state (JStr (p_state i))"

definition bytes_sane :: "int option \<Rightarrow> bool" where
  "bytes_sane x \<longleftrightarrow> (\<forall>n. x = Some n \<longrightarrow> 0 \<le> n \<and> n \<le> MAX_RSS_BYTES)"

definition member_sane :: "ident list \<Rightarrow> member \<Rightarrow> bool" where
  "member_sane closing m \<longleftrightarrow> ident_sane (m_before m) \<and> bytes_sane (m_rss m) \<and>
     (\<forall>a. m_after m = Some a \<longrightarrow> ident_sane a \<and> (dead_state (p_state (m_before m)) \<longrightarrow> dead_state (p_state a)) \<and>
        (\<forall>c \<in> set closing. p_pid c = p_pid (m_before m) \<longrightarrow> dead_state (p_state a) \<longrightarrow> dead_state (p_state c)))"

definition phase_sane :: "row \<Rightarrow> bool" where
  "phase_sane r \<longleftrightarrow> (case ph_event (r_phase r) of
      None \<Rightarrow> ph_name (r_phase r) = ''unknown''
    | Some e \<Rightarrow> ph_name (r_phase r) \<in> {''readiness'', ''workload'', ''cleanup''} \<and> ev_kind e = phase_kind (ph_name (r_phase r)) \<and>
        0 \<le> ev_ns e \<and> ev_ns e \<le> r_start r \<and> key_values (ev_owner e) = key_values (r_owner r))"

definition host_sane :: "row \<Rightarrow> bool" where
  "host_sane r \<longleftrightarrow> ident_sane (r_owner r) \<and> p_pid (r_owner r) = p_pgid (r_owner r) \<and> p_pgid (r_owner r) = p_sid (r_owner r) \<and>
     (\<forall>a. r_anchor_before r = Some a \<or> r_anchor_after r = Some a \<longrightarrow> ident_sane a) \<and>
     (\<forall>i \<in> set (r_scan_before r @ r_scan_after r). ident_sane i) \<and>
     distinct (map p_pid (r_scan_before r)) \<and> distinct (map p_pid (r_scan_after r)) \<and>
     (\<forall>m \<in> set (r_members r). member_sane (r_scan_after r) m) \<and> bytes_sane (r_available r) \<and>
     0 \<le> r_start r \<and> r_start r \<le> r_end r \<and> phase_sane r \<and> r_site r \<in> {''runner_monitor'', ''cleanup_check''}"

lemma a_identity_ident: "ident_sane i \<Longrightarrow> a_identity (ident_json i) = Inr (key_values i)"
  by (simp add: a_identity_def part_get key_values_def ident_sane_def)

lemma a_identity_owner: "ident_sane i \<Longrightarrow> a_identity (owner_json i) = Inr (key_values i)"
  by (simp add: a_identity_def part_get key_values_def ident_sane_def)

lemma hd_key_values [simp]: "hd (key_values i) = p_pid i"
  by (simp add: key_values_def)

section \<open>The scans\<close>

definition table :: "ident list \<Rightarrow> scan_table" where
  "table is = map (\<lambda>i. (p_pid i, key_values i, ident_json i)) is"

lemma table_pids: "fst ` set (table is) = p_pid ` set is"
  by (force simp: table_def)

lemma fold_scan_table:
  assumes "\<forall>i \<in> set is. ident_sane i \<and> p_pgid i = p_pgid ow \<and> p_sid i = p_sid ow" "distinct (map p_pid (done @ is))"
  shows "fold_res (scan_step (owner_json ow)) (map ident_json is) (table done) = Inr (table (done @ is))"
  using assms
proof (induction "is" arbitrary: "done")
  case (Cons i "is")
  have "scan_step (owner_json ow) (ident_json i) (table done) = Inr (table (done @ [i]))"
    using Cons.prems by (auto simp: scan_step_def a_identity_ident part_get requires_def table_pids) (auto simp: table_def)
  then show ?case using Cons.IH [of "done @ [i]"] Cons.prems by simp
qed simp

lemma read_scan_table:
  assumes "jget row name = JArr (map ident_json is)" "length is \<le> MAX_MEMBERS"
    "\<forall>i \<in> set is. ident_sane i \<and> p_pgid i = p_pgid ow \<and> p_sid i = p_sid ow" "distinct (map p_pid is)"
  shows "read_scan (owner_json ow) row name = Inr (table is)"
  using fold_scan_table [of "is" ow "[]"] assms by (simp add: read_scan_def table_def)

lemma map_of_table: "distinct (map p_pid is) \<Longrightarrow> i \<in> set is \<Longrightarrow> map_of (table is) (p_pid i) = Some (key_values i, ident_json i)"
  unfolding table_def by (rule map_of_is_SomeI) (auto simp: comp_def)

lemma map_of_table_None: "map_of (table is) pid = None \<longleftrightarrow> pid \<notin> p_pid ` set is"
  by (simp add: map_of_eq_None_iff table_pids)

section \<open>The members\<close>

lemma ident_json_not_null [simp]: "ident_json x \<noteq> JNull"
  by (simp add: ident_json_def)

lemma check_after_ok:
  assumes "ident_sane a" "key_values a = key_values b" "dead_state (p_state b) \<longrightarrow> dead_state (p_state a)"
  shows "check_after (ident_json b) (key_values b) (ident_json a) = Inr ()"
  using assms by (simp add: check_after_def a_identity_ident part_get dead_json_def requires_def)

lemma check_closing_ok:
  assumes "distinct (map p_pid closing)" "c \<in> set closing" "key_values c = key_values b" "dead_state (p_state a) \<longrightarrow> dead_state (p_state c)"
    "dead_state (p_state b) \<longrightarrow> dead_state (p_state a)"
  shows "check_closing (table closing) (p_pid b) (key_values b) (ident_json b) (ident_json a) = Inr ()"
proof -
  have "p_pid b = p_pid c" using assms(3) by (simp add: key_values_def)
  then have "map_of (table closing) (p_pid b) = Some (key_values b, ident_json c)" using map_of_table [OF assms(1,2)] assms(3) by simp
  then show ?thesis using assms(4,5) by (auto simp: check_closing_def dead_json_def part_get requires_def)
qed

definition seen_after :: "(int \<times> int) list \<Rightarrow> member list \<Rightarrow> (int \<times> int) list" where
  "seen_after seen ms = foldl (\<lambda>s m. AList.update (p_pid (m_before m)) (p_ticks (m_before m)) s) seen ms"

definition live_values :: "member list \<Rightarrow> int list" where
  "live_values ms = map (\<lambda>m. case m_rss m of Some n \<Rightarrow> n | None \<Rightarrow> 0) (filter (\<lambda>m. m_status m = LIVE) ms)"

definition after_members :: "(int \<times> int) list \<Rightarrow> member list \<Rightarrow> member_state" where
  "after_members seen ms = \<lparr>ms_members = map (\<lambda>m. (p_pid (m_before m), key_values (m_before m))) ms,
     ms_live = live_values ms, ms_partial = False, ms_seen = seen_after seen ms\<rparr>"

lemma judge_ok:
  assumes "distinct (map p_pid closing)" "c \<in> set closing" "key_values c = key_values (m_before m)"
    "m_status m \<in> {LIVE, ZOMBIE}" "member_ok m" "m_after m = Some a" "m_status m = ZOMBIE \<longrightarrow> dead_state (p_state a)"
  shows "judge_member (table closing) (p_pid (m_before m)) (key_values (m_before m)) (ident_json (m_before m)) (ident_json a)
      (opt_json JInt (m_rss m)) (JStr (member_status_name (m_status m))) ms =
    Inr (ms\<lparr>ms_live := ms_live ms @ (if m_status m = LIVE then [case m_rss m of Some n \<Rightarrow> n | None \<Rightarrow> 0] else [])\<rparr>)"
proof -
  have "p_pid (m_before m) = p_pid c" using assms(3) by (simp add: key_values_def)
  then have mo: "map_of (table closing) (p_pid (m_before m)) = Some (key_values (m_before m), ident_json c)"
    using map_of_table [OF assms(1,2)] assms(3) by simp

  from assms(4) consider "m_status m = LIVE" | "m_status m = ZOMBIE" by auto
  then show ?thesis
  proof cases
    case 1
    then obtain n where "m_rss m = Some n" "\<not> dead_state (p_state (m_before m))" "\<not> dead_state (p_state a)"
      using assms(5,6) by (auto simp: member_ok_def)
    then show ?thesis using 1 mo by (simp add: judge_member_def dead_json_def part_get opt_json_def)
  next
    case 2
    then have "m_rss m = None" "dead_state (p_state (m_before m))" "dead_state (p_state a)"
      using assms(5-7) by (auto simp: member_ok_def)
    then show ?thesis using 2 by (simp add: judge_member_def dead_json_def part_get opt_json_def)
  qed
qed

lemma after_members_pids: "fst ` set (ms_members (after_members seen ms)) = p_pid ` m_before ` set ms"
  by (auto simp: after_members_def image_image)

lemma after_members_snoc:
  "after_members seen (done @ [m]) = (after_members seen done)\<lparr>
     ms_seen := AList.update (p_pid (m_before m)) (p_ticks (m_before m)) (seen_after seen done),
     ms_live := live_values done @ (if m_status m = LIVE then [case m_rss m of Some n \<Rightarrow> n | None \<Rightarrow> 0] else []),
     ms_members := ms_members (after_members seen done) @ [(p_pid (m_before m), key_values (m_before m))]\<rparr>"
  by (simp add: after_members_def seen_after_def live_values_def)

definition remembered :: "(int \<times> int) list \<Rightarrow> member \<Rightarrow> bool" where
  "remembered seen m \<longleftrightarrow> map_of seen (p_pid (m_before m)) \<in> {None, Some (p_ticks (m_before m))}"

lemma member_step_ok:
  assumes scans: "distinct (map p_pid before)" "distinct (map p_pid closing)" "m_before m \<in> set before" "c \<in> set closing"
      "key_values c = key_values (m_before m)"
    and m: "m_status m \<in> {LIVE, ZOMBIE}" "member_ok m" "member_sane closing m"
    and ow: "p_pgid (m_before m) = p_pgid ow" "p_sid (m_before m) = p_sid ow"
    and new: "p_pid (m_before m) \<notin> p_pid ` m_before ` set done" "remembered (seen_after seen done) m"
    and room: "length (AList.update (p_pid (m_before m)) (p_ticks (m_before m)) (seen_after seen done)) \<le> MAX_PROC_ENTRIES"
  shows "member_step (owner_json ow) (table before) (table closing) (member_json m) (after_members seen done) =
    Inr (after_members seen (done @ [m]))"
proof -
  let ?b = "m_before m"
  obtain a where a: "m_after m = Some a" "key_values a = key_values ?b" using m(1,2) by (auto simp: member_ok_def)
  have sane: "ident_sane ?b" "ident_sane a" "bytes_sane (m_rss m)" "dead_state (p_state ?b) \<longrightarrow> dead_state (p_state a)"
    "dead_state (p_state a) \<longrightarrow> dead_state (p_state c)"
    using m(3) a scans(4,5) by (auto simp: member_sane_def key_values_def)
  have zombie: "m_status m = ZOMBIE \<longrightarrow> dead_state (p_state a)" using m(2) sane(4) by (auto simp: member_ok_def)
  have disc: "discovered (table before) (table closing) (p_pid ?b) = Some (key_values ?b, ident_json ?b)"
    using map_of_table [OF scans(1,3)] by (simp add: discovered_def)
  have rss: "valid_bytes (opt_json JInt (m_rss m))"
    using sane(3) by (auto simp: valid_bytes_def bytes_sane_def opt_json_def split: option.split)
  have pids: "p_pid ?b \<notin> fst ` set (ms_members (after_members seen done))" using new(1) by (simp only: after_members_pids not_False_eq_True)
  have seen: "ms_seen (after_members seen done) = seen_after seen done" "ms_live (after_members seen done) = live_values done"
    by (simp_all add: after_members_def)
  have known: "map_of (seen_after seen done) (p_pid ?b) = None \<or> map_of (seen_after seen done) (p_pid ?b) = Some (p_ticks ?b)"
    using new(2) by (simp add: remembered_def)
  note steps = check_after_ok [OF sane(2) a(2) sane(4)] check_closing_ok [OF scans(2,4,5) sane(5,4)]
    judge_ok [OF scans(2,4,5) m(1,2) a(1) zombie]
  show ?thesis
    unfolding member_step_def Let_def after_members_snoc part_get a_identity_ident [OF sane(1)] a(1)
    using known room rss pids ow
    by (simp add: disc requires_def seen steps opt_json_def [of ident_json] part_get)
qed

lemma seen_after_snoc: "seen_after seen (ms @ [m]) = AList.update (p_pid (m_before m)) (p_ticks (m_before m)) (seen_after seen ms)"
  by (simp add: seen_after_def)

lemma seen_after_other: "pid \<notin> p_pid ` m_before ` set ms \<Longrightarrow> map_of (seen_after seen ms) pid = map_of seen pid"
  by (induction ms rule: rev_induct) (auto simp: seen_after_def update_conv)

lemma length_update: "length (AList.update k v al) \<le> Suc (length al)"
  by (induction al) auto

lemma length_seen_after: "length (seen_after seen ms) \<le> length seen + length ms"
  by (induction ms rule: rev_induct)
    (auto simp: seen_after_def intro: order_trans [OF length_update])

definition closes :: "ident list \<Rightarrow> ident list \<Rightarrow> bool" where
  "closes before closing \<longleftrightarrow> distinct (map p_pid before) \<and> distinct (map p_pid closing) \<and>
     key_values ` set before = key_values ` set closing"

lemma fold_members_ok':
  assumes scans: "closes before closing"
    and ms: "\<forall>m \<in> set ms. m_before m \<in> set before \<and> m_status m \<in> {LIVE, ZOMBIE} \<and> member_ok m \<and> member_sane closing m \<and>
       p_pgid (m_before m) = p_pgid ow \<and> p_sid (m_before m) = p_sid ow \<and> remembered seen m"
    and dist: "distinct (map (\<lambda>m. p_pid (m_before m)) ms)" and room: "length seen + length ms \<le> MAX_PROC_ENTRIES"
  shows "fold_res (member_step (owner_json ow) (table before) (table closing)) (map member_json ms)
    \<lparr>ms_members = [], ms_live = [], ms_partial = False, ms_seen = seen\<rparr> = Inr (after_members seen ms)"
  using ms dist room
proof (induction ms rule: rev_induct)
  case Nil
  then show ?case by (simp add: after_members_def live_values_def seen_after_def)
next
  case (snoc m ms)
  have new: "p_pid (m_before m) \<notin> p_pid ` m_before ` set ms" using snoc.prems(2) by auto
  obtain c where c: "c \<in> set closing" "key_values c = key_values (m_before m)"
    using scans snoc.prems(1) by (metis (no_types, lifting) closes_def imageE imageI in_set_conv_decomp)
  have rem: "remembered (seen_after seen ms) m" using snoc.prems(1) by (simp add: remembered_def seen_after_other [OF new])
  have "length (AList.update (p_pid (m_before m)) (p_ticks (m_before m)) (seen_after seen ms)) \<le> MAX_PROC_ENTRIES"
    using length_update [of "p_pid (m_before m)" "p_ticks (m_before m)" "seen_after seen ms"] length_seen_after [of seen ms] snoc.prems(3)
    by simp
  from member_step_ok [OF _ _ _ c _ _ _ _ _ new rem this, of before ow] scans snoc.prems(1)
  have "member_step (owner_json ow) (table before) (table closing) (member_json m) (after_members seen ms) =
    Inr (after_members seen (ms @ [m]))" by (simp add: closes_def)
  with snoc show ?case by (simp add: fold_res_append)
qed

section \<open>The whole sample\<close>

definition usable :: "sample_status \<Rightarrow> bool" where
  "usable s \<longleftrightarrow> s \<in> {COMPLETE, ZOMBIE_ONLY, NO_LIVE_MEMBERS}"

lemma classify_usable:
  assumes "usable (r_status (classify r))" "r_rss r = None"
  shows "\<not> row_invalid r \<and> \<not> row_partial r \<and> (r_members r = [] \<longrightarrow> anchors r = [None, None]) \<and>
    r_status (classify r) = (if r_members r = [] then NO_LIVE_MEMBERS else if list_all (\<lambda>m. m_status m = ZOMBIE) (r_members r) then ZOMBIE_ONLY else COMPLETE) \<and>
    r_rss (classify r) = (if r_status (classify r) = COMPLETE then Some (live_rss (r_members r)) else None)"
  using assms by (auto simp: classify_def usable_def anchors_def split: if_splits)

text \<open>What holds of a usable row, whatever its status.\<close>

definition quiet_row :: "row \<Rightarrow> bool" where
  "quiet_row r \<longleftrightarrow> r_scan_errors r = [] \<and> r_errors r = [] \<and> r_available r \<noteq> None \<and> map m_before (r_members r) = r_scan_before r \<and>
     key_values ` set (r_scan_before r) = key_values ` set (r_scan_after r) \<and>
     length (r_scan_before r) \<le> MAX_MEMBERS \<and> length (r_scan_after r) \<le> MAX_MEMBERS \<and>
     (\<forall>i \<in> set (r_scan_before r @ r_scan_after r). p_pgid i = p_pgid (r_owner r) \<and> p_sid i = p_sid (r_owner r)) \<and>
     (\<forall>m \<in> set (r_members r). m_status m \<in> {LIVE, ZOMBIE} \<and> member_ok m) \<and>
     (\<forall>a \<in> set (anchors r). if r_members r = [] then a = None else \<exists>i. a = Some i \<and> key_values i = key_values (r_owner r) \<and>
        p_pid i \<in> p_pid ` set (r_scan_before r))"

lemma usable_quiet:
  assumes "observed ow r" "usable (r_status r)"
  shows "quiet_row r \<and> r_status r = (if r_members r = [] then NO_LIVE_MEMBERS else if list_all (\<lambda>m. m_status m = ZOMBIE) (r_members r) then ZOMBIE_ONLY else COMPLETE) \<and>
    r_rss r = (if r_status r = COMPLETE then Some (live_rss (r_members r)) else None)"
proof -
  obtain r0 where r: "r = classify r0" and ok: "row_ok r0" and none: "r_rss r0 = None" using assms(1) by (auto simp: observed_def)
  note c = classify_usable [OF assms(2) [unfolded r] none]
  have np: "\<not> row_partial r0" "\<not> row_invalid r0" using c by auto
  have sig: "signature (r_scan_before r0) = signature (r_scan_after r0)" using np by (simp add: row_partial_def)
  then have "filter (\<lambda>i. p_pid i \<notin> p_pid ` set (r_scan_before r0)) (r_scan_after r0) = []"
    using signature_pids [OF sig] by (auto simp: filter_empty_conv)
  then have before: "map m_before (r_members r0) = r_scan_before r0" using ok by (simp add: row_ok_def)
  have keys: "key_values ` set (r_scan_before r0) = key_values ` set (r_scan_after r0)"
    using mset_eq_setD [OF signature_mset [OF sig]] by simp
  have st: "m_status m \<in> {LIVE, ZOMBIE} \<and> member_ok m \<and> p_sid (m_before m) = p_sid (r_owner r0)" if "m \<in> set (r_members r0)" for m
    using that np ok by (auto simp: row_partial_def row_invalid_def row_ok_def list_ex_iff list_all_iff)
  have sid: "p_sid i = p_sid (r_owner r0)" if "i \<in> set (r_scan_before r0 @ r_scan_after r0)" for i
  proof -
    have "key_values i \<in> key_values ` set (r_scan_before r0)" using that unfolding set_append by (metis UnE imageI keys)
    then obtain j where "j \<in> set (r_scan_before r0)" "key_values j = key_values i" by auto
    moreover from this obtain m where "m \<in> set (r_members r0)" "m_before m = j" unfolding before [symmetric] by auto
    ultimately show ?thesis using st by (auto simp: key_values_def)
  qed
  have anch: "if r_members r0 = [] then a = None else \<exists>i. a = Some i \<and> key_values i = key_values (r_owner r0) \<and> p_pid i \<in> p_pid ` set (r_scan_before r0)"
    if "a \<in> set (anchors r0)" for a
  proof (cases "r_members r0 = []")
    case True
    then show ?thesis using c that by auto
  next
    case False
    then have nn: "None \<notin> set (anchors r0)" and "a = None \<or> gr_same a (Some (r_owner r0))"
      using np that by (auto simp: row_partial_def row_invalid_def list_ex_iff)
    then have "gr_same a (Some (r_owner r0))" using that by metis
    then obtain i where i: "a = Some i" "key_values i = key_values (r_owner r0)" by (auto simp: gr_same_def split: option.splits)
    have "\<exists>x \<in> set (r_scan_before r0) \<union> set (r_scan_after r0). gr_same a (Some x)"
      using np(1) that i(1) by (auto simp: row_partial_def list_ex_iff anchors_def)
    then have "p_pid i \<in> p_pid ` set (r_scan_before r0)"
      using i(1) signature_pids [OF sig] by (auto simp: gr_same_def key_values_def)
    with i False show ?thesis by simp
  qed
  have "quiet_row r"
    unfolding quiet_row_def r classify_keeps
  proof (intro conjI)
    have "\<forall>a \<in> set (anchors r0). if r_members r0 = [] then a = None else \<exists>i. a = Some i \<and> key_values i = key_values (r_owner r0) \<and>
        p_pid i \<in> p_pid ` set (r_scan_before r0)" using anch by blast
    then show "\<forall>a \<in> set (anchors (classify r0)). if r_members r0 = [] then a = None else \<exists>i. a = Some i \<and> key_values i = key_values (r_owner r0) \<and>
        p_pid i \<in> p_pid ` set (r_scan_before r0)" by (simp only: anchors_def classify_keeps)
    show "\<forall>m \<in> set (r_members r0). m_status m \<in> {LIVE, ZOMBIE} \<and> member_ok m" using st by blast
    show "\<forall>i \<in> set (r_scan_before r0 @ r_scan_after r0). p_pgid i = p_pgid (r_owner r0) \<and> p_sid i = p_sid (r_owner r0)"
      using ok sid by (simp add: row_ok_def)
    show "r_available r0 \<noteq> None" using ok np by (auto simp: row_ok_def row_partial_def)
  qed (use before keys ok np in \<open>simp_all add: row_ok_def row_partial_def\<close>)
  then show ?thesis using c unfolding r classify_keeps by simp
qed

lemma check_anchor_ok:
  assumes "has_key (row_json r) n" "jget (row_json r) n = opt_json ident_json a"
    "\<forall>i. a = Some i \<longrightarrow> ident_sane i \<and> key_values i = key_values ow"
  shows "check_anchor (row_json r) (key_values ow) n = Inr ()"
  using assms by (cases a) (auto simp: check_anchor_def opt_json_def a_identity_ident requires_def)

lemma audit_members_ok:
  assumes q: "quiet_row r" and h: "host_sane r" and seen: "\<forall>m \<in> set (r_members r). remembered seen m"
    and room: "length seen + length (r_members r) \<le> MAX_PROC_ENTRIES"
  shows "audit_members (row_json r) (owner_json (r_owner r)) (key_values (r_owner r)) seen =
    Inr (table (r_scan_before r), table (r_scan_after r), after_members seen (r_members r))"
proof -
  let ?ow = "r_owner r"
  have mem: "map m_before (r_members r) = r_scan_before r" using q by (simp add: quiet_row_def)
  have pids: "map (\<lambda>m. p_pid (m_before m)) (r_members r) = map p_pid (r_scan_before r)" unfolding mem [symmetric] by simp
  have anch: "check_anchor (row_json r) (key_values ?ow) ''anchor_before'' = Inr ()" "check_anchor (row_json r) (key_values ?ow) ''anchor_after'' = Inr ()"
    using q h by (auto intro!: check_anchor_ok simp: row_get quiet_row_def anchors_def host_sane_def split: if_splits)
  have s: "read_scan (owner_json ?ow) (row_json r) ''scan_before'' = Inr (table (r_scan_before r))"
    "read_scan (owner_json ?ow) (row_json r) ''scan_after'' = Inr (table (r_scan_after r))"
    using q h by (auto intro!: read_scan_table simp: row_get quiet_row_def host_sane_def)
  have f: "fold_res (member_step (owner_json ?ow) (table (r_scan_before r)) (table (r_scan_after r))) (map member_json (r_members r))
    \<lparr>ms_members = [], ms_live = [], ms_partial = False, ms_seen = seen\<rparr> = Inr (after_members seen (r_members r))"
  proof (rule fold_members_ok' [OF _ _ _ room])
    show "closes (r_scan_before r) (r_scan_after r)" using q h by (simp add: closes_def quiet_row_def host_sane_def)
    show "distinct (map (\<lambda>m. p_pid (m_before m)) (r_members r))" unfolding pids using h by (simp add: host_sane_def)
    have "m_before m \<in> set (r_scan_before r)" if "m \<in> set (r_members r)" for m using that mem by (metis image_eqI list.set_map)
    then show "\<forall>m\<in>set (r_members r). m_before m \<in> set (r_scan_before r) \<and> m_status m \<in> {LIVE, ZOMBIE} \<and> member_ok m \<and>
      member_sane (r_scan_after r) m \<and> p_pgid (m_before m) = p_pgid ?ow \<and> p_sid (m_before m) = p_sid ?ow \<and> remembered seen m"
      using q h seen by (simp add: quiet_row_def host_sane_def)
  qed
  have len: "length (r_members r) \<le> MAX_MEMBERS" using q length_map [of m_before "r_members r"] unfolding mem by (simp add: quiet_row_def)
  have "p_pid ` set (r_scan_after r) = p_pid ` set (r_scan_before r)"
  proof -
    have "hd ` key_values ` set (r_scan_before r) = hd ` key_values ` set (r_scan_after r)" using q by (simp add: quiet_row_def)
    then show ?thesis by (simp add: image_image)
  qed
  then have all: "fst ` set (ms_members (after_members seen (r_members r))) = fst ` set (table (r_scan_before r)) \<union> fst ` set (table (r_scan_after r))"
    unfolding after_members_pids table_pids using arg_cong [OF mem, of set] by simp
  have str: "all_strings (JArr [])" by (simp add: all_strings_def)
  show ?thesis
    unfolding audit_members_def anch s
    using q len all f by (simp add: row_get requires_def quiet_row_def str)
qed

lemma scan_keys_table: "scan_keys (table is) = (\<lambda>k. (hd k, k)) ` key_values ` set is"
  by (force simp: scan_keys_def table_def)

lemma check_phase_ok:
  assumes "phase_sane r" "ident_sane (r_owner r)"
  shows "check_phase (row_json r) (key_values (r_owner r)) = Inr (ph_name (r_phase r))"
proof (cases "ph_event (r_phase r)")
  case None
  then have "ph_name (r_phase r) = ''unknown''" using assms by (simp add: phase_sane_def)
  then show ?thesis using None by (simp add: check_phase_def row_get part_get opt_json_def PHASES_def requires_def)
next
  case (Some e)
  then have n: "ph_name (r_phase r) \<in> {''readiness'', ''workload'', ''cleanup''}" "ev_kind e = phase_kind (ph_name (r_phase r))"
    "0 \<le> ev_ns e" "ev_ns e \<le> r_start r" "key_values (ev_owner e) = key_values (r_owner r)" using assms by (simp_all add: phase_sane_def)
  then have "ident_sane (ev_owner e) \<or> a_identity (owner_json (ev_owner e)) = Inr (key_values (r_owner r))"
    using assms(2) by (simp add: a_identity_def part_get key_values_def ident_sane_def)
  then have ow: "a_identity (owner_json (ev_owner e)) = Inr (key_values (r_owner r))" using n(5) by (auto simp: a_identity_owner)
  have "ph_name (r_phase r) \<noteq> ''unknown''" "ph_name (r_phase r) \<in> set PHASES" using n(1) by (auto simp: PHASES_def)
  moreover have "int_field (row_json r) ''start_ns'' = r_start r" by (simp add: int_field_def row_get)
  ultimately show ?thesis using n(2-4) ow Some by (simp add: check_phase_def row_get part_get opt_json_def requires_def)
qed

lemma after_members_simps:
  "ms_members (after_members seen ms) = map (\<lambda>m. (p_pid (m_before m), key_values (m_before m))) ms"
  "ms_live (after_members seen ms) = live_values ms" "ms_partial (after_members seen ms) = False"
  "ms_seen (after_members seen ms) = seen_after seen ms"
  by (simp_all add: after_members_def)

lemma not_partial:
  assumes q: "quiet_row r"
  shows "\<not> is_partial (owner_json (r_owner r)) (row_json r) (table (r_scan_before r)) (table (r_scan_after r)) (after_members seen (r_members r))"
proof -
  have keys: "scan_keys (table (r_scan_before r)) = scan_keys (table (r_scan_after r))" using q by (simp add: scan_keys_table quiet_row_def)
  then have pids: "fst ` set (table (r_scan_before r)) = fst ` set (table (r_scan_after r))" by (metis scan_keys_pids)
  have anch: "p_pid (r_owner r) \<in> fst ` set (table (r_scan_before r))" if some: "r_anchor_before r \<noteq> None \<or> r_anchor_after r \<noteq> None"
  proof -
    obtain i :: ident where "key_values i = key_values (r_owner r)" "p_pid i \<in> p_pid ` set (r_scan_before r)"
      using q some by (auto simp: quiet_row_def anchors_def split: if_splits)
    then show ?thesis by (metis hd_key_values table_pids)
  qed
  have a: "r_anchor_before r = None \<or> p_pid (r_owner r) \<in> fst ` set (table (r_scan_before r))"
    "r_anchor_after r = None \<or> p_pid (r_owner r) \<in> fst ` set (table (r_scan_after r))" using anch pids by metis+
  have errs: "r_scan_errors r = []" "r_errors r = []" using q by (simp_all add: quiet_row_def)
  have both: "r_members r = [] \<or> r_anchor_before r \<noteq> None \<and> r_anchor_after r \<noteq> None"
    using q by (auto simp: quiet_row_def anchors_def split: if_splits)
  show ?thesis
    unfolding is_partial_def after_members_simps row_get part_get opt_json_JNull
    using errs keys both a by simp
qed

lemma usable_audited:
  assumes ob: "observed ow r" and us: "usable (r_status r)" and h: "host_sane r" and time: "last_end \<le> r_start r"
    and seen: "\<forall>m \<in> set (r_members r). remembered seen m" and room: "length seen + length (r_members r) \<le> MAX_PROC_ENTRIES"
  shows "audit_sample (row_json r) (owner_json ow) (r_sequence r) last_end (JStr (r_run_id r)) seen =
    Inr \<lparr>v_status = r_status r, v_total = r_rss r, v_phase = ph_name (r_phase r), v_seen = seen_after seen (r_members r)\<rparr>"
proof -
  note u = usable_quiet [OF ob us]
  have ow: "ow = r_owner r" using ob by (simp add: observed_def)
  let ?ms = "after_members seen (r_members r)"
  have q: "quiet_row r" and st: "r_status r = (if r_members r = [] then NO_LIVE_MEMBERS else if list_all (\<lambda>m. m_status m = ZOMBIE) (r_members r) then ZOMBIE_ONLY else COMPLETE)"
    and rss: "r_rss r = (if r_status r = COMPLETE then Some (live_rss (r_members r)) else None)" using u by blast+
  have sane: "ident_sane (r_owner r)" "p_pid (r_owner r) = p_pgid (r_owner r)" "p_pgid (r_owner r) = p_sid (r_owner r)" "phase_sane r"
    "0 \<le> r_start r" "r_start r \<le> r_end r" "bytes_sane (r_available r)" "r_site r \<in> {''runner_monitor'', ''cleanup_check''}"
    using h unfolding host_sane_def by blast+
  have times: "int_field (row_json r) ''start_ns'' = r_start r" "int_field (row_json r) ''end_ns'' = r_end r"
    by (simp_all add: int_field_def row_get)
  have bytes: "valid_bytes (opt_json JInt (r_available r))"
    using sane(7) by (auto simp: valid_bytes_def bytes_sane_def opt_json_def split: option.split)
  have av: "r_available r \<noteq> None" using q by (simp add: quiet_row_def)
  have live: "live_values (r_members r) = [] \<longleftrightarrow> list_all (\<lambda>m. m_status m = ZOMBIE) (r_members r)"
    using q by (auto simp: live_values_def filter_empty_conv list_all_iff quiet_row_def)
  have status: "audit_status (is_partial (owner_json (r_owner r)) (row_json r) (table (r_scan_before r)) (table (r_scan_after r)) ?ms) ?ms = r_status r"
    using st live not_partial [OF q, of seen] by (simp add: audit_status_def after_members_simps)
  have total: "check_total (row_json r) (r_status r) (ms_live ?ms) = Inr (r_rss r)"
    using rss by (simp add: check_total_cases row_get after_members_simps live_values_def live_rss_def opt_json_def)
  have site: "JStr (r_site r) \<in> {JStr ''runner_monitor'', JStr ''cleanup_check''}" using sane(8) by simp
  show ?thesis
    unfolding ow audit_sample_def audit_members_ok [OF q h seen room] a_identity_owner [OF sane(1)] row_get part_get times Let_def
    using sane(2,3,5,6) time bytes av status total site check_phase_ok [OF sane(4,1)]
    by (simp add: requires_def after_members_simps audit_members_ok [OF q h seen room])
qed

section \<open>The example row, audited\<close>

text \<open>A row with small numbers, so that its JSON text can be computed.\<close>

definition small_row :: "string \<Rightarrow> row" where
  "small_row rid = (example_row rid)\<lparr>r_rss := Some 512, r_available := Some 900,
     r_members := [\<lparr>m_before = example_ident ''S'', m_after = Some (example_ident ''S''), m_rss = Some 512, m_status = LIVE\<rparr>]\<rparr>"

lemma small_row_observed: "observed (example_ident ''S'') (small_row rid)"
proof -
  let ?r0 = "(small_row rid)\<lparr>r_rss := None, r_status := PARTIAL\<rparr>"
  have "row_ok ?r0" "row_ok (small_row rid)" "r_owner (small_row rid) = example_ident ''S''"
    by (simp_all add: row_ok_def small_row_def example_row_def example_ident_def member_ok_def dead_state_def key_values_def MAX_MEMBERS_def)
  moreover have "small_row rid = classify ?r0"
    by (simp add: small_row_def example_row_def example_ident_def classify_def row_invalid_def row_partial_def anchors_def
        signature_def live_rss_def gr_same_def key_values_def)
  moreover have "r_rss ?r0 = None" by simp
  ultimately show ?thesis unfolding observed_def by blast
qed

lemma small_row_sane: "host_sane (small_row rid)"
proof -
  have "valid_state (JStr ''S'')" "valid_state (JStr ''Z'')" by (simp_all add: valid_state_def is_alpha_def)
  moreover have "(512::int) \<le> MAX_RSS_BYTES" "(900::int) \<le> MAX_RSS_BYTES" by (simp_all add: MAX_RSS_BYTES_def)
  ultimately show ?thesis
    by (simp add: host_sane_def small_row_def example_row_def example_ident_def ident_sane_def member_sane_def bytes_sane_def phase_sane_def
        unknown_phase_def dead_state_def all_conj_distrib)
qed

lemma small_row_fields: "r_status (small_row rid) = COMPLETE" "r_rss (small_row rid) = Some 512" "r_start (small_row rid) = 0"
  "r_sequence (small_row rid) = 0" "r_run_id (small_row rid) = rid" "ph_name (r_phase (small_row rid)) = ''unknown''"
  "r_owner (small_row rid) = example_ident ''S''" "length (r_members (small_row rid)) = 1" "r_site (small_row rid) = ''runner_monitor''"
  by (simp_all add: small_row_def example_row_def unknown_phase_def)

lemma small_row_audited:
  "\<exists>v. audit_sample (row_json (small_row rid)) (owner_json (example_ident ''S'')) 0 (- 1) (JStr rid) [] = Inr v \<and>
     v_status v = COMPLETE \<and> v_phase v = ''unknown''"
  using usable_audited [OF small_row_observed [of rid] _ small_row_sane [of rid], of "- 1" "[]"]
  by (simp add: small_row_fields usable_def remembered_def MAX_PROC_ENTRIES_def)

definition example_run_id :: string where
  "example_run_id = ''0123456789abcdef0123456789abcdef''"

lemma example_run_id_hex: "fullmatch_hex 32 example_run_id"
  by code_simp

lemma example_record_length: "length (jsonl (row_json (small_row example_run_id))) < 2000"
proof -
  have "length (dump False 0 (row_json (small_row example_run_id))) < 1999" by code_simp
  then show ?thesis by (simp add: jsonl_def dumps_def)
qed

lemma example_line_audited: "\<exists>st. audit_line (JStr example_run_id) (jsonl (row_json (small_row example_run_id))) new_audit = Inr st"
proof -
  let ?r = "row_json (small_row example_run_id)"
  obtain v where v: "audit_sample ?r (owner_json (example_ident ''S'')) 0 (- 1) (JStr example_run_id) [] = Inr v" "v_phase v = ''unknown''"
    using small_row_audited by blast
  have len: "length (jsonl ?r) \<le> MAX_RECORD_BYTES" "length (jsonl ?r) \<le> MAX_STREAM_BYTES" "0 < MAX_SAMPLES"
    using example_record_length by (simp_all add: MAX_RECORD_BYTES_def MAX_STREAM_BYTES_def MAX_SAMPLES_def)
  have nl: "jsonl ?r \<noteq> []" "last (jsonl ?r) = LF" by (simp_all add: jsonl_def)
  have ow: "jget ?r ''owner'' = owner_json (example_ident ''S'')" by (simp add: row_get small_row_fields)
  have new: "au_size new_audit = 0" "au_count new_audit = 0" "au_owner new_audit = None" "au_last new_audit = - 1" "au_seen new_audit = []"
    by (simp_all add: new_audit_def)
  show ?thesis
    unfolding audit_line_def Let_def decode_row
    using len nl v by (simp add: requires_def new ow check_order_unknown)
qed

definition example_store :: "nat \<Rightarrow> nat \<Rightarrow> recorder" where
  "example_store mb ms = tally (small_row example_run_id) \<lparr>rc_run_id = example_run_id, rc_max_bytes = mb,
     rc_max_samples = ms, rc_stream = jsonl (row_json (small_row example_run_id)),
     rc_bytes = length (jsonl (row_json (small_row example_run_id))), rc_count = 1, rc_error = None,
     rc_statuses = (\<lambda>_. 0)(COMPLETE := 1), rc_phases = (\<lambda>_. no_samples), rc_monitor_peak = None, rc_last_end = None,
     rc_max_gap = None\<rparr>"

lemma example_stored:
  "fold_res store_row [small_row example_run_id] (new_recorder example_run_id 1000000 10) = Inr (example_store 1000000 10)"
proof -
  have "\<not> over_bound (new_recorder example_run_id 1000000 10) (small_row example_run_id)"
    using example_record_length
    by (simp add: over_bound_def new_recorder_def MAX_RECORD_BYTES_def MAX_STREAM_BYTES_def MAX_SAMPLES_def MAX_MEMBERS_def small_row_fields)
  then show ?thesis
    by (simp add: store_row_def append_row_def Let_def small_row_fields PHASES_def example_store_def new_recorder_def MAX_STREAM_BYTES_def
        MAX_SAMPLES_def)
qed

lemma example_summary_length: "length (encoded (summary_json (\<lambda>_. ''0'') None (example_store 1000000 10))) \<le> MAX_RECORD_BYTES"
proof -
  have "length (encoded (summary_json (\<lambda>_. ''0'') None (example_store 0 0))) \<le> 4000" by code_simp
  moreover have "summary_json (\<lambda>_. ''0'') None (example_store 1000000 10) = summary_json (\<lambda>_. ''0'') None (example_store 0 0)"
    by (simp add: summary_json_def example_store_def tally_def)
  ultimately show ?thesis by (simp add: MAX_RECORD_BYTES_def)
qed

section \<open>Properties\<close>

text \<open>
  C12: the observer and the auditor agree. A sample that the observer calls \<open>COMPLETE\<close>,
  \<open>ZOMBIE_ONLY\<close> or \<open>NO_LIVE_MEMBERS\<close> is accepted by the auditor, with the same status and the same
  total, when it starts after the last one ended, its PIDs are not known under another start time, and
  the host shows what a Linux host can show.
\<close>

theorem observer_and_auditor_agree:
  assumes "observe K ow rid seq ph site w = Some (Inr r, w')" "r_status r \<in> {COMPLETE, ZOMBIE_ONLY, NO_LIVE_MEMBERS}"
    and "host_sane r" "last_end \<le> r_start r" "\<forall>m \<in> set (r_members r). remembered seen m"
    and "length seen + length (r_members r) \<le> MAX_PROC_ENTRIES"
  shows "\<exists>v. audit_sample (row_json r) (owner_json ow) (r_sequence r) last_end (JStr (r_run_id r)) seen = Inr v \<and>
    v_status v = r_status r \<and> v_total v = r_rss r \<and> v_phase v = ph_name (r_phase r)"
  using usable_audited [OF returnsD [OF observe_returns assms(1)] _ assms(3-6)] assms(2) by (simp add: usable_def)

lemma example_row_sane: "host_sane (example_row rid)"
proof -
  have "valid_state (JStr ''S'')" "valid_state (JStr ''Z'')" by (simp_all add: valid_state_def is_alpha_def)
  moreover have "(524288::int) \<le> MAX_RSS_BYTES" "(4096000000::int) \<le> MAX_RSS_BYTES" by (simp_all add: MAX_RSS_BYTES_def)
  ultimately show ?thesis
    by (simp add: host_sane_def example_row_def example_ident_def ident_sane_def member_sane_def bytes_sane_def phase_sane_def
        unknown_phase_def dead_state_def all_conj_distrib)
qed

theorem observer_and_auditor_agree_witness:
  "\<exists>r v. r_status r = COMPLETE \<and> audit_sample (row_json r) (owner_json (example_ident ''S'')) 0 (- 1) (JStr ''r'') [] = Inr v \<and>
     v_total v = Some 524288"
proof -
  have r: "r_status (example_row ''r'') = COMPLETE" "r_start (example_row ''r'') = 0" "length (r_members (example_row ''r'')) = 1"
    "r_sequence (example_row ''r'') = 0" "r_run_id (example_row ''r'') = ''r''" "r_rss (example_row ''r'') = Some 524288"
    by (simp_all add: example_row_def)
  show ?thesis
    using observer_and_auditor_agree [OF example_observe, of "''r''" "- 1" "[]"] r
    by (auto simp: example_row_sane remembered_def MAX_PROC_ENTRIES_def)
qed

text \<open>
  C13: the auditor's \<open>COMPLETE\<close> is recomputed from the raw record: every member of either scan
  is listed once and is live or a zombie, at least one is live, nothing was unreadable, both reads
  of the leader show the audited owner, and the accepted total is the sum of the live members' RSS.
\<close>

theorem audited_total:
  assumes "audit_sample row ow sequence last_end run_id seen = Inr v" and "v_status v = COMPLETE"
  shows "complete_evidence row ow \<and> v_total v = Some (sum_list (live_total (the_list (jget row ''members''))))"
  using audit_complete [OF assms] .

theorem audited_total_witness: "complete_evidence (row_json (small_row ''r'')) (owner_json (example_ident ''S''))"
  using small_row_audited [of "''r''"] audited_total by blast



text \<open>
  C15: a stream that the auditor accepts is in order: its records are numbered from zero, they do
  not overlap in time and have one owner, the named phases and their events never step back, and
  every workload sample follows a readiness sample that ended before the release was acknowledged.
\<close>

theorem audited_stream_ordered:
  assumes "audit sha raw summary_bytes runner_result = Inr rep"
  shows "\<exists>rows. map_res decode (raw_lines MAX_RECORD_BYTES raw) = Inr rows \<and> rows \<noteq> [] \<and> in_order rows"
proof -
  from assms obtain run_id st where fold: "fold_res (audit_line run_id) (raw_lines MAX_RECORD_BYTES raw) new_audit = Inr st"
    and pos: "au_count st > 0"
    unfolding audit_def Let_def by (cases "decode summary_bytes") (auto simp: res_simps)
  obtain rows where "map_res decode (raw_lines MAX_RECORD_BYTES raw) = Inr rows" "remembers rows st"
    using audit_fold_remembers [OF fold remembers_new] by auto
  with pos show ?thesis by (auto simp: remembers_def)
qed

theorem audited_stream_ordered_witness:
  "\<exists>rows. map_res decode (raw_lines MAX_RECORD_BYTES (rc_stream (example_store 1000000 10))) = Inr rows \<and> rows \<noteq> [] \<and> in_order rows"
proof -
  obtain st where "audit_line (JStr example_run_id) (jsonl (row_json (small_row example_run_id))) new_audit = Inr st"
    using example_line_audited by blast
  then have "fold_res (audit_line (JStr example_run_id)) (map (\<lambda>r. jsonl (row_json r)) [small_row example_run_id]) new_audit = Inr st"
    by simp
  from audited_stream_ordered [OF audit_accepts_summary [OF example_stored _ this _ example_summary_length]] show ?thesis
    by (simp add: example_run_id_hex)
qed

end
