(* ===== verification/G4_Events.thy ===== *)
theory G4_Events
  imports Policy_Binding Group_Agree
begin

text \<open>
  The control channel between the supervisor and the runner, \<^verbatim>\<open>g4_events.py\<close>: the lockstep protocol
  state shared by both endpoints (\<open>State\<close>), the bounded link over a socket (\<open>Link\<close>), the receipt for
  a persisted sample and its verification against the raw file.

  A clock reading is an argument of the operation that takes it. A message is a JSON value, as it
  comes off the wire.
\<close>

abbreviation needi :: "bool \<Rightarrow> string \<Rightarrow> 'a res \<Rightarrow> 'a res" where
  "needi c reason k \<equiv> requires c (InterfaceError reason) k"

section \<open>Events and owners\<close>

definition G4_CONTRACT :: string where "G4_CONTRACT = ''g4-runner-interface-v1''"

definition ORDER :: "string list" where
  "ORDER = [''ready_verified'', ''readiness_persisted'', ''release_initiated'', ''release_acknowledged'', ''workload_persisted'']"

definition STATES :: "string list" where
  "STATES = [''ready'', ''persisted'', ''releasing'', ''acknowledged'', ''complete'']"

definition MAX_MESSAGE :: nat where "MAX_MESSAGE = 2048"

definition OWNER_KEYS :: "string list" where
  "OWNER_KEYS = [''pid'', ''start_ticks'', ''sid'', ''pgid'']"

definition g4_run_id :: "json \<Rightarrow> string res" where
  "g4_run_id v = needp (is_str v \<and> fullmatch_hex 32 (the_str v)) ''invalid G4 run ID'' (Inr (the_str v))"

definition jint :: "json \<Rightarrow> string \<Rightarrow> int" where
  "jint v k = the_int (jget v k)"

definition event_owner :: "json \<Rightarrow> json res" where
  "event_owner v =
     needi (keys_are v OWNER_KEYS) ''event owner shape''
     (needi (list_all (\<lambda>k. is_int (jget v k) \<and> jint v k > 1) [''pid'', ''pgid'', ''sid''] \<and> jint v ''pid'' = jint v ''pgid'' \<and>
             jint v ''pgid'' = jint v ''sid'' \<and> is_int (jget v ''start_ticks'') \<and> jint v ''start_ticks'' \<ge> 0) ''event owner identity''
     (Inr v))"

text \<open>\<open>identity\<close> keeps the four keys of a longer record.\<close>

definition event_identity :: "json \<Rightarrow> json res" where
  "event_identity v =
     needi (is_dict v \<and> list_all (has_key v) OWNER_KEYS) ''event identity fields''
     (event_owner (JObj (map (\<lambda>k. (k, jget v k)) OWNER_KEYS)))"

section \<open>The protocol state\<close>

record chan =
  ch_run_id :: string
  ch_sequence :: nat
  ch_last :: int
  ch_owner :: "json option"
  ch_ready :: "json option"
  ch_ack :: "int option"
  ch_failed :: bool

definition new_chan :: "string \<Rightarrow> chan" where
  "new_chan rid = \<lparr>ch_run_id = rid, ch_sequence = 0, ch_last = - 1, ch_owner = None, ch_ready = None, ch_ack = None, ch_failed = False\<rparr>"

definition bind_owner :: "json \<Rightarrow> chan \<Rightarrow> chan res" where
  "bind_owner target st =
     bindr (event_owner target) (\<lambda>t.
     needi (case ch_owner st of None \<Rightarrow> True | Some ow \<Rightarrow> py_eq ow t) ''event target changed''
     (Inr (st\<lparr>ch_owner := Some t\<rparr>)))"

definition EVENT_FIELDS :: "string list" where
  "EVENT_FIELDS = [''schema'', ''contract'', ''run_id'', ''sequence'', ''event'', ''owner'', ''monotonic_ns'', ''state'', ''sample'']"

text \<open>The checks of \<open>_accept\<close> before it binds the owner.\<close>

definition accept_header :: "int \<Rightarrow> json \<Rightarrow> chan \<Rightarrow> unit res" where
  "accept_header now msg st =
     needi (\<not> ch_failed st) ''channel already failed''
     (needi (keys_are msg EVENT_FIELDS) ''event fields''
     (needi (jget msg ''schema'' = JInt 1 \<and> jget msg ''contract'' = JStr G4_CONTRACT \<and> jget msg ''run_id'' = JStr (ch_run_id st)) ''event run/version''
     (needi (jget msg ''sequence'' = JInt (int (ch_sequence st)) \<and> ch_sequence st < length ORDER) ''event sequence/replay''
     (needi (jget msg ''event'' = JStr (ORDER ! ch_sequence st) \<and> jget msg ''state'' = JStr (STATES ! ch_sequence st)) ''event order/state''
     (needi (is_int (jget msg ''monotonic_ns'') \<and> 0 \<le> jint msg ''monotonic_ns'' \<and> ch_last st \<le> jint msg ''monotonic_ns'' \<and>
             jint msg ''monotonic_ns'' \<le> now) ''event chronology'' (Inr ()))))))"

definition SAMPLE_FIELDS :: "string list" where
  "SAMPLE_FIELDS = [''sequence'', ''start_ns'', ''end_ns'', ''raw_bytes'', ''raw_sha256'']"

definition check_receipt :: "int \<Rightarrow> int \<Rightarrow> int \<Rightarrow> json \<Rightarrow> unit res" where
  "check_receipt expected last_ns stamp smp =
     needi (keys_are smp SAMPLE_FIELDS) ''persisted sample fields''
     (needi (list_all (\<lambda>k. is_int (jget smp k)) [''sequence'', ''start_ns'', ''end_ns'', ''raw_bytes''] \<and> jint smp ''sequence'' = expected \<and>
             last_ns \<le> jint smp ''start_ns'' \<and> jint smp ''start_ns'' \<le> jint smp ''end_ns'' \<and> jint smp ''end_ns'' \<le> stamp \<and>
             0 < jint smp ''raw_bytes'' \<and> jint smp ''raw_bytes'' \<le> 16 * 1024 * 1024 \<and>
             is_str (jget smp ''raw_sha256'') \<and> fullmatch_hex 64 (the_str (jget smp ''raw_sha256''))) ''persisted sample chronology/identity''
     (Inr ()))"

text \<open>The rest of \<open>_accept\<close>, on a state whose owner is bound; \<open>TypeError\<close> where a field would still be \<open>None\<close>.\<close>

definition accept_sample :: "json \<Rightarrow> chan \<Rightarrow> chan res" where
  "accept_sample msg st =
     (let n = ch_sequence st; smp = jget msg ''sample''; stamp = jint msg ''monotonic_ns'' in
      if n = 1 then bindr (check_receipt 0 (ch_last st) stamp smp) (\<lambda>_. Inr (st\<lparr>ch_ready := Some smp\<rparr>))
      else if n = 4 then
        bindr (check_receipt 1 (ch_last st) stamp smp) (\<lambda>_.
        case (ch_ack st, ch_ready st) of
          (Some ack, Some ready) \<Rightarrow>
            needi (ack \<le> jint smp ''start_ns'' \<and> jint smp ''raw_bytes'' > jint ready ''raw_bytes'') ''workload before verified ack'' (Inr st)
        | _ \<Rightarrow> Inl TypeError)
      else needi (smp = JNull) ''unexpected event sample'' (Inr st))"

definition accept_body :: "json \<Rightarrow> chan \<Rightarrow> chan res" where
  "accept_body msg st =
     (let n = ch_sequence st; stamp = jint msg ''monotonic_ns'' in
      bindr (accept_sample msg st) (\<lambda>st1.
      needi (n = 2 \<longrightarrow> (case ch_ready st1 of None \<Rightarrow> False | Some ready \<Rightarrow> jint ready ''end_ns'' \<le> stamp)) ''release before persisted readiness''
      (Inr (st1\<lparr>ch_ack := (if n = 3 then Some stamp else ch_ack st1), ch_sequence := Suc n, ch_last := stamp\<rparr>))))"

text \<open>
  \<open>accept\<close>: an \<open>InterfaceError\<close> latches the channel; what \<open>_accept\<close> had already stored stays.
\<close>

definition latch :: "py_error \<Rightarrow> chan \<Rightarrow> chan" where
  "latch e st = (case e of InterfaceError s \<Rightarrow> st\<lparr>ch_failed := True\<rparr> | _ \<Rightarrow> st)"

definition accept :: "int \<Rightarrow> json \<Rightarrow> chan \<Rightarrow> chan \<times> json res" where
  "accept now msg st =
     (case bindr (accept_header now msg st) (\<lambda>_. bind_owner (jget msg ''owner'') st) of
        Inl e \<Rightarrow> (latch e st, Inl e)
      | Inr st1 \<Rightarrow>
          (case accept_body msg st1 of
             Inl e \<Rightarrow> (latch e st1, Inl e)
           | Inr st2 \<Rightarrow> (st2, Inr msg)))"

definition event_index :: "string \<Rightarrow> nat res" where
  "event_index event = (case find (\<lambda>i. ORDER ! i = event) [0..<length ORDER] of Some i \<Rightarrow> Inr i | None \<Rightarrow> Inl (InterfaceError ''unknown event''))"

definition message :: "string \<Rightarrow> json \<Rightarrow> int \<Rightarrow> json \<Rightarrow> chan \<Rightarrow> json res" where
  "message event target stamp smp st =
     bindr (event_index event) (\<lambda>n.
     Inr (JObj [(''schema'', JInt 1), (''contract'', JStr G4_CONTRACT), (''run_id'', JStr (ch_run_id st)), (''sequence'', JInt (int n)),
       (''event'', JStr event), (''owner'', target), (''monotonic_ns'', JInt stamp), (''state'', JStr (STATES ! n)), (''sample'', smp)]))"

section \<open>What the channel accepts\<close>

definition stamp_of :: "json \<Rightarrow> int" where "stamp_of msg = jint msg ''monotonic_ns''"
definition owner_values :: "json \<Rightarrow> int list" where "owner_values v = map (jint v) OWNER_KEYS"
definition sample_of :: "json \<Rightarrow> json" where "sample_of msg = jget msg ''sample''"

lemma acceptD:
  assumes "accept now msg st = (st', Inr m)"
  shows "m = msg \<and> accept_header now msg st = Inr () \<and> event_owner (jget msg ''owner'') = Inr (jget msg ''owner'') \<and>
    (\<forall>ow. ch_owner st = Some ow \<longrightarrow> py_eq ow (jget msg ''owner'')) \<and>
    accept_body msg (st\<lparr>ch_owner := Some (jget msg ''owner'')\<rparr>) = Inr st'"
proof -
  have own: "event_owner v = Inr t \<Longrightarrow> t = v" for v t by (auto simp: event_owner_def res_simps)
  show ?thesis
    using assms own unfolding accept_def bind_owner_def
    by (auto simp: res_simps split: sum.splits option.splits)
qed

lemma accept_refused:
  assumes "accept now msg st = (st', Inl e)"
  shows "ch_sequence st' = ch_sequence st \<and> ch_last st' = ch_last st \<and> ch_ready st' = ch_ready st \<and> ch_ack st' = ch_ack st \<and>
    ch_run_id st' = ch_run_id st \<and>
    (ch_owner st' = ch_owner st \<or> (ch_owner st' = Some (jget msg ''owner'') \<and> event_owner (jget msg ''owner'') = Inr (jget msg ''owner'') \<and>
       (\<forall>ow. ch_owner st = Some ow \<longrightarrow> py_eq ow (jget msg ''owner'')))) \<and>
    (ch_failed st' \<or> \<not> (\<exists>s. e = InterfaceError s))"
proof -
  have own: "event_owner v = Inr t \<Longrightarrow> t = v" for v t by (auto simp: event_owner_def res_simps)
  have l: "ch_sequence (latch e s) = ch_sequence s" "ch_last (latch e s) = ch_last s" "ch_ready (latch e s) = ch_ready s"
    "ch_ack (latch e s) = ch_ack s" "ch_run_id (latch e s) = ch_run_id s" "ch_owner (latch e s) = ch_owner s"
    "ch_failed (latch e s) \<or> \<not> (\<exists>x. e = InterfaceError x)" for s
    by (auto simp: latch_def split: py_error.split)
  show ?thesis
  proof (cases "bindr (accept_header now msg st) (\<lambda>_. bind_owner (jget msg ''owner'') st)")
    case (Inl e')
    then have "st' = latch e st" using assms by (auto simp: accept_def)
    then show ?thesis using l [of st] by simp
  next
    case (Inr st1)
    then have st1: "st1 = st\<lparr>ch_owner := Some (jget msg ''owner'')\<rparr>" "event_owner (jget msg ''owner'') = Inr (jget msg ''owner'')"
      "\<forall>ow. ch_owner st = Some ow \<longrightarrow> py_eq ow (jget msg ''owner'')"
      using own by (auto simp: bind_owner_def res_simps split: option.splits)
    have "st' = latch e st1" using assms Inr by (auto simp: accept_def split: sum.splits)
    then show ?thesis using l [of st1] st1 by simp
  qed
qed

lemma owner_equal:
  assumes "event_owner a = Inr a" "event_owner b = Inr b" "py_eq a b"
  shows "owner_values a = owner_values b"
proof -
  from assms(1,2) have ka: "keys_are a OWNER_KEYS" "keys_are b OWNER_KEYS" and
    ints: "\<forall>k \<in> set OWNER_KEYS. is_int (jget a k) \<and> is_int (jget b k)"
    by (auto simp: event_owner_def res_simps OWNER_KEYS_def)
  from ka obtain kvs kws where k: "a = JObj kvs" "b = JObj kws" by (cases a; cases b) (simp_all add: keys_are_def)
  have "jint a key = jint b key" if key: "key \<in> set OWNER_KEYS" for key
  proof -
    have "key \<in> set (map fst kvs)" using ka(1) key k by (simp add: keys_are_def keys_def)
    then obtain v where v: "map_of kvs key = Some v" by (metis map_of_eq_None_iff not_None_eq set_map)
    then have "(key, v) \<in> set kvs" by (rule map_of_SomeD)
    with assms(3) k obtain w where w: "map_of kws key = Some w" "py_eq v w" by (fastforce split: option.splits)
    have "is_int v" "is_int w" using ints key v w k by (auto simp: jget_def)
    then obtain x y where "v = JInt x" "w = JInt y" by (cases v; cases w) auto
    with w v k show ?thesis by (simp add: jint_def jget_def dec_eq_def dec_scale_def)
  qed
  then show ?thesis by (simp add: owner_values_def)
qed

text \<open>
  The runs of one endpoint: messages are offered in any order and with any content, some are
  accepted, the others are refused; \<open>fail\<close> may be called at any time.
\<close>

inductive chan_run :: "string \<Rightarrow> json list \<Rightarrow> chan \<Rightarrow> bool" where
  start: "chan_run rid [] (new_chan rid)"
| accepted: "chan_run rid ms st \<Longrightarrow> accept now msg st = (st', Inr m) \<Longrightarrow> chan_run rid (ms @ [msg]) st'"
| refused: "chan_run rid ms st \<Longrightarrow> accept now msg st = (st', Inl e) \<Longrightarrow> chan_run rid ms st'"
| failing: "chan_run rid ms st \<Longrightarrow> chan_run rid ms (st\<lparr>ch_failed := True\<rparr>)"

text \<open>
  The protocol: a prefix of the five events, each once and in order, for one run and one target,
  with stamps that never step back. The readiness sample was taken and persisted between the
  first two events, the release follows it, and the workload sample was taken after the
  acknowledgement, into a longer file.
\<close>

definition lockstep :: "string \<Rightarrow> json list \<Rightarrow> bool" where
  "lockstep rid ms \<longleftrightarrow> length ms \<le> length ORDER \<and>
     (\<forall>i < length ms. jget (ms ! i) ''event'' = JStr (ORDER ! i) \<and> jget (ms ! i) ''sequence'' = JInt (int i) \<and>
        jget (ms ! i) ''run_id'' = JStr rid \<and> owner_values (jget (ms ! i) ''owner'') = owner_values (jget (ms ! 0) ''owner'')) \<and>
     (\<forall>j < length ms. \<forall>i < j. stamp_of (ms ! i) \<le> stamp_of (ms ! j)) \<and>
     (length ms > 1 \<longrightarrow> stamp_of (ms ! 0) \<le> jint (sample_of (ms ! 1)) ''start_ns'' \<and>
        jint (sample_of (ms ! 1)) ''start_ns'' \<le> jint (sample_of (ms ! 1)) ''end_ns'' \<and> jint (sample_of (ms ! 1)) ''end_ns'' \<le> stamp_of (ms ! 1)) \<and>
     (length ms > 4 \<longrightarrow> stamp_of (ms ! 3) \<le> jint (sample_of (ms ! 4)) ''start_ns'' \<and>
        jint (sample_of (ms ! 4)) ''start_ns'' \<le> jint (sample_of (ms ! 4)) ''end_ns'' \<and> jint (sample_of (ms ! 4)) ''end_ns'' \<le> stamp_of (ms ! 4) \<and>
        jint (sample_of (ms ! 1)) ''raw_bytes'' < jint (sample_of (ms ! 4)) ''raw_bytes'')"

definition chan_inv :: "string \<Rightarrow> json list \<Rightarrow> chan \<Rightarrow> bool" where
  "chan_inv rid ms st \<longleftrightarrow> lockstep rid ms \<and> ch_run_id st = rid \<and> ch_sequence st = length ms \<and>
     (if ms = [] then ch_last st = - 1 else ch_last st = stamp_of (last ms)) \<and>
     (\<forall>ow. ch_owner st = Some ow \<longrightarrow> event_owner ow = Inr ow) \<and>
     (ms \<noteq> [] \<longrightarrow> (\<exists>ow. ch_owner st = Some ow \<and> owner_values ow = owner_values (jget (ms ! 0) ''owner''))) \<and>
     ch_ready st = (if length ms > 1 then Some (sample_of (ms ! 1)) else None) \<and>
     ch_ack st = (if length ms > 3 then Some (stamp_of (ms ! 3)) else None)"

lemma accept_bodyD:
  assumes "accept_body msg st = Inr st'"
  shows "ch_sequence st' = Suc (ch_sequence st) \<and> ch_last st' = stamp_of msg \<and> ch_owner st' = ch_owner st \<and> ch_run_id st' = ch_run_id st \<and>
    ch_ready st' = (if ch_sequence st = 1 then Some (sample_of msg) else ch_ready st) \<and>
    ch_ack st' = (if ch_sequence st = 3 then Some (stamp_of msg) else ch_ack st) \<and> ch_failed st' = ch_failed st \<and>
    (ch_sequence st = 1 \<or> ch_sequence st = 4 \<longrightarrow>
       ch_last st \<le> jint (sample_of msg) ''start_ns'' \<and> jint (sample_of msg) ''start_ns'' \<le> jint (sample_of msg) ''end_ns'' \<and>
       jint (sample_of msg) ''end_ns'' \<le> stamp_of msg) \<and>
    (ch_sequence st = 4 \<longrightarrow> (\<exists>ack ready. ch_ack st = Some ack \<and> ch_ready st = Some ready \<and> ack \<le> jint (sample_of msg) ''start_ns'' \<and>
       jint ready ''raw_bytes'' < jint (sample_of msg) ''raw_bytes''))"
proof -
  from assms obtain st1 where s: "accept_sample msg st = Inr st1"
    and st': "st' = st1\<lparr>ch_ack := (if ch_sequence st = 3 then Some (stamp_of msg) else ch_ack st1), ch_sequence := Suc (ch_sequence st), ch_last := stamp_of msg\<rparr>"
    unfolding accept_body_def Let_def stamp_of_def by (auto simp: res_simps)
  have r: "check_receipt e l t x = Inr () \<Longrightarrow> l \<le> jint x ''start_ns'' \<and> jint x ''start_ns'' \<le> jint x ''end_ns'' \<and> jint x ''end_ns'' \<le> t" for e l t x
    unfolding check_receipt_def requires_Inr_iff by blast
  consider (one) "ch_sequence st = 1" | (four) "ch_sequence st = 4" | (other) "ch_sequence st \<noteq> 1" "ch_sequence st \<noteq> 4" by blast
  then show ?thesis
  proof cases
    case one
    then have "st1 = st\<lparr>ch_ready := Some (sample_of msg)\<rparr>" "check_receipt 0 (ch_last st) (stamp_of msg) (sample_of msg) = Inr ()"
      using s by (auto simp: accept_sample_def Let_def res_simps sample_of_def stamp_of_def)
    with st' one r show ?thesis by simp
  next
    case four
    then have c: "st1 = st" "check_receipt 1 (ch_last st) (stamp_of msg) (sample_of msg) = Inr ()"
      "\<exists>ack ready. ch_ack st = Some ack \<and> ch_ready st = Some ready \<and> ack \<le> jint (sample_of msg) ''start_ns'' \<and>
       jint ready ''raw_bytes'' < jint (sample_of msg) ''raw_bytes''"
      using s by (auto simp: accept_sample_def Let_def res_simps sample_of_def stamp_of_def split: option.splits)
    with st' four r show ?thesis by simp
  next
    case other
    then have "st1 = st" using s by (simp add: accept_sample_def Let_def res_simps)
    with st' other show ?thesis by simp
  qed
qed

lemma accept_headerD:
  assumes "accept_header now msg st = Inr ()"
  shows "\<not> ch_failed st \<and> ch_sequence st < length ORDER \<and> jget msg ''event'' = JStr (ORDER ! ch_sequence st) \<and>
    jget msg ''sequence'' = JInt (int (ch_sequence st)) \<and> jget msg ''run_id'' = JStr (ch_run_id st) \<and>
    ch_last st \<le> stamp_of msg \<and> 0 \<le> stamp_of msg \<and> stamp_of msg \<le> now"
  using assms unfolding accept_header_def requires_Inr_iff stamp_of_def by blast

lemma lockstepD:
  assumes "lockstep rid ms"
  shows "i < length ms \<Longrightarrow> jget (ms ! i) ''event'' = JStr (ORDER ! i) \<and> jget (ms ! i) ''sequence'' = JInt (int i) \<and>
        jget (ms ! i) ''run_id'' = JStr rid \<and> owner_values (jget (ms ! i) ''owner'') = owner_values (jget (ms ! 0) ''owner'')"
    and "j < length ms \<Longrightarrow> i < j \<Longrightarrow> stamp_of (ms ! i) \<le> stamp_of (ms ! j)"
  using assms by (simp_all add: lockstep_def)

lemma lockstep_last: "lockstep rid ms \<Longrightarrow> i < length ms \<Longrightarrow> stamp_of (ms ! i) \<le> stamp_of (last ms)"
proof -
  assume ls: "lockstep rid ms" and i: "i < length ms"
  then have "ms \<noteq> []" by auto
  then have "last ms = ms ! (length ms - 1)" by (rule last_conv_nth)
  then show ?thesis using lockstepD(2) [OF ls, of "length ms - 1" i] i by (cases "i = length ms - 1") auto
qed

lemma lockstep_snoc:
  assumes ls: "lockstep rid ms" and n: "length ms < length ORDER"
    and m: "jget msg ''event'' = JStr (ORDER ! length ms)" "jget msg ''sequence'' = JInt (int (length ms))" "jget msg ''run_id'' = JStr rid"
    and ow: "ms \<noteq> [] \<Longrightarrow> owner_values (jget msg ''owner'') = owner_values (jget (ms ! 0) ''owner'')"
    and st: "ms \<noteq> [] \<Longrightarrow> stamp_of (last ms) \<le> stamp_of msg"
    and one: "length ms = 1 \<Longrightarrow> stamp_of (ms ! 0) \<le> jint (sample_of msg) ''start_ns'' \<and>
        jint (sample_of msg) ''start_ns'' \<le> jint (sample_of msg) ''end_ns'' \<and> jint (sample_of msg) ''end_ns'' \<le> stamp_of msg"
    and four: "length ms = 4 \<Longrightarrow> stamp_of (ms ! 3) \<le> jint (sample_of msg) ''start_ns'' \<and>
        jint (sample_of msg) ''start_ns'' \<le> jint (sample_of msg) ''end_ns'' \<and> jint (sample_of msg) ''end_ns'' \<le> stamp_of msg \<and>
        jint (sample_of (ms ! 1)) ''raw_bytes'' < jint (sample_of msg) ''raw_bytes''"
  shows "lockstep rid (ms @ [msg])"
proof -
  have idx: "i < Suc (length ms) \<Longrightarrow> i = length ms \<or> i < length ms" for i by auto
  have le: "stamp_of (ms ! i) \<le> stamp_of msg" if "i < length ms" for i
    using lockstep_last [OF ls that] st that by fastforce
  show ?thesis
    unfolding lockstep_def length_append_singleton
  proof (intro conjI allI impI)
    fix i assume i: "i < Suc (length ms)"
    have "jget ((ms @ [msg]) ! i) ''event'' = JStr (ORDER ! i) \<and> jget ((ms @ [msg]) ! i) ''sequence'' = JInt (int i) \<and>
      jget ((ms @ [msg]) ! i) ''run_id'' = JStr rid \<and>
      owner_values (jget ((ms @ [msg]) ! i) ''owner'') = owner_values (jget ((ms @ [msg]) ! 0) ''owner'')"
    proof (cases "i = length ms")
      case True
      then show ?thesis using m ow by (cases "ms = []") (simp_all add: nth_append)
    next
      case False
      then have "i < length ms" "0 < length ms" using i by auto
      then show ?thesis using lockstepD(1) [OF ls, of i] by (simp add: nth_append)
    qed
    then show "jget ((ms @ [msg]) ! i) ''event'' = JStr (ORDER ! i)" "jget ((ms @ [msg]) ! i) ''sequence'' = JInt (int i)"
      "jget ((ms @ [msg]) ! i) ''run_id'' = JStr rid"
      "owner_values (jget ((ms @ [msg]) ! i) ''owner'') = owner_values (jget ((ms @ [msg]) ! 0) ''owner'')" by (simp_all only:)
  next
    fix j i assume "j < Suc (length ms)" "i < j"
    then show "stamp_of ((ms @ [msg]) ! i) \<le> stamp_of ((ms @ [msg]) ! j)"
      using idx [of j] lockstepD(2) [OF ls] le by (auto simp: nth_append)
  next
    assume "1 < Suc (length ms)"
    then consider "length ms = 1" | "1 < length ms" by linarith
    then have "stamp_of ((ms @ [msg]) ! 0) \<le> jint (sample_of ((ms @ [msg]) ! 1)) ''start_ns'' \<and>
      jint (sample_of ((ms @ [msg]) ! 1)) ''start_ns'' \<le> jint (sample_of ((ms @ [msg]) ! 1)) ''end_ns'' \<and>
      jint (sample_of ((ms @ [msg]) ! 1)) ''end_ns'' \<le> stamp_of ((ms @ [msg]) ! 1)"
    proof cases
      case 1
      then show ?thesis using one by (simp add: nth_append)
    next
      case 2
      moreover from this have "0 < length ms" by linarith
      ultimately show ?thesis using ls by (simp add: nth_append lockstep_def)
    qed
    then show "stamp_of ((ms @ [msg]) ! 0) \<le> jint (sample_of ((ms @ [msg]) ! 1)) ''start_ns''"
      "jint (sample_of ((ms @ [msg]) ! 1)) ''start_ns'' \<le> jint (sample_of ((ms @ [msg]) ! 1)) ''end_ns''"
      "jint (sample_of ((ms @ [msg]) ! 1)) ''end_ns'' \<le> stamp_of ((ms @ [msg]) ! 1)" by blast+
  next
    assume "4 < Suc (length ms)"
    then have "length ms = 4" using n by (simp add: ORDER_def)
    then show "stamp_of ((ms @ [msg]) ! 3) \<le> jint (sample_of ((ms @ [msg]) ! 4)) ''start_ns''"
      "jint (sample_of ((ms @ [msg]) ! 4)) ''start_ns'' \<le> jint (sample_of ((ms @ [msg]) ! 4)) ''end_ns''"
      "jint (sample_of ((ms @ [msg]) ! 4)) ''end_ns'' \<le> stamp_of ((ms @ [msg]) ! 4)"
      "jint (sample_of ((ms @ [msg]) ! 1)) ''raw_bytes'' < jint (sample_of ((ms @ [msg]) ! 4)) ''raw_bytes''"
      using four by (simp_all add: nth_append)
  qed (use n in simp)
qed

lemma chan_run_inv: "chan_run rid ms st \<Longrightarrow> chan_inv rid ms st"
proof (induction rule: chan_run.induct)
  case (start rid)
  then show ?case by (simp add: chan_inv_def lockstep_def new_chan_def)
next
  case (accepted rid ms st now msg st' m)
  note a = acceptD [OF accepted.hyps(2)]
  have h: "ch_sequence st < length ORDER" "jget msg ''event'' = JStr (ORDER ! ch_sequence st)"
    "jget msg ''sequence'' = JInt (int (ch_sequence st))" "jget msg ''run_id'' = JStr (ch_run_id st)" "ch_last st \<le> stamp_of msg"
    using accept_headerD [of now msg st] a by blast+
  have b: "ch_sequence st' = Suc (ch_sequence st)" "ch_last st' = stamp_of msg" "ch_owner st' = Some (jget msg ''owner'')" "ch_run_id st' = ch_run_id st"
    "ch_ready st' = (if ch_sequence st = 1 then Some (sample_of msg) else ch_ready st)"
    "ch_ack st' = (if ch_sequence st = 3 then Some (stamp_of msg) else ch_ack st)"
    "ch_sequence st = 1 \<or> ch_sequence st = 4 \<Longrightarrow> ch_last st \<le> jint (sample_of msg) ''start_ns'' \<and>
       jint (sample_of msg) ''start_ns'' \<le> jint (sample_of msg) ''end_ns'' \<and> jint (sample_of msg) ''end_ns'' \<le> stamp_of msg"
    "ch_sequence st = 4 \<Longrightarrow> \<exists>ack ready. ch_ack st = Some ack \<and> ch_ready st = Some ready \<and> ack \<le> jint (sample_of msg) ''start_ns'' \<and>
       jint ready ''raw_bytes'' < jint (sample_of msg) ''raw_bytes''"
    using accept_bodyD [of msg "st\<lparr>ch_owner := Some (jget msg ''owner'')\<rparr>" st'] a by simp_all
  have i: "lockstep rid ms" "ch_run_id st = rid" "ch_sequence st = length ms" "ms \<noteq> [] \<Longrightarrow> ch_last st = stamp_of (last ms)"
    "ch_ready st = (if length ms > 1 then Some (sample_of (ms ! 1)) else None)" "ch_ack st = (if length ms > 3 then Some (stamp_of (ms ! 3)) else None)"
    using accepted.IH by (simp_all add: chan_inv_def)
  have ow: "owner_values (jget msg ''owner'') = owner_values (jget (ms ! 0) ''owner'')" if "ms \<noteq> []"
  proof -
    from accepted.IH that obtain o' where "ch_owner st = Some o'" "owner_values o' = owner_values (jget (ms ! 0) ''owner'')" "event_owner o' = Inr o'"
      by (auto simp: chan_inv_def)
    with a owner_equal show ?thesis by metis
  qed
  have first: "ch_last st = stamp_of (ms ! 0)" if "length ms = 1" using i(4) that by (cases ms) auto
  have four: "stamp_of (ms ! 3) \<le> jint (sample_of msg) ''start_ns'' \<and>
        jint (sample_of msg) ''start_ns'' \<le> jint (sample_of msg) ''end_ns'' \<and> jint (sample_of msg) ''end_ns'' \<le> stamp_of msg \<and>
        jint (sample_of (ms ! 1)) ''raw_bytes'' < jint (sample_of msg) ''raw_bytes''" if "length ms = 4"
    using b(7,8) i(3,5,6) that by simp
  have "lockstep rid (ms @ [msg])"
    by (rule lockstep_snoc [OF i(1)]) (use i(2-4) h ow b(7) first four in simp_all)
  then show ?case
    using b i a ow unfolding chan_inv_def
    by (auto simp: nth_append less_Suc_eq)
next
  case (refused rid ms st now msg st' e)
  note r = accept_refused [OF refused.hyps(2)]
  have "\<exists>o'. ch_owner st' = Some o' \<and> owner_values o' = owner_values (jget (ms ! 0) ''owner'')" if "ms \<noteq> []"
  proof -
    from refused.IH that obtain o' where "ch_owner st = Some o'" "owner_values o' = owner_values (jget (ms ! 0) ''owner'')" "event_owner o' = Inr o'"
      by (auto simp: chan_inv_def)
    with r owner_equal show ?thesis by metis
  qed
  then show ?case using refused.IH r unfolding chan_inv_def by (auto split: if_splits)
next
  case (failing rid ms st)
  then show ?case by (simp add: chan_inv_def)
qed

interpretation channel_latch: fail_closed "\<lambda>(now, msg). accept now msg" ch_failed
  "\<lambda>st. (ch_sequence st, ch_last st, ch_owner st, ch_ready st, ch_ack st)"
proof unfold_locales
  fix s :: chan and i :: "int \<times> json"
  assume "ch_failed s"
  then have *: "accept (fst i) (snd i) s = (s, Inl (InterfaceError ''channel already failed''))"
    by (simp add: accept_def accept_header_def latch_def)
  show "\<exists>e. snd ((case i of (now, msg) \<Rightarrow> accept now msg) s) = Inl e" "ch_failed (fst ((case i of (now, msg) \<Rightarrow> accept now msg) s))"
    using * \<open>ch_failed s\<close> by (simp_all add: case_prod_beta)
  let ?s = "fst ((case i of (now, msg) \<Rightarrow> accept now msg) s)"
  show "(ch_sequence ?s, ch_last ?s, ch_owner ?s, ch_ready ?s, ch_ack ?s) = (ch_sequence s, ch_last s, ch_owner s, ch_ready s, ch_ack s)"
    using * by (simp add: case_prod_beta)
qed

section \<open>The link\<close>

text \<open>
  What the system calls of a link return, by call number: the clock, the block a \<open>recv\<close> delivers (at
  most as many bytes as were asked for), \<open>sendall\<close>, and how many characters of a record the
  journal took.
\<close>

record wire =
  wr_clock :: "nat \<Rightarrow> int"
  wr_recv :: "nat \<Rightarrow> string res"
  wr_send :: "nat \<Rightarrow> unit res"
  wr_write :: "nat \<Rightarrow> nat res"

record link =
  lk_chan :: chan
  lk_buffer :: string
  lk_count :: nat
  lk_journal :: string
  lk_sent :: string
  lk_tick :: nat

definition new_link :: "string \<Rightarrow> link" where
  "new_link rid = \<lparr>lk_chan = new_chan rid, lk_buffer = [], lk_count = 0, lk_journal = [], lk_sent = [], lk_tick = 0\<rparr>"

definition syscall :: "(nat \<Rightarrow> 'a res) \<Rightarrow> (link, 'a) io" where
  "syscall f = (\<lambda>l. Some (f (lk_tick l), l\<lparr>lk_tick := Suc (lk_tick l)\<rparr>))"

definition link_clock :: "wire \<Rightarrow> (link, int) io" where
  "link_clock W = syscall (\<lambda>t. Inr (wr_clock W t))"

definition budget :: "wire \<Rightarrow> int \<Rightarrow> (link, unit) io" where
  "budget W deadline = bindi (link_clock W) (\<lambda>now. if deadline - now > 0 then ret () else raise (InterfaceError ''channel timeout''))"

definition socket_error :: "py_error \<Rightarrow> py_error" where
  "socket_error e = (if e = TimeoutError then InterfaceError ''channel timeout''
     else if is_OSError e then InterfaceError ''channel closed'' else e)"

definition frame :: "wire \<Rightarrow> int \<Rightarrow> json \<Rightarrow> (link, unit) io" where
  "frame W deadline value =
     (if length (jsonl value) > MAX_MESSAGE then raise (InterfaceError ''channel frame bound'')
      else bindi (budget W deadline) (\<lambda>_.
        bindi (attempt (syscall (wr_send W))) (\<lambda>r. case r of
          Inl e \<Rightarrow> raise (socket_error e)
        | Inr u \<Rightarrow> modify (\<lambda>l. l\<lparr>lk_sent := lk_sent l @ jsonl value\<rparr>))))"

definition line_length :: "string \<Rightarrow> nat" where
  "line_length buf = length (takeWhile (\<lambda>c. c \<noteq> LF) buf) + (if LF \<in> set buf then 1 else 0)"

text \<open>The receive loop; every round adds at least one byte, so \<open>READ_FUEL\<close> rounds are enough.\<close>

fun fill :: "nat \<Rightarrow> wire \<Rightarrow> int \<Rightarrow> (link, unit) io" where
  "fill 0 W deadline = (\<lambda>l. None)"
| "fill (Suc n) W deadline = bindi (gets lk_buffer) (\<lambda>buf.
     if LF \<in> set buf then ret ()
     else bindi (budget W deadline) (\<lambda>_.
       bindi (attempt (syscall (wr_recv W))) (\<lambda>r. case r of
         Inl e \<Rightarrow> raise (socket_error e)
       | Inr block \<Rightarrow>
           let got = take (MAX_MESSAGE + 1 - length buf) block; buf' = buf @ got in
           if got = [] then raise (InterfaceError ''channel closed'')
           else bindi (modify (\<lambda>l. l\<lparr>lk_buffer := buf'\<rparr>)) (\<lambda>_.
             if line_length buf' > MAX_MESSAGE then raise (InterfaceError ''channel frame bound'') else fill n W deadline))))"

definition READ_FUEL :: nat where "READ_FUEL = MAX_MESSAGE + 3"

definition link_read :: "wire \<Rightarrow> int \<Rightarrow> (link, json) io" where
  "link_read W deadline =
     bindi (fill READ_FUEL W deadline) (\<lambda>_.
     bindi (gets (\<lambda>l. takeWhile (\<lambda>c. c \<noteq> LF) (lk_buffer l))) (\<lambda>raw.
     bindi (modify (\<lambda>l. l\<lparr>lk_buffer := tl (dropWhile (\<lambda>c. c \<noteq> LF) (lk_buffer l))\<rparr>)) (\<lambda>_.
     if length raw + 1 > MAX_MESSAGE then raise (InterfaceError ''channel frame bound'')
     else case loads raw of None \<Rightarrow> raise (InterfaceError ''invalid channel JSON'') | Some v \<Rightarrow> ret v)))"

definition journal_record :: "wire \<Rightarrow> json \<Rightarrow> (link, unit) io" where
  "journal_record W value =
     bindi (gets lk_count) (\<lambda>n.
     if n \<ge> 6 then raise (InterfaceError ''channel transcript bound'')
     else if length (jsonl value) > MAX_MESSAGE then raise (InterfaceError ''channel transcript frame bound'')
     else bindi (syscall (wr_write W)) (\<lambda>k.
       bindi (modify (\<lambda>l. l\<lparr>lk_journal := lk_journal l @ take k (jsonl value)\<rparr>)) (\<lambda>_.
       if k \<noteq> length (jsonl value) then raise (InterfaceError ''channel transcript short write'')
       else modify (\<lambda>l. l\<lparr>lk_count := Suc (lk_count l)\<rparr>))))"

text \<open>The clock is read for every \<open>accept\<close>, also when an earlier check already refuses the message.\<close>

definition link_accept :: "wire \<Rightarrow> json \<Rightarrow> (link, json) io" where
  "link_accept W msg =
     bindi (link_clock W) (\<lambda>now. \<lambda>l. case accept now msg (lk_chan l) of (st, r) \<Rightarrow> Some (r, l\<lparr>lk_chan := st\<rparr>))"

definition link_send :: "wire \<Rightarrow> int \<Rightarrow> string \<Rightarrow> json \<Rightarrow> int option \<Rightarrow> json \<Rightarrow> (link, json) io" where
  "link_send W deadline event target stamp smp =
     bindi (lift_res (event_index event)) (\<lambda>_.
     bindi (case stamp of Some t \<Rightarrow> ret t | None \<Rightarrow> link_clock W) (\<lambda>t.
     bindi (gets lk_chan) (\<lambda>st.
     bindi (lift_res (message event target t smp st)) (\<lambda>value.
     bindi (link_accept W value) (\<lambda>_.
     bindi (frame W deadline value) (\<lambda>_.
     bindi (journal_record W value) (\<lambda>_. ret value)))))))"

definition link_receive :: "wire \<Rightarrow> int \<Rightarrow> string \<Rightarrow> (link, json) io" where
  "link_receive W deadline expected =
     bindi (link_read W deadline) (\<lambda>value.
     bindi (link_accept W value) (\<lambda>_.
     if jget value ''event'' \<noteq> JStr expected then raise (InterfaceError ''unexpected channel event'')
     else bindi (journal_record W value) (\<lambda>_. ret value)))"

definition link_fail :: "wire \<Rightarrow> string \<Rightarrow> (link, unit) io" where
  "link_fail W reason =
     bindi (modify (\<lambda>l. l\<lparr>lk_chan := (lk_chan l)\<lparr>ch_failed := True\<rparr>\<rparr>)) (\<lambda>_.
     bindi (link_clock W) (\<lambda>now.
     bindi (gets lk_chan) (\<lambda>st.
     journal_record W (JObj [(''schema'', JInt 1), (''contract'', JStr G4_CONTRACT), (''run_id'', JStr (ch_run_id st)),
       (''sequence'', JInt (int (ch_sequence st))), (''event'', JStr ''error''), (''state'', JStr ''failed''),
       (''monotonic_ns'', JInt now), (''error'', JStr reason)]))))"

section \<open>Reading always ends\<close>

lemma line_length_no_LF: "LF \<notin> set buf \<Longrightarrow> line_length buf = length buf"
proof -
  assume "LF \<notin> set buf"
  then have t: "takeWhile (\<lambda>c. c \<noteq> LF) buf = buf" by (auto simp: takeWhile_eq_all_conv)
  show ?thesis unfolding line_length_def t using \<open>LF \<notin> set buf\<close> by simp
qed

lemma budget_total: "total (budget W dl)"
  by (simp add: budget_def link_clock_def syscall_def total_def bindi_def ret_def raise_def)

lemma budget_keeps: "budget W dl l = Some (r, l') \<Longrightarrow> lk_buffer l' = lk_buffer l \<and> lk_chan l' = lk_chan l \<and> lk_count l' = lk_count l"
  by (auto simp: budget_def link_clock_def syscall_def io_simps split: if_splits)

lemma fill_ends: "MAX_MESSAGE + 3 \<le> n + min (MAX_MESSAGE + 1) (length (lk_buffer l)) \<Longrightarrow> 2 \<le> n \<Longrightarrow> fill n W dl l \<noteq> None"
proof (induction n arbitrary: l)
  case (Suc n)
  let ?buf = "lk_buffer l"
  show ?case
  proof (cases "LF \<in> set ?buf")
    case True
    then show ?thesis by (simp add: bindi_def gets_def ret_def)
  next
    case no: False
    obtain r l1 where b: "budget W dl l = Some (r, l1)" using budget_total unfolding total_def by (metis option.exhaust prod.exhaust)
    have buf: "lk_buffer l1 = ?buf" using budget_keeps [OF b] by simp
    show ?thesis
    proof (cases "\<exists>block. r = Inr () \<and> wr_recv W (lk_tick l1) = Inr block \<and> take (MAX_MESSAGE + 1 - length ?buf) block \<noteq> []")
      case True
      then obtain block where bl: "r = Inr ()" "wr_recv W (lk_tick l1) = Inr block" "take (MAX_MESSAGE + 1 - length ?buf) block \<noteq> []" by blast
      let ?got = "take (MAX_MESSAGE + 1 - length ?buf) block"
      let ?l2 = "l1\<lparr>lk_tick := Suc (lk_tick l1), lk_buffer := ?buf @ ?got\<rparr>"
      have "fill n W dl ?l2 \<noteq> None" if "line_length (?buf @ ?got) \<le> MAX_MESSAGE"
      proof (cases n)
        case 0
        then show ?thesis using Suc.prems by simp
      next
        case (Suc k)
        show ?thesis
        proof (cases "LF \<in> set (?buf @ ?got)")
          case True
          then show ?thesis unfolding Suc by (simp add: bindi_def gets_def ret_def)
        next
          case False
          define g where "g = ?got"
          have "length (?buf @ g) \<le> MAX_MESSAGE" "0 < length g" unfolding g_def using False that line_length_no_LF bl(3) by auto
          then have g: "length ?buf + length g \<le> MAX_MESSAGE" "1 \<le> length g" by (simp_all add: Suc_le_eq)
          then have "MAX_MESSAGE + 3 \<le> Suc n + length ?buf" using Suc.prems(1) by (auto simp: min_def split: if_splits)
          with g have "MAX_MESSAGE + 3 \<le> n + min (MAX_MESSAGE + 1) (length (?buf @ g))" "2 \<le> n"
            unfolding length_append min_def by (auto split: if_split)
          then show ?thesis unfolding g_def by (intro Suc.IH) simp_all
        qed
      qed
      then show ?thesis
        using no b bl buf by (simp add: bindi_def gets_def attempt_def syscall_def modify_def raise_def Let_def)
    next
      case False
      then show ?thesis
        using no b by (auto simp: bindi_def gets_def attempt_def syscall_def modify_def raise_def Let_def split: sum.splits)
    qed
  qed
qed simp

lemma fill_READ_FUEL: "fill READ_FUEL W dl l \<noteq> None"
  by (rule fill_ends) (simp_all add: READ_FUEL_def)

lemma link_read_total: "link_read W dl l \<noteq> None"
  using fill_READ_FUEL [of W dl l]
  by (auto simp: link_read_def bindi_def gets_def modify_def raise_def ret_def split: option.splits sum.splits if_splits)

section \<open>Two endpoints\<close>

lemma the_int_sort_keys [simp]: "the_int (sort_keys v) = the_int v" "is_int (sort_keys v) = is_int v"
  "is_str (sort_keys v) = is_str v" "the_str (sort_keys v) = the_str v" "sort_keys v = JNull \<longleftrightarrow> v = JNull"
  by (cases v; simp)+

lemma jint_sorted: "json_ok v \<Longrightarrow> jint (sort_keys v) k = jint v k"
  by (simp add: jint_def jget_sorted)

definition owner_ok :: "json \<Rightarrow> bool" where
  "owner_ok v \<longleftrightarrow> event_owner v = Inr v \<and> json_ok v"

lemma owner_ok_sorted:
  assumes "event_owner v = Inr v" "json_ok v"
  shows "owner_ok (sort_keys v) \<and> owner_values (sort_keys v) = owner_values v"
  using assms
  by (simp add: owner_ok_def event_owner_def requires_Inr_iff keys_are_sorted jint_sorted jget_sorted owner_values_def json_ok_sort_keys)

lemma owner_py_eq:
  assumes a: "owner_ok a" and b: "owner_ok b" and v: "owner_values a = owner_values b"
  shows "py_eq a b"
proof -
  have ka: "keys_are a OWNER_KEYS" "keys_are b OWNER_KEYS" and ints: "\<forall>k \<in> set OWNER_KEYS. is_int (jget a k) \<and> is_int (jget b k)"
    using a b by (auto simp: owner_ok_def event_owner_def requires_Inr_iff OWNER_KEYS_def)
  from ka obtain kvs kws where k: "a = JObj kvs" "b = JObj kws" by (cases a; cases b) (simp_all add: keys_are_def)
  have dist: "distinct (map fst kvs)" "distinct (map fst kws)" using a b k by (simp_all add: owner_ok_def json_ok_def)
  have ks: "set (map fst kvs) = set OWNER_KEYS" "set (map fst kws) = set OWNER_KEYS" using ka k by (simp_all add: keys_are_def keys_def)
  have "length kvs = card (set OWNER_KEYS)" "length kws = card (set OWNER_KEYS)"
    using distinct_card [OF dist(1)] distinct_card [OF dist(2)] unfolding ks by simp_all
  moreover have "\<forall>(key, x) \<in> set kvs. case map_of kws key of Some w \<Rightarrow> py_eq x w | None \<Rightarrow> False"
  proof (intro ballI, clarify)
    fix key x assume x: "(key, x) \<in> set kvs"
    then have key: "key \<in> set OWNER_KEYS" using ks(1) by force
    then have "key \<in> set (map fst kws)" using ks(2) by simp
    then obtain w where w: "map_of kws key = Some w" by (metis map_of_eq_None_iff not_None_eq set_map)
    have x': "map_of kvs key = Some x" using x dist(1) by simp
    have "is_int x" "is_int w" using ints key x' w k by (auto simp: jget_def)
    then obtain p q where pq: "x = JInt p" "w = JInt q" by (cases x; cases w) auto
    have "jint a key = jint b key" using v key unfolding owner_values_def by simp
    then have "p = q" using pq x' w k by (simp add: jint_def jget_def)
    then show "case map_of kws key of Some w \<Rightarrow> py_eq x w | None \<Rightarrow> False" using w pq by (simp add: dec_eq_def)
  qed
  ultimately show ?thesis unfolding k by simp
qed

text \<open>Two endpoints in the same protocol state; what one keeps as it was sent, the other keeps as it was read.\<close>

definition twin :: "chan \<Rightarrow> chan \<Rightarrow> bool" where
  "twin A B \<longleftrightarrow> ch_run_id A = ch_run_id B \<and> ch_sequence A = ch_sequence B \<and> ch_last A = ch_last B \<and> ch_ack A = ch_ack B \<and>
     ch_failed A = ch_failed B \<and> rel_option (\<lambda>a b. owner_ok a \<and> owner_ok b \<and> owner_values a = owner_values b) (ch_owner A) (ch_owner B) \<and>
     rel_option (\<lambda>a b. jint a ''end_ns'' = jint b ''end_ns'' \<and> jint a ''raw_bytes'' = jint b ''raw_bytes'') (ch_ready A) (ch_ready B)"

lemma twin_new: "twin (new_chan rid) (new_chan rid)"
  by (simp add: twin_def new_chan_def)

lemma header_sorted:
  assumes "accept_header now msg A = Inr ()" "json_ok msg" "twin A B" "stamp_of msg \<le> now'"
  shows "accept_header now' (sort_keys msg) B = Inr ()"
  using assms unfolding accept_header_def requires_Inr_iff
  by (simp add: keys_are_sorted jget_sorted jint_sorted twin_def stamp_of_def)

lemma receipt_sorted:
  assumes "check_receipt e l t x = Inr ()" "json_ok x"
  shows "check_receipt e l t (sort_keys x) = Inr ()"
  using assms unfolding check_receipt_def requires_Inr_iff
  by (simp add: keys_are_sorted jget_sorted jint_sorted)

lemma body_sorted:
  assumes body: "accept_body msg A = Inr A'" and ok: "json_ok msg" and tw: "twin A B"
  shows "\<exists>B'. accept_body (sort_keys msg) B = Inr B' \<and> twin A' B'"
proof -
  let ?m = "sort_keys msg"
  have sm: "jget ?m ''sample'' = sort_keys (sample_of msg)" "jint ?m ''monotonic_ns'' = stamp_of msg"
    using ok by (simp_all add: jget_sorted jint_sorted sample_of_def stamp_of_def)
  have oks: "json_ok (sample_of msg)" unfolding sample_of_def by (rule json_ok_jget [OF ok])
  note js = jint_sorted [OF oks]
  have seq: "ch_sequence B = ch_sequence A" "ch_last B = ch_last A" "ch_ack B = ch_ack A"
    and ready: "rel_option (\<lambda>a b. jint a ''end_ns'' = jint b ''end_ns'' \<and> jint a ''raw_bytes'' = jint b ''raw_bytes'') (ch_ready A) (ch_ready B)"
    using tw by (simp_all add: twin_def)
  from body obtain A1 where A1: "accept_sample msg A = Inr A1"
    and two: "ch_sequence A = 2 \<longrightarrow> (case ch_ready A1 of None \<Rightarrow> False | Some ready \<Rightarrow> jint ready ''end_ns'' \<le> stamp_of msg)"
    and A': "A' = A1\<lparr>ch_ack := (if ch_sequence A = 3 then Some (stamp_of msg) else ch_ack A1), ch_sequence := Suc (ch_sequence A), ch_last := stamp_of msg\<rparr>"
    unfolding accept_body_def Let_def stamp_of_def by (auto simp: res_simps)
  have "\<exists>B1. accept_sample ?m B = Inr B1 \<and> twin A1 B1"
  proof -
    consider (one) "ch_sequence A = 1" | (four) "ch_sequence A = 4" | (other) "ch_sequence A \<noteq> 1" "ch_sequence A \<noteq> 4" by blast
    then show ?thesis
    proof cases
      case one
      then have "A1 = A\<lparr>ch_ready := Some (sample_of msg)\<rparr>" "check_receipt 0 (ch_last A) (stamp_of msg) (sample_of msg) = Inr ()"
        using A1 by (auto simp: accept_sample_def Let_def res_simps sample_of_def stamp_of_def)
      then show ?thesis using one tw receipt_sorted [OF _ oks]
        by (simp add: accept_sample_def Let_def sm seq twin_def js)
    next
      case four
      then obtain ack rd where c: "A1 = A" "check_receipt 1 (ch_last A) (stamp_of msg) (sample_of msg) = Inr ()"
        "ch_ack A = Some ack" "ch_ready A = Some rd" "ack \<le> jint (sample_of msg) ''start_ns''" "jint rd ''raw_bytes'' < jint (sample_of msg) ''raw_bytes''"
        using A1 by (auto simp: accept_sample_def Let_def res_simps sample_of_def stamp_of_def split: option.splits)
      from ready c(4) obtain rd' where rd': "ch_ready B = Some rd'" "jint rd' ''raw_bytes'' = jint rd ''raw_bytes''"
        by (auto simp: option_rel_Some1)
      then have "accept_sample ?m B = Inr B"
        using four c receipt_sorted [OF c(2) oks] by (simp add: accept_sample_def Let_def sm seq js)
      with tw c(1) show ?thesis by blast
    next
      case other
      then have "A1 = A" "sample_of msg = JNull" using A1 by (simp_all add: accept_sample_def Let_def res_simps sample_of_def)
      then show ?thesis using other tw by (simp add: accept_sample_def Let_def sm seq)
    qed
  qed
  then obtain B1 where B1: "accept_sample ?m B = Inr B1" "twin A1 B1" by blast
  have "ch_sequence A = 2 \<longrightarrow> (case ch_ready B1 of None \<Rightarrow> False | Some ready \<Rightarrow> jint ready ''end_ns'' \<le> stamp_of msg)"
    using two B1(2) by (auto simp: twin_def option_rel_Some1 split: option.splits)
  then have "accept_body ?m B = Inr (B1\<lparr>ch_ack := (if ch_sequence A = 3 then Some (stamp_of msg) else ch_ack B1), ch_sequence := Suc (ch_sequence A), ch_last := stamp_of msg\<rparr>)"
    unfolding accept_body_def Let_def sm seq B1(1) by (simp add: requires_def)
  moreover have "twin A' (B1\<lparr>ch_ack := (if ch_sequence A = 3 then Some (stamp_of msg) else ch_ack B1), ch_sequence := Suc (ch_sequence A), ch_last := stamp_of msg\<rparr>)"
    using B1(2) by (simp add: A' twin_def)
  ultimately show ?thesis by blast
qed

lemma accept_sorted:
  assumes acc: "accept now msg A = (A', Inr m)" and ok: "json_ok msg" and tw: "twin A B" and time: "stamp_of msg \<le> now'"
  shows "\<exists>B'. accept now' (sort_keys msg) B = (B', Inr (sort_keys msg)) \<and> twin A' B'"
proof -
  note a = acceptD [OF acc]
  let ?o = "jget msg ''owner''" and ?m = "sort_keys msg"
  have oko: "json_ok ?o" by (rule json_ok_jget [OF ok])
  have own: "owner_ok ?o" "owner_ok (sort_keys ?o)" "owner_values (sort_keys ?o) = owner_values ?o"
    using owner_ok_sorted [of ?o] a oko by (simp_all add: owner_ok_def)
  have go: "jget ?m ''owner'' = sort_keys ?o" by (rule jget_sorted [OF ok])
  have "case ch_owner B of None \<Rightarrow> True | Some ow \<Rightarrow> py_eq ow (sort_keys ?o)"
  proof (cases "ch_owner B")
    case (Some ob)
    then obtain oa where oa: "ch_owner A = Some oa" "owner_ok oa" "owner_ok ob" "owner_values oa = owner_values ob"
      using tw by (auto simp: twin_def option_rel_Some2)
    then have "owner_values oa = owner_values ?o" using a owner_equal [of oa ?o] by (simp add: owner_ok_def)
    then show ?thesis using Some oa own owner_py_eq [of ob "sort_keys ?o"] by simp
  qed simp
  then have bind: "bind_owner (jget ?m ''owner'') B = Inr (B\<lparr>ch_owner := Some (sort_keys ?o)\<rparr>)"
    using own unfolding bind_owner_def go by (simp add: owner_ok_def requires_def)
  have hdr: "accept_header now' ?m B = Inr ()" using header_sorted [OF _ ok tw time] a by blast
  have "twin (A\<lparr>ch_owner := Some ?o\<rparr>) (B\<lparr>ch_owner := Some (sort_keys ?o)\<rparr>)" using tw own by (simp add: twin_def)
  from body_sorted [OF _ ok this] a obtain B' where "accept_body ?m (B\<lparr>ch_owner := Some (sort_keys ?o)\<rparr>) = Inr B'" "twin A' B'" by blast
  then show ?thesis by (simp add: accept_def hdr bind)
qed

lemma line_split: "LF \<notin> set d \<Longrightarrow> takeWhile (\<lambda>c. c \<noteq> LF) (d @ LF # rest) = d \<and> dropWhile (\<lambda>c. c \<noteq> LF) (d @ LF # rest) = LF # rest"
  by (induction d) auto

lemma read_frame:
  assumes "lk_buffer l = jsonl v @ rest" "json_ok v" "length (jsonl v) \<le> MAX_MESSAGE"
  shows "link_read W dl l = Some (Inr (sort_keys v), l\<lparr>lk_buffer := rest\<rparr>)"
proof -
  have no: "LF \<notin> set (dumps v)" using dumps_one_line by blast
  have LF: "LF \<in> set (lk_buffer l)" using assms(1) by (simp add: jsonl_def)
  have tw: "takeWhile (\<lambda>c. c \<noteq> LF) (lk_buffer l) = dumps v" "dropWhile (\<lambda>c. c \<noteq> LF) (lk_buffer l) = LF # rest"
    using line_split [OF no, of rest] unfolding assms(1) jsonl_def by simp_all
  have fuel: "READ_FUEL = Suc (MAX_MESSAGE + 2)" by (simp add: READ_FUEL_def)
  have "fill READ_FUEL W dl l = Some (Inr (), l)" unfolding fuel using LF by (simp add: bindi_def gets_def ret_def)
  then show ?thesis
    using assms(3) tw by (simp add: link_read_def bindi_def gets_def modify_def ret_def loads_dumps [OF assms(2)] jsonl_def)
qed

lemma link_acceptD:
  "link_accept W msg l = Some (r, l') \<Longrightarrow>
     \<exists>st. accept (wr_clock W (lk_tick l)) msg (lk_chan l) = (st, r) \<and> l' = l\<lparr>lk_tick := Suc (lk_tick l), lk_chan := st\<rparr>"
  by (auto simp: link_accept_def link_clock_def syscall_def bindi_def split: prod.splits)

lemma journal_recordD:
  "journal_record W v l = Some (Inr u, l') \<Longrightarrow> lk_journal l' = lk_journal l @ jsonl v \<and> lk_count l' = Suc (lk_count l) \<and> lk_count l < 6 \<and>
     lk_chan l' = lk_chan l \<and> lk_sent l' = lk_sent l \<and> length (jsonl v) \<le> MAX_MESSAGE"
  by (auto simp: journal_record_def syscall_def io_simps split: if_splits)

lemma frameD:
  "frame W dl v l = Some (Inr u, l') \<Longrightarrow> lk_sent l' = lk_sent l @ jsonl v \<and> lk_journal l' = lk_journal l \<and> lk_count l' = lk_count l \<and>
     lk_chan l' = lk_chan l \<and> length (jsonl v) \<le> MAX_MESSAGE"
  by (auto simp: frame_def budget_def link_clock_def syscall_def io_simps split: if_splits sum.splits)

lemma link_sendD:
  assumes "link_send W dl event target stamp smp l = Some (Inr msg, l')"
  obtains t now st where "message event target t smp (lk_chan l) = Inr msg" "accept now msg (lk_chan l) = (lk_chan l', Inr msg)"
    "length (jsonl msg) \<le> MAX_MESSAGE" "lk_sent l' = lk_sent l @ jsonl msg" "lk_journal l' = lk_journal l @ jsonl msg"
    "lk_count l' = Suc (lk_count l)" "lk_count l < 6"
proof -
  have "\<exists>t l1 m l2 l3. (l1 = l \<or> l1 = l\<lparr>lk_tick := Suc (lk_tick l)\<rparr>) \<and> message event target t smp (lk_chan l) = Inr msg \<and>
    link_accept W msg l1 = Some (Inr m, l2) \<and> frame W dl msg l2 = Some (Inr (), l3) \<and> journal_record W msg l3 = Some (Inr (), l')"
    using assms unfolding link_send_def
    by (cases stamp) (auto simp: io_simps link_clock_def syscall_def, fastforce+)
  then obtain t l1 m l2 l3 where l1: "l1 = l \<or> l1 = l\<lparr>lk_tick := Suc (lk_tick l)\<rparr>"
    and r: "message event target t smp (lk_chan l) = Inr msg" "link_accept W msg l1 = Some (Inr m, l2)"
      "frame W dl msg l2 = Some (Inr (), l3)" "journal_record W msg l3 = Some (Inr (), l')" by blast
  have "lk_chan l1 = lk_chan l" "lk_sent l1 = lk_sent l" "lk_journal l1 = lk_journal l" "lk_count l1 = lk_count l" using l1 by auto
  note s = this r
  from link_acceptD [OF s(6)] obtain st where st: "accept (wr_clock W (lk_tick l1)) msg (lk_chan l1) = (st, Inr m)"
    "l2 = l1\<lparr>lk_tick := Suc (lk_tick l1), lk_chan := st\<rparr>" by blast
  have "m = msg" using acceptD [OF st(1)] by simp
  with st s frameD [OF s(7)] journal_recordD [OF s(8)] show thesis by (intro that) auto
qed

lemma send_receive:
  assumes send: "link_send W dl event target stamp smp lA = Some (Inr msg, lA')" and tw: "twin (lk_chan lA) (lk_chan lB)"
    and ok: "json_ok target" "json_ok smp" and buf: "lk_buffer lB = jsonl msg @ rest"
    and time: "stamp_of msg \<le> wr_clock WB (lk_tick lB)" and room: "lk_count lB < 6"
    and wr: "wr_write WB (Suc (lk_tick lB)) = Inr (length (jsonl msg))"
  shows "\<exists>lB'. link_receive WB dlB event lB = Some (Inr (sort_keys msg), lB') \<and> twin (lk_chan lA') (lk_chan lB') \<and>
    lk_buffer lB' = rest \<and> lk_journal lB' = lk_journal lB @ jsonl msg"
proof -
  from send obtain t now st where m: "message event target t smp (lk_chan lA) = Inr msg" "accept now msg (lk_chan lA) = (lk_chan lA', Inr msg)"
    "length (jsonl msg) \<le> MAX_MESSAGE" by (rule link_sendD)
  have okm: "json_ok msg" and ev: "jget msg ''event'' = JStr event"
    using m(1) ok by (auto simp: message_def res_simps json_ok_def jget_def)
  from accept_sorted [OF m(2) okm tw time] obtain B' where B': "accept (wr_clock WB (lk_tick lB)) (sort_keys msg) (lk_chan lB) = (B', Inr (sort_keys msg))"
    "twin (lk_chan lA') B'" by blast
  have js: "jsonl (sort_keys msg) = jsonl msg" by (simp add: jsonl_def dumps_def sort_keys_idem)
  have ev': "jget (sort_keys msg) ''event'' = JStr event" using ev jget_sorted [OF okm] by simp
  let ?l1 = "lB\<lparr>lk_buffer := rest\<rparr>" and ?l2 = "lB\<lparr>lk_buffer := rest, lk_tick := Suc (lk_tick lB), lk_chan := B'\<rparr>"
  have acc: "link_accept WB (sort_keys msg) ?l1 = Some (Inr (sort_keys msg), ?l2)"
    using B'(1) by (simp add: link_accept_def link_clock_def syscall_def bindi_def)
  have rec: "journal_record WB (sort_keys msg) ?l2 = Some (Inr (), ?l2\<lparr>lk_tick := Suc (Suc (lk_tick lB)),
      lk_journal := lk_journal lB @ jsonl msg, lk_count := Suc (lk_count lB)\<rparr>)"
    using room wr m(3) by (simp add: journal_record_def syscall_def bindi_def gets_def modify_def js)
  show ?thesis
    using B'(2) ev' by (simp add: link_receive_def bindi_def read_frame [OF buf okm m(3)] acc rec ret_def)
qed

section \<open>The handshake\<close>

text \<open>\<open>peer\<close>: the credentials of the socket and the process they name now.\<close>

definition peer_matches :: "int \<Rightarrow> int \<Rightarrow> int \<Rightarrow> ident \<Rightarrow> ident option \<Rightarrow> bool" where
  "peer_matches pid uid my_uid expected current \<longleftrightarrow> pid = p_pid expected \<and> uid = my_uid \<and> ps_same (Some expected) current"

definition hello_json :: "string \<Rightarrow> string \<Rightarrow> json \<Rightarrow> int \<Rightarrow> string \<Rightarrow> json" where
  "hello_json kind rid runner supervisor_pid config_sha = JObj [(''schema'', JInt 1), (''contract'', JStr G4_CONTRACT), (''kind'', JStr kind),
     (''run_id'', JStr rid), (''runner'', runner), (''supervisor_pid'', JInt supervisor_pid), (''config_sha256'', JStr config_sha)]"

text \<open>The part of \<open>Server.accept\<close> after the connection is there; \<open>peer\<close> is the verdict of \<open>peer_matches\<close>.\<close>

definition server_hello :: "wire \<Rightarrow> int \<Rightarrow> bool \<Rightarrow> string \<Rightarrow> ident \<Rightarrow> int \<Rightarrow> string \<Rightarrow> (link, unit) io" where
  "server_hello W deadline peer rid runner my_pid config_sha =
     (if \<not> peer then raise (InterfaceError ''channel peer identity'')
      else bindi (lift_res (event_identity (ident_json runner))) (\<lambda>who.
        bindi (link_read W deadline) (\<lambda>hello.
        if \<not> py_eq hello (hello_json ''hello'' rid who my_pid config_sha) then raise (InterfaceError ''channel hello identity'')
        else frame W deadline (hello_json ''connected'' rid who my_pid config_sha))))"

text \<open>The part of \<open>connect\<close> after the socket is connected.\<close>

definition client_hello :: "wire \<Rightarrow> int \<Rightarrow> bool \<Rightarrow> string \<Rightarrow> ident option \<Rightarrow> ident \<Rightarrow> string \<Rightarrow> (link, unit) io" where
  "client_hello W deadline peer rid runner supervisor config_sha =
     (if \<not> peer then raise (InterfaceError ''channel peer identity'')
      else case runner of
        None \<Rightarrow> raise (InterfaceError ''channel Runner session'')
      | Some r \<Rightarrow>
          if \<not> (p_pid r = p_pgid r \<and> p_pgid r = p_sid r) then raise (InterfaceError ''channel Runner session'')
          else bindi (lift_res (event_identity (ident_json r))) (\<lambda>who.
            bindi (frame W deadline (hello_json ''hello'' rid who (p_pid supervisor) config_sha)) (\<lambda>_.
            bindi (link_read W deadline) (\<lambda>answer.
            if py_eq answer (hello_json ''connected'' rid who (p_pid supervisor) config_sha) then ret ()
            else raise (InterfaceError ''channel confirmation identity'')))))"

section \<open>Receipts\<close>

definition receipt :: "(string \<Rightarrow> string) \<Rightarrow> recorder \<Rightarrow> row \<Rightarrow> json" where
  "receipt sha rc r = JObj [(''sequence'', JInt (r_sequence r)), (''start_ns'', JInt (r_start r)), (''end_ns'', JInt (r_end r)),
     (''raw_bytes'', JInt (int (rc_bytes rc))), (''raw_sha256'', JStr (sha (rc_stream rc)))]"

definition field_is :: "json res \<Rightarrow> json \<Rightarrow> unit res \<Rightarrow> unit res" where
  "field_is m expected k = bindr m (\<lambda>v. needi (py_eq v expected) ''persisted RSS receipt disagreement'' k)"

definition row_agrees :: "string \<Rightarrow> json \<Rightarrow> json \<Rightarrow> string \<Rightarrow> json \<Rightarrow> unit res" where
  "row_agrees rid target smp phase_name row =
     field_is (item row ''run_id'') (JStr rid)
     (field_is (item row ''owner'') target
     (field_is (item row ''sequence'') (jget smp ''sequence'')
     (field_is (item row ''start_ns'') (jget smp ''start_ns'')
     (field_is (item row ''end_ns'') (jget smp ''end_ns'')
     (field_is (bindr (item row ''phase'') (\<lambda>p. item p ''name'')) (JStr phase_name)
     (field_is (item row ''sample_status'') (JStr ''COMPLETE'') (Inr ())))))))"

text \<open>The message was accepted by the channel before, so its \<open>raw_bytes\<close> is positive.\<close>

definition verify_receipt :: "(string \<Rightarrow> string) \<Rightarrow> string \<Rightarrow> file_view \<Rightarrow> json \<Rightarrow> string \<Rightarrow> unit res" where
  "verify_receipt sha rid v msg phase_name =
     (let smp = jget msg ''sample''; n = jint smp ''raw_bytes''; st = fv_before v in
      bindr (fv_open v) (\<lambda>_.
      needi (fs_regular st \<and> fs_nlink st = 1 \<and> n \<le> int (fs_size st) \<and> fs_size st \<le> 16 * 1024 * 1024) ''persisted RSS file shape''
      (let raw = take (nat n) (fv_first v) in
       needi (take (nat n) (fv_second v) = raw) ''persisted RSS prefix changed''
       (bindr (fv_current v) (\<lambda>current.
        needi (fs_dev st = fs_dev current \<and> fs_ino st = fs_ino current) ''persisted RSS file changed''
        (needi (int (length raw) = n \<and> JStr (sha raw) = jget smp ''raw_sha256'') ''persisted RSS receipt identity''
        (bindr (map_res decode_evidence (py_splitlines raw)) (\<lambda>rows.
         needi (int (length rows) = jint smp ''sequence'' + 1 \<and> rows \<noteq> []) ''persisted RSS sequence''
         (row_agrees rid (jget msg ''owner'') smp phase_name (last rows)))))))))) "

lemma dec_eq_refl [simp]: "dec_eq x x"
  by (simp add: dec_eq_def)

lemma py_eq_simps [simp]: "py_eq (JStr a) (JStr b) \<longleftrightarrow> a = b" "py_eq (JInt m) (JInt n) \<longleftrightarrow> m = n"
  by (simp_all add: dec_eq_def dec_scale_def)

lemma py_eq_owner_json [simp]: "py_eq (owner_json i) (owner_json i)"
  by (simp add: owner_json_def dec_eq_def)

lemma row_item:
  "item (row_json r) ''run_id'' = Inr (JStr (r_run_id r))" "item (row_json r) ''owner'' = Inr (owner_json (r_owner r))"
  "item (row_json r) ''sequence'' = Inr (JInt (r_sequence r))" "item (row_json r) ''start_ns'' = Inr (JInt (r_start r))"
  "item (row_json r) ''end_ns'' = Inr (JInt (r_end r))" "item (row_json r) ''phase'' = Inr (phase_json (r_phase r))"
  "item (row_json r) ''sample_status'' = Inr (JStr (status_name (r_status r)))" "item (phase_json p) ''name'' = Inr (JStr (ph_name p))"
  by (simp_all add: row_json_def item_def phase_json_def)

lemma receipt_get:
  "jget (receipt sha rc r) ''sequence'' = JInt (r_sequence r)" "jget (receipt sha rc r) ''start_ns'' = JInt (r_start r)"
  "jget (receipt sha rc r) ''end_ns'' = JInt (r_end r)" "jget (receipt sha rc r) ''raw_bytes'' = JInt (int (rc_bytes rc))"
  "jget (receipt sha rc r) ''raw_sha256'' = JStr (sha (rc_stream rc))"
  by (simp_all add: receipt_def jget_def)

text \<open>What a verified receipt shows of the raw file.\<close>

definition receipt_shows :: "(string \<Rightarrow> string) \<Rightarrow> string \<Rightarrow> file_view \<Rightarrow> json \<Rightarrow> string \<Rightarrow> bool" where
  "receipt_shows sha rid v msg phase_name \<longleftrightarrow>
     (\<exists>raw rows. raw = take (nat (jint (sample_of msg) ''raw_bytes'')) (fv_first v) \<and>
        int (length raw) = jint (sample_of msg) ''raw_bytes'' \<and> jget (sample_of msg) ''raw_sha256'' = JStr (sha raw) \<and>
        map_res decode_evidence (py_splitlines raw) = Inr rows \<and> int (length rows) = jint (sample_of msg) ''sequence'' + 1 \<and> rows \<noteq> [] \<and>
        jget (last rows) ''run_id'' = JStr rid \<and> py_eq (jget (last rows) ''owner'') (jget msg ''owner'') \<and>
        jget (jget (last rows) ''phase'') ''name'' = JStr phase_name \<and> jget (last rows) ''sample_status'' = JStr ''COMPLETE'')"

lemma itemD: "item v k = Inr x \<Longrightarrow> jget v k = x"
  by (auto simp: item_def jget_def split: json.splits option.splits)

lemma py_eq_JStr [simp]: "py_eq v (JStr s) \<longleftrightarrow> v = JStr s"
  by (cases v) (auto split: json.split)

lemma verify_receiptD:
  assumes "verify_receipt sha rid v msg phase_name = Inr ()"
  shows "receipt_shows sha rid v msg phase_name"
proof -
  let ?smp = "jget msg ''sample''"
  let ?raw = "take (nat (jint ?smp ''raw_bytes'')) (fv_first v)"
  from assms obtain rows where r: "int (length ?raw) = jint ?smp ''raw_bytes''" "JStr (sha ?raw) = jget ?smp ''raw_sha256''"
    "map_res decode_evidence (py_splitlines ?raw) = Inr rows" "int (length rows) = jint ?smp ''sequence'' + 1" "rows \<noteq> []"
    "row_agrees rid (jget msg ''owner'') ?smp phase_name (last rows) = Inr ()"
    unfolding verify_receipt_def Let_def bindr_Inr_iff requires_Inr_iff by blast
  from r(6) have "jget (last rows) ''run_id'' = JStr rid" "py_eq (jget (last rows) ''owner'') (jget msg ''owner'')"
    "jget (jget (last rows) ''phase'') ''name'' = JStr phase_name" "jget (last rows) ''sample_status'' = JStr ''COMPLETE''"
    unfolding row_agrees_def field_is_def bindr_Inr_iff requires_Inr_iff by (auto dest!: itemD)
  then show ?thesis unfolding receipt_shows_def sample_of_def using r by (intro exI [of _ ?raw] exI [of _ rows]) simp
qed

lemma receipt_accepted:
  assumes rows: "holds_rows (rows @ [r]) rc" and r: "r_status r = COMPLETE" "ph_name (r_phase r) = phase_name" "r_run_id r = rid"
      "r_sequence r = int (length rows)"
    and msg: "jget msg ''sample'' = receipt sha rc r" "jget msg ''owner'' = owner_json (r_owner r)"
    and raw: "fv_open v = Inr ()" "fs_regular (fv_before v)" "fs_nlink (fv_before v) = 1" "fv_first v = rc_stream rc @ later"
      "fv_second v = rc_stream rc @ later'" "fs_size (fv_before v) = length (fv_first v)" "length (fv_first v) \<le> 16 * 1024 * 1024"
      "fv_current v = Inr c" "fs_dev c = fs_dev (fv_before v)" "fs_ino c = fs_ino (fv_before v)"
  shows "verify_receipt sha rid v msg phase_name = Inr ()"
proof -
  have n: "jint (receipt sha rc r) ''raw_bytes'' = int (rc_bytes rc)" "jint (receipt sha rc r) ''sequence'' = int (length rows)"
    using r(4) by (simp_all add: jint_def receipt_get)
  have len: "rc_bytes rc = length (rc_stream rc)" and str: "rc_stream rc = concat (map (\<lambda>r. jsonl (row_json r)) (rows @ [r]))"
    using rows by (simp_all add: holds_rows_def)
  have dec: "decode_evidence (dumps (row_json x)) = Inr (row_json x)" for x
    using loads_dumps [of "row_json x"] by (simp add: decode_evidence_def)
  have "py_splitlines (rc_stream rc) = map dumps (map row_json (rows @ [r]))"
    using splitlines_jsonl [of "map row_json (rows @ [r])"] by (simp add: str comp_def)
  then have lines: "map_res decode_evidence (py_splitlines (rc_stream rc)) = Inr (map row_json (rows @ [r]))"
    by (simp only: map_res_map) (simp add: comp_def dec map_res_all_Inr)
  have "row_agrees rid (jget msg ''owner'') (receipt sha rc r) phase_name (row_json r) = Inr ()"
    using r msg(2) by (simp add: row_agrees_def field_is_def row_item receipt_get)
  then show ?thesis
    unfolding verify_receipt_def Let_def msg(1) n
    using raw len lines by (simp add: receipt_get)
qed

section \<open>An example exchange\<close>

definition example_id :: string where "example_id = ''0123456789abcdef0123456789abcdef''"

definition example_target :: json where "example_target = owner_json (example_ident ''S'')"

definition example_sample :: "int \<Rightarrow> int \<Rightarrow> int \<Rightarrow> json" where
  "example_sample n t bytes = JObj [(''sequence'', JInt n), (''start_ns'', JInt t), (''end_ns'', JInt t), (''raw_bytes'', JInt bytes),
     (''raw_sha256'', JStr (example_id @ example_id))]"

definition example_event :: "nat \<Rightarrow> json" where
  "example_event n = JObj [(''schema'', JInt 1), (''contract'', JStr G4_CONTRACT), (''run_id'', JStr example_id), (''sequence'', JInt (int n)),
     (''event'', JStr (ORDER ! n)), (''owner'', example_target), (''monotonic_ns'', JInt (int n)), (''state'', JStr (STATES ! n)),
     (''sample'', if n = 1 then example_sample 0 1 5 else if n = 4 then example_sample 1 4 9 else JNull)]"

primrec offer_all :: "(int \<times> json) list \<Rightarrow> chan \<Rightarrow> chan" where
  "offer_all [] st = st"
| "offer_all (x # xs) st = offer_all xs (fst (accept (fst x) (snd x) st))"

lemma offer_all_steps: "offer_all xs st = channel_latch.steps xs st"
  by (induction xs arbitrary: st) (simp_all add: case_prod_beta)

lemma example_accepts:
  "\<exists>s1 s2 s3 s4 s5. accept 9 (example_event 0) (new_chan example_id) = (s1, Inr (example_event 0)) \<and> accept 9 (example_event 1) s1 = (s2, Inr (example_event 1)) \<and>
     accept 9 (example_event 2) s2 = (s3, Inr (example_event 2)) \<and> accept 9 (example_event 3) s3 = (s4, Inr (example_event 3)) \<and>
     accept 9 (example_event 4) s4 = (s5, Inr (example_event 4))"
proof -
  let ?st = "\<lambda>n. \<lparr>ch_run_id = example_id, ch_sequence = n, ch_last = int n - 1, ch_owner = Some example_target,
     ch_ready = (if n > 1 then Some (example_sample 0 1 5) else None), ch_ack = (if n > 3 then Some 3 else None), ch_failed = False\<rparr>"
  have "accept 9 (example_event 0) (new_chan example_id) = (?st 1, Inr (example_event 0))" by code_simp
  moreover have "accept 9 (example_event 1) (?st 1) = (?st 2, Inr (example_event 1))" by code_simp
  moreover have "accept 9 (example_event 2) (?st 2) = (?st 3, Inr (example_event 2))" by code_simp
  moreover have "accept 9 (example_event 3) (?st 3) = (?st 4, Inr (example_event 3))" by code_simp
  moreover have "accept 9 (example_event 4) (?st 4) = (?st 5, Inr (example_event 4))" by code_simp
  ultimately show ?thesis by blast
qed

definition example_wire :: wire where
  "example_wire = \<lparr>wr_clock = (\<lambda>_. 9), wr_recv = (\<lambda>_. Inr []), wr_send = (\<lambda>_. Inr ()),
     wr_write = (\<lambda>_. Inr (length (jsonl (example_event 0))))\<rparr>"

lemma example_frame: "length (jsonl (example_event 0)) \<le> MAX_MESSAGE"
proof -
  have "length (jsonl (example_event 0)) \<le> 500" by code_simp
  then show ?thesis by (simp add: MAX_MESSAGE_def)
qed

lemma example_send:
  "\<exists>l. link_send example_wire 100 ''ready_verified'' example_target (Some 0) JNull (new_link example_id) = Some (Inr (example_event 0), l)"
proof -
  have i: "event_index ''ready_verified'' = Inr 0" by code_simp
  have m: "message ''ready_verified'' example_target 0 JNull (new_chan example_id) = Inr (example_event 0)" by code_simp
  obtain s1 where a: "accept 9 (example_event 0) (new_chan example_id) = (s1, Inr (example_event 0))" using example_accepts by blast
  show ?thesis
    using example_frame i m a
    by (simp add: link_send_def link_accept_def frame_def budget_def journal_record_def link_clock_def syscall_def bindi_def ret_def gets_def
        lift_res_def attempt_def modify_def new_link_def example_wire_def)
qed

lemma example_target_ok: "json_ok example_target"
  by (simp add: example_target_def json_ok_parts)

section \<open>Properties\<close>

text \<open>
  C20: whatever messages an endpoint is offered, the ones it accepts follow the protocol: a prefix
  of the five events, each once and in order, for one run and one target, with stamps that never
  step back; the readiness sample is taken and persisted between the first two events and before
  the release, and the workload sample starts after the acknowledgement, in a longer file.
\<close>

theorem channel_lockstep:
  assumes "chan_run rid ms st"
  shows "lockstep rid ms \<and> ch_sequence st = length ms"
  using chan_run_inv [OF assms] by (simp add: chan_inv_def)

theorem channel_lockstep_witness: "lockstep example_id (map example_event [0, 1, 2, 3, 4])"
proof -
  obtain s1 s2 s3 s4 s5 where "accept 9 (example_event 0) (new_chan example_id) = (s1, Inr (example_event 0))"
    "accept 9 (example_event 1) s1 = (s2, Inr (example_event 1))" "accept 9 (example_event 2) s2 = (s3, Inr (example_event 2))"
    "accept 9 (example_event 3) s3 = (s4, Inr (example_event 3))" "accept 9 (example_event 4) s4 = (s5, Inr (example_event 4))"
    using example_accepts by blast
  then have "chan_run example_id ((((([] @ [example_event 0]) @ [example_event 1]) @ [example_event 2]) @ [example_event 3]) @ [example_event 4]) s5"
    by (intro chan_run.accepted) (rule chan_run.start)
  from channel_lockstep [OF this] show ?thesis by simp
qed

text \<open>
  The first protocol error is final: after it every message is refused and the sequence, the
  bound target, the readiness receipt and the acknowledgement stay as they are.
\<close>

theorem channel_fails_closed:
  assumes "accept now msg st = (st', Inl (InterfaceError reason))"
  shows "(\<exists>e. snd (accept now' msg' (offer_all xs st')) = Inl e) \<and> ch_sequence (offer_all xs st') = ch_sequence st \<and>
    ch_ready (offer_all xs st') = ch_ready st \<and> ch_ack (offer_all xs st') = ch_ack st"
proof -
  have f: "ch_failed st'" and same: "ch_sequence st' = ch_sequence st" "ch_ready st' = ch_ready st" "ch_ack st' = ch_ack st"
    using accept_refused [OF assms] by auto
  show ?thesis
    using channel_latch.steps_after_failure [OF f, of xs] channel_latch.no_recovery [OF f, of "(now', msg')" xs] same
    by (simp add: offer_all_steps)
qed

theorem channel_fails_closed_witness:
  "\<exists>st'. accept 9 (example_event 1) (new_chan example_id) = (st', Inl (InterfaceError ''event sequence/replay'')) \<and>
     (\<exists>e. snd (accept 9 (example_event 0) (offer_all [] st')) = Inl e)"
proof -
  have "accept 9 (example_event 1) (new_chan example_id) = ((new_chan example_id)\<lparr>ch_failed := True\<rparr>, Inl (InterfaceError ''event sequence/replay''))"
    by code_simp
  with channel_fails_closed [OF this, of 9 "example_event 0" "[]"] show ?thesis by blast
qed

text \<open>
  C21: reading a message always ends, however the peer behaves: a frame is received in at most
  \<open>MAX_MESSAGE\<close> rounds, or the read fails.
\<close>

theorem link_read_ends: "\<exists>r l'. link_read W deadline l = Some (r, l')"
  using link_read_total [of W deadline l] by (cases "link_read W deadline l") auto



text \<open>
  C23: the receipt of a sample that was just appended is verified by the other side: when the raw
  file starts with the recorder's stream, whatever was appended to it later, the receipt matches it.
\<close>

theorem receipt_round_trip:
  assumes "holds_rows rows rc0" "append_row (Inr ()) r rc0 = (rc, Inr ())" "r_status r = COMPLETE" "r_sequence r = int (length rows)"
    and "jget msg ''sample'' = receipt sha rc r" "jget msg ''owner'' = owner_json (r_owner r)"
    and "fv_open v = Inr ()" "fs_regular (fv_before v)" "fs_nlink (fv_before v) = 1" "fv_first v = rc_stream rc @ later"
      "fv_second v = rc_stream rc @ later'" "fs_size (fv_before v) = length (fv_first v)" "length (fv_first v) \<le> 16 * 1024 * 1024"
      "fv_current v = Inr c" "fs_dev c = fs_dev (fv_before v)" "fs_ino c = fs_ino (fv_before v)"
  shows "verify_receipt sha (r_run_id r) v msg (ph_name (r_phase r)) = Inr ()"
  by (rule receipt_accepted [OF append_Inr [OF assms(2,1), THEN conjunct1] assms(3) refl refl assms(4-)])

lemma example_appended: "append_row (Inr ()) (small_row example_run_id) (new_recorder example_run_id 1000000 10) = (example_store 1000000 10, Inr ())"
  using example_stored by (auto simp: bindr_Inr_iff store_row_Inr)

lemma example_stream_small: "length (rc_stream (example_store 1000000 10)) \<le> 16 * 1024 * 1024"
  using example_record_length by (simp add: example_store_def tally_keeps)

theorem receipt_round_trip_witness:
  "verify_receipt (\<lambda>_. ''0'') example_run_id (quiet_view (rc_stream (example_store 1000000 10)))
     (JObj [(''owner'', owner_json (example_ident ''S'')), (''sample'', receipt (\<lambda>_. ''0'') (example_store 1000000 10) (small_row example_run_id))]) ''unknown'' = Inr ()"
  using receipt_round_trip [OF holds_new example_appended, of
      "JObj [(''owner'', owner_json (example_ident ''S'')), (''sample'', receipt (\<lambda>_. ''0'') (example_store 1000000 10) (small_row example_run_id))]"
      "\<lambda>_. ''0''" "quiet_view (rc_stream (example_store 1000000 10))" "[]" "[]" "private_stat (rc_stream (example_store 1000000 10))"]
    example_stream_small
  by (simp add: small_row_fields jget_def quiet_view_def private_stat_def)

text \<open>
  C24: a verified receipt is about the file: its first \<open>raw_bytes\<close> bytes have the receipt's hash and
  parse into as many records as the receipt's number says, and the last of them is a \<open>COMPLETE\<close> sample
  of the phase, for this run and the event's owner.
\<close>

theorem receipt_sound:
  assumes "verify_receipt sha rid v msg phase_name = Inr ()"
  shows "receipt_shows sha rid v msg phase_name"
  using verify_receiptD [OF assms] .

theorem receipt_sound_witness:
  "receipt_shows (\<lambda>_. ''0'') example_run_id (quiet_view (rc_stream (example_store 1000000 10)))
     (JObj [(''owner'', owner_json (example_ident ''S'')), (''sample'', receipt (\<lambda>_. ''0'') (example_store 1000000 10) (small_row example_run_id))]) ''unknown''"
proof (rule receipt_sound)
  have "holds_rows ([] @ [small_row example_run_id]) (example_store 1000000 10)"
    using append_Inr [OF example_appended holds_new] by simp
  then show "verify_receipt (\<lambda>_. ''0'') example_run_id (quiet_view (rc_stream (example_store 1000000 10)))
     (JObj [(''owner'', owner_json (example_ident ''S'')), (''sample'', receipt (\<lambda>_. ''0'') (example_store 1000000 10) (small_row example_run_id))]) ''unknown'' = Inr ()"
    by (rule receipt_accepted [where later = "[]" and later' = "[]" and c = "private_stat (rc_stream (example_store 1000000 10))"])
      (use example_stream_small in \<open>simp_all add: small_row_fields jget_def quiet_view_def private_stat_def\<close>)
qed

end
