(* ===== verification/G4_Binding.thy ===== *)
theory G4_Binding
  imports G4_Events
begin

text \<open>
  The vocabulary of the frozen G4 launch, \<^verbatim>\<open>g4_binding.py\<close> without \<open>prepare\<close> and \<open>check\<close>: the approved
  sources, the identity of an executable, the paths of a run and the command line of the runner.

  The host is what the calls of the sources see: the files of the tool directory and of the repository,
  the path resolution, the status and the permission of a file. SHA-256 is the parameter \<open>sha\<close>.
\<close>

section \<open>Constants\<close>

definition G4_ENTRYPOINT :: string where "G4_ENTRYPOINT = ''g4-bootstrap-v1''"
definition CRYPTO_PROFILE :: string where "CRYPTO_PROFILE = ''mimcchain-n8-groth16-v1''"
definition CRYPTO_ENTRYPOINT :: string where "CRYPTO_ENTRYPOINT = ''g4-bootstrap-crypto-v1''"

definition PINNED :: "(string \<times> string) list" where
  "PINNED = APPROVED @ [
     (''group_rss.py'', ''de2c3c11bd55e3a3160b3db695db4fa72170352f2ca1221a612d10bfc065abef''),
     (''group_schema.py'', ''c36fce5bfde0e0bda86ee448cb4e273e5f05625134c17583ae4cf278f7bee998''),
     (''group_audit.py'', ''a73481e3210984eb17cd492872392b04e5561ccad4284c99b43a277e11b1552a'')]"

definition G4_SOURCES :: "string list" where
  "G4_SOURCES = map fst PINNED @ [''__init__.py'', ''policy_binding.py'', ''g4_binding.py'', ''g4_events.py'', ''g4_bootstrap.py'', ''g4_supervise.py'']"

definition G4_FIELDS :: "string list" where
  "G4_FIELDS = [''schema'', ''contract'', ''entrypoint'', ''run_id'', ''policy'', ''effective_limits'', ''sources'', ''python'', ''cwd'', ''environment'',
     ''target_argv'', ''target_executable'', ''paths'', ''directory'', ''runner_argv'']"

section \<open>The host\<close>

record host =
  ho_repo :: string
  ho_python :: string
  ho_uid :: int
  ho_tool :: "string \<Rightarrow> file_view"
  ho_repo_file :: "string \<Rightarrow> file_view"
  ho_resolve :: "string \<Rightarrow> string res"
  ho_file :: "string \<Rightarrow> file_view"
  ho_stat :: "string \<Rightarrow> file_stat res"
  ho_access :: "string \<Rightarrow> bool"

text \<open>\<open>Path(p).name\<close>, \<open>str(Path(p).parent)\<close> and \<open>str(Path(p).absolute())\<close> in the directory \<open>cwd\<close>.\<close>

definition path_name :: "string \<Rightarrow> string" where
  "path_name p = (if path_parts p = [] then [] else List.last (path_parts p))"

definition path_parent :: "string \<Rightarrow> string" where
  "path_parent p = path_str (path_root p @ join ''/'' (butlast (path_parts p)))"

definition path_absolute :: "string \<Rightarrow> string \<Rightarrow> string" where
  "path_absolute cwd p = (if is_absolute p then path_str p else joined cwd p)"

definition bytes_ref :: "(string \<Rightarrow> string) \<Rightarrow> string \<Rightarrow> json" where
  "bytes_ref sha data = JObj [(''bytes'', JInt (int (length data))), (''sha256'', JStr (sha data))]"

definition MiB64 :: nat where "MiB64 = 64 * 1024 * 1024"

definition executable :: "(string \<Rightarrow> string) \<Rightarrow> host \<Rightarrow> json \<Rightarrow> json res" where
  "executable sha h path =
     needp (absolute_str path) ''absolute executable required''
     (bindr (ho_resolve h (the_str path)) (\<lambda>resolved.
      bindr (read_regular MiB64 (ho_file h resolved)) (\<lambda>data.
      bindr (ho_stat h resolved) (\<lambda>st.
      needp (ho_access h resolved) ''executable permission required''
      (Inr (JObj [(''path'', JStr resolved), (''device'', JInt (fs_dev st)), (''inode'', JInt (fs_ino st)),
         (''bytes'', JInt (int (length data))), (''sha256'', JStr (sha data))]))))))"

section \<open>The launch\<close>

definition g4_paths :: "string \<Rightarrow> string \<Rightarrow> json" where
  "g4_paths out rid = JObj [(''config'', JStr (joined out ''g4.json'')), (''out'', JStr (path_str out)),
     (''supervised'', JStr (joined out ''supervised'')), (''inner'', JStr (joined out ''supervised/inner'')),
     (''raw'', JStr (joined out ''supervised/group-rss.jsonl'')), (''summary'', JStr (joined out ''supervised/group-summary.json'')),
     (''channel'', JStr (''/tmp/dzkr-g4-'' @ rid @ ''/events.sock''))]"

definition g4_runner_argv :: "json \<Rightarrow> json" where
  "g4_runner_argv m = JArr [jget (jget m ''python'') ''path'', JStr ''-B'', JStr ''-m'', JStr ''tools.bench.g4_bootstrap'',
     JStr ''--config'', jget (jget m ''paths'') ''config'']"

definition is_crypto :: "json \<Rightarrow> bool" where
  "is_crypto m \<longleftrightarrow> py_eq (jget m ''schema'') (JInt 2)"

definition source_names :: "json \<Rightarrow> string list" where
  "source_names m = (if is_crypto m then G4_SOURCES @ [''g4_crypto.py'', ''g4_launch.py'', ''g4_verify.py''] else G4_SOURCES)"

definition launch_role :: "json \<Rightarrow> json" where
  "launch_role m = (if is_crypto m then jget (jget m ''crypto'') ''role'' else JStr ''probe'')"

definition launch_overrides :: "json \<Rightarrow> json" where
  "launch_overrides m = (if is_crypto m then JObj [(''DZKR_MIMCCHAIN_CPU_PILOT'', JStr ''1'')] else JObj [(''DZKR_MIMCCHAIN_BARRIER_PROBE'', JStr ''1'')])"

section \<open>Lemmas\<close>

lemma encoded_same: "json_ok v \<Longrightarrow> json_ok w \<Longrightarrow> encoded v = encoded w \<longleftrightarrow> sort_keys v = sort_keys w"
  by (rule encoded_codec.render_eq_iff)

lemma sort_keys_leaf: "sort_keys v = JStr s \<longleftrightarrow> v = JStr s" "sort_keys v = JInt i \<longleftrightarrow> v = JInt i" "sort_keys v = JBool b \<longleftrightarrow> v = JBool b"
  by (cases v; simp)+

lemma bytes_ref_ok: "json_ok (bytes_ref sha data)"
  by (simp add: bytes_ref_def json_ok_def)

text \<open>An encoded reference to a file that has the bytes of another is about the same size and hash.\<close>

lemma encoded_bytes_ref:
  assumes "json_ok v" "encoded v = encoded (bytes_ref sha data)"
  shows "ref_matches sha v data"
proof -
  have s: "sort_keys v = sort_keys (bytes_ref sha data)" using assms encoded_same bytes_ref_ok by blast
  have "jget (sort_keys v) k = jget (sort_keys (bytes_ref sha data)) k" for k using s by simp
  then have k: "sort_keys (jget v k) = sort_keys (jget (bytes_ref sha data) k)" for k
    by (simp add: jget_sorted [OF assms(1)] jget_sorted [OF bytes_ref_ok])
  have "jget (bytes_ref sha data) ''bytes'' = JInt (int (length data))" "jget (bytes_ref sha data) ''sha256'' = JStr (sha data)"
    by (simp_all add: bytes_ref_def jget_def)
  with k [of "''bytes''"] k [of "''sha256''"] show ?thesis by (simp add: ref_matches_def sort_keys_leaf)
qed

lemma executableD:
  assumes "executable sha h path = Inr v"
  shows "\<exists>resolved st. ho_resolve h (the_str path) = Inr resolved \<and> ho_stat h resolved = Inr st \<and> ho_access h resolved \<and>
    v = JObj [(''path'', JStr resolved), (''device'', JInt (fs_dev st)), (''inode'', JInt (fs_ino st)),
       (''bytes'', JInt (int (length (fv_first (ho_file h resolved))))), (''sha256'', JStr (sha (fv_first (ho_file h resolved))))]"
  using assms unfolding executable_def bindr_Inr_iff requires_Inr_iff by (auto dest!: read_regularD)

end
