(* ===== verification/G4_Crypto.thy ===== *)
theory G4_Crypto
  imports G4_Binding
begin

text \<open>
  The crypto profile of \<^verbatim>\<open>g4_crypto.py\<close>: the frozen build of the Go target, the launch profile derived
  from it, and \<open>evidence\<close>, which reconciles the ledger that the target kept of its operations with the
  frozen plan. It keeps a summary while it reads, and the summary survives a rejection.
\<close>

section \<open>Constants\<close>

definition SELECTOR :: string where "SELECTOR = ''^TestMiMCChainCPUPilot$/^N8$''"

definition MIMC :: "string \<Rightarrow> string" where "MIMC name = ''internal/zk/experimental/mimcchain/'' @ name"

definition GO_SHA256 :: "(string \<times> string) list" where
  "GO_SHA256 = [
     (''go.mod'', ''d1698ff37cedff8106302518185552243ebea1f2cacf8f6c691a00457c79c945''),
     (''go.sum'', ''4618f38b9bc00f744efe6e2d1a8757c866065ab22c591e943a5e80b9f5b8ae38''),
     (MIMC ''circuit.go'', ''9c7f5f940a44b8f19e565471897e877ab91d5b2413ef73aa4d3eed648c336d56''),
     (MIMC ''reference.go'', ''fade347a8a09370f216a730daa868b9d74e5e9ce0b55db70e70b37a06c036f37''),
     (MIMC ''calibration_test.go'', ''d5053323bc66decf8e5d1178b1faebba699866066f6ade0051f2bad671ebcd3f''),
     (MIMC ''circuit_test.go'', ''04f960ce5399982cf803a64918f48881e81e52ac8225be0f47fa88a9226a613c''),
     (MIMC ''pilot_driver_test.go'', ''10ef821a1967f844ea0371dc8a66faa0b4f6d9f5b46bf323d5369522b9101632''),
     (MIMC ''pilot_driver_contract_test.go'', ''0356709aa7ad7d8323550a1971c982bdb5cd456fea9b354253c4206a220e2ce4''),
     (MIMC ''pilot_n2_test.go'', ''167099eba05514b33d68065f981a8849657a26a4e890ba28a9a08bdc522f63ee''),
     (MIMC ''pilot_start_barrier_test.go'', ''9aa662d9d28e5f65247deee773879849eead0c06e4393309ca512a8f403f6ea9'')]"

definition GO_SOURCES :: "string list" where "GO_SOURCES = map fst GO_SHA256"

definition OUTPUTS :: "string list" where
  "OUTPUTS = map (\<lambda>n. ''crypto/'' @ n) [''fixture.json'', ''footer.json'', ''ledger.jsonl'', ''samples.jsonl'',
     ''circuit.ccs'', ''proving.key'', ''verifying.key'', ''proof.bin'', ''public.json'']"

definition EXTRA_ARTIFACTS :: "string list" where
  "EXTRA_ARTIFACTS = [''crypto-build.json'', ''sources/g4_crypto.py'', ''sources/g4_launch.py'', ''sources/g4_verify.py''] @
     map (\<lambda>n. ''go-sources/'' @ n) GO_SOURCES @ OUTPUTS"

definition PLAN :: "(string \<times> bool) list" where
  "PLAN = [
     (''compile'', True), (''digest'', False), (''witness'', True), (''public_witness'', False),
     (''setup'', True), (''preflight_prove'', False), (''preflight_verify'', False),
     (''ccs_serialize'', False), (''pk_serialize'', True), (''vk_serialize'', True),
     (''pk_decode'', True), (''vk_decode'', True), (''prove'', True), (''verify'', True),
     (''wrong_digest_verify'', False), (''proof_serialize'', True), (''artifact_io'', False)]"

section \<open>The build and the profile\<close>

definition crypto_target_argv :: "json \<Rightarrow> json" where
  "crypto_target_argv binary = JArr [binary, JStr ''-test.v'', JStr ''-test.run'', JStr SELECTOR, JStr ''-test.benchtime=1x'',
     JStr ''-test.count=1'', JStr ''-test.cpu=4'', JStr ''-test.timeout=3m'']"

definition build_argv :: "json \<Rightarrow> json \<Rightarrow> json" where
  "build_argv compiler binary = JArr [compiler, JStr ''test'', JStr ''-mod=readonly'', JStr ''-p'', JStr ''2'', JStr ''-c'', JStr ''-o'', binary,
     JStr ''./internal/zk/experimental/mimcchain'']"

definition BUILD_FIELDS :: "string list" where
  "BUILD_FIELDS = [''schema'', ''profile'', ''sources'', ''binary'', ''toolchain'', ''go_version'', ''argv'', ''cwd'', ''environment'', ''exit_code'']"

definition BUILD_ENVIRONMENT :: json where
  "BUILD_ENVIRONMENT = JObj [(''GOTOOLCHAIN'', JStr ''local''), (''GOPROXY'', JStr ''off''), (''GOSUMDB'', JStr ''off''), (''GOMAXPROCS'', JStr ''4'')]"

definition check_go_source :: "(string \<Rightarrow> string) \<Rightarrow> host \<Rightarrow> json \<Rightarrow> string \<Rightarrow> unit \<Rightarrow> unit res" where
  "check_go_source sha h build name u =
     bindr (read_regular MiB2 (ho_repo_file h name)) (\<lambda>raw.
     needp (map_of GO_SHA256 name = Some (sha raw) \<and> encoded (jget (jget build ''sources'') name) = encoded (bytes_ref sha raw))
       (''crypto Go source: '' @ name) (Inr ()))"

definition check_build_executable :: "(string \<Rightarrow> string) \<Rightarrow> host \<Rightarrow> json \<Rightarrow> string \<Rightarrow> unit \<Rightarrow> unit res" where
  "check_build_executable sha h build name u =
     (let ref = jget build name in
      needp (is_dict ref \<and> is_str (jget ref ''path'')) (''crypto executable: '' @ name)
      (bindr (executable sha h (jget ref ''path'')) (\<lambda>x.
       needp (encoded ref = encoded x) (''crypto executable: '' @ name) (Inr ()))))"

definition check_version :: "host \<Rightarrow> json \<Rightarrow> unit res" where
  "check_version h build =
     (let version = joined (path_parent (path_parent (the_str (jget (jget build ''toolchain'') ''path'')))) ''VERSION'' in
      bindr (read_regular MiB2 (ho_file h version)) (\<lambda>text.
      bindr (nth_res (str_splitlines text) 0) (\<lambda>line.
      needp (JStr line = jget build ''go_version'') ''crypto toolchain VERSION'' (Inr ()))))"

definition check_build :: "(string \<Rightarrow> string) \<Rightarrow> host \<Rightarrow> json \<Rightarrow> unit res" where
  "check_build sha h build =
     needp (keys_are build BUILD_FIELDS) ''crypto build fields''
     (needp (jget build ''schema'' = JInt 1 \<and> jget build ''profile'' = JStr CRYPTO_PROFILE) ''crypto build version''
     (needp (jget build ''exit_code'' = JInt 0) ''crypto build exit''
     (needp (jget build ''go_version'' = JStr ''go1.27.1'') ''crypto Go version''
     (needp (keys_are (jget build ''sources'') GO_SOURCES) ''crypto Go source set''
     (bindr (fold_res (check_go_source sha h build) GO_SOURCES ()) (\<lambda>_.
      bindr (fold_res (check_build_executable sha h build) [''binary'', ''toolchain''] ()) (\<lambda>_.
      bindr (check_version h build) (\<lambda>_.
      needp (jget build ''cwd'' = JStr (ho_repo h)) ''crypto build cwd''
      (needp (jget build ''argv'' = build_argv (jget (jget build ''toolchain'') ''path'') (jget (jget build ''binary'') ''path'')) ''crypto build argv''
      (needp (py_eq (jget build ''environment'') BUILD_ENVIRONMENT) ''crypto build environment'' (Inr ())))))))))))"

definition crypto_profile :: "(string \<Rightarrow> string) \<Rightarrow> host \<Rightarrow> string \<Rightarrow> json \<Rightarrow> string \<Rightarrow> json res" where
  "crypto_profile sha h out rid build_raw =
     bindr (decode_evidence build_raw) (\<lambda>build.
     bindr (check_build sha h build) (\<lambda>_.
     Inr (JObj [(''profile'', JStr CRYPTO_PROFILE), (''role'', JStr ''pilot''), (''length'', JInt 8), (''curve'', JStr ''BN254''), (''backend'', JStr ''groth16''),
        (''constraint_system'', JStr ''R1CS''), (''constraints'', JInt 2641), (''source_id'', JStr (sha build_raw)),
        (''output'', JStr (joined out ''crypto'')), (''run_id'', rid), (''guardian_seconds'', JInt 15),
        (''outer_seconds'', JInt 25), (''minimum_available_bytes'', JInt (5 * 1024 ^ 3)),
        (''maximum_targets'', JInt 1), (''maximum_attempts'', JInt 1)])))"

definition crypto_environment :: "json \<Rightarrow> json" where
  "crypto_environment m = JObj (filter (\<lambda>(k, v). \<not> py_startswith k ''DZKR_MIMCCHAIN_BARRIER_PROBE'') (pairs ENVIRONMENT) @
     [(''GOGC'', JStr ''100''), (''DZKR_MIMCCHAIN_CPU_PILOT'', JStr ''1''), (''DZKR_MIMCCHAIN_CPU_N'', JStr ''8''),
      (''DZKR_MIMCCHAIN_EVIDENCE_DIR'', jget (jget m ''crypto'') ''output''), (''DZKR_MIMCCHAIN_RUN_ID'', jget m ''run_id''),
      (''DZKR_MIMCCHAIN_SOURCE_ID'', jget (jget m ''crypto'') ''source_id'')])"

definition crypto_limits_ok :: "json \<Rightarrow> bool" where
  "crypto_limits_ok limits \<longleftrightarrow> py_eq (JArr (map (jget limits) [''wall_seconds'', ''barrier_seconds'', ''outer_seconds''])) (JArr [JInt 3, JInt 2, JInt 8])"

definition check_go_snapshot :: "(string \<Rightarrow> string) \<Rightarrow> evidence_dir \<Rightarrow> json \<Rightarrow> string \<Rightarrow> unit \<Rightarrow> unit res" where
  "check_go_snapshot sha d build name u =
     bindr (read_regular MiB2 (ed_file d (''go-sources/'' @ name))) (\<lambda>data.
     needp (py_eq (bytes_ref sha data) (jget (jget build ''sources'') name)) (''crypto Go snapshot: '' @ name) (Inr ()))"

definition crypto_check :: "(string \<Rightarrow> string) \<Rightarrow> host \<Rightarrow> string \<Rightarrow> evidence_dir \<Rightarrow> json \<Rightarrow> unit res" where
  "crypto_check sha h out d m =
     bindr (read_regular MiB2 (ed_file d ''crypto-build.json'')) (\<lambda>raw.
     bindr (crypto_profile sha h out (jget m ''run_id'') raw) (\<lambda>p.
     needp (encoded (jget m ''crypto'') = encoded p) ''crypto profile identity''
     (bindr (decode_evidence raw) (\<lambda>build.
      needp (jget m ''target_argv'' = crypto_target_argv (jget (jget build ''binary'') ''path'') \<and>
             py_eq (jget m ''target_executable'') (jget build ''binary'')) ''crypto target argv/executable''
      (needp (py_eq (jget m ''environment'') (crypto_environment m)) ''crypto environment''
      (needp (crypto_limits_ok (jget m ''effective_limits'')) ''crypto timeout profile''
      (fold_res (check_go_snapshot sha d build) GO_SOURCES ())))))))"

section \<open>The ledger\<close>

text \<open>The summary that the caller sees, also after a rejection; \<open>None\<close> is the key's \<open>None\<close> or its absence.\<close>

record crypto_state =
  cs_attempted :: "bool option"
  cs_setup :: "bool option"
  cs_proves :: "nat option"
  cs_verifies :: "nat option"
  cs_wrong_digest :: "bool option"
  cs_timing :: bool
  cs_valid :: bool
  cs_scope :: "string option"

definition no_evidence :: crypto_state where
  "no_evidence = \<lparr>cs_attempted = None, cs_setup = None, cs_proves = None, cs_verifies = None, cs_wrong_digest = None,
     cs_timing = False, cs_valid = False, cs_scope = None\<rparr>"

text \<open>\<open>d.get(k)\<close> of something that must be a dictionary.\<close>

abbreviation as_dict :: "json \<Rightarrow> 'a res \<Rightarrow> 'a res" where
  "as_dict v k \<equiv> requires (is_dict v) AttributeError k"

definition same_fields :: "(string \<times> json) list \<Rightarrow> json \<Rightarrow> bool" where
  "same_fields expected v \<longleftrightarrow> list_all (\<lambda>(k, x). encoded (jget v k) = encoded x) expected"

definition fixture_id :: "json \<Rightarrow> string" where
  "fixture_id m = the_str (jget m ''run_id'') @ ''/N8''"

definition record_identity :: "json \<Rightarrow> (string \<times> json) list" where
  "record_identity m = [(''run_id'', jget m ''run_id''), (''source_id'', jget (jget m ''crypto'') ''source_id''),
     (''fixture_id'', JStr (fixture_id m)), (''length'', JInt 8), (''profile'', JStr CRYPTO_PROFILE)]"

definition op_identity :: "json \<Rightarrow> nat \<Rightarrow> string \<times> bool \<Rightarrow> (string \<times> json) list" where
  "op_identity m i p = [(''operation_id'', JStr (fst p)), (''kind'', JStr (fst p)), (''run_id'', jget m ''run_id''), (''length'', JInt 8),
     (''timed'', JBool (snd p)), (''attempt'', JInt (int i + 1)), (''fixture_id'', JStr (fixture_id m))]"

definition op_status :: "string \<Rightarrow> string" where
  "op_status name = (if name = ''wrong_digest_verify'' then ''rejected'' else ''succeeded'')"

text \<open>One operation of the plan: its two entries, up to the point where the summary counts it.\<close>

definition op_check :: "json \<Rightarrow> nat \<Rightarrow> string \<times> bool \<Rightarrow> int \<Rightarrow> json \<Rightarrow> json \<Rightarrow> (json \<times> json) res" where
  "op_check m i p last_ns x y =
     as_dict x (needp (jget x ''event'' = JStr ''start'') ''crypto operation event''
     (as_dict y (needp (jget y ''event'' = JStr ''end'') ''crypto operation event''
     (bindr (item x ''operation'') (\<lambda>a.
      bindr (item y ''operation'') (\<lambda>c.
      as_dict a (needp (same_fields (op_identity m i p) a) ''crypto operation identity/order''
      (as_dict c (needp (same_fields (op_identity m i p) c) ''crypto operation identity/order''
      (needp (is_int (jget a ''start_ns'') \<and> is_int (jget c ''end_ns'') \<and> is_int (jget c ''start_ns'') \<and>
              last_ns \<le> jint a ''start_ns'' \<and> jint a ''start_ns'' \<le> jint c ''end_ns'' \<and> jget c ''start_ns'' = jget a ''start_ns'') ''crypto operation timing''
      (needp (jget a ''status'' = JStr ''running'' \<and> jget a ''calls_started'' = JInt 0 \<and> jget a ''calls_completed'' = JInt 0) ''crypto operation start count''
      (needp (jget c ''status'' = JStr (op_status (fst p)) \<and> \<not> truthy (jget c ''error_category'') \<and>
              jget c ''calls_started'' = JInt 1 \<and> jget c ''calls_completed'' = JInt 1) ''crypto operation outcome/count''
      (Inr (a, c))))))))))))))"

definition one_more :: "nat option \<Rightarrow> nat option" where
  "one_more n = Some ((case n of None \<Rightarrow> 0 | Some k \<Rightarrow> k) + 1)"

definition op_count :: "string \<Rightarrow> crypto_state \<Rightarrow> crypto_state" where
  "op_count name st =
     (if name = ''setup'' then st\<lparr>cs_setup := Some True\<rparr>
      else if name = ''preflight_prove'' \<or> name = ''prove'' then st\<lparr>cs_proves := one_more (cs_proves st)\<rparr>
      else if name = ''preflight_verify'' \<or> name = ''verify'' then st\<lparr>cs_verifies := one_more (cs_verifies st)\<rparr>
      else if name = ''wrong_digest_verify'' then st\<lparr>cs_wrong_digest := Some True\<rparr>
      else st)"

definition op_sample :: "string \<times> bool \<Rightarrow> json \<Rightarrow> json \<Rightarrow> json list res" where
  "op_sample p a c =
     (let s = jget c ''sample'' in
      if snd p then
        needp (is_dict s \<and> jget s ''valid'' = JBool True) ''crypto missing phase sample''
        (needp (list_all (\<lambda>k. jget s k = JInt 1) [''benchmark_n'', ''callbacks'', ''calls_started'', ''calls_completed'']) ''crypto benchmark count''
        (needp (list_all (\<lambda>(total, per_op). is_int (jget s total) \<and> is_int (jget s per_op) \<and> jint s total \<ge> 0 \<and> jget s total = jget s per_op)
                 [(''duration_ns'', ''ns_per_op''), (''allocated_bytes'', ''bytes_per_op''), (''allocations'', ''allocs_per_op'')]) ''crypto sample arithmetic''
        (needp (0 < jint s ''duration_ns'' \<and> jint s ''duration_ns'' \<le> jint c ''end_ns'' - jint a ''start_ns'') ''crypto sample timing''
        (Inr [JObj [(''operation_id'', JStr (fst p)), (''sample'', s)]]))))
      else needp (s = JNull) ''crypto unexpected phase sample'' (Inr []))"

fun op_loop :: "json \<Rightarrow> nat \<Rightarrow> (string \<times> bool) list \<Rightarrow> json list \<Rightarrow> int \<Rightarrow> json list \<Rightarrow> crypto_state \<Rightarrow> crypto_state \<times> json list res" where
  "op_loop m i [] ledger last_ns timed st = (st, Inr timed)"
| "op_loop m i (p # ps) (x # y # ledger) last_ns timed st =
     (case op_check m i p last_ns x y of
        Inl e \<Rightarrow> (st, Inl e)
      | Inr (a, c) \<Rightarrow>
          (case op_sample p a c of
             Inl e \<Rightarrow> (op_count (fst p) st, Inl e)
           | Inr s \<Rightarrow> op_loop m (Suc i) ps ledger (jint c ''end_ns'') (timed @ s) (op_count (fst p) st)))"
| "op_loop m i (p # ps) ledger last_ns timed st = (st, Inl (ValueError ''not enough values to unpack''))"

section \<open>The evidence\<close>

definition METADATA :: "(string \<times> json) list" where
  "METADATA = [(''curve'', JStr ''BN254''), (''backend'', JStr ''groth16''), (''constraint_system'', JStr ''R1CS''), (''constraints'', JInt 2641),
     (''internal_variables'', JInt 2640), (''instructions'', JInt 2641), (''secret_variables'', JInt 1),
     (''public_variables_including_one'', JInt 2), (''gomaxprocs'', JInt 4), (''go_version'', JStr ''go1.27.1''),
     (''module_versions'', JObj [(''github.com/consensys/gnark'', JStr ''v0.16.3''), (''github.com/consensys/gnark-crypto'', JStr ''v0.21.0'')])]"

definition raw_file :: "(string \<Rightarrow> string option) \<Rightarrow> string \<Rightarrow> string res" where
  "raw_file raw name = (case raw name of None \<Rightarrow> Inl KeyError | Some data \<Rightarrow> Inr data)"

definition load_raw :: "(string \<Rightarrow> string option) \<Rightarrow> string \<Rightarrow> json res" where
  "load_raw raw name = bindr (raw_file raw name) decode_evidence"

definition load_lines :: "(string \<Rightarrow> string option) \<Rightarrow> string \<Rightarrow> json list res" where
  "load_lines raw name = bindr (raw_file raw name) (\<lambda>data. map_res decode_evidence (py_splitlines data))"

definition check_records :: "json \<Rightarrow> json \<Rightarrow> json \<Rightarrow> unit res" where
  "check_records m meta footer =
     needp (is_dict meta \<and> same_fields (record_identity m) meta) ''crypto record identity''
     (needp (is_dict footer \<and> same_fields (record_identity m) footer) ''crypto record identity''
     (bindr (fold_res (\<lambda>(k, v) _. needp (encoded (jget meta k) = encoded v) (''crypto metadata: '' @ k) (Inr ())) METADATA ()) (\<lambda>_.
      needp (is_int (jget meta ''num_cpu'') \<and> jint meta ''num_cpu'' > 0 \<and>
             jget meta ''allocation_scope'' = JStr ''whole-process Go benchmark timed-window deltas'' \<and>
             jget meta ''gc_policy'' = JStr ''testing.Benchmark runs GC before each sample'') ''crypto timing contract'' (Inr ()))))"

definition check_footer :: "json \<Rightarrow> json list \<Rightarrow> unit res" where
  "check_footer footer ledger =
     needp (jget footer ''complete'' = JBool True \<and> jget footer ''operations'' = JInt (int (length PLAN)) \<and>
            jget footer ''planned_operations'' = JInt (int (length PLAN))) ''crypto footer completeness''
     (needp (length ledger = 2 * length PLAN) ''crypto operation count'' (Inr ()))"

definition CRYPTO_FILES :: "string list" where
  "CRYPTO_FILES = [''circuit.ccs'', ''proving.key'', ''verifying.key'', ''proof.bin'', ''public.json'']"

definition check_crypto_file :: "(string \<Rightarrow> string) \<Rightarrow> (string \<Rightarrow> string option) \<Rightarrow> json \<Rightarrow> string \<Rightarrow> unit \<Rightarrow> unit res" where
  "check_crypto_file sha raw meta name u =
     bindr (raw_file raw (''crypto/'' @ name)) (\<lambda>data.
     needp (data \<noteq> [] \<and> encoded (jget (jget meta ''artifacts'') name) = encoded (bytes_ref sha data)) ''crypto artifact identity'' (Inr ()))"

definition check_statement :: "(string \<Rightarrow> string option) \<Rightarrow> unit res" where
  "check_statement raw =
     bindr (load_raw raw ''crypto/public.json'') (\<lambda>statement.
     needp (keys_are statement [''length'', ''digest''] \<and> jget statement ''length'' = JInt 8 \<and> is_str (jget statement ''digest'') \<and>
            py_isdigit (the_str (jget statement ''digest''))) ''crypto public statement'' (Inr ()))"

definition check_products :: "(string \<Rightarrow> string) \<Rightarrow> (string \<Rightarrow> string option) \<Rightarrow> json \<Rightarrow> json list \<Rightarrow> json list \<Rightarrow> unit res" where
  "check_products sha raw meta samples timed =
     needp (encoded (JArr samples) = encoded (JArr timed)) ''crypto phase sample copies''
     (needp (keys_are (jget meta ''artifacts'') CRYPTO_FILES) ''crypto artifact set''
     (bindr (fold_res (check_crypto_file sha raw meta) CRYPTO_FILES ()) (\<lambda>_. check_statement raw)))"

definition all_evidence :: "crypto_state \<Rightarrow> crypto_state" where
  "all_evidence st = st\<lparr>cs_attempted := Some True, cs_setup := Some True, cs_proves := Some 2, cs_verifies := Some 2, cs_wrong_digest := Some True,
     cs_timing := True, cs_valid := True, cs_scope := Some ''recorded calls in source-bound Go target; no Python Groth16 Verify''\<rparr>"

definition load_evidence :: "(string \<Rightarrow> string option) \<Rightarrow> json \<Rightarrow> (json \<times> json \<times> json list \<times> json list) res" where
  "load_evidence raw m =
     bindr (load_raw raw ''crypto/fixture.json'') (\<lambda>meta.
     bindr (load_raw raw ''crypto/footer.json'') (\<lambda>footer.
     bindr (load_lines raw ''crypto/ledger.jsonl'') (\<lambda>ledger.
     bindr (load_lines raw ''crypto/samples.jsonl'') (\<lambda>samples.
     bindr (check_records m meta footer) (\<lambda>_. Inr (meta, footer, ledger, samples))))))"

definition evidence :: "(string \<Rightarrow> string) \<Rightarrow> (string \<Rightarrow> string option) \<Rightarrow> json \<Rightarrow> crypto_state \<Rightarrow> crypto_state \<times> unit res" where
  "evidence sha raw m st =
     (case load_evidence raw m of
        Inl e \<Rightarrow> (st, Inl e)
      | Inr (meta, footer, ledger, samples) \<Rightarrow>
          (let st1 = st\<lparr>cs_attempted := Some (ledger \<noteq> [])\<rparr> in
           case check_footer footer ledger of
             Inl e \<Rightarrow> (st1, Inl e)
           | Inr u \<Rightarrow>
               (case op_loop m 0 PLAN ledger (- 1) [] st1 of
                  (st2, Inl e) \<Rightarrow> (st2, Inl e)
                | (st2, Inr timed) \<Rightarrow>
                    (case check_products sha raw meta samples timed of
                       Inl e \<Rightarrow> (st2, Inl e)
                     | Inr u \<Rightarrow> (all_evidence st2, Inr ())))))"

section \<open>What the ledger shows\<close>

text \<open>
  The reading of a ledger: \<open>op_done\<close> says that two entries are the start and the successful end of an
  operation of the plan, called once, \<open>in_turn\<close> that the ledger starts with the given operations, one
  after the other, and \<open>timed_samples\<close> collects the samples of the measured ones.
\<close>

definition op_start :: "json \<Rightarrow> int" where "op_start x = jint (jget x ''operation'') ''start_ns''"
definition op_end :: "json \<Rightarrow> int" where "op_end y = jint (jget y ''operation'') ''end_ns''"

definition op_done :: "json \<Rightarrow> nat \<Rightarrow> string \<times> bool \<Rightarrow> json \<Rightarrow> json \<Rightarrow> bool" where
  "op_done m i p x y \<longleftrightarrow> jget x ''event'' = JStr ''start'' \<and> jget y ''event'' = JStr ''end'' \<and>
     list_all (\<lambda>z. jget (jget z ''operation'') ''operation_id'' = JStr (fst p) \<and> jget (jget z ''operation'') ''attempt'' = JInt (int i + 1) \<and>
       jget (jget z ''operation'') ''fixture_id'' = JStr (fixture_id m)) [x, y] \<and>
     jget (jget y ''operation'') ''status'' = JStr (op_status (fst p)) \<and> jget (jget y ''operation'') ''calls_completed'' = JInt 1"

fun in_turn :: "json \<Rightarrow> nat \<Rightarrow> (string \<times> bool) list \<Rightarrow> json list \<Rightarrow> int \<Rightarrow> bool" where
  "in_turn m i [] ledger t = True"
| "in_turn m i (p # ps) (x # y # ledger) t \<longleftrightarrow>
     op_done m i p x y \<and> t \<le> op_start x \<and> op_start x \<le> op_end y \<and> in_turn m (Suc i) ps ledger (op_end y)"
| "in_turn m i (p # ps) ledger t = False"

definition timed_sample :: "string \<times> bool \<Rightarrow> json \<Rightarrow> json list" where
  "timed_sample p y = (if snd p then [JObj [(''operation_id'', JStr (fst p)), (''sample'', jget (jget y ''operation'') ''sample'')]] else [])"

fun timed_samples :: "(string \<times> bool) list \<Rightarrow> json list \<Rightarrow> json list" where
  "timed_samples (p # ps) (x # y # ledger) = timed_sample p y @ timed_samples ps ledger"
| "timed_samples ps ledger = []"

definition counted :: "string list \<Rightarrow> string list \<Rightarrow> nat option" where
  "counted ops names = (let n = length (filter (\<lambda>x. x \<in> set ops) names) in if n = 0 then None else Some n)"

definition noted :: "string \<Rightarrow> string list \<Rightarrow> bool option" where
  "noted op names = (if op \<in> set names then Some True else None)"

text \<open>The summary is that of the operations \<open>names\<close>.\<close>

definition summarises :: "crypto_state \<Rightarrow> string list \<Rightarrow> bool" where
  "summarises st names \<longleftrightarrow> cs_setup st = noted ''setup'' names \<and> cs_wrong_digest st = noted ''wrong_digest_verify'' names \<and>
     cs_proves st = counted [''preflight_prove'', ''prove''] names \<and> cs_verifies st = counted [''preflight_verify'', ''verify''] names"

lemma op_count_summary: "summarises st names \<Longrightarrow> summarises (op_count name st) (names @ [name])"
  by (auto simp: summarises_def op_count_def noted_def counted_def one_more_def Let_def)

lemma op_count_valid [simp]: "cs_valid (op_count name st) = cs_valid st"
  by (simp add: op_count_def)

lemma item_jget: "item v k = Inr x \<Longrightarrow> jget v k = x"
  by (auto simp: item_def jget_def split: json.splits option.splits)

lemma encoded_leaf:
  assumes "json_ok v"
  shows "encoded v = encoded (JStr s) \<longleftrightarrow> v = JStr s" "encoded v = encoded (JInt i) \<longleftrightarrow> v = JInt i"
  using assms encoded_same [of v "JStr s"] encoded_same [of v "JInt i"] by (simp_all add: sort_keys_leaf json_ok_def)

lemma same_identity:
  assumes "json_ok v" "same_fields (op_identity m i p) v"
  shows "jget v ''operation_id'' = JStr (fst p) \<and> jget v ''attempt'' = JInt (int i + 1) \<and> jget v ''fixture_id'' = JStr (fixture_id m)"
  using assms json_ok_jget [OF assms(1)] by (simp add: same_fields_def op_identity_def encoded_leaf)

lemma op_checkD:
  assumes "op_check m i p t x y = Inr (a, c)" "json_ok x" "json_ok y"
  shows "op_done m i p x y \<and> t \<le> op_start x \<and> op_start x \<le> op_end y \<and> a = jget x ''operation'' \<and> c = jget y ''operation'' \<and> jint c ''end_ns'' = op_end y"
proof -
  from assms(1) have o: "item x ''operation'' = Inr a" "item y ''operation'' = Inr c" "jget x ''event'' = JStr ''start''" "jget y ''event'' = JStr ''end''"
      "same_fields (op_identity m i p) a" "same_fields (op_identity m i p) c" "t \<le> jint a ''start_ns''" "jint a ''start_ns'' \<le> jint c ''end_ns''"
      "jget c ''status'' = JStr (op_status (fst p))" "jget c ''calls_completed'' = JInt 1"
    unfolding op_check_def requires_Inr_iff bindr_Inr_iff by auto
  have ac: "jget x ''operation'' = a" "jget y ''operation'' = c" using o(1,2) by (simp_all add: item_jget)
  have "json_ok a" "json_ok c" using ac assms(2,3) json_ok_jget by blast+
  with o same_identity [of a m i p] same_identity [of c m i p] show ?thesis by (simp add: op_done_def op_start_def op_end_def ac)
qed

lemma op_sampleD: "op_sample p a (jget y ''operation'') = Inr s \<Longrightarrow> s = timed_sample p y"
  by (auto simp: op_sample_def Let_def timed_sample_def requires_Inr_iff split: if_splits)

lemma op_loop_reads:
  assumes "op_loop m i ps ledger t timed st = (st', r)" "\<forall>x \<in> set ledger. json_ok x" "summarises st names"
  shows "cs_valid st' = cs_valid st \<and> (\<exists>n \<le> length ps. in_turn m i (take n ps) ledger t \<and> summarises st' (names @ map fst (take n ps)) \<and>
    (\<forall>out. r = Inr out \<longrightarrow> n = length ps \<and> out = timed @ timed_samples ps ledger))"
  using assms
proof (induction m i ps ledger t timed st arbitrary: names rule: op_loop.induct)
  case (1 m i ledger t timed st)
  then show ?case by auto
next
  case (2 m i p ps x y ledger t timed st)
  show ?case
  proof (cases "op_check m i p t x y")
    case (Inl e)
    with 2 show ?thesis by (auto intro: exI [of _ 0])
  next
    case (Inr ac)
    then obtain a c where ac: "op_check m i p t x y = Inr (a, c)" by (cases ac) auto
    note d = op_checkD [OF this] and count = op_count_summary [OF "2.prems"(3), of "fst p"]
    show ?thesis
    proof (cases "op_sample p a c")
      case (Inl e)
      with 2 ac d count show ?thesis by (auto intro!: exI [of _ "Suc 0"])
    next
      case (Inr s)
      from 2 ac Inr have run: "op_loop m (Suc i) ps ledger (jint c ''end_ns'') (timed @ s) (op_count (fst p) st) = (st', r)" by simp
      from "2.IH" [OF ac refl Inr run _ count] 2 obtain n where n: "cs_valid st' = cs_valid st" "n \<le> length ps"
          "in_turn m (Suc i) (take n ps) ledger (jint c ''end_ns'')" "summarises st' ((names @ [fst p]) @ map fst (take n ps))"
          "\<forall>out. r = Inr out \<longrightarrow> n = length ps \<and> out = (timed @ s) @ timed_samples ps ledger" by auto
      with d 2 have "s = timed_sample p y" using op_sampleD Inr by auto
      with n d 2 show ?thesis by (intro conjI exI [of _ "Suc n"]) auto
    qed
  qed
qed (auto intro: exI [of _ 0])

section \<open>An accepted example\<close>

lemma load_raw_dump: "json_ok v \<Longrightarrow> raw name = Some (dump False 0 v) \<Longrightarrow> load_raw raw name = Inr v"
  by (simp add: load_raw_def raw_file_def decode_evidence_def loads_dump_bare)

lemma dump_one_line: "LF \<notin> set (dump False 0 v) \<and> CR \<notin> set (dump False 0 v)"
proof -
  have "list_all printable (dump False 0 v)" using dump_chars [of False 0 v] by simp
  then show ?thesis by (auto simp: list_all_iff printable_def)
qed

lemma load_lines_dump:
  assumes "\<forall>v \<in> set vs. json_ok v" "raw name = Some (concat (map (\<lambda>v. dump False 0 v @ [LF]) vs))"
  shows "load_lines raw name = Inr vs"
proof -
  have "map_res decode_evidence (map (dump False 0) vs) = Inr (map (\<lambda>v. v) vs)"
    unfolding map_res_map by (rule map_res_all_Inr) (use assms(1) in \<open>simp add: decode_evidence_def loads_dump_bare\<close>)
  moreover have "py_splitlines (concat (map (\<lambda>l. l @ [LF]) (map (dump False 0) vs))) = map (dump False 0) vs"
    by (rule py_splitlines_concat) (auto simp: dump_one_line)
  ultimately show ?thesis using assms(2) by (simp add: load_lines_def raw_file_def comp_def)
qed

definition ex_manifest :: json where
  "ex_manifest = JObj [(''run_id'', JStr ''a''), (''crypto'', JObj [(''source_id'', JStr ''s'')])]"

definition ex_op :: "nat \<Rightarrow> string \<times> bool \<Rightarrow> json list" where
  "ex_op i p = (let t = 10 * int i; smp = JObj ([(''valid'', JBool True)] @ map (\<lambda>k. (k, JInt 1)) [''benchmark_n'', ''callbacks'', ''calls_started'', ''calls_completed''] @
       [(''duration_ns'', JInt 5), (''ns_per_op'', JInt 5), (''allocated_bytes'', JInt 0), (''bytes_per_op'', JInt 0), (''allocations'', JInt 0), (''allocs_per_op'', JInt 0)]) in
     [JObj [(''event'', JStr ''start''), (''operation'', JObj (op_identity ex_manifest i p @ [(''start_ns'', JInt t), (''status'', JStr ''running''), (''calls_started'', JInt 0), (''calls_completed'', JInt 0)]))],
      JObj [(''event'', JStr ''end''), (''operation'', JObj (op_identity ex_manifest i p @ [(''start_ns'', JInt t), (''end_ns'', JInt (t + 5)), (''status'', JStr (op_status (fst p))),
        (''calls_started'', JInt 1), (''calls_completed'', JInt 1)] @ (if snd p then [(''sample'', smp)] else [])))]])"

definition ex_ledger :: "json list" where
  "ex_ledger = concat (map (\<lambda>(i, p). ex_op i p) (zip [0..<17] PLAN))"

definition ex_statement :: json where
  "ex_statement = JObj [(''length'', JInt 8), (''digest'', JStr ''7'')]"

definition ex_files :: "(string \<times> string) list" where
  "ex_files = [(''circuit.ccs'', ''c''), (''proving.key'', ''k''), (''verifying.key'', ''v''), (''proof.bin'', ''p''), (''public.json'', dump False 0 ex_statement)]"

definition ex_fixture :: json where
  "ex_fixture = JObj (record_identity ex_manifest @ METADATA @ [(''num_cpu'', JInt 4), (''allocation_scope'', JStr ''whole-process Go benchmark timed-window deltas''),
     (''gc_policy'', JStr ''testing.Benchmark runs GC before each sample''), (''artifacts'', JObj (map (\<lambda>(n, x). (n, bytes_ref (\<lambda>_. ''h'') x)) ex_files))])"

definition ex_footer :: json where
  "ex_footer = JObj (record_identity ex_manifest @ [(''complete'', JBool True), (''operations'', JInt 17), (''planned_operations'', JInt 17)])"

definition ex_raw :: "string \<Rightarrow> string option" where
  "ex_raw name = (if name = ''crypto/fixture.json'' then Some (dump False 0 ex_fixture) else if name = ''crypto/footer.json'' then Some (dump False 0 ex_footer)
     else if name = ''crypto/ledger.jsonl'' then Some (concat (map (\<lambda>v. dump False 0 v @ [LF]) ex_ledger))
     else if name = ''crypto/samples.jsonl'' then Some (concat (map (\<lambda>v. dump False 0 v @ [LF]) (timed_samples PLAN ex_ledger)))
     else map_of (map (\<lambda>(n, x). (''crypto/'' @ n, x)) ex_files) name)"

lemma ex_values_ok: "json_ok ex_fixture" "json_ok ex_footer" "json_ok ex_statement" "\<forall>v \<in> set ex_ledger. json_ok v" "\<forall>v \<in> set (timed_samples PLAN ex_ledger). json_ok v"
  by code_simp+

lemma ex_check: "check_records ex_manifest ex_fixture ex_footer = Inr ()"
  by code_simp

lemma ex_loaded: "load_evidence ex_raw ex_manifest = Inr (ex_fixture, ex_footer, ex_ledger, timed_samples PLAN ex_ledger)"
proof -
  have "load_raw ex_raw ''crypto/fixture.json'' = Inr ex_fixture" "load_raw ex_raw ''crypto/footer.json'' = Inr ex_footer"
    by (rule load_raw_dump; simp add: ex_values_ok ex_raw_def)+
  moreover have "load_lines ex_raw ''crypto/ledger.jsonl'' = Inr ex_ledger" "load_lines ex_raw ''crypto/samples.jsonl'' = Inr (timed_samples PLAN ex_ledger)"
    by (rule load_lines_dump; use ex_values_ok in \<open>simp add: ex_raw_def\<close>)+
  ultimately show ?thesis by (simp add: load_evidence_def ex_check)
qed

lemma ex_op_loop: "snd (op_loop ex_manifest 0 PLAN ex_ledger (- 1) [] no_evidence) = Inr (timed_samples PLAN ex_ledger)"
  by code_simp

lemma op_loop_attempted: "snd (op_loop m i ps ledger t timed (st\<lparr>cs_attempted := b\<rparr>)) = snd (op_loop m i ps ledger t timed st)"
proof (induction m i ps ledger t timed st rule: op_loop.induct)
  case (2 m i p ps x y ledger t timed st)
  have "op_count (fst p) (st\<lparr>cs_attempted := b\<rparr>) = (op_count (fst p) st)\<lparr>cs_attempted := b\<rparr>" by (simp add: op_count_def)
  with 2 show ?case by (auto split: sum.split prod.split)
qed simp_all

lemma ex_products: "check_products (\<lambda>_. ''h'') ex_raw ex_fixture (timed_samples PLAN ex_ledger) (timed_samples PLAN ex_ledger) = Inr ()"
proof -
  have raw: "raw_file ex_raw (''crypto/'' @ name) = raw_file (map_of (map (\<lambda>(n, x). (''crypto/'' @ n, x)) ex_files)) (''crypto/'' @ name)" if "name \<in> set CRYPTO_FILES" for name
    using that by (auto simp: raw_file_def ex_raw_def CRYPTO_FILES_def)
  have "check_crypto_file (\<lambda>_. ''h'') ex_raw ex_fixture name () = Inr ()" if "name \<in> set CRYPTO_FILES" for name
  proof -
    have "\<forall>name \<in> set CRYPTO_FILES. check_crypto_file (\<lambda>_. ''h'') (map_of (map (\<lambda>(n, x). (''crypto/'' @ n, x)) ex_files)) ex_fixture name () = Inr ()" by code_simp
    with raw [OF that] that show ?thesis by (auto simp: check_crypto_file_def)
  qed
  moreover have "keys_are (jget ex_fixture ''artifacts'') CRYPTO_FILES" by code_simp
  moreover have "load_raw ex_raw ''crypto/public.json'' = Inr ex_statement" by (rule load_raw_dump) (simp_all add: ex_values_ok ex_raw_def ex_files_def)
  then have "check_statement ex_raw = Inr ()" by (simp add: check_statement_def) code_simp
  ultimately show ?thesis by (simp add: check_products_def fold_unit)
qed

lemma ex_evidence: "snd (evidence (\<lambda>_. ''h'') ex_raw ex_manifest no_evidence) = Inr ()"
proof -
  have "check_footer ex_footer ex_ledger = Inr ()" by code_simp
  moreover obtain st where "op_loop ex_manifest 0 PLAN ex_ledger (- 1) [] (no_evidence\<lparr>cs_attempted := Some (ex_ledger \<noteq> [])\<rparr>) = (st, Inr (timed_samples PLAN ex_ledger))"
    using ex_op_loop op_loop_attempted [where st = no_evidence] by (metis prod.collapse)
  ultimately show ?thesis by (simp add: evidence_def ex_loaded ex_products Let_def)
qed

section \<open>Properties\<close>

lemma evidence_loaded:
  assumes "load_evidence raw m = Inr (meta, footer, ledger, samples)"
  shows "load_lines raw ''crypto/ledger.jsonl'' = Inr ledger" "\<forall>x \<in> set ledger. json_ok x" "load_raw raw ''crypto/fixture.json'' = Inr meta"
    "json_ok meta" "load_lines raw ''crypto/samples.jsonl'' = Inr samples" "\<forall>x \<in> set samples. json_ok x"
proof -
  have lines: "\<forall>x \<in> set xs. json_ok x" if "load_lines raw name = Inr xs" for name xs
    using that by (auto simp: load_lines_def bindr_Inr_iff map_res_Inr_iff in_set_conv_nth) (use decode_evidence_ok in blast)
  show "load_lines raw ''crypto/ledger.jsonl'' = Inr ledger" "load_lines raw ''crypto/samples.jsonl'' = Inr samples" "load_raw raw ''crypto/fixture.json'' = Inr meta"
    using assms by (auto simp: load_evidence_def bindr_Inr_iff)
  then show "\<forall>x \<in> set ledger. json_ok x" "\<forall>x \<in> set samples. json_ok x" "json_ok meta"
    using lines by (auto simp: load_raw_def bindr_Inr_iff dest: decode_evidence_ok)
qed

lemma summarises_plan: "summarises st (map fst PLAN) \<Longrightarrow> summarises (all_evidence st) (map fst PLAN)"
proof -
  have "noted ''setup'' (map fst PLAN) = Some True \<and> noted ''wrong_digest_verify'' (map fst PLAN) = Some True \<and>
    counted [''preflight_prove'', ''prove''] (map fst PLAN) = Some 2 \<and> counted [''preflight_verify'', ''verify''] (map fst PLAN) = Some 2" by code_simp
  then show ?thesis by (simp add: summarises_def all_evidence_def)
qed

definition products_match :: "(string \<Rightarrow> string) \<Rightarrow> (string \<Rightarrow> string option) \<Rightarrow> json list \<Rightarrow> bool" where
  "products_match sha raw ledger \<longleftrightarrow> (\<exists>meta samples. load_raw raw ''crypto/fixture.json'' = Inr meta \<and> load_lines raw ''crypto/samples.jsonl'' = Inr samples \<and>
     encoded (JArr samples) = encoded (JArr (timed_samples PLAN ledger)) \<and>
     (\<forall>name \<in> set CRYPTO_FILES. \<exists>data. raw (''crypto/'' @ name) = Some data \<and> data \<noteq> [] \<and> ref_matches sha (jget (jget meta ''artifacts'') name) data))"

lemma check_productsD:
  assumes "check_products sha raw meta samples (timed_samples PLAN ledger) = Inr ()" "load_evidence raw m = Inr (meta, footer, ledger, samples)"
  shows "products_match sha raw ledger"
proof -
  note l = evidence_loaded [OF assms(2)]
  have "\<exists>data. raw (''crypto/'' @ name) = Some data \<and> data \<noteq> [] \<and> ref_matches sha (jget (jget meta ''artifacts'') name) data" if "name \<in> set CRYPTO_FILES" for name
  proof -
    have "check_crypto_file sha raw meta name () = Inr ()"
      using assms(1) that by (auto simp: check_products_def requires_Inr_iff bindr_Inr_iff fold_unit)
    then show ?thesis using encoded_bytes_ref [OF json_ok_jget [OF json_ok_jget [OF l(4)]]]
      by (auto simp: check_crypto_file_def bindr_Inr_iff requires_Inr_iff raw_file_def split: option.splits)
  qed
  with l assms(1) show ?thesis by (auto simp: products_match_def check_products_def requires_Inr_iff)
qed

text \<open>
  C34: the crypto summary never says more than the ledger. Whatever was recorded, accepted or not, the
  ledger starts with some operations of the plan, done in their order and one after the other, each
  called once with the planned outcome, and the summary counts exactly these. It is marked valid exactly
  when nothing was rejected, and then the whole plan was done, the sample file repeats the samples of
  the measured operations, and the artifacts have the recorded sizes and hashes.
\<close>

theorem evidence_counts_the_ledger:
  assumes "evidence sha raw m no_evidence = (st, r)"
  shows "(cs_valid st \<longleftrightarrow> r = Inr ()) \<and>
    (\<exists>n ledger. n \<le> length PLAN \<and> (n = 0 \<or> load_lines raw ''crypto/ledger.jsonl'' = Inr ledger) \<and> in_turn m 0 (take n PLAN) ledger (- 1) \<and>
      summarises st (map fst (take n PLAN)) \<and> (r = Inr () \<longrightarrow> n = length PLAN \<and> length ledger = 2 * length PLAN \<and> products_match sha raw ledger))"
proof (cases "load_evidence raw m")
  case (Inl e)
  then have "st = no_evidence" "r = Inl e" using assms by (simp_all add: evidence_def)
  then show ?thesis by (auto simp: no_evidence_def summarises_def noted_def counted_def intro!: exI [of _ 0])
next
  case (Inr loaded)
  then obtain meta footer ledger samples where l: "load_evidence raw m = Inr (meta, footer, ledger, samples)" by (cases loaded) auto
  note d = evidence_loaded [OF l]
  define st1 where "st1 = no_evidence\<lparr>cs_attempted := Some (ledger \<noteq> [])\<rparr>"
  have s1: "summarises st1 []" "\<not> cs_valid st1" by (simp_all add: st1_def no_evidence_def summarises_def noted_def counted_def)
  show ?thesis
  proof (cases "check_footer footer ledger")
    case (Inl e)
    then have "st = st1" "r = Inl e" using assms l by (simp_all add: evidence_def st1_def)
    with s1 show ?thesis by (auto intro!: exI [of _ 0])
  next
    case (Inr u)
    obtain st2 res where loop: "op_loop m 0 PLAN ledger (- 1) [] st1 = (st2, res)" by fastforce
    from op_loop_reads [OF loop d(2) s1(1)] s1(2) obtain n where n: "\<not> cs_valid st2" "n \<le> length PLAN" "in_turn m 0 (take n PLAN) ledger (- 1)"
      "summarises st2 (map fst (take n PLAN))" "\<forall>out. res = Inr out \<longrightarrow> n = length PLAN \<and> out = timed_samples PLAN ledger" by auto
    have len: "length ledger = 2 * length PLAN" using Inr by (simp add: check_footer_def requires_Inr_iff)
    show ?thesis
    proof (cases "\<exists>timed. res = Inr timed \<and> check_products sha raw meta samples timed = Inr ()")
      case True
      then have out: "res = Inr (timed_samples PLAN ledger)" "n = length PLAN" "check_products sha raw meta samples (timed_samples PLAN ledger) = Inr ()" using n(5) by auto
      then have st: "st = all_evidence st2" "r = Inr ()" using assms l Inr loop by (simp_all add: evidence_def st1_def)
      then have "cs_valid st" "summarises st (map fst (take (length PLAN) PLAN))" using n(4) out(2) summarises_plan [of st2] by (simp_all add: all_evidence_def)
      with st(2) n(3) out(2) check_productsD [OF out(3) l] d(1) len show ?thesis
        by (intro conjI exI [of _ "length PLAN"] exI [of _ ledger] impI iffI disjI2) simp_all
    next
      case False
      then have "st = st2" "r \<noteq> Inr ()" using assms l Inr loop by (auto simp: evidence_def st1_def split: sum.splits)
      with n d(1) show ?thesis by (intro conjI exI [of _ n] exI [of _ ledger]) auto
    qed
  qed
qed

theorem evidence_counts_the_ledger_witness:
  "\<exists>ledger. load_lines ex_raw ''crypto/ledger.jsonl'' = Inr ledger \<and> in_turn ex_manifest 0 PLAN ledger (- 1) \<and> products_match (\<lambda>_. ''h'') ex_raw ledger"
proof -
  obtain st where "evidence (\<lambda>_. ''h'') ex_raw ex_manifest no_evidence = (st, Inr ())" using ex_evidence by (metis prod.collapse)
  moreover have "length PLAN \<noteq> 0" by (simp add: PLAN_def)
  ultimately show ?thesis using evidence_counts_the_ledger [of "\<lambda>_. ''h''" ex_raw ex_manifest st "Inr ()"] by auto
qed

end
