(* ===== verification/G4_Freeze.thy ===== *)
theory G4_Freeze
  imports G4_Crypto
begin

text \<open>
  Freezing a G4 launch and checking it, \<open>prepare\<close> and \<open>check\<close> of \<^verbatim>\<open>g4_binding.py\<close>: the manifest binds the
  policy, the tool sources, the interpreter, the target, the directory and, for the crypto profile, the Go
  build. \<open>check\<close> validates the frozen files; with \<open>live\<close> also the installation and the target as they are.

  The functions of \<open>prepare\<close> read the host more than once; each stage has its own view of it.
\<close>

section \<open>Freezing\<close>

definition with_reads :: "string list \<Rightarrow> (string \<Rightarrow> file_view) \<Rightarrow> (string \<times> string) list res" where
  "with_reads names f = map_res (\<lambda>name. bindr (read_regular MiB2 (f name)) (\<lambda>data. Inr (name, data))) names"

text \<open>Everything before the first change to the file system; \<open>build\<close> is the build manifest of the crypto profile.\<close>

definition g4_inputs :: "(string \<Rightarrow> string) \<Rightarrow> host \<Rightarrow> place \<Rightarrow> file_view \<Rightarrow> string list \<Rightarrow> string \<Rightarrow> string option \<Rightarrow> file_view option \<Rightarrow>
    (string \<times> json \<times> string option \<times> json \<times> (string \<times> string) list) res" where
  "g4_inputs sha h p policy_file args rid profile build =
     needp (profile = None \<or> profile = Some CRYPTO_PROFILE) ''unknown G4 profile''
     (needp ((profile = None) = (build = None)) ''explicit crypto build/profile required''
     (bindr (case build of None \<Rightarrow> Inr None | Some v \<Rightarrow> bindr (read_regular MiB2 v) (\<lambda>raw. Inr (Some raw))) (\<lambda>build_raw.
      bindr (case build_raw of None \<Rightarrow> Inr () | Some raw \<Rightarrow> bindr (decode_evidence raw) (check_build sha h)) (\<lambda>_.
      bindr (g4_run_id (JStr rid)) (\<lambda>_.
      bindr (read_regular 16384 policy_file) (\<lambda>raw.
      bindr (parse_policy raw) (\<lambda>policy.
      needp (valid_argv (JArr (map JStr args))) ''invalid G4 target argv''
      (bindr (case build_raw of None \<Rightarrow> Inr () | Some braw \<Rightarrow> bindr (decode_evidence braw) (\<lambda>b.
                needp (JArr (map JStr args) = crypto_target_argv (jget (jget b ''binary'') ''path'') \<and> crypto_limits_ok policy) ''crypto argv/timeout profile'' (Inr ()))) (\<lambda>_.
       bindr (executable sha h (JStr (hd args))) (\<lambda>target.
       bindr (with_reads (if profile = None then G4_SOURCES else G4_SOURCES @ [''g4_crypto.py'', ''g4_launch.py'', ''g4_verify.py'']) (ho_tool h)) (\<lambda>sources.
       needp (list_all (\<lambda>(name, x). map_option sha (map_of sources name) = Some x) PINNED) ''unapproved G4 dependency''
       (needp (\<not> pl_symlink p) ''G4 evidence directory symlink''
       (needp (\<not> pl_in_repo p) ''G4 evidence must be external''
       (bindr (pl_mkdir p) (\<lambda>_.
        bindr (pl_mkdir_sources p) (\<lambda>_. Inr (raw, policy, build_raw, target, sources)))))))))))))))))"

definition g4_base :: "(string \<Rightarrow> string) \<Rightarrow> host \<Rightarrow> place \<Rightarrow> string \<Rightarrow> json \<Rightarrow> string list \<Rightarrow> string \<Rightarrow> json \<Rightarrow> json \<Rightarrow>
    (string \<times> string) list \<Rightarrow> json option \<Rightarrow> (string \<times> json) list" where
  "g4_base sha h p raw policy args rid python target sources crypto =
     [(''schema'', JInt (if crypto = None then 1 else 2)), (''contract'', JStr G4_CONTRACT),
      (''entrypoint'', JStr (if crypto = None then G4_ENTRYPOINT else CRYPTO_ENTRYPOINT)), (''run_id'', JStr rid),
      (''policy'', bytes_ref sha raw), (''effective_limits'', policy), (''sources'', JObj (map (\<lambda>(n, data). (n, bytes_ref sha data)) sources)),
      (''python'', python), (''cwd'', JStr (ho_repo h)),
      (''environment'', case crypto of None \<Rightarrow> ENVIRONMENT | Some c \<Rightarrow> crypto_environment (JObj [(''crypto'', c), (''run_id'', JStr rid)])),
      (''target_argv'', JArr (map JStr args)), (''target_executable'', target), (''paths'', g4_paths (pl_path p) rid),
      (''directory'', JObj [(''device'', JInt (fs_dev (pl_dir p))), (''inode'', JInt (fs_ino (pl_dir p))), (''uid'', JInt (fs_uid (pl_dir p)))])] @
     (case crypto of None \<Rightarrow> [] | Some c \<Rightarrow> [(''crypto'', c)])"

definition g4_manifest :: "(string \<Rightarrow> string) \<Rightarrow> host \<Rightarrow> place \<Rightarrow> string \<Rightarrow> json \<Rightarrow> string list \<Rightarrow> string \<Rightarrow> json \<Rightarrow> json \<Rightarrow>
    (string \<times> string) list \<Rightarrow> json option \<Rightarrow> json" where
  "g4_manifest sha h p raw policy args rid python target sources crypto =
     (let base = g4_base sha h p raw policy args rid python target sources crypto in
      JObj (base @ [(''runner_argv'', g4_runner_argv (JObj base))]))"

text \<open>Files are written in turn, some of them read just before; the first failure stops, and what was written stays.\<close>

fun copy_all :: "(string \<Rightarrow> unit res) \<Rightarrow> (string \<times> string res) list \<Rightarrow> (string \<times> string) list \<times> unit res" where
  "copy_all out [] = ([], Inr ())"
| "copy_all out ((name, r) # fs) =
     (case bindr r (\<lambda>data. bindr (out name) (\<lambda>_. Inr data)) of
        Inl e \<Rightarrow> ([], Inl e)
      | Inr data \<Rightarrow> (case copy_all out fs of (w, s) \<Rightarrow> ((name, data) # w, s)))"

definition g4_prepare :: "(string \<Rightarrow> string) \<Rightarrow> host \<Rightarrow> host \<Rightarrow> host \<Rightarrow> place \<Rightarrow> file_view \<Rightarrow> string list \<Rightarrow> string \<Rightarrow> string option \<Rightarrow> file_view option \<Rightarrow>
    (string \<times> string) list \<times> unit res" where
  "g4_prepare sha h h1 h2 p policy_file args rid profile build =
     (case g4_inputs sha h p policy_file args rid profile build of
        Inl e \<Rightarrow> ([], Inl e)
      | Inr (raw, policy, build_raw, target, sources) \<Rightarrow>
          (case write_all (pl_write p) ((''policy.snapshot.json'', raw) # map (\<lambda>(n, data). (''sources/'' @ n, data)) sources) of
             (w, Inl e) \<Rightarrow> (w, Inl e)
           | (w, Inr u) \<Rightarrow>
               (case bindr (executable sha h1 (JStr (ho_python h1))) (\<lambda>python.
                     bindr (case build_raw of None \<Rightarrow> Inr None | Some braw \<Rightarrow> bindr (crypto_profile sha h1 (pl_path p) (JStr rid) braw) (\<lambda>c. Inr (Some c))) (\<lambda>crypto.
                     Inr (g4_manifest sha h p raw policy args rid python target sources crypto))) of
                  Inl e \<Rightarrow> (w, Inl e)
                | Inr m \<Rightarrow>
                    (case copy_all (pl_write p)
                       ((case build_raw of None \<Rightarrow> [] | Some braw \<Rightarrow> (''crypto-build.json'', Inr braw) #
                           map (\<lambda>n. (''go-sources/'' @ n, read_regular MiB2 (ho_repo_file h2 n))) GO_SOURCES) @ [(''g4.json'', Inr (encoded m))]) of
                       (w', r) \<Rightarrow> (w @ w', r)))))"

section \<open>Checking\<close>

record g4_dir =
  gd_config :: string
  gd_config_symlink :: bool
  gd_cwd :: string
  gd_stat :: "file_stat res"
  gd_files :: evidence_dir

definition executable_fields :: "json \<Rightarrow> bool" where
  "executable_fields ref \<longleftrightarrow> absolute_str (jget ref ''path'') \<and> list_all (\<lambda>k. natural (jget ref k)) [''bytes'', ''device'', ''inode''] \<and>
     is_str (jget ref ''sha256'') \<and> fullmatch_hex 64 (the_str (jget ref ''sha256''))"

definition EXECUTABLE_KEYS :: "string list" where "EXECUTABLE_KEYS = [''path'', ''bytes'', ''sha256'', ''device'', ''inode'']"

definition check_shape :: "json \<Rightarrow> unit res" where
  "check_shape m =
     needp (is_dict (jget m ''paths'') \<and> absolute_str (jget (jget m ''paths'') ''out'')) ''G4 output paths''
     (needp (py_eq (jget m ''paths'') (g4_paths (the_str (jget (jget m ''paths'') ''out'')) (the_str (jget m ''run_id'')))) ''G4 paths mismatch''
     (needp (keys_are (jget m ''directory'') [''device'', ''inode'', ''uid''] \<and> list_all (\<lambda>(k, v). natural v) (pairs (jget m ''directory''))) ''G4 directory identity''
     (needp (keys_are (jget m ''python'') EXECUTABLE_KEYS \<and> absolute_str (jget (jget m ''python'') ''path'')) ''G4 Python identity''
     (needp (absolute_str (jget m ''cwd'')) ''G4 cwd''
     (needp (valid_argv (jget m ''target_argv'') \<and> is_absolute (the_str (hd (the_list (jget m ''target_argv''))))) ''G4 target argv''
     (needp (keys_are (jget m ''target_executable'') EXECUTABLE_KEYS) ''G4 target identity''
     (needp (executable_fields (jget m ''python'')) ''G4 executable fields''
     (needp (executable_fields (jget m ''target_executable'')) ''G4 executable fields''
     (needp (jget m ''runner_argv'' = g4_runner_argv m) ''G4 actual argv mismatch''
     (needp (keys_are (jget m ''sources'') (source_names m)) ''G4 source set'' (Inr ())))))))))))"

definition check_g4_source :: "(string \<Rightarrow> string) \<Rightarrow> host \<Rightarrow> evidence_dir \<Rightarrow> bool \<Rightarrow> json \<Rightarrow> string \<Rightarrow> unit \<Rightarrow> unit res" where
  "check_g4_source sha h d live_check m name u =
     bindr (read_regular MiB2 (ed_file d (''sources/'' @ name))) (\<lambda>data.
     needp (encoded (jget (jget m ''sources'') name) = encoded (bytes_ref sha data)) ''G4 source identity mismatch''
     (needp (case map_of PINNED name of None \<Rightarrow> True | Some x \<Rightarrow> sha data = x) ''G4 pinned source mismatch''
     (if live_check then bindr (read_regular MiB2 (ho_tool h name)) (\<lambda>now. needp (now = data) ''G4 live source mismatch'' (Inr ())) else Inr ())))"

definition check_live :: "(string \<Rightarrow> string) \<Rightarrow> host \<Rightarrow> g4_dir \<Rightarrow> json \<Rightarrow> unit res" where
  "check_live sha h g m =
     bindr (gd_stat g) (\<lambda>st.
     needp (jget (jget m ''paths'') ''config'' = JStr (path_absolute (gd_cwd g) (gd_config g)) \<and>
            jget (jget m ''paths'') ''out'' = JStr (path_absolute (gd_cwd g) (path_parent (gd_config g))) \<and>
            fs_uid st = ho_uid h \<and> fs_private st \<and>
            py_eq (jget m ''directory'') (JObj [(''device'', JInt (fs_dev st)), (''inode'', JInt (fs_ino st)), (''uid'', JInt (fs_uid st))])) ''G4 live directory mismatch''
     (needp (jget m ''cwd'' = JStr (ho_repo h)) ''G4 live executable mismatch''
     (bindr (executable sha h (JStr (ho_python h))) (\<lambda>python.
      needp (py_eq (jget m ''python'') python) ''G4 live executable mismatch''
      (bindr (executable sha h (hd (the_list (jget m ''target_argv'')))) (\<lambda>target.
       needp (py_eq (jget m ''target_executable'') target) ''G4 live executable mismatch'' (Inr ())))))))"

definition check_version_fields :: "json \<Rightarrow> unit res" where
  "check_version_fields m =
     needp (is_dict m) ''G4 manifest fields''
     (needp (keys_are m (G4_FIELDS @ (if is_crypto m then [''crypto''] else []))) ''G4 manifest fields''
     (needp ((jget m ''schema'' = JInt 1 \<or> jget m ''schema'' = JInt 2) \<and> jget m ''contract'' = JStr G4_CONTRACT \<and>
             jget m ''entrypoint'' = JStr (if is_crypto m then CRYPTO_ENTRYPOINT else G4_ENTRYPOINT)) ''unapproved G4 entrypoint/version'' (Inr ())))"

definition g4_check :: "(string \<Rightarrow> string) \<Rightarrow> host \<Rightarrow> bool \<Rightarrow> g4_dir \<Rightarrow> json res" where
  "g4_check sha h live_check g =
     (let d = gd_files g in
      needp (path_name (gd_config g) = ''g4.json'' \<and> \<not> gd_config_symlink g) ''G4 config path''
      (needp (\<not> ed_symlink d \<and> \<not> ed_sources_symlink d) ''G4 directory symlink''
      (bindr (bindr (read_regular MiB2 (ed_file d ''g4.json'')) decode_evidence) (\<lambda>m.
       bindr (check_version_fields m) (\<lambda>_.
       bindr (g4_run_id (jget m ''run_id'')) (\<lambda>_.
       bindr (read_regular 16384 (ed_file d ''policy.snapshot.json'')) (\<lambda>raw.
       needp (encoded (jget m ''policy'') = encoded (bytes_ref sha raw)) ''G4 policy snapshot identity''
       (bindr (parse_policy raw) (\<lambda>policy.
        needp (encoded (jget m ''effective_limits'') = encoded policy) ''G4 effective policy mismatch''
        (bindr (if is_crypto m then crypto_check sha h (path_parent (gd_config g)) d m
                else needp (py_eq (jget m ''environment'') ENVIRONMENT) ''G4 environment mismatch'' (Inr ())) (\<lambda>_.
         bindr (check_shape m) (\<lambda>_.
         bindr (fold_res (check_g4_source sha h d live_check m) (source_names m) ()) (\<lambda>_.
         bindr (if live_check then check_live sha h g m else Inr ()) (\<lambda>_. Inr m))))))))))))))"

section \<open>What a checked launch shows\<close>

text \<open>
  The frozen sources are the recorded ones, the pinned ones have their approved hashes, and with \<open>live\<close>
  they are the ones installed. For the crypto profile, the Go sources of the repository and of the snapshot have
  their approved hashes, and the target is the binary of the recorded build as it is on the host.
\<close>

definition frozen_source :: "(string \<Rightarrow> string) \<Rightarrow> host \<Rightarrow> evidence_dir \<Rightarrow> bool \<Rightarrow> json \<Rightarrow> string \<Rightarrow> bool" where
  "frozen_source sha h d live_check m name \<longleftrightarrow>
     (let data = fv_first (ed_file d (''sources/'' @ name)) in
      ref_matches sha (jget (jget m ''sources'') name) data \<and> (\<forall>x. map_of PINNED name = Some x \<longrightarrow> sha data = x) \<and>
      (live_check \<longrightarrow> fv_first (ho_tool h name) = data))"

definition frozen_go :: "(string \<Rightarrow> string) \<Rightarrow> host \<Rightarrow> evidence_dir \<Rightarrow> string \<Rightarrow> bool" where
  "frozen_go sha h d name \<longleftrightarrow> map_of GO_SHA256 name = Some (sha (fv_first (ho_repo_file h name))) \<and>
     sha (fv_first (ed_file d (''go-sources/'' @ name))) = sha (fv_first (ho_repo_file h name))"

definition frozen_target :: "(string \<Rightarrow> string) \<Rightarrow> host \<Rightarrow> evidence_dir \<Rightarrow> json \<Rightarrow> bool" where
  "frozen_target sha h d m \<longleftrightarrow> (\<exists>build binary. loads (fv_first (ed_file d ''crypto-build.json'')) = Some build \<and>
     executable sha h (jget (jget build ''binary'') ''path'') = Inr binary \<and> sort_keys (jget build ''binary'') = sort_keys binary \<and>
     py_eq (jget m ''target_executable'') (jget build ''binary'') \<and>
     jget m ''target_argv'' = crypto_target_argv (jget (jget build ''binary'') ''path'') \<and>
     jget (jget m ''crypto'') ''source_id'' = JStr (sha (fv_first (ed_file d ''crypto-build.json''))))"

lemma check_g4_sourceD:
  assumes "check_g4_source sha h d live_check m name u = Inr ()" "json_ok m"
  shows "frozen_source sha h d live_check m name"
proof -
  have ok: "json_ok (jget (jget m ''sources'') name)" using assms(2) json_ok_jget by blast
  show ?thesis
    using assms(1) encoded_bytes_ref [OF ok] unfolding check_g4_source_def frozen_source_def Let_def
    by (auto simp: bindr_Inr_iff requires_Inr_iff dest!: read_regularD split: option.splits if_splits)
qed

lemma py_eq_leaf: "py_eq (JStr s) w \<longleftrightarrow> w = JStr s"
  by (cases w) auto

lemma py_eq_bytes_ref:
  assumes "py_eq (bytes_ref sha data) v" "ref_matches sha v raw"
  shows "sha data = sha raw"
proof -
  from assms(1) obtain kws where v: "v = JObj kws" by (cases v) (simp_all add: bytes_ref_def)
  with assms(1) have "case map_of kws ''sha256'' of Some w \<Rightarrow> py_eq (JStr (sha data)) w | None \<Rightarrow> False" by (simp add: bytes_ref_def)
  then have "jget v ''sha256'' = JStr (sha data)" by (auto simp: v jget_def py_eq_leaf split: option.splits)
  with assms(2) show ?thesis by (simp add: ref_matches_def)
qed

lemma check_buildD:
  assumes "check_build sha h build = Inr ()" "json_ok build"
  shows "\<forall>name \<in> set GO_SOURCES. map_of GO_SHA256 name = Some (sha (fv_first (ho_repo_file h name))) \<and>
      ref_matches sha (jget (jget build ''sources'') name) (fv_first (ho_repo_file h name))"
    "\<exists>binary. executable sha h (jget (jget build ''binary'') ''path'') = Inr binary \<and> encoded (jget build ''binary'') = encoded binary"
proof -
  have f: "\<forall>name \<in> set GO_SOURCES. check_go_source sha h build name () = Inr ()" "check_build_executable sha h build ''binary'' () = Inr ()"
    using assms(1) by (auto simp: check_build_def requires_Inr_iff bindr_Inr_iff fold_unit)
  show "\<forall>name \<in> set GO_SOURCES. map_of GO_SHA256 name = Some (sha (fv_first (ho_repo_file h name))) \<and>
      ref_matches sha (jget (jget build ''sources'') name) (fv_first (ho_repo_file h name))"
    using f(1) encoded_bytes_ref [OF json_ok_jget [OF json_ok_jget [OF assms(2)]]]
    by (auto simp: check_go_source_def bindr_Inr_iff requires_Inr_iff dest!: bspec read_regularD)
  show "\<exists>binary. executable sha h (jget (jget build ''binary'') ''path'') = Inr binary \<and> encoded (jget build ''binary'') = encoded binary"
    using f(2) by (auto simp: check_build_executable_def Let_def bindr_Inr_iff requires_Inr_iff)
qed

lemma executable_ok: "executable sha h path = Inr v \<Longrightarrow> json_ok v"
  by (auto dest!: executableD simp: json_ok_def)

lemma crypto_checkD:
  assumes "crypto_check sha h out d m = Inr ()" "json_ok m"
  shows "(\<forall>name \<in> set GO_SOURCES. frozen_go sha h d name) \<and> frozen_target sha h d m"
proof -
  from assms(1) obtain raw p build where r: "read_regular MiB2 (ed_file d ''crypto-build.json'') = Inr raw" "crypto_profile sha h out (jget m ''run_id'') raw = Inr p"
      "encoded (jget m ''crypto'') = encoded p" "decode_evidence raw = Inr build" "jget m ''target_argv'' = crypto_target_argv (jget (jget build ''binary'') ''path'')"
      "py_eq (jget m ''target_executable'') (jget build ''binary'')" "fold_res (check_go_snapshot sha d build) GO_SOURCES () = Inr ()"
    unfolding crypto_check_def bindr_Inr_iff requires_Inr_iff by auto
  have b: "check_build sha h build = Inr ()" "jget p ''source_id'' = JStr (sha raw)" "json_ok p \<or> \<not> json_ok (jget m ''run_id'')"
    using r(2,4) by (auto simp: crypto_profile_def bindr_Inr_iff jget_def json_ok_JObj) (auto simp: json_ok_def)
  have ok: "json_ok build" using r(4) by (rule decode_evidence_ok)
  note c = check_buildD [OF b(1) ok]
  have go: "frozen_go sha h d name" if n: "name \<in> set GO_SOURCES" for name
  proof -
    have "check_go_snapshot sha d build name () = Inr ()" using r(7) n by (simp add: fold_unit)
    then have "py_eq (bytes_ref sha (fv_first (ed_file d (''go-sources/'' @ name)))) (jget (jget build ''sources'') name)"
      by (auto simp: check_go_snapshot_def bindr_Inr_iff requires_Inr_iff dest!: read_regularD)
    with c(1) n py_eq_bytes_ref show ?thesis unfolding frozen_go_def by blast
  qed
  from c(2) obtain binary where bin: "executable sha h (jget (jget build ''binary'') ''path'') = Inr binary" "encoded (jget build ''binary'') = encoded binary" by blast
  then have "sort_keys (jget build ''binary'') = sort_keys binary" using encoded_same json_ok_jget [OF ok] executable_ok by blast
  moreover have "jget (jget m ''crypto'') ''source_id'' = JStr (sha raw)"
  proof -
    have okp: "json_ok p" "json_ok (jget m ''crypto'')" using b(3) json_ok_jget [OF assms(2)] by blast+
    then have "sort_keys (jget m ''crypto'') = sort_keys p" using r(3) encoded_same by blast
    then have "sort_keys (jget (jget m ''crypto'') ''source_id'') = sort_keys (jget p ''source_id'')" using jget_sorted okp by metis
    then show ?thesis by (simp add: b(2) sort_keys_leaf)
  qed
  ultimately have "frozen_target sha h d m" unfolding frozen_target_def
    using r read_regularD [OF r(1)] bin by (auto simp: decode_evidence_def split: option.splits)
  with go show ?thesis by blast
qed

lemma g4_checkD:
  assumes "g4_check sha h live_check g = Inr m"
  obtains raw policy where "decode_evidence (fv_first (ed_file (gd_files g) ''g4.json'')) = Inr m" "raw = fv_first (ed_file (gd_files g) ''policy.snapshot.json'')"
    "encoded (jget m ''policy'') = encoded (bytes_ref sha raw)" "parse_policy raw = Inr policy" "encoded (jget m ''effective_limits'') = encoded policy"
    "is_crypto m \<longrightarrow> crypto_check sha h (path_parent (gd_config g)) (gd_files g) m = Inr ()" "check_shape m = Inr ()"
    "\<forall>name \<in> set (source_names m). check_g4_source sha h (gd_files g) live_check m name () = Inr ()" "live_check \<longrightarrow> check_live sha h g m = Inr ()"
    "check_version_fields m = Inr ()" "g4_run_id (jget m ''run_id'') = Inr (the_str (jget m ''run_id''))"
proof -
  from assms obtain mraw raw policy where r: "read_regular MiB2 (ed_file (gd_files g) ''g4.json'') = Inr mraw" "decode_evidence mraw = Inr m"
    "read_regular 16384 (ed_file (gd_files g) ''policy.snapshot.json'') = Inr raw" "encoded (jget m ''policy'') = encoded (bytes_ref sha raw)"
    "parse_policy raw = Inr policy" "encoded (jget m ''effective_limits'') = encoded policy"
    "is_crypto m \<longrightarrow> crypto_check sha h (path_parent (gd_config g)) (gd_files g) m = Inr ()" "check_shape m = Inr ()"
    "fold_res (check_g4_source sha h (gd_files g) live_check m) (source_names m) () = Inr ()" "live_check \<longrightarrow> check_live sha h g m = Inr ()"
    "check_version_fields m = Inr ()" "\<exists>s. g4_run_id (jget m ''run_id'') = Inr s"
    unfolding g4_check_def Let_def by (auto simp: bindr_Inr_iff requires_Inr_iff split: if_splits)
  have "g4_run_id (jget m ''run_id'') = Inr (the_str (jget m ''run_id''))" using r(12) by (auto simp: g4_run_id_def requires_Inr_iff)
  with r read_regularD [OF r(1)] read_regularD [OF r(3)] show thesis by (intro that) (auto simp: fold_unit)
qed

section \<open>An example launch\<close>

lemma decode_dump: "json_ok v \<Longrightarrow> decode_evidence (dump ind 0 v) = Inr v"
  by (simp add: decode_evidence_def loads_dump_bare)

text \<open>A hash is its own hash here, so that a file can have an approved one.\<close>

definition ex_sha :: "string \<Rightarrow> string" where
  "ex_sha x = (if fullmatch_hex 64 x then x else replicate 64 CHR ''0'')"

definition ex_tool :: "string \<Rightarrow> string" where
  "ex_tool name = (case map_of (PINNED @
     [(''tests/harness.py'', ''da5982d451cf78822b7466d4b04ebf804dad305cc92b5b7bc71ff95246a22cad''),
      (''tests/__init__.py'', ''32f7f30f7864dfd23b4ea2506a784ace2e5c62718eef3d232e81d8c0c5573b1d'')]) name of Some x \<Rightarrow> x | None \<Rightarrow> ''x'')"

definition ex_go :: "string \<Rightarrow> string" where
  "ex_go name = (case map_of GO_SHA256 name of Some x \<Rightarrow> x | None \<Rightarrow> ''x'')"

definition ex_host :: host where
  "ex_host = \<lparr>ho_repo = ''/r'', ho_python = ''/p'', ho_uid = 0, ho_tool = (\<lambda>n. quiet_view (ex_tool n)), ho_repo_file = (\<lambda>n. quiet_view (ex_go n)), ho_resolve = Inr,
     ho_file = (\<lambda>p. quiet_view (if p = ''/go/VERSION'' then ''go1.27.1'' else ''x'')), ho_stat = (\<lambda>_. Inr (private_stat ''x'')), ho_access = (\<lambda>_. True)\<rparr>"

definition ex_exe :: "string \<Rightarrow> json" where
  "ex_exe p = JObj [(''path'', JStr p), (''device'', JInt 0), (''inode'', JInt 0), (''bytes'', JInt 1), (''sha256'', JStr (replicate 64 CHR ''0''))]"

definition ex_build :: json where
  "ex_build = JObj [(''schema'', JInt 1), (''profile'', JStr CRYPTO_PROFILE), (''sources'', JObj (map (\<lambda>n. (n, bytes_ref ex_sha (ex_go n))) GO_SOURCES)),
     (''binary'', ex_exe ''/t''), (''toolchain'', ex_exe ''/go/bin/go''), (''go_version'', JStr ''go1.27.1''), (''argv'', build_argv (JStr ''/go/bin/go'') (JStr ''/t'')),
     (''cwd'', JStr ''/r''), (''environment'', BUILD_ENVIRONMENT), (''exit_code'', JInt 0)]"

definition ex_place :: place where
  "ex_place = \<lparr>pl_symlink = False, pl_sources_symlink = False, pl_path = ''/a/n8-cpu-pilot-20260101T000000Z/g4'', pl_in_repo = False, pl_mkdir = Inr (),
     pl_mkdir_sources = Inr (), pl_dir = private_stat [], pl_write = (\<lambda>_. Inr ()), pl_snapshot = quiet_view []\<rparr>"

definition ex_rid :: string where "ex_rid = ''0123456789abcdef0123456789abcdef''"

definition ex_crypto :: json where
  "ex_crypto = JObj [(''profile'', JStr CRYPTO_PROFILE), (''role'', JStr ''pilot''), (''length'', JInt 8), (''curve'', JStr ''BN254''), (''backend'', JStr ''groth16''),
     (''constraint_system'', JStr ''R1CS''), (''constraints'', JInt 2641), (''source_id'', JStr (ex_sha (dump True 0 ex_build))),
     (''output'', JStr ''/a/n8-cpu-pilot-20260101T000000Z/g4/crypto''), (''run_id'', JStr ex_rid), (''guardian_seconds'', JInt 15), (''outer_seconds'', JInt 25),
     (''minimum_available_bytes'', JInt (5 * 1024 ^ 3)), (''maximum_targets'', JInt 1), (''maximum_attempts'', JInt 1)]"

definition ex_argv :: "string list" where
  "ex_argv = [''/t'', ''-test.v'', ''-test.run'', SELECTOR, ''-test.benchtime=1x'', ''-test.count=1'', ''-test.cpu=4'', ''-test.timeout=3m'']"

definition ex_names :: "string list" where
  "ex_names = G4_SOURCES @ [''g4_crypto.py'', ''g4_launch.py'', ''g4_verify.py'']"

definition ex_g4 :: json where
  "ex_g4 = g4_manifest ex_sha ex_host ex_place (encoded example_policy) (sort_keys example_policy) ex_argv ex_rid (ex_exe ''/p'') (ex_exe ''/t'')
     (map (\<lambda>n. (n, ex_tool n)) ex_names) (Some ex_crypto)"

definition ex_g4_file :: "string \<Rightarrow> string" where
  "ex_g4_file name = (if name = ''g4.json'' then dump True 0 ex_g4 else if name = ''policy.snapshot.json'' then encoded example_policy
     else if name = ''crypto-build.json'' then dump True 0 ex_build else if py_startswith name ''sources/'' then ex_tool (drop 8 name)
     else if py_startswith name ''go-sources/'' then ex_go (drop 11 name) else ''x'')"

definition ex_dir :: g4_dir where
  "ex_dir = \<lparr>gd_config = ''/a/n8-cpu-pilot-20260101T000000Z/g4/g4.json'', gd_config_symlink = False, gd_cwd = ''/'', gd_stat = Inr (private_stat []),
     gd_files = \<lparr>ed_symlink = False, ed_sources_symlink = False, ed_file = (\<lambda>n. quiet_view (ex_g4_file n))\<rparr>\<rparr>"

lemma ex_build_ok: "json_ok ex_build"
  by code_simp

lemma ex_build_size: "length (dump True 0 ex_build) \<le> MiB2"
proof -
  have "weight 0 ex_build \<le> 20000" by code_simp
  then show ?thesis using length_dump [of 0 ex_build] by (simp add: MiB2_def)
qed

lemma ex_sha_brace: "ex_sha (CHR ''{'' # s) = replicate 64 CHR ''0''"
  by (simp add: ex_sha_def fullmatch_hex_def is_hex_lower_def is_digit_def)

lemma ex_sha_build: "ex_sha (dump True 0 ex_build) = replicate 64 CHR ''0''"
  by (simp add: ex_build_def ex_sha_brace)

lemma sorted_brace: "\<exists>s. encoded (JObj (kv # kvs)) = CHR ''{'' # s"
proof -
  have "sort_key fst (map (\<lambda>(k, v). (k, sort_keys v)) (kv # kvs)) \<noteq> []"
    (is "?l \<noteq> []") by (rule length_greater_0_conv [THEN iffD1]) simp
  then obtain x xs where "?l = x # xs" by (cases ?l) simp_all
  then have "sort_keys (JObj (kv # kvs)) = JObj (x # xs)" by (simp only: sort_keys.simps)
  then show ?thesis by (simp add: encoded_def dumps_indent_def)
qed

lemma ex_sha_policy: "ex_sha (encoded example_policy) = replicate 64 CHR ''0''"
proof -
  obtain kv kvs where "example_policy = JObj (kv # kvs)" by (simp add: example_policy_def)
  then show ?thesis using sorted_brace [of kv kvs] ex_sha_brace by auto
qed

text \<open>The fields of a crypto manifest.\<close>

lemma g4_get:
  assumes "m = g4_manifest sha h p raw policy args rid python target sources (Some c)"
  shows "jget m ''schema'' = JInt 2" "jget m ''contract'' = JStr G4_CONTRACT" "jget m ''entrypoint'' = JStr CRYPTO_ENTRYPOINT" "jget m ''run_id'' = JStr rid"
    "jget m ''policy'' = bytes_ref sha raw" "jget m ''effective_limits'' = policy" "jget m ''sources'' = JObj (map (\<lambda>(n, data). (n, bytes_ref sha data)) sources)"
    "jget m ''python'' = python" "jget m ''cwd'' = JStr (ho_repo h)" "jget m ''environment'' = crypto_environment (JObj [(''crypto'', c), (''run_id'', JStr rid)])"
    "jget m ''target_argv'' = JArr (map JStr args)" "jget m ''target_executable'' = target" "jget m ''paths'' = g4_paths (pl_path p) rid"
    "jget m ''directory'' = JObj [(''device'', JInt (fs_dev (pl_dir p))), (''inode'', JInt (fs_ino (pl_dir p))), (''uid'', JInt (fs_uid (pl_dir p)))]"
    "jget m ''crypto'' = c" "jget m ''runner_argv'' = g4_runner_argv m" "is_dict m" "set (keys m) = set (G4_FIELDS @ [''crypto''])"
  by (simp_all add: assms g4_manifest_def g4_base_def Let_def jget_def g4_runner_argv_def keys_def G4_FIELDS_def insert_commute)

lemmas ex_get = g4_get [OF ex_g4_def]

lemma ex_path: "jget (jget ex_g4 ''python'') ''path'' = JStr ''/p''" "jget (jget ex_g4 ''paths'') ''config'' = JStr ''/a/n8-cpu-pilot-20260101T000000Z/g4/g4.json''" "jget (jget ex_g4 ''paths'') ''out'' = JStr ''/a/n8-cpu-pilot-20260101T000000Z/g4''"
proof -
  show "jget (jget ex_g4 ''python'') ''path'' = JStr ''/p''" unfolding ex_get by (simp add: ex_exe_def jget_def)
  show "jget (jget ex_g4 ''paths'') ''config'' = JStr ''/a/n8-cpu-pilot-20260101T000000Z/g4/g4.json''" "jget (jget ex_g4 ''paths'') ''out'' = JStr ''/a/n8-cpu-pilot-20260101T000000Z/g4''" unfolding ex_get by code_simp+
qed

lemma json_ok_args: "json_ok (JArr (map JStr xs))" "json_ok (JStr s)" "json_ok (JInt n)"
  by (auto simp: json_ok_def)

lemma ex_parts_ok: "json_ok ex_crypto" "json_ok (crypto_environment (JObj [(''crypto'', ex_crypto), (''run_id'', JStr ex_rid)]))" "json_ok (ex_exe p)"
    "json_ok (g4_paths (pl_path ex_place) ex_rid)" "json_ok (JObj (map (\<lambda>(n, data). (n, bytes_ref ex_sha data)) (map (\<lambda>n. (n, ex_tool n)) ex_names)))"
  unfolding ex_crypto_def ex_sha_build by (code_simp, code_simp, simp add: ex_exe_def json_ok_def, code_simp, code_simp)

abbreviation ex_base :: "(string \<times> json) list" where
  "ex_base \<equiv> g4_base ex_sha ex_host ex_place (encoded example_policy) (sort_keys example_policy) ex_argv ex_rid (ex_exe ''/p'') (ex_exe ''/t'')
     (map (\<lambda>n. (n, ex_tool n)) ex_names) (Some ex_crypto)"

lemma ex_g4_record: "ex_g4 = JObj (ex_base @ [(''runner_argv'', g4_runner_argv ex_g4)])"
  unfolding ex_get(16) [symmetric] by (simp add: ex_g4_def g4_manifest_def Let_def jget_def g4_base_def)

lemma ex_g4_ok: "json_ok ex_g4"
proof -
  have r: "json_ok (g4_runner_argv ex_g4)" by (simp add: g4_runner_argv_def ex_path json_ok_def)
  have d: "json_ok (JObj [(''device'', JInt a), (''inode'', JInt b), (''uid'', JInt c)])" for a b c by (simp add: json_ok_def)
  have "\<forall>(k, v) \<in> set ex_base. json_ok v"
    unfolding g4_base_def using ex_parts_ok d json_ok_args bytes_ref_ok json_ok_sort_keys [OF example_policy_ok] by simp
  moreover have "distinct (map fst (ex_base @ [(''runner_argv'', g4_runner_argv ex_g4)]))" by (simp add: g4_base_def)
  ultimately have "json_ok (JObj (ex_base @ [(''runner_argv'', g4_runner_argv ex_g4)]))" using r unfolding json_ok_JObj by auto
  then show ?thesis using ex_g4_record by simp
qed

lemma weight_top: "weight 0 (JObj kvs) = 4 + sum_list (map (\<lambda>(k, x). 9 + 6 * length k + weight (Suc 0) x) kvs)"
  by simp

lemma ex_g4_weight: "weight 0 ex_g4 \<le> 100000"
proof -
  have "weight (Suc 0) (sort_keys example_policy) \<le> 6000"
    unfolding weight_sort_keys by (simp add: example_policy_def FIXED_def show_int_def show_nat.simps float_repr_def Let_def)
  moreover have "weight (Suc 0) ex_crypto \<le> 5000" unfolding ex_crypto_def ex_sha_build ex_rid_def CRYPTO_PROFILE_def by (simp add: show_int_def show_nat.simps)
  moreover have "weight (Suc 0) (crypto_environment (JObj [(''crypto'', ex_crypto), (''run_id'', JStr ex_rid)])) \<le> 9000"
    unfolding ex_crypto_def ex_sha_build by (simp add: crypto_environment_def ENVIRONMENT_def ex_rid_def py_startswith_def jget_def)
  moreover have "weight (Suc 0) (JObj (map (\<lambda>(n, data). (n, bytes_ref ex_sha data)) (map (\<lambda>n. (n, ex_tool n)) ex_names))) \<le> 40000" by code_simp
  moreover have "weight (Suc 0) (bytes_ref ex_sha (encoded example_policy)) \<le> 1000"
    using length_show_nat [of "length (encoded example_policy)" 9] length_encoded [of example_policy] example_policy_weight
    by (simp add: bytes_ref_def ex_sha_policy show_int_def)
  moreover have "weight (Suc 0) (ex_exe ''/p'') \<le> 1000" "weight (Suc 0) (ex_exe ''/t'') \<le> 1000" by (simp_all add: ex_exe_def show_int_def show_nat.simps)
  moreover have "weight (Suc 0) (g4_paths (pl_path ex_place) ex_rid) \<le> 4000" by code_simp
  moreover have "weight (Suc 0) (JArr (map JStr ex_argv)) \<le> 2000" by code_simp
  moreover have "weight (Suc 0) (JObj [(''device'', JInt (fs_dev (pl_dir ex_place))), (''inode'', JInt (fs_ino (pl_dir ex_place))), (''uid'', JInt (fs_uid (pl_dir ex_place)))]) \<le> 1000" by code_simp
  moreover have "weight (Suc 0) (g4_runner_argv ex_g4) \<le> 2000" by (simp add: g4_runner_argv_def ex_path)
  ultimately show ?thesis
    by (subst ex_g4_record) (simp add: weight_top g4_base_def G4_CONTRACT_def CRYPTO_ENTRYPOINT_def ex_rid_def ex_host_def show_int_def show_nat.simps del: weight.simps(4,5))
qed

lemma ex_g4_size: "length (dump True 0 ex_g4) \<le> MiB2"
  using ex_g4_weight length_dump [of 0 ex_g4] by (simp add: MiB2_def)

lemma jget_table: "n \<in> set names \<Longrightarrow> jget (JObj (map (\<lambda>n. (n, f n)) names)) n = f n"
  by (simp add: jget_def map_of_map_restrict)

lemma py_eq_bytes_self: "py_eq (bytes_ref sha data) (bytes_ref sha data)"
  by (simp add: bytes_ref_def dec_eq_def)

lemma py_eq_exe: "py_eq (ex_exe p) (ex_exe p)"
  by (simp add: ex_exe_def dec_eq_def)

lemma ex_executable: "is_absolute p \<Longrightarrow> p \<noteq> ''/go/VERSION'' \<Longrightarrow> executable ex_sha ex_host (JStr p) = Inr (ex_exe p)"
proof -
  have "ex_sha ''x'' = replicate 64 CHR ''0''" by code_simp
  moreover have "read_regular MiB64 (quiet_view ''x'') = Inr ''x''" by (rule read_quiet) (simp add: MiB64_def)
  ultimately show "is_absolute p \<Longrightarrow> p \<noteq> ''/go/VERSION'' \<Longrightarrow> executable ex_sha ex_host (JStr p) = Inr (ex_exe p)"
    by (simp add: executable_def absolute_str_def ex_host_def ex_exe_def private_stat_def)
qed

lemma ex_absolute: "is_absolute ''/p''" "is_absolute ''/t''" "is_absolute ''/go/bin/go''"
  by code_simp+

lemma read_small: "length data \<le> 64 \<Longrightarrow> read_regular MiB2 (quiet_view data) = Inr data"
  by (rule read_quiet) (simp add: MiB2_def)

lemma ex_go_files: "name \<in> set GO_SOURCES \<Longrightarrow> length (ex_go name) \<le> 64 \<and> map_of GO_SHA256 name = Some (ex_sha (ex_go name))"
proof -
  have "\<forall>name \<in> set GO_SOURCES. length (ex_go name) \<le> 64 \<and> map_of GO_SHA256 name = Some (ex_sha (ex_go name))" by code_simp
  then show "name \<in> set GO_SOURCES \<Longrightarrow> length (ex_go name) \<le> 64 \<and> map_of GO_SHA256 name = Some (ex_sha (ex_go name))" by blast
qed

lemma ex_build_get: "jget ex_build ''sources'' = JObj (map (\<lambda>n. (n, bytes_ref ex_sha (ex_go n))) GO_SOURCES)" "jget ex_build ''binary'' = ex_exe ''/t''"
    "jget ex_build ''toolchain'' = ex_exe ''/go/bin/go''" "jget (ex_exe p) ''path'' = JStr p"
  by (simp_all add: ex_build_def jget_def ex_exe_def)

lemma ex_build_checked: "check_build ex_sha ex_host ex_build = Inr ()"
proof -
  have go: "check_go_source ex_sha ex_host ex_build name u = Inr ()" if "name \<in> set GO_SOURCES" for name u
    using ex_go_files [OF that] that by (simp add: check_go_source_def ex_host_def read_small ex_build_get jget_table)
  have exe: "check_build_executable ex_sha ex_host ex_build name u = Inr ()" if "name = ''binary'' \<or> name = ''toolchain''" for name u
    using that ex_absolute by (auto simp: check_build_executable_def Let_def ex_build_get ex_executable) (simp_all add: ex_exe_def)
  have "joined (path_parent (path_parent ''/go/bin/go'')) ''VERSION'' = ''/go/VERSION''" "nth_res (str_splitlines ''go1.27.1'') 0 = Inr ''go1.27.1''" by code_simp+
  then have "check_version ex_host ex_build = Inr ()"
    by (simp add: check_version_def Let_def ex_build_get) (simp add: ex_host_def read_small ex_build_def jget_def)
  moreover have "keys_are ex_build BUILD_FIELDS" "keys_are (jget ex_build ''sources'') GO_SOURCES" "py_eq (jget ex_build ''environment'') BUILD_ENVIRONMENT"
    by code_simp+
  moreover have "fold_res (check_go_source ex_sha ex_host ex_build) GO_SOURCES () = Inr ()" "fold_res (check_build_executable ex_sha ex_host ex_build) [''binary'', ''toolchain''] () = Inr ()"
    using go exe by (simp_all add: fold_unit)
  ultimately show ?thesis
    unfolding check_build_def by (simp add: ex_build_get) (simp add: ex_build_def jget_def ex_host_def)
qed

lemma ex_profile: "crypto_profile ex_sha ex_host ''/a/n8-cpu-pilot-20260101T000000Z/g4'' (JStr ex_rid) (dump True 0 ex_build) = Inr ex_crypto"
proof -
  have "joined ''/a/n8-cpu-pilot-20260101T000000Z/g4'' ''crypto'' = ''/a/n8-cpu-pilot-20260101T000000Z/g4/crypto''" by code_simp
  then show ?thesis by (simp add: crypto_profile_def decode_dump [OF ex_build_ok] ex_build_checked ex_crypto_def)
qed

abbreviation ex_frozen :: evidence_dir where "ex_frozen \<equiv> gd_files ex_dir"

lemma ex_frozen_file: "ed_file ex_frozen n = quiet_view (ex_g4_file n)" "\<not> ed_symlink ex_frozen" "\<not> ed_sources_symlink ex_frozen"
  by (simp_all add: ex_dir_def)

lemma ex_crypto_checked: "crypto_check ex_sha ex_host ''/a/n8-cpu-pilot-20260101T000000Z/g4'' ex_frozen ex_g4 = Inr ()"
proof -
  have raw: "read_regular MiB2 (ed_file ex_frozen ''crypto-build.json'') = Inr (dump True 0 ex_build)"
    by (simp add: ex_frozen_file ex_g4_file_def read_quiet ex_build_size)
  have snap: "check_go_snapshot ex_sha ex_frozen ex_build name u = Inr ()" if "name \<in> set GO_SOURCES" for name u
  proof -
    have "ex_g4_file (''go-sources/'' @ name) = ex_go name" by (simp add: ex_g4_file_def py_startswith_def)
    then show ?thesis using that ex_go_files [OF that] by (simp add: check_go_snapshot_def ex_frozen_file read_small ex_build_get jget_table py_eq_bytes_self)
  qed
  have "crypto_environment ex_g4 = crypto_environment (JObj [(''crypto'', ex_crypto), (''run_id'', JStr ex_rid)])"
    unfolding crypto_environment_def ex_get by (simp add: jget_def)
  moreover have "py_eq (crypto_environment (JObj [(''crypto'', ex_crypto), (''run_id'', JStr ex_rid)])) (crypto_environment (JObj [(''crypto'', ex_crypto), (''run_id'', JStr ex_rid)]))"
    unfolding ex_crypto_def ex_sha_build by code_simp
  moreover have "jget (sort_keys example_policy) ''wall_seconds'' = JInt 3" "jget (sort_keys example_policy) ''barrier_seconds'' = JInt 2" "jget (sort_keys example_policy) ''outer_seconds'' = JInt 8"
    unfolding jget_sorted [OF example_policy_ok] by (simp_all add: example_policy_def jget_def)
  then have "crypto_limits_ok (sort_keys example_policy)" by (simp add: crypto_limits_ok_def)
  moreover have "JArr (map JStr ex_argv) = crypto_target_argv (JStr ''/t'')" by (simp add: ex_argv_def crypto_target_argv_def)
  ultimately show ?thesis
    unfolding crypto_check_def raw ex_get bindr_simps ex_profile decode_dump [OF ex_build_ok] ex_build_get
    using snap by (simp add: fold_unit py_eq_exe)
qed

lemma ex_shape: "check_shape ex_g4 = Inr ()"
proof -
  have paths: "is_dict (g4_paths o' r)" "py_eq (g4_paths ''/a/n8-cpu-pilot-20260101T000000Z/g4'' ex_rid) (g4_paths ''/a/n8-cpu-pilot-20260101T000000Z/g4'' ex_rid)" for o' r
    by (simp add: g4_paths_def) (code_simp)
  have hex: "fullmatch_hex 64 (replicate 64 CHR ''0'')" by code_simp
  have exe: "keys_are (ex_exe p) EXECUTABLE_KEYS" "is_absolute p \<Longrightarrow> executable_fields (ex_exe p)" for p
    by (auto simp: ex_exe_def keys_are_def EXECUTABLE_KEYS_def keys_def executable_fields_def absolute_str_def natural_def jget_def hex)
  have argv: "valid_argv (JArr (map JStr ex_argv))" "is_absolute (the_str (hd (map JStr ex_argv)))" by code_simp+
  have src: "keys_are (JObj (map (\<lambda>(n, data). (n, bytes_ref ex_sha data)) (map (\<lambda>n. (n, ex_tool n)) ex_names))) (source_names ex_g4)"
    by (simp add: source_names_def is_crypto_def ex_get keys_are_def keys_def ex_names_def comp_def)
  have dir: "keys_are (JObj [(''device'', JInt a), (''inode'', JInt b), (''uid'', JInt c)]) [''device'', ''inode'', ''uid'']" for a b c by (simp add: keys_are_def keys_def)
  have place: "pl_path ex_place = ''/a/n8-cpu-pilot-20260101T000000Z/g4''" "fs_dev (pl_dir ex_place) = 0" "fs_ino (pl_dir ex_place) = 0" "fs_uid (pl_dir ex_place) = 0" "is_absolute ''/a/n8-cpu-pilot-20260101T000000Z/g4''" "ho_repo ex_host = ''/r''" "is_absolute ''/r''"
    by (simp_all add: ex_place_def private_stat_def is_absolute_def py_startswith_def ex_host_def)
  show ?thesis
    unfolding check_shape_def ex_path
    unfolding ex_get(1-16) place
    using paths exe argv src dir place ex_absolute
    by (simp add: absolute_str_def natural_def ex_build_get del: sort_keys.simps)
qed

lemma ex_tools: "name \<in> set ex_names \<Longrightarrow> length (ex_tool name) \<le> 64 \<and> (case map_of PINNED name of None \<Rightarrow> True | Some x \<Rightarrow> ex_sha (ex_tool name) = x)"
proof -
  have "\<forall>name \<in> set ex_names. length (ex_tool name) \<le> 64 \<and> (case map_of PINNED name of None \<Rightarrow> True | Some x \<Rightarrow> ex_sha (ex_tool name) = x)" by code_simp
  then show "name \<in> set ex_names \<Longrightarrow> length (ex_tool name) \<le> 64 \<and> (case map_of PINNED name of None \<Rightarrow> True | Some x \<Rightarrow> ex_sha (ex_tool name) = x)" by blast
qed

lemma ex_source_names: "source_names ex_g4 = ex_names"
  by (simp add: source_names_def is_crypto_def ex_get ex_names_def)

lemma ex_sources_checked: "fold_res (check_g4_source ex_sha ex_host ex_frozen True ex_g4) (source_names ex_g4) () = Inr ()"
proof -
  have tool: "ex_g4_file (''sources/'' @ name) = ex_tool name" for name by (simp add: ex_g4_file_def py_startswith_def)
  have get: "jget (jget ex_g4 ''sources'') name = bytes_ref ex_sha (ex_tool name)" if "name \<in> set ex_names" for name
  proof -
    have "jget ex_g4 ''sources'' = JObj (map (\<lambda>n. (n, bytes_ref ex_sha (ex_tool n))) ex_names)" unfolding ex_get by (simp add: comp_def)
    then show ?thesis using that by (simp add: jget_table)
  qed
  have "check_g4_source ex_sha ex_host ex_frozen True ex_g4 name () = Inr ()" if "name \<in> set ex_names" for name
    using ex_tools [OF that] unfolding check_g4_source_def ex_frozen_file tool get [OF that] by (simp add: read_small ex_host_def)
  then show ?thesis unfolding ex_source_names fold_unit by blast
qed

lemma ex_live_checked: "check_live ex_sha ex_host ex_dir ex_g4 = Inr ()"
proof -
  have "path_absolute ''/'' ''/a/n8-cpu-pilot-20260101T000000Z/g4/g4.json'' = ''/a/n8-cpu-pilot-20260101T000000Z/g4/g4.json''" "path_absolute ''/'' (path_parent ''/a/n8-cpu-pilot-20260101T000000Z/g4/g4.json'') = ''/a/n8-cpu-pilot-20260101T000000Z/g4''" by code_simp+
  moreover have "gd_config ex_dir = ''/a/n8-cpu-pilot-20260101T000000Z/g4/g4.json''" "gd_cwd ex_dir = ''/''" "gd_stat ex_dir = Inr (private_stat [])" by (simp_all add: ex_dir_def)
  moreover have "hd (map JStr ex_argv) = JStr ''/t''" by (simp add: ex_argv_def)
  moreover have "executable ex_sha ex_host (JStr ''/t'') = Inr (ex_exe ''/t'')" "executable ex_sha ex_host (JStr (ho_python ex_host)) = Inr (ex_exe ''/p'')"
    using ex_absolute by (simp_all add: ex_executable) (simp add: ex_host_def ex_executable [unfolded ex_host_def])
  moreover have "ho_uid ex_host = 0" by (simp add: ex_host_def)
  ultimately show ?thesis
    unfolding check_live_def ex_path unfolding ex_get
    by (simp add: private_stat_def ex_place_def py_eq_exe)
qed

lemma ex_policy_bytes: "length (encoded example_policy) \<le> 16384"
  using length_encoded [of example_policy] example_policy_weight by simp

lemma ex_g4_checked: "g4_check ex_sha ex_host True ex_dir = Inr ex_g4"
proof -
  have r: "read_regular MiB2 (ed_file ex_frozen ''g4.json'') = Inr (dump True 0 ex_g4)" "read_regular 16384 (ed_file ex_frozen ''policy.snapshot.json'') = Inr (encoded example_policy)"
    using ex_policy_bytes by (simp_all add: ex_frozen_file ex_g4_file_def read_quiet ex_g4_size)
  have "path_name ''/a/n8-cpu-pilot-20260101T000000Z/g4/g4.json'' = ''g4.json''" "path_parent ''/a/n8-cpu-pilot-20260101T000000Z/g4/g4.json'' = ''/a/n8-cpu-pilot-20260101T000000Z/g4''" "fullmatch_hex 32 ex_rid" by code_simp+
  moreover have "gd_config ex_dir = ''/a/n8-cpu-pilot-20260101T000000Z/g4/g4.json''" "\<not> gd_config_symlink ex_dir" by (simp_all add: ex_dir_def)
  moreover have "is_crypto ex_g4" by (simp add: is_crypto_def ex_get)
  moreover from this have "check_version_fields ex_g4 = Inr ()" by (simp add: check_version_fields_def ex_get keys_are_def del: set_append)
  ultimately show ?thesis
    unfolding g4_check_def Let_def
    using ex_crypto_checked ex_shape ex_sources_checked ex_live_checked
    by (simp add: r decode_dump [OF ex_g4_ok] ex_frozen_file(2,3) g4_run_id_def ex_get example_policy_parses)
qed

section \<open>Properties\<close>

text \<open>
  C35: a G4 launch that passes the check is frozen: the manifest is the one on disk, the effective limits are
  those of the snapshot's policy, which is within the bounds of the runner; every tool source is the recorded one,
  the pinned ones are the approved ones, and a live check finds them installed. For the crypto profile the Go
  sources, in the repository and in the snapshot, have their approved hashes and the target is the binary of the
  recorded build; and a live check finds the interpreter and the target on the host as they were recorded.
\<close>

theorem g4_launch_frozen:
  assumes "g4_check sha h live_check g = Inr m"
  shows "loads (fv_first (ed_file (gd_files g) ''g4.json'')) = Some m \<and>
    (\<exists>policy. loads (fv_first (ed_file (gd_files g) ''policy.snapshot.json'')) = Some policy \<and> policy_sane policy \<and> sort_keys (jget m ''effective_limits'') = sort_keys policy) \<and>
    (\<forall>name \<in> set (source_names m). frozen_source sha h (gd_files g) live_check m name) \<and> jget m ''runner_argv'' = g4_runner_argv m \<and>
    (is_crypto m \<longrightarrow> (\<forall>name \<in> set GO_SOURCES. frozen_go sha h (gd_files g) name) \<and> frozen_target sha h (gd_files g) m) \<and>
    (live_check \<longrightarrow> (\<exists>python target. executable sha h (JStr (ho_python h)) = Inr python \<and> py_eq (jget m ''python'') python \<and>
       executable sha h (hd (the_list (jget m ''target_argv''))) = Inr target \<and> py_eq (jget m ''target_executable'') target))"
proof -
  from assms obtain raw policy where d: "decode_evidence (fv_first (ed_file (gd_files g) ''g4.json'')) = Inr m" "raw = fv_first (ed_file (gd_files g) ''policy.snapshot.json'')"
    "encoded (jget m ''policy'') = encoded (bytes_ref sha raw)" "parse_policy raw = Inr policy" "encoded (jget m ''effective_limits'') = encoded policy"
    "is_crypto m \<longrightarrow> crypto_check sha h (path_parent (gd_config g)) (gd_files g) m = Inr ()" "check_shape m = Inr ()"
    "\<forall>name \<in> set (source_names m). check_g4_source sha h (gd_files g) live_check m name () = Inr ()" "live_check \<longrightarrow> check_live sha h g m = Inr ()"
    by (rule g4_checkD)
  have ok: "json_ok m" using d(1) by (rule decode_evidence_ok)
  have p: "loads raw = Some policy" "policy_sane policy" using parse_policyD [OF d(4)] by blast+
  then have "sort_keys (jget m ''effective_limits'') = sort_keys policy"
    using d(5) encoded_same json_ok_jget [OF ok] by (auto simp: policy_sane_def)
  moreover have "jget m ''runner_argv'' = g4_runner_argv m" using d(7) unfolding check_shape_def requires_Inr_iff by blast
  moreover have "\<forall>name \<in> set (source_names m). frozen_source sha h (gd_files g) live_check m name" using d(8) check_g4_sourceD ok by blast
  moreover have "is_crypto m \<longrightarrow> (\<forall>name \<in> set GO_SOURCES. frozen_go sha h (gd_files g) name) \<and> frozen_target sha h (gd_files g) m" using d(6) crypto_checkD ok by blast
  moreover have "live_check \<longrightarrow> (\<exists>python target. executable sha h (JStr (ho_python h)) = Inr python \<and> py_eq (jget m ''python'') python \<and>
       executable sha h (hd (the_list (jget m ''target_argv''))) = Inr target \<and> py_eq (jget m ''target_executable'') target)"
    using d(9) unfolding check_live_def bindr_Inr_iff requires_Inr_iff by blast
  ultimately show ?thesis using d(1,2) p by (auto simp: decode_evidence_def split: option.splits)
qed

theorem g4_launch_frozen_witness:
  "is_crypto ex_g4 \<and> list_all (frozen_go ex_sha ex_host (gd_files ex_dir)) GO_SOURCES \<and> frozen_target ex_sha ex_host (gd_files ex_dir) ex_g4 \<and>
     frozen_source ex_sha ex_host (gd_files ex_dir) True ex_g4 ''run_check.py''"
proof -
  have c: "is_crypto ex_g4" by (simp add: is_crypto_def ex_get)
  have n: "''run_check.py'' \<in> set (source_names ex_g4)" unfolding ex_source_names by (simp add: ex_names_def G4_SOURCES_def PINNED_def APPROVED_def)
  show ?thesis using g4_launch_frozen [OF ex_g4_checked] c n unfolding list_all_iff by blast
qed

end
