(* ===== verification/Sampled_Run.thy ===== *)
theory Sampled_Run
  imports G4_Events
begin

text \<open>
  Runs whose monitor records what it observes: \<^verbatim>\<open>group_run.py\<close>, and the shared part of the G4 bootstrap.
  The runner's loop sees a recorded row as a snapshot and the available memory; the contract of such a
  monitor is the locale \<open>recording_monitor\<close>, and its main result says that the runner's own numbers (peak,
  minimum, resource stop) are those of the recorded rows.
\<close>

section \<open>The sample behind a row\<close>

record rec_world = world +
  bw_recorder :: recorder
  bw_owner :: "json option"

definition row_kib :: "row \<Rightarrow> int" where
  "row_kib r = (if r_status r = COMPLETE then or_zero (r_rss r) div 1024 else 0)"

definition avail_kib :: "row \<Rightarrow> int" where
  "avail_kib r = or_zero (r_available r) div 1024"

text \<open>
  The members of a row carry no parent, and the loop does not look at it; the recorded snapshot has 0 there.
  \<open>None // 1024\<close> is a \<open>TypeError\<close>.
\<close>

definition as_proc :: "ident \<Rightarrow> proc_id" where
  "as_proc i = \<lparr>p_pid = p_pid i, p_state = p_state i, p_pgid = p_pgid i, p_sid = p_sid i, p_ticks = p_ticks i, p_ppid = 0\<rparr>"

definition after_of :: "member_status \<Rightarrow> row \<Rightarrow> proc_id list" where
  "after_of st r = List.map_filter (\<lambda>m. if m_status m = st then map_option as_proc (m_after m) else None) (r_members r)"

definition row_snapshot :: "row \<Rightarrow> snapshot" where
  "row_snapshot r = \<lparr>live = after_of LIVE r, zombies = after_of ZOMBIE r, sn_errors = [], rss_kib = row_kib r\<rparr>"

definition row_sample :: "row \<Rightarrow> (snapshot \<times> int) res" where
  "row_sample r = (case r_available r of None \<Rightarrow> Inl TypeError | Some n \<Rightarrow> Inr (row_snapshot r, n div 1024))"

definition settled :: "row \<Rightarrow> bool" where
  "settled r \<longleftrightarrow> r_status r = COMPLETE \<or> r_status r = ZOMBIE_ONLY \<or> r_status r = NO_LIVE_MEMBERS"

text \<open>\<open>recorder.append(row)\<close>; the outcome of the write is that of a system call.\<close>

definition append_to :: "(nat \<Rightarrow> unit res) \<Rightarrow> row \<Rightarrow> ('b rec_world_scheme, unit) io" where
  "append_to out r = (\<lambda>w. case append_row (out (tick w)) r (bw_recorder w) of
     (rc, x) \<Rightarrow> Some (x, w\<lparr>tick := Suc (tick w), bw_recorder := rc\<rparr>))"

definition json_ident :: "json \<Rightarrow> ident" where
  "json_ident v = \<lparr>p_pid = jint v ''pid'', p_state = the_str (jget v ''state''), p_pgid = jint v ''pgid'', p_sid = jint v ''sid'', p_ticks = jint v ''start_ticks''\<rparr>"

section \<open>The monitor of the G3 run\<close>

text \<open>
  \<open>ge_owner\<close> is the text of \<^verbatim>\<open>inner/owner.json\<close> at a moment, which the runner wrote before its loop; \<open>ge_phase\<close>
  is the optional provider of barrier events, code of the embedding program.
\<close>

record g3_env =
  ge_run_id :: string
  ge_owner :: "nat \<Rightarrow> string res"
  ge_phase :: "(nat \<Rightarrow> json \<Rightarrow> phase res) option"
  ge_write :: "nat \<Rightarrow> unit res"

definition g3_owner :: "g3_env \<Rightarrow> ('b rec_world_scheme, json) io" where
  "g3_owner E = bindi (gets bw_owner) (\<lambda>ow. case ow of
      Some j \<Rightarrow> ret j
    | None \<Rightarrow> bindi (sys (\<lambda>t. bindr (ge_owner E t) loads_plain)) (\<lambda>j.
        bindi (modify (\<lambda>w. w\<lparr>bw_owner := Some j\<rparr>)) (\<lambda>_. ret j)))"

definition g3_phase :: "g3_env \<Rightarrow> json \<Rightarrow> ('b rec_world_scheme, phase option) io" where
  "g3_phase E j = (case ge_phase E of None \<Rightarrow> ret None | Some f \<Rightarrow> bindi (sys (\<lambda>t. f t j)) (\<lambda>p. ret (Some p)))"

definition g3_monitor :: "g3_env \<Rightarrow> kernel \<Rightarrow> int \<Rightarrow> ('b rec_world_scheme, snapshot \<times> int) io" where
  "g3_monitor E K pgid =
     bindi (g3_owner E) (\<lambda>j.
     bindi (lift_res (item j ''pid'')) (\<lambda>pid.
     if \<not> py_eq pid (JInt pgid) then raise (EvidenceError ''monitor ownership disagreement'')
     else bindi (g3_phase E j) (\<lambda>ph.
       bindi (gets (\<lambda>w. rc_count (bw_recorder w))) (\<lambda>n.
       bindi (observe K (json_ident j) (ge_run_id E) (int n) ph ''runner_monitor'') (\<lambda>r.
       bindi (append_to (ge_write E) r) (\<lambda>_.
       if \<not> settled r then raise (EvidenceError (''group sample '' @ status_name (r_status r)))
       else lift_res (row_sample r)))))))"

section \<open>The runner's numbers\<close>

definition tripped :: "row \<Rightarrow> bool" where
  "tripped r \<longleftrightarrow> row_kib r > RSS_STOP_KIB \<or> avail_kib r < AVAILABLE_STOP_KIB"

definition trip_reason :: "row \<Rightarrow> string" where
  "trip_reason r = (if row_kib r > RSS_STOP_KIB then ''group RSS'' else ''system MemAvailable'')"

fun min_of :: "int list \<Rightarrow> int option" where
  "min_of [] = None"
| "min_of (x # xs) = (case min_of xs of None \<Rightarrow> Some x | Some y \<Rightarrow> Some (min x y))"

definition peak_of :: "row list \<Rightarrow> int" where
  "peak_of rows = foldl max 0 (map row_kib rows)"

definition numbers_of :: "row list \<Rightarrow> run_state \<Rightarrow> bool" where
  "numbers_of rows s \<longleftrightarrow> peak s = peak_of rows \<and> min_available s = min_of (map avail_kib rows)"

text \<open>The loop runs on while no row trips a limit; it stops at the first that does, unless the phase watchdog comes first.\<close>

definition runs_on :: "row list \<Rightarrow> run_state \<Rightarrow> bool" where
  "runs_on rows s \<longleftrightarrow> numbers_of rows s \<and> primary s = NotStarted \<and> (\<forall>r \<in> set rows. \<not> tripped r)"

definition accounts :: "row list \<Rightarrow> run_state \<Rightarrow> bool" where
  "accounts rows s \<longleftrightarrow> numbers_of rows s \<and> (\<forall>r \<in> set (butlast rows). \<not> tripped r) \<and>
     (rows \<noteq> [] \<and> tripped (last rows) \<longrightarrow>
        primary s = ResourceStop (trip_reason (last rows)) \<or> (\<exists>p \<in> set (map fst PHASE_BUDGETS). primary s = TimedOut (''phase watchdog: '' @ p))) \<and>
     (\<forall>why. primary s = ResourceStop why \<longrightarrow> rows \<noteq> [] \<and> tripped (last rows) \<and> why = trip_reason (last rows))"

lemma min_of_snoc: "min_of (xs @ [x]) = Some (case min_of xs of None \<Rightarrow> x | Some m \<Rightarrow> min x m)"
  by (induction xs) (auto split: option.splits)

lemma numbers_snoc:
  assumes "numbers_of rows s" "row_sample r = Inr x"
  shows "numbers_of (rows @ [r]) (note_sample x s)"
  using assms by (auto simp: numbers_of_def note_sample_def peak_of_def row_sample_def row_snapshot_def avail_kib_def or_zero_def min_of_snoc split: option.splits)

lemma watchdogs_account:
  assumes num: "numbers_of (rows @ [r]) s" and pre: "primary s = NotStarted" "\<forall>r \<in> set rows. \<not> tripped r" and x: "row_sample r = Inr x"
    and run: "watchdogs now x s = (s', st)"
  shows "(st = Continue \<longrightarrow> runs_on (rows @ [r]) s') \<and> (st = Break \<longrightarrow> accounts (rows @ [r]) s')"
proof -
  have f: "rss_kib (fst x) = row_kib r" "snd x = avail_kib r"
    using x by (auto simp: row_sample_def row_snapshot_def avail_kib_def or_zero_def split: option.splits)
  have dom: "p \<in> set (map fst PHASE_BUDGETS)" if "phase_expired now s = Inr (Some p)" for p
    using that by (auto simp: phase_expired_def split: json.splits option.splits if_splits dest!: map_of_SomeD intro: rev_image_eqI)
  show ?thesis
  proof (cases "\<exists>p. phase_expired now s = Inr (Some p)")
    case True
    then obtain p where p: "phase_expired now s = Inr (Some p)" by blast
    then have "s' = s\<lparr>primary := TimedOut (''phase watchdog: '' @ p)\<rparr>" "st = Break" using run by (auto simp: watchdogs_def)
    with num pre(2) dom [OF p] show ?thesis by (auto simp: accounts_def numbers_of_def simp del: append.simps)
  next
    case False
    then show ?thesis using run num pre f
      by (auto simp: watchdogs_def runs_on_def accounts_def numbers_of_def tripped_def trip_reason_def split: sum.splits option.splits if_splits)
  qed
qed

lemma iteration_cases:
  assumes "iteration K monitor wall t0 start pid s w = Some (Inr (s', st), w')"
  obtains (quiet) p n where "s' = s\<lparr>primary := p\<rparr>" "st = Break" "\<forall>why. p \<noteq> ResourceStop why" "w' = w\<lparr>tick := n\<rparr>"
  | (raised) e where "st = Raised e"
  | (sampled) t x v now chunk s2 n where "monitor pid (w\<lparr>tick := t\<rparr>) = Some (Inr x, v)" "take_text now chunk (note_sample x s) = (s2, None)"
      "watchdogs now x s2 = (s', st)" "w' = v\<lparr>tick := n\<rparr>"
proof (cases "pending K t0 (tick w) = []")
  case False
  then have "s' = s\<lparr>primary := Interrupted (hd (pending K t0 (tick w)))\<rparr>" "st = Break" "w' = w"
    using assms by (auto simp: iteration_def interrupts_def run_steps)
  then show thesis using quiet [of "Interrupted (hd (pending K t0 (tick w)))" "tick w"] by simp
next
  case none: True
  show thesis
  proof (cases "k_waitid K (tick w) pid")
    case (Inl e)
    then show thesis using assms none raised by (auto simp: iteration_def interrupts_def observed_exit_def guarded_def run_steps)
  next
    case ev: (Inr event)
    show thesis
    proof (cases event)
      case (Some e)
      then show thesis using assms none ev quiet [of "exit_primary e" "Suc (tick w)"]
        by (auto simp: iteration_def interrupts_def observed_exit_def guarded_def exit_primary_def run_steps)
    next
      case no_exit: None
      let ?now = "k_clock K (Suc (tick w))" and ?v = "w\<lparr>tick := Suc (Suc (tick w))\<rparr>"
      show thesis
      proof (cases "?now - start > wall")
        case True
        then show thesis using assms none ev no_exit quiet [of "TimedOut ''overall wall watchdog''" "Suc (Suc (tick w))"]
          by (auto simp: iteration_def interrupts_def observed_exit_def guarded_def run_steps)
      next
        case False
        then have g: "guarded (monitor pid) s (\<lambda>x. let s1 = note_sample x s in guarded (sys (k_tail K)) s1 (\<lambda>chunk.
            case take_text ?now chunk s1 of (s2, Some e) \<Rightarrow> ret (s2, Raised e) | (s2, None) \<Rightarrow> ret (watchdogs ?now x s2))) ?v = Some (Inr (s', st), w')"
          using assms none ev no_exit by (simp add: iteration_def interrupts_def observed_exit_def guarded_def run_steps)
        then consider (stopped) e where "st = Raised e"
          | (taken) x v chunk where "monitor pid ?v = Some (Inr x, v)"
              "(case take_text ?now chunk (note_sample x s) of (s2, Some e) \<Rightarrow> ret (s2, Raised e) | (s2, None) \<Rightarrow> ret (watchdogs ?now x s2)) (v\<lparr>tick := Suc (tick v)\<rparr>) = Some (Inr (s', st), w')"
          unfolding guarded_Some_iff Let_def sys_def by blast
        then show thesis
        proof cases
          case stopped
          then show thesis by (rule raised)
        next
          case (taken x v chunk)
          obtain s2 err where tx: "take_text ?now chunk (note_sample x s) = (s2, err)" by fastforce
          show thesis
          proof (cases err)
            case None
            with taken(2) tx have "watchdogs ?now x s2 = (s', st)" "w' = v\<lparr>tick := Suc (tick v)\<rparr>" by (auto simp: io_simps)
            with taken(1) tx None show thesis by (intro sampled) simp_all
          next
            case (Some e)
            with taken(2) tx show thesis by (intro raised [of e]) (simp add: io_simps)
          qed
        qed
      qed
    qed
  qed
qed

section \<open>The host calls of a run keep the rest of the world\<close>

lemma keeps_write_file [keeps_intros]:
  assumes "\<And>w n. f (w\<lparr>tick := n\<rparr>) = f w" "\<And>w l. f (w\<lparr>log := l\<rparr>) = f w"
  shows "keeps f (write_file K path)" "keeps f (popen K args env)"
  unfolding write_file_def popen_def emit_def by (intro keeps_bindi keeps_sys keeps_modify keeps_basic assms)+

lemma keeps_report [keeps_intros]:
  assumes "\<And>w n. f (w\<lparr>tick := n\<rparr>) = f w" "\<And>w l. f (w\<lparr>log := l\<rparr>) = f w"
  shows "keeps f (interrupts K t0)" "keeps f (raw_capture K sha path r)" "keeps f (conclude n K cfg s)"
proof -
  have c: "keeps f (cleanup n K pid code own tg kg)" for pid code own tg kg
    using assms by (auto simp: keeps_def cleanup_def split: option.splits prod.splits)
  show "keeps f (conclude n K cfg s)" unfolding conclude_def by (auto intro!: keeps_intros c split: option.split)
  show "keeps f (interrupts K t0)" "keeps f (raw_capture K sha path r)"
    unfolding interrupts_def raw_capture_def by (intro keeps_intros assms; auto intro!: keeps_intros)+
qed

text \<open>What the last part of a run takes over into the report.\<close>

definition reports :: "run_state \<Rightarrow> run_record \<Rightarrow> bool" where
  "reports s r \<longleftrightarrow> (\<exists>sigs. rr_primary r = late_interrupt sigs (primary s)) \<and> rr_peak r = peak s \<and> rr_min_available r = min_available s \<and>
     rr_stop_escalation r = (peak s > ESCALATION_STOP_KIB)"

lemma finish_report_reports: "returns (reports s) (finish_report K sha reporter cfg t0 s c)"
proof -
  have raw: "returns (reports s) (raw_capture K sha path r)" if "reports s r" for path r
    using that unfolding raw_capture_def by (intro returns_bindi [OF returns_any]) (auto intro!: returns_intros simp: reports_def split: sum.split)
  have filed: "returns (reports s) (file_report K reporter r)" if "reports s r" for r
    using that unfolding file_report_def
    by (intro returns_bindi [OF returns_any]) (auto intro!: returns_bindi [OF returns_any] returns_intros simp: reports_def split: sum.split)
  have "reports s (report_of cfg s c sigs)" for sigs by (auto simp: reports_def report_of_def)
  then show ?thesis unfolding finish_report_def
    by (intro returns_bindi [OF returns_any] returns_bindi [OF raw] filed) (auto simp: reports_def)
qed

section \<open>Monitors that return what they record\<close>

text \<open>
  The contract between the loop and a recording monitor: a monitor that returns has appended one row to the
  recorder, and what it returns is the sample behind this row. \<open>ready\<close> is what the monitor keeps of its own state.
\<close>

locale recording_monitor =
  fixes monitor :: "int \<Rightarrow> ('c rec_world_scheme, snapshot \<times> int) io"
    and ready :: "'c rec_world_scheme \<Rightarrow> bool"
    and fit :: "row \<Rightarrow> bool"
  assumes records: "\<lbrakk>ready w; holds_rows rows (bw_recorder w); monitor pid w = Some (Inr x, w')\<rbrakk> \<Longrightarrow>
      ready w' \<and> (\<exists>r. holds_rows (rows @ [r]) (bw_recorder w') \<and> row_sample r = Inr x \<and> fit r)"
    and ready_tick: "ready (w\<lparr>tick := t\<rparr>) = ready w"
    and ready_log: "ready (w\<lparr>log := l\<rparr>) = ready w"
begin

definition recorded :: "row list \<Rightarrow> 'c rec_world_scheme \<Rightarrow> bool" where
  "recorded rows w \<longleftrightarrow> ready w \<and> holds_rows rows (bw_recorder w) \<and> (\<forall>r \<in> set rows. fit r)"

lemma recorded_quiet [simp]: "recorded rows (w\<lparr>tick := t\<rparr>) = recorded rows w" "recorded rows (w\<lparr>log := l\<rparr>) = recorded rows w"
  by (simp_all add: recorded_def ready_tick ready_log)

lemma iteration_accounts:
  assumes "recorded rows w" "runs_on rows s" "iteration K monitor wall t0 start pid s w = Some (Inr (s', st), w')"
  shows "(st = Continue \<longrightarrow> (\<exists>rows. recorded rows w' \<and> runs_on rows s')) \<and> (st = Break \<longrightarrow> (\<exists>rows. recorded rows w' \<and> accounts rows s'))"
proof -
  have still: "accounts rows (s\<lparr>primary := p\<rparr>)" if "\<forall>why. p \<noteq> ResourceStop why" for p
  proof -
    have "\<not> (rows \<noteq> [] \<and> tripped (last rows))" "\<forall>r \<in> set (butlast rows). \<not> tripped r"
      using assms(2) by (auto simp: runs_on_def dest: in_set_butlastD)
    then show ?thesis using assms(2) that by (auto simp: accounts_def runs_on_def numbers_of_def)
  qed
  have taken: "(st = Continue \<longrightarrow> (\<exists>rows. recorded rows w2 \<and> runs_on rows s')) \<and> (st = Break \<longrightarrow> (\<exists>rows. recorded rows w2 \<and> accounts rows s'))"
    if m: "monitor pid v = Some (Inr x, v1)" "recorded rows v" and t: "take_text now chunk (note_sample x s) = (s2, None)" "watchdogs now x s2 = (s', st)"
      and w2: "w2 = v1\<lparr>tick := n\<rparr>" for v x v1 now chunk s2 n w2
  proof -
    from records [of v rows pid x v1] m obtain r where r: "recorded (rows @ [r]) v1" "row_sample r = Inr x" unfolding recorded_def by auto
    have "numbers_of (rows @ [r]) s2" "primary s2 = NotStarted"
      using numbers_snoc [OF _ r(2), of rows s] take_text_keeps [OF t(1)] assms(2) by (auto simp: numbers_of_def runs_on_def note_sample_fields)
    then have "(st = Continue \<longrightarrow> runs_on (rows @ [r]) s') \<and> (st = Break \<longrightarrow> accounts (rows @ [r]) s')"
      using watchdogs_account [OF _ _ _ r(2) t(2)] assms(2) unfolding runs_on_def by blast
    moreover have "recorded (rows @ [r]) w2" using r(1) w2 by simp
    ultimately show ?thesis by blast
  qed
  from assms(3) show ?thesis
  proof (cases rule: iteration_cases)
    case (quiet p n)
    with still [of p] assms(1) show ?thesis by auto
  next
    case (sampled t x v now chunk s2 n)
    with taken [of "w\<lparr>tick := t\<rparr>" x v now chunk s2 w' n] assms(1) show ?thesis by auto
  qed simp
qed

lemma run_loop_accounts:
  assumes "recorded rows w" "runs_on rows s" "run_loop n K monitor wall t0 start pid s w = Some (Inr (s', Break), w')"
  shows "\<exists>rows. recorded rows w' \<and> accounts rows s'"
  using assms
proof (induction n arbitrary: rows w s)
  case (Suc n)
  from Suc.prems(3) obtain s1 st w1 where it: "iteration K monitor wall t0 start pid s w = Some (Inr (s1, st), w1)"
      "(if st = Continue then bindi sleep (\<lambda>_. run_loop n K monitor wall t0 start pid s1) else ret (s1, st)) w1 = Some (Inr (s', Break), w')"
    by (auto simp: bindi_Some_iff)
  note acc = iteration_accounts [OF Suc.prems(1,2) it(1)]
  show ?case
  proof (cases "st = Continue")
    case True
    with acc obtain rows' where "recorded rows' w1" "runs_on rows' s1" by blast
    with True it(2) Suc.IH [of rows' "w1\<lparr>tick := Suc (tick w1)\<rparr>" s1] show ?thesis by (auto simp: sleep_def sys_def bindi_Some_iff)
  next
    case False
    with it(2) acc show ?thesis by (auto simp: io_simps)
  qed
qed simp

lemma supervise_child_accounts:
  assumes "recorded [] w" "runs_on [] s" "within_limits s" "supervise_child n K monitor wall t0 start pid s w = Some (Inr (s', st), w')"
  shows "(st = Break \<and> primary s' \<noteq> NotStarted \<and> (\<exists>rows. recorded rows w' \<and> accounts rows s')) \<or> primary s' = NotStarted \<and> (\<exists>e. st = Raised e)"
proof -
  have raised: ?thesis if "s' = s\<lparr>owner := i\<rparr> \<or> s' = s" "st = Raised e" for i e using that assms(2) by (auto simp: runs_on_def)
  from assms(4) consider (unread) e where "s' = s" "st = Raised e"
    | (foreign) i e where "s' = s\<lparr>owner := i\<rparr>" "st = Raised e"
    | (owned) i w1 where "run_identity K pid w = Some (Inr i, w1)"
        "guarded (write_file K ''owner.json'') (s\<lparr>owner := i\<rparr>) (\<lambda>_. run_loop n K monitor wall t0 start pid (s\<lparr>owner := i\<rparr>)) w1 = Some (Inr (s', st), w')"
    unfolding supervise_child_def Let_def guarded_Some_iff [of "run_identity K pid"] by (auto simp: ret_def split: if_split_asm)
  then consider (early) i e where "s' = s\<lparr>owner := i\<rparr> \<or> s' = s" "st = Raised e"
    | (looped) i v where "recorded [] v" "run_loop n K monitor wall t0 start pid (s\<lparr>owner := i\<rparr>) v = Some (Inr (s', st), w')"
  proof cases
    case (owned i w1)
    have "recorded [] w1" using keepsD [OF keeps_run_identity owned(1), of "recorded []"] assms(1) by simp
    moreover from this have "recorded [] v" if "write_file K ''owner.json'' w1 = Some (r, v)" for r v
      using keepsD [OF keeps_write_file(1) that, of "recorded []"] by simp
    ultimately show thesis using owned(2) that unfolding guarded_Some_iff by blast
  qed blast+
  then show ?thesis
  proof cases
    case early
    then show ?thesis by (rule raised)
  next
    case (looped i v)
    have pre: "runs_on [] (s\<lparr>owner := i\<rparr>)" "primary (s\<lparr>owner := i\<rparr>) = NotStarted" "within_limits (s\<lparr>owner := i\<rparr>)"
      using assms(2,3) by (auto simp: runs_on_def numbers_of_def within_limits_def)
    have "iterates K pid (s\<lparr>owner := i\<rparr>) (s', st)" "st \<noteq> Continue"
      using returnsD [OF run_loop_returns [OF pre(2,3)] looped(2)] by simp_all
    then have "st = Break \<longleftrightarrow> primary s' \<noteq> NotStarted" "st \<noteq> Continue" by (auto simp: iterates_def loop_ok_def)
    moreover have "\<exists>rows. recorded rows w' \<and> accounts rows s'" if "st = Break"
      using run_loop_accounts [OF looped(1) pre(1)] looped(2) that by blast
    ultimately show ?thesis by (cases st) auto
  qed
qed

text \<open>A run that did not fail in the runner itself ends with the numbers of the rows.\<close>

lemma execute_accounts:
  assumes rec: "recorded [] w" and run: "execute n K monitor cfg t0 start initial_state w = Some (Inr x, w')"
    and ok: "\<forall>a b. primary (record_failure x) \<noteq> RunnerError a b"
  shows "\<exists>rows. recorded rows w' \<and> accounts rows (record_failure x)"
proof -
  let ?env = "child_env (environ cfg) (label cfg)" and ?s = "\<lambda>pid. initial_state\<lparr>process := Some pid\<rparr>"
  have fails: False if "x = (initial_state, Raised e)" for e using that ok by (simp add: record_failure_def initial_state_def)
  from run fails obtain w1 w2 where w1: "write_file K ''started.json'' w = Some (Inr (), w1)" "sys (k_open K) w1 = Some (Inr (), w2)"
      "with_files K (guarded (popen K (argv cfg) ?env) initial_state (\<lambda>pid. supervise_child n K monitor (the (wall_seconds cfg)) t0 start pid (?s pid))) w2 = Some (Inr x, w')"
    unfolding execute_def guarded_Some_iff [of "write_file K ''started.json''"] guarded_Some_iff [of "sys (k_open K)"] by auto
  have r2: "recorded [] w2"
    using rec keepsD [OF keeps_write_file(1) w1(1), of "recorded []"] keepsD [OF keeps_sys w1(2), of "recorded []"] by simp
  from w1(3) obtain s st w3 r where w3: "guarded (popen K (argv cfg) ?env) initial_state (\<lambda>pid. supervise_child n K monitor (the (wall_seconds cfg)) t0 start pid (?s pid)) w2 = Some (Inr (s, st), w3)"
      "attempt (sys (k_close K)) w3 = Some (Inr r, w')" "x = (s, case r of Inl e \<Rightarrow> Raised e | Inr u \<Rightarrow> st)"
    unfolding with_files_def by (auto simp: bindi_Some_iff io_simps)
  from w3(1) consider (unborn) e where "s = initial_state" "st = Raised e"
    | (born) pid v where "popen K (argv cfg) ?env w2 = Some (Inr pid, v)" "supervise_child n K monitor (the (wall_seconds cfg)) t0 start pid (?s pid) v = Some (Inr (s, st), w3)"
    unfolding guarded_Some_iff by auto
  then show ?thesis
  proof cases
    case unborn
    then have "\<exists>e. x = (initial_state, Raised e)" using w3(3) by (cases r) auto
    with fails show ?thesis by blast
  next
    case (born pid v)
    have "recorded [] v" using r2 keepsD [OF keeps_write_file(2) born(1), of "recorded []"] by simp
    then have "(st = Break \<and> primary s \<noteq> NotStarted \<and> (\<exists>rows. recorded rows w3 \<and> accounts rows s)) \<or> primary s = NotStarted \<and> (\<exists>e. st = Raised e)"
      using born(2) by (intro supervise_child_accounts) (auto simp: runs_on_def numbers_of_def peak_of_def within_limits_def initial_state_def RSS_STOP_KIB_def)
    then show ?thesis
    proof (elim disjE conjE exE)
      fix rows assume a: "st = Break" "primary s \<noteq> NotStarted" "recorded rows w3" "accounts rows s"
      have "recorded rows w'" using keepsD [OF keeps_attempt [OF keeps_sys] w3(2), of "recorded rows"] a(3) by simp
      moreover have "accounts rows (record_failure x)"
        using a(2,4) w3(3) a(1) by (cases r) (auto simp: record_failure_def accounts_def numbers_of_def)
      ultimately show ?thesis by blast
    next
      fix e assume "primary s = NotStarted" "st = Raised e"
      then show ?thesis using ok w3(3) by (cases r) (auto simp: record_failure_def)
    qed
  qed
qed

lemma run_command_accounts:
  assumes rec: "recorded [] w" and run: "run_command n K sha monitor reporter cfg w = Some (Inr r, w')"
    and reporter: "\<And>rows r. keeps (recorded rows) (reporter r)" and ok: "\<forall>a b. rr_primary r \<noteq> RunnerError a b"
  shows "\<exists>rows s. recorded rows w' \<and> accounts rows s \<and> reports s r"
proof -
  from run obtain w1 start w2 x w3 c w4 where
    s: "sys (k_mkdir K) w = Some (Inr (), w1)" "clock K w1 = Some (Inr start, w2)" "execute n K monitor cfg (tick w2) start initial_state w2 = Some (Inr x, w3)"
      "conclude n K cfg (record_failure x) w3 = Some (Inr c, w4)" "finish_report K sha reporter cfg (tick w2) (record_failure x) c w4 = Some (Inr r, w')"
    unfolding run_command_def Let_def by (auto simp: bindi_Some_iff io_simps split: if_splits)
  have "recorded [] w2" using rec keepsD [OF keeps_sys s(1), of "recorded []"] keepsD [OF keeps_clock(1) s(2), of "recorded []"] by simp
  moreover have rep: "reports (record_failure x) r" using returnsD [OF finish_report_reports s(5)] .
  moreover have "\<forall>a b. primary (record_failure x) \<noteq> RunnerError a b"
    using rep ok by (auto simp: reports_def late_interrupt_def is_success_def)
  ultimately obtain rows where rows: "recorded rows w3" "accounts rows (record_failure x)" using execute_accounts [OF _ s(3)] by blast
  have "recorded rows w4" using rows(1) keepsD [OF keeps_report(3) s(4), of "recorded rows"] by simp
  moreover have "keeps (recorded rows) (finish_report K sha reporter cfg t0 s c)" for t0 s
    unfolding finish_report_def file_report_def by (auto intro!: keeps_intros reporter split: sum.split)
  ultimately have "recorded rows w'" using s(5) unfolding keeps_def by blast
  with rows(2) rep show ?thesis by blast
qed

end

section \<open>The observer changes only the clock\<close>

lemma keeps_readers [keeps_intros]:
  assumes "\<And>w n. f (w\<lparr>tick := n\<rparr>) = f w"
  shows "keeps f (reader_identity K pid)" "keeps f (reader_rss K pid)" "keeps f (reader_available K)" "keeps f (reader_pids K)"
  unfolding reader_identity_def reader_rss_def reader_available_def reader_pids_def proc_read_def
  by (auto split: sum.split intro!: keeps_intros assms)

lemma keeps_scan [keeps_intros]:
  assumes "\<And>w n. f (w\<lparr>tick := n\<rparr>) = f w"
  shows "keeps f (scan K ow)"
proof -
  have "keeps f (scan_pids K g pids found errs)" for g pids found errs
    by (induction pids arbitrary: found errs) (auto split: sum.split option.split intro!: keeps_intros assms)
  then show ?thesis unfolding scan_def by (auto split: sum.split intro!: keeps_intros assms)
qed

lemma keeps_observe:
  assumes "\<And>w n. f (w\<lparr>tick := n\<rparr>) = f w"
  shows "keeps f (observe K ow rid seq ph site)"
proof -
  have "keeps f (observe_member K i)" for i
    unfolding observe_member_def member_error_def by (auto split: sum.split intro!: keeps_intros assms)
  then have "keeps f (observe_members K is)" for "is" by (induction "is") (auto intro!: keeps_intros)
  moreover have "keeps f (observe_close K ow r)" for r
    unfolding observe_close_def Let_def by (auto split: sum.split intro!: keeps_intros assms)
  ultimately have "keeps f (observe_body K ow r)" for r
    unfolding observe_body_def by (auto split: sum.split prod.split intro!: keeps_intros assms)
  then show ?thesis unfolding observe_def clock_def by (auto intro!: keeps_intros keeps_sys assms)
qed

definition labelled :: "string \<Rightarrow> phase option \<Rightarrow> row \<Rightarrow> bool" where
  "labelled site ph r \<longleftrightarrow> r_site r = site \<and> r_phase r = (case ph of Some p \<Rightarrow> p | None \<Rightarrow> unknown_phase)"

lemma labelled_updates [simp]:
  "labelled site ph (r\<lparr>r_errors := a\<rparr>) = labelled site ph r" "labelled site ph (r\<lparr>r_anchor_after := b\<rparr>) = labelled site ph r"
  "labelled site ph (r\<lparr>r_available := c\<rparr>) = labelled site ph r" "labelled site ph (r\<lparr>r_end := d\<rparr>) = labelled site ph r"
  "labelled site ph (r\<lparr>r_anchor_before := e, r_scan_before := f, r_scan_after := g, r_scan_errors := h, r_members := i\<rparr>) = labelled site ph r"
  "labelled site ph (classify r) = labelled site ph r"
  by (simp_all add: labelled_def classify_def)

lemma observe_labels: "returns (labelled site ph) (observe K ow rid seq ph site)"
proof -
  have cl: "returns (labelled site ph) (observe_close K ow r)" if "labelled site ph r" for r
    using that unfolding observe_close_def Let_def interrupted_def
    by (auto split: sum.split intro!: returns_bindi [OF returns_any] returns_intros)
  have "returns (labelled site ph) (observe_body K ow r)" if "labelled site ph r" for r
    using that unfolding observe_body_def interrupted_def
    by (auto split: sum.split prod.split intro!: returns_bindi [OF returns_any] returns_intros cl)
  moreover have "labelled site ph (new_row ow rid seq (case ph of Some p \<Rightarrow> p | None \<Rightarrow> unknown_phase) site start)" for start
    by (simp add: labelled_def new_row_def)
  ultimately show ?thesis
    unfolding observe_def by (intro returns_bindi [OF returns_any] returns_bindi [where R = "labelled site ph"] returns_intros) auto
qed

lemma observe_sized: "returns (\<lambda>r. r_status r = COMPLETE \<longrightarrow> r_rss r \<noteq> None) (observe K ow rid seq ph site)"
  unfolding observe_def by (intro returns_bindi [OF returns_any] returns_intros) (simp add: classify_def)

lemma append_to_returns:
  assumes "append_to out r w = Some (Inr u, w')" "holds_rows rows (bw_recorder w)"
  shows "holds_rows (rows @ [r]) (bw_recorder w')"
  using assms append_Inr [of "out (tick w)" r "bw_recorder w" "bw_recorder w'" rows] by (auto simp: append_to_def split: prod.splits)

section \<open>The G3 monitor\<close>

definition monitored :: "row \<Rightarrow> bool" where
  "monitored r \<longleftrightarrow> settled r \<and> r_site r = ''runner_monitor'' \<and> r_available r \<noteq> None \<and> (r_status r = COMPLETE \<longrightarrow> r_rss r \<noteq> None)"

lemma row_sample_available: "row_sample r = Inr x \<Longrightarrow> r_available r \<noteq> None"
  by (auto simp: row_sample_def split: option.splits)

lemma g3_records:
  assumes run: "g3_monitor E K pid w = Some (Inr x, w')" and rows: "holds_rows rows (bw_recorder w)"
  shows "\<exists>r. holds_rows (rows @ [r]) (bw_recorder w') \<and> row_sample r = Inr x \<and> monitored r"
proof -
  have k: "keeps bw_recorder (g3_owner E)" "keeps bw_recorder (g3_phase E j)" for j
    unfolding g3_owner_def g3_phase_def by (auto split: option.split intro!: keeps_intros keeps_modify keeps_sys)
  from run obtain j w1 ph w2 n r w3 where s: "g3_owner E w = Some (Inr j, w1)" "g3_phase E j w1 = Some (Inr ph, w2)"
      "observe K (json_ident j) (ge_run_id E) (int n) ph ''runner_monitor'' w2 = Some (Inr r, w3)"
      "append_to (ge_write E) r w3 = Some (Inr (), w')" "settled r" "row_sample r = Inr x"
    unfolding g3_monitor_def by (auto simp: bindi_Some_iff io_simps split: if_splits)
  have "bw_recorder w3 = bw_recorder w"
    using keepsD [OF k(1) s(1)] keepsD [OF k(2) s(2)] keepsD [OF keeps_observe s(3), of bw_recorder] by simp
  then have "holds_rows (rows @ [r]) (bw_recorder w')" using append_to_returns [OF s(4)] rows by simp
  moreover have "r_site r = ''runner_monitor''" using returnsD [OF observe_labels s(3)] by (simp add: labelled_def)
  ultimately show ?thesis using s(5,6) row_sample_available [OF s(6)] returnsD [OF observe_sized s(3)] by (intro exI [of _ r]) (simp add: monitored_def)
qed

interpretation g3: recording_monitor "g3_monitor E K" "\<lambda>w. True" monitored for E K
  by unfold_locales (auto dest: g3_records)

section \<open>A G3 run\<close>

text \<open>\<open>except (OSError, ValueError, TypeError, KeyError)\<close>\<close>

definition caught :: "py_error \<Rightarrow> bool" where
  "caught e \<longleftrightarrow> is_OSError e \<or> is_ValueError e \<or> e = TypeError \<or> e = KeyError"

text \<open>The sample after the cleanup, taken when an owner was seen and the recorder has not failed.\<close>

definition cleanup_phase :: "ns \<Rightarrow> json \<Rightarrow> phase" where
  "cleanup_phase t j = \<lparr>ph_name = ''cleanup'', ph_event = Some \<lparr>ev_kind = ''cleanup_completed'', ev_ns = t, ev_owner = json_ident j\<rparr>\<rparr>"

definition cleanup_row :: "kernel \<Rightarrow> string \<Rightarrow> (nat \<Rightarrow> unit res) \<Rightarrow> ('b rec_world_scheme, unit) io" where
  "cleanup_row K rid out =
     bindi (gets (\<lambda>w. (bw_owner w, rc_error (bw_recorder w)))) (\<lambda>x. case x of
       (Some j, None) \<Rightarrow>
         bindi (clock K) (\<lambda>t.
         bindi (gets (\<lambda>w. rc_count (bw_recorder w))) (\<lambda>n.
         bindi (observe K (json_ident j) rid (int n) (Some (cleanup_phase t j)) ''cleanup_check'') (append_to out)))
     | _ \<Rightarrow> ret ())"

definition close_into :: "(string \<Rightarrow> string) \<Rightarrow> unit res \<Rightarrow> int option \<Rightarrow> ('b rec_world_scheme, json) io" where
  "close_into sha out legacy = (\<lambda>w. case close_recorder sha out legacy (bw_recorder w) of
     Inl e \<Rightarrow> Some (Inl e, w) | Inr (rc, summary) \<Rightarrow> Some (Inr summary, w\<lparr>bw_recorder := rc\<rparr>))"

text \<open>\<open>try: run_command; cleanup sample\<close>, with the exception that the \<open>finally\<close> re-raises.\<close>

definition recorded_run :: "nat \<Rightarrow> kernel \<Rightarrow> (string \<Rightarrow> string) \<Rightarrow> (int \<Rightarrow> ('b rec_world_scheme, snapshot \<times> int) io) \<Rightarrow> run_config \<Rightarrow> string \<Rightarrow> (nat \<Rightarrow> unit res) \<Rightarrow>
    ('b rec_world_scheme, run_record option \<times> py_error option) io" where
  "recorded_run n K sha monitor cfg rid out =
     bindi (attempt (run_command n K sha monitor (\<lambda>r. write_file K ''result.json'') cfg)) (\<lambda>res. case res of
       Inl e \<Rightarrow> ret (None, Some e)
     | Inr r \<Rightarrow> bindi (attempt (cleanup_row K rid out)) (\<lambda>x. ret (Some r, case x of Inl e \<Rightarrow> Some e | Inr u \<Rightarrow> None)))"

record g3_site =
  gs_external :: bool
  gs_runner :: string
  gs_setup :: "nat \<Rightarrow> unit res"
  gs_close :: "unit res"
  gs_summary :: "nat \<Rightarrow> unit res"
  gs_inner :: "nat \<Rightarrow> string res"
  gs_report :: "nat \<Rightarrow> unit res"

record g3_report =
  g3_success :: bool
  g3_audit :: "audit_report option"
  g3_error :: "py_error option"
  g3_cleanup :: cleanup_result
  g3_runner_success :: bool
  g3_coverage :: json

definition complete_monitor :: "json \<Rightarrow> bool" where
  "complete_monitor summary \<longleftrightarrow> jint summary ''samples'' > 0 \<and> jget (jget summary ''status_counts'') ''PARTIAL'' = JInt 0 \<and>
     jget (jget summary ''status_counts'') ''INVALID'' = JInt 0 \<and> jget summary ''runner_monitor_peak_bytes'' \<noteq> JNull"

definition g3_conclude :: "(string \<Rightarrow> string) \<Rightarrow> g3_site \<Rightarrow> run_record \<Rightarrow> json \<Rightarrow> ('b rec_world_scheme, g3_report) io" where
  "g3_conclude sha S r summary =
     bindi (gets (\<lambda>w. rc_stream (bw_recorder w))) (\<lambda>raw.
     bindi (attempt (sys (\<lambda>t. audit sha raw (encoded summary) (gs_inner S t)))) (\<lambda>x.
     if (case x of Inl e \<Rightarrow> \<not> caught e | Inr a \<Rightarrow> False) then raise (projl x)
     else let report = \<lparr>g3_success = rr_overall_success r \<and> (\<exists>a. x = Inr a) \<and> complete_monitor summary \<and>
                 jget summary ''storage_complete'' = JBool True \<and> success (rr_cleanup r),
               g3_audit = (case x of Inl e \<Rightarrow> None | Inr a \<Rightarrow> Some a), g3_error = (case x of Inl e \<Rightarrow> Some e | Inr a \<Rightarrow> None),
               g3_cleanup = rr_cleanup r, g3_runner_success = rr_overall_success r, g3_coverage = jget summary ''workload_coverage''\<rparr> in
       bindi (sys (gs_report S)) (\<lambda>_. ret report)))"

definition G3_APPROVED_RUNNER :: string where "G3_APPROVED_RUNNER = RUN_CHECK_SHA"

text \<open>\<open>gs_setup\<close> stands for the directory, the copies of the sources and the manifest, written before the recorder is opened.\<close>

definition g3_run :: "nat \<Rightarrow> kernel \<Rightarrow> (string \<Rightarrow> string) \<Rightarrow> g3_site \<Rightarrow> g3_env \<Rightarrow> run_config \<Rightarrow> ('b rec_world_scheme, g3_report) io" where
  "g3_run n K sha S E cfg =
     (if \<not> gs_external S then raise (EvidenceError ''external output directory required'')
      else if sha (gs_runner S) \<noteq> G3_APPROVED_RUNNER then raise (EvidenceError ''approved Runner identity changed'')
      else
        bindi (sys (gs_setup S)) (\<lambda>_.
        bindi (modify (\<lambda>w. w\<lparr>bw_recorder := new_recorder (ge_run_id E) MAX_STREAM_BYTES MAX_SAMPLES, bw_owner := None\<rparr>)) (\<lambda>_.
        bindi (recorded_run n K sha (g3_monitor E K) cfg (ge_run_id E) (ge_write E)) (\<lambda>(result, exc).
        bindi (close_into sha (gs_close S) (map_option (\<lambda>r. rr_peak r * 1024) result)) (\<lambda>summary.
        bindi (sys (gs_summary S)) (\<lambda>_.
        case (exc, result) of
          (None, Some r) \<Rightarrow> g3_conclude sha S r summary
        | (Some e, _) \<Rightarrow> raise e
        | (None, None) \<Rightarrow> raise TypeError))))))"

end
