(* ===== verification/G4_Bootstrap.thy ===== *)
theory G4_Bootstrap
  imports Sampled_Run G4_Binding
begin

text \<open>
  The G4 bootstrap, \<^verbatim>\<open>g4_bootstrap.py\<close>: the check of its own launch (\<open>runtime\<close>), the monitor that samples under a
  verified phase, persists the sample and only then reports it over the channel (\<open>Monitor\<close>), and the run around it
  (\<open>execute\<close>). The monitor is an interpretation of \<open>recording_monitor\<close>.
\<close>

section \<open>The launch\<close>

definition same_env :: "json \<Rightarrow> json \<Rightarrow> string \<Rightarrow> bool" where
  "same_env m e k \<longleftrightarrow> py_eq (jget e k) (jget (jget m ''environment'') k)"

definition runtime :: "json \<Rightarrow> json \<Rightarrow> json \<Rightarrow> json \<Rightarrow> unit res" where
  "runtime m args e cwd =
     needp (args = jget m ''runner_argv'') ''G4 runtime argv mismatch''
     (needp (cwd = jget m ''cwd'' \<and> set (keys e) = set (keys (jget m ''environment'')) \<union> {''DZKR_MIMCCHAIN_BARRIER_SOCKET'', ''DZKR_MIMCCHAIN_BARRIER_TOKEN''} \<and>
             list_all (same_env m e) (keys (jget m ''environment''))) ''G4 runtime environment mismatch''
     (needp (truthy (jget e ''DZKR_MIMCCHAIN_BARRIER_SOCKET'') \<and> length (the_str (jget e ''DZKR_MIMCCHAIN_BARRIER_TOKEN'')) = 64) ''G4 target barrier unavailable''
     (Inr ())))"

section \<open>The monitor\<close>

record boot_world = rec_world +
  bw_link :: link
  bw_phase :: "phase option"
  bw_error :: "py_error option"

record boot_env =
  be_run_id :: string
  be_owner :: "nat \<Rightarrow> file_view"
  be_write :: "nat \<Rightarrow> unit res"
  be_fsync :: "nat \<Rightarrow> unit res"
  be_wire :: wire
  be_deadline :: int

definition on_link :: "(link, 'a) io \<Rightarrow> ('b boot_world_scheme, 'a) io" where
  "on_link m = (\<lambda>w. case m (bw_link w) of None \<Rightarrow> None | Some (r, l) \<Rightarrow> Some (r, w\<lparr>bw_link := l\<rparr>))"

definition link_bind :: "json \<Rightarrow> (link, unit) io" where
  "link_bind target = (\<lambda>l. case bind_owner target (lk_chan l) of Inl e \<Rightarrow> Some (Inl e, l) | Inr st \<Rightarrow> Some (Inr (), l\<lparr>lk_chan := st\<rparr>))"

definition sequence_now :: "('b boot_world_scheme, nat) io" where
  "sequence_now = gets (\<lambda>w. ch_sequence (lk_chan (bw_link w)))"

definition boot_owner :: "boot_env \<Rightarrow> ('b boot_world_scheme, json) io" where
  "boot_owner E = bindi (gets bw_owner) (\<lambda>ow. case ow of
      Some j \<Rightarrow> ret j
    | None \<Rightarrow>
        bindi (sys (\<lambda>t. bindr (read_regular MiB2 (be_owner E t)) decode_evidence)) (\<lambda>j.
        bindi (modify (\<lambda>w. w\<lparr>bw_owner := Some j\<rparr>)) (\<lambda>_.
        bindi (lift_res (event_identity j)) (\<lambda>i.
        bindi (on_link (link_bind i)) (\<lambda>_. ret j)))))"

definition verified_phase :: "string \<Rightarrow> string \<Rightarrow> json \<Rightarrow> phase" where
  "verified_phase name kind msg = \<lparr>ph_name = name, ph_event = Some \<lparr>ev_kind = kind, ev_ns = jint msg ''monotonic_ns'', ev_owner = json_ident (jget msg ''owner'')\<rparr>\<rparr>"

definition boot_phase :: "boot_env \<Rightarrow> ('b boot_world_scheme, phase) io" where
  "boot_phase E =
     bindi sequence_now (\<lambda>n.
     bindi (if n = 0 then
              bindi (on_link (link_receive (be_wire E) (be_deadline E) ''ready_verified'')) (\<lambda>v.
              modify (\<lambda>w. w\<lparr>bw_phase := Some (verified_phase ''readiness'' ''ready_verified'' v)\<rparr>))
            else if n = 2 then
              bindi (on_link (link_receive (be_wire E) (be_deadline E) ''release_initiated'')) (\<lambda>_.
              bindi (on_link (link_receive (be_wire E) (be_deadline E) ''release_acknowledged'')) (\<lambda>v.
              modify (\<lambda>w. w\<lparr>bw_phase := Some (verified_phase ''workload'' ''release_acknowledged'' v)\<rparr>)))
            else ret ()) (\<lambda>_.
     bindi (gets bw_phase) (\<lambda>p. case p of
       None \<Rightarrow> raise (InterfaceError ''missing verified sampling phase'')
     | Some ph \<Rightarrow> ret ph)))"

text \<open>The report of a persisted sample, sent only for a complete one and after \<open>fsync\<close>.\<close>

definition boot_report :: "boot_env \<Rightarrow> (string \<Rightarrow> string) \<Rightarrow> json \<Rightarrow> row \<Rightarrow> ('b boot_world_scheme, unit) io" where
  "boot_report E sha j r =
     bindi sequence_now (\<lambda>n.
     if n = 1 \<or> n = 4 then
       (if r_status r \<noteq> COMPLETE then raise (InterfaceError ''missing complete barrier sample'')
        else bindi (sys (be_fsync E)) (\<lambda>_.
          bindi (lift_res (event_identity j)) (\<lambda>i.
          bindi (gets bw_recorder) (\<lambda>rc.
          bindi (on_link (link_send (be_wire E) (be_deadline E) (if n = 1 then ''readiness_persisted'' else ''workload_persisted'') i None (receipt sha rc r))) (\<lambda>_. ret ())))))
     else ret ())"

definition boot_body :: "boot_env \<Rightarrow> (string \<Rightarrow> string) \<Rightarrow> kernel \<Rightarrow> int \<Rightarrow> ('b boot_world_scheme, snapshot \<times> int) io" where
  "boot_body E sha K pgid =
     bindi (boot_owner E) (\<lambda>j.
     if \<not> py_eq (jget j ''pid'') (JInt pgid) then raise (InterfaceError ''G4 monitor owner mismatch'')
     else bindi (boot_phase E) (\<lambda>ph.
       bindi (gets (\<lambda>w. rc_count (bw_recorder w))) (\<lambda>n.
       bindi (observe K (json_ident j) (be_run_id E) (int n) (Some ph) ''runner_monitor'') (\<lambda>r.
       bindi (append_to (be_write E) r) (\<lambda>_.
       if \<not> (settled r \<and> r_available r \<noteq> None) then raise (InterfaceError ''incomplete G4 monitor observation'')
       else bindi (boot_report E sha j r) (\<lambda>_. lift_res (row_sample r)))))))"

definition boot_monitor :: "boot_env \<Rightarrow> (string \<Rightarrow> string) \<Rightarrow> kernel \<Rightarrow> int \<Rightarrow> ('b boot_world_scheme, snapshot \<times> int) io" where
  "boot_monitor E sha K pgid =
     bindi (attempt (boot_body E sha K pgid)) (\<lambda>x. case x of
       Inr v \<Rightarrow> ret v
     | Inl e \<Rightarrow>
         if caught e then
           bindi (modify (\<lambda>w. w\<lparr>bw_error := Some e\<rparr>)) (\<lambda>_.
           bindi (on_link (link_fail (be_wire E) ''capture_or_coordination_failure'')) (\<lambda>_. raise e))
         else raise e)"

section \<open>The run\<close>

record boot_site =
  bs_close :: "unit res"
  bs_summary :: "nat \<Rightarrow> unit res"
  bs_inner :: "nat \<Rightarrow> string res"
  bs_outcome :: "nat \<Rightarrow> unit res"

record boot_outcome =
  bo_succeeded :: bool
  bo_complete :: bool
  bo_accepted :: bool
  bo_audit :: "audit_report option"
  bo_error :: "py_error option"

definition phase_complete :: "audit_report \<Rightarrow> string \<Rightarrow> int" where
  "phase_complete a name = jint (jget (case map_of (ar_derived a) ''phases'' of Some v \<Rightarrow> v | None \<Rightarrow> JNull) name) ''complete''"

definition interface_complete :: "audit_report option \<Rightarrow> py_error option \<Rightarrow> chan \<Rightarrow> json \<Rightarrow> bool" where
  "interface_complete a err st summary \<longleftrightarrow> (case a of None \<Rightarrow> False | Some rep \<Rightarrow>
     err = None \<and> ch_sequence st = 5 \<and> \<not> ch_failed st \<and> phase_complete rep ''readiness'' > 0 \<and> phase_complete rep ''workload'' > 0 \<and>
     \<not> ar_has_partial rep \<and> jget summary ''storage_complete'' = JBool True)"

definition boot_conclude :: "(string \<Rightarrow> string) \<Rightarrow> boot_site \<Rightarrow> run_record \<Rightarrow> json \<Rightarrow> ('b boot_world_scheme, boot_outcome) io" where
  "boot_conclude sha S r summary =
     bindi (gets (\<lambda>w. rc_stream (bw_recorder w))) (\<lambda>raw.
     bindi (attempt (sys (\<lambda>t. audit sha raw (encoded summary) (bs_inner S t)))) (\<lambda>x.
     if (case x of Inl e \<Rightarrow> \<not> caught e | Inr a \<Rightarrow> False) then raise (projl x)
     else
       bindi (gets (\<lambda>w. (bw_error w, lk_chan (bw_link w)))) (\<lambda>(err, st).
       let a = (case x of Inl e \<Rightarrow> None | Inr rep \<Rightarrow> Some rep);
           complete = interface_complete a err st summary;
           outcome = \<lparr>bo_succeeded = rr_overall_success r, bo_complete = complete, bo_accepted = (complete \<and> rr_overall_success r), bo_audit = a,
             bo_error = (case x of Inl e \<Rightarrow> Some e | Inr rep \<Rightarrow> err)\<rparr> in
       bindi (sys (bs_outcome S)) (\<lambda>_. ret outcome))))"

definition boot_execute :: "nat \<Rightarrow> kernel \<Rightarrow> (string \<Rightarrow> string) \<Rightarrow> boot_site \<Rightarrow> boot_env \<Rightarrow> run_config \<Rightarrow> ('b boot_world_scheme, boot_outcome) io" where
  "boot_execute n K sha S E cfg =
     bindi (modify (\<lambda>w. w\<lparr>bw_recorder := new_recorder (be_run_id E) MAX_STREAM_BYTES MAX_SAMPLES, bw_owner := None, bw_phase := None, bw_error := None\<rparr>)) (\<lambda>_.
     bindi (recorded_run n K sha (boot_monitor E sha K) cfg (be_run_id E) (be_write E)) (\<lambda>(result, exc).
     bindi (close_into sha (bs_close S) (map_option (\<lambda>r. rr_peak r * 1024) result)) (\<lambda>summary.
     bindi (sys (bs_summary S)) (\<lambda>_.
     case (exc, result) of
       (None, Some r) \<Rightarrow> boot_conclude sha S r summary
     | (Some e, _) \<Rightarrow> raise e
     | (None, None) \<Rightarrow> raise TypeError))))"

definition boot_status :: "boot_outcome \<Rightarrow> int" where
  "boot_status out = (if bo_accepted out then 0 else if bo_complete out then 1 else 2)"

section \<open>The monitor returns what it recorded\<close>

definition phased :: "phase \<Rightarrow> bool" where
  "phased p \<longleftrightarrow> ph_name p = ''readiness'' \<or> ph_name p = ''workload''"

definition boot_ready :: "'b boot_world_scheme \<Rightarrow> bool" where
  "boot_ready w \<longleftrightarrow> (\<forall>p. bw_phase w = Some p \<longrightarrow> phased p)"

definition boot_fit :: "row \<Rightarrow> bool" where
  "boot_fit r \<longleftrightarrow> monitored r \<and> phased (r_phase r)"

text \<open>The part of the world that the channel leaves alone.\<close>

definition boot_core :: "'b boot_world_scheme \<Rightarrow> recorder \<times> phase option" where
  "boot_core w = (bw_recorder w, bw_phase w)"

lemma boot_core_tick [simp]: "boot_core (w\<lparr>tick := n\<rparr>) = boot_core w"
  by (simp add: boot_core_def)

lemma keeps_on_link [keeps_intros]: "keeps boot_core (on_link m)"
  by (auto simp: keeps_def on_link_def boot_core_def split: option.splits)

lemma keeps_boot_owner: "keeps boot_core (boot_owner E)"
  unfolding boot_owner_def by (auto split: option.split intro!: keeps_intros keeps_modify keeps_sys simp: boot_core_def)

lemma keeps_boot_report: "keeps boot_core (boot_report E sha j r)"
  unfolding boot_report_def sequence_now_def by (auto intro!: keeps_intros keeps_sys)

lemma boot_phase_returns:
  assumes "boot_phase E w = Some (Inr ph, w')" "boot_ready w"
  shows "boot_ready w' \<and> phased ph \<and> bw_recorder w' = bw_recorder w"
proof -
  have l: "bw_phase v' = bw_phase v \<and> bw_recorder v' = bw_recorder v" if "on_link m v = Some (r, v')" for m :: "(link, 'c) io" and v r v'
    using keepsD [OF keeps_on_link that] by (simp add: boot_core_def)
  show ?thesis
    using assms unfolding boot_phase_def sequence_now_def
    by (auto simp: bindi_Some_iff io_simps boot_ready_def phased_def verified_phase_def dest!: l split: if_splits option.splits)
qed

lemma boot_records:
  assumes run: "boot_monitor E sha K pid w = Some (Inr x, w')" and ready: "boot_ready w" and rows: "holds_rows rows (bw_recorder w)"
  shows "boot_ready w' \<and> (\<exists>r. holds_rows (rows @ [r]) (bw_recorder w') \<and> row_sample r = Inr x \<and> boot_fit r)"
proof -
  have body: "boot_body E sha K pid w = Some (Inr x, w')"
  proof -
    obtain y v where y: "boot_body E sha K pid w = Some (y, v)"
      using run unfolding boot_monitor_def by (cases "boot_body E sha K pid w") (auto simp: bindi_def attempt_def)
    show ?thesis using run unfolding boot_monitor_def by (cases y) (auto simp: y bindi_def attempt_def io_simps split: if_splits option.splits sum.splits)
  qed
  then obtain j w1 ph w2 n r w3 w4 where s: "boot_owner E w = Some (Inr j, w1)" "boot_phase E w1 = Some (Inr ph, w2)"
      "observe K (json_ident j) (be_run_id E) (int n) (Some ph) ''runner_monitor'' w2 = Some (Inr r, w3)"
      "append_to (be_write E) r w3 = Some (Inr (), w4)" "settled r" "r_available r \<noteq> None" "boot_report E sha j r w4 = Some (Inr (), w')" "row_sample r = Inr x"
    unfolding boot_body_def by (auto simp: bindi_Some_iff io_simps split: if_splits)
  have c1: "boot_core w1 = boot_core w" using keepsD [OF keeps_boot_owner s(1)] .
  then have r1: "boot_ready w1" using ready by (simp add: boot_core_def boot_ready_def)
  have p: "boot_ready w2" "phased ph" "bw_recorder w2 = bw_recorder w1"
    using boot_phase_returns [OF s(2) r1] by blast+
  have c3: "boot_core w3 = boot_core w2" using keepsD [OF keeps_observe s(3), of boot_core] by simp
  have c4: "bw_phase w4 = bw_phase w3" using s(4) by (auto simp: append_to_def split: prod.splits)
  have c5: "boot_core w' = boot_core w4" using keepsD [OF keeps_boot_report s(7)] .
  have "holds_rows (rows @ [r]) (bw_recorder w4)" using append_to_returns [OF s(4)] rows c1 p(3) c3 by (simp add: boot_core_def)
  moreover have "boot_fit r" using returnsD [OF observe_labels s(3)] returnsD [OF observe_sized s(3)] s(5,6) p(2) by (simp add: labelled_def boot_fit_def monitored_def)
  ultimately show ?thesis using s(8) p(1) c3 c4 c5 by (auto simp: boot_core_def boot_ready_def)
qed

interpretation boot: recording_monitor "boot_monitor E sha K" boot_ready boot_fit for E sha K
  by unfold_locales (auto dest: boot_records simp: boot_ready_def)

end
