(* ===== verification/G4_Decision.thy ===== *)
theory G4_Decision
  imports G4_Bootstrap G4_Crypto
begin

text \<open>
  The resource decision of \<^verbatim>\<open>g4_verify.py\<close>: the verifier recomputes, from the recorded monitor rows, the
  numbers and the stop decision that the runner published, and compares. The main result says that it accepts
  what a run under the bootstrap's monitor recorded and published.
\<close>

section \<open>Recomputing\<close>

text \<open>\<open>x // 1024\<close>, \<open>x > v\<close> and \<open>x < v\<close> for a value \<open>v\<close> out of a file.\<close>

definition floor_kib :: "json \<Rightarrow> int res" where
  "floor_kib v = (case num_of v of None \<Rightarrow> Inl TypeError
     | Some (m, e) \<Rightarrow> Inr ((if e \<ge> 0 then m * 10 ^ nat e else m div 10 ^ nat (- e)) div 1024))"

definition above :: "int \<Rightarrow> json \<Rightarrow> bool res" where
  "above x v = (case num_of v of None \<Rightarrow> Inl TypeError | Some y \<Rightarrow> Inr (\<not> dec_le (x, 0) y))"

definition below :: "int \<Rightarrow> json \<Rightarrow> bool res" where
  "below x v = (case num_of v of None \<Rightarrow> Inl TypeError | Some y \<Rightarrow> Inr (\<not> dec_le y (x, 0)))"

record decision =
  dc_peak :: int
  dc_min :: "int option"
  dc_trigger :: "(nat \<times> string) option"

definition no_decision :: decision where
  "no_decision = \<lparr>dc_peak = 0, dc_min = None, dc_trigger = None\<rparr>"

definition row_reason :: "json \<Rightarrow> int \<Rightarrow> int \<Rightarrow> string option res" where
  "row_reason limits rss available =
     bindr (item limits ''rss_stop_kib'') (\<lambda>a. bindr (above rss a) (\<lambda>over.
       if over then Inr (Some ''group RSS'')
       else bindr (item limits ''available_stop_kib'') (\<lambda>b. bindr (below available b) (\<lambda>low.
         Inr (if low then Some ''system MemAvailable'' else None)))))"

definition decide_row :: "json \<Rightarrow> nat \<times> json \<Rightarrow> decision \<Rightarrow> decision res" where
  "decide_row limits nr d = (case nr of (n, row) \<Rightarrow>
     bindr (item row ''phase'') (\<lambda>ph. bindr (item ph ''name'') (\<lambda>name.
     needp (name = JStr ''readiness'' \<or> name = JStr ''workload'') ''resource policy: ineligible monitor sample''
     (bindr (item row ''sample_status'') (\<lambda>st.
      needp (st = JStr ''COMPLETE'' \<or> st = JStr ''ZOMBIE_ONLY'' \<or> st = JStr ''NO_LIVE_MEMBERS'') ''resource policy: ineligible monitor sample''
      (needp (is_int (jget row ''mem_available_bytes'')) ''resource policy: missing MemAvailable''
      (bindr (if st = JStr ''COMPLETE'' then bindr (item row ''group_rss_bytes'') floor_kib else Inr 0) (\<lambda>rss.
       let available = jint row ''mem_available_bytes'' div 1024 in
       bindr (row_reason limits rss available) (\<lambda>reason.
       Inr \<lparr>dc_peak = max (dc_peak d) rss, dc_min = Some (case dc_min d of None \<Rightarrow> available | Some m \<Rightarrow> min m available),
         dc_trigger = (case (reason, dc_trigger d) of (Some why, None) \<Rightarrow> Some (n, why) | _ \<Rightarrow> dc_trigger d)\<rparr>)))))))))"

section \<open>Comparing\<close>

definition check_published :: "json \<Rightarrow> json \<Rightarrow> decision \<Rightarrow> bool res" where
  "check_published limits core d =
     as_dict core
     (needp (jget core ''sampled_group_peak_rss_kib'' = JInt (dc_peak d)) ''resource policy: published peak disagreement''
     (needp (case dc_min d of None \<Rightarrow> False | Some m \<Rightarrow> jget core ''minimum_memavailable_kib'' = JInt m) ''resource policy: same-sample MemAvailable''
     (bindr (item limits ''stop_escalation_kib'') (\<lambda>v.
      bindr (above (dc_peak d) v) (\<lambda>escalation.
      needp (jget core ''stop_escalation'' = JBool escalation) ''resource policy: stop_escalation disagreement'' (Inr escalation))))))"

text \<open>\<open>reason in {'phase watchdog: ' + name for name in limits['phase_seconds']}\<close>; a list or a dictionary has no hash.\<close>

definition watchdog_reason :: "json \<Rightarrow> json \<Rightarrow> bool res" where
  "watchdog_reason limits reason =
     bindr (item limits ''phase_seconds'') (\<lambda>p.
     if \<not> is_dict p \<or> is_list reason \<or> is_dict reason then Inl TypeError
     else Inr (reason \<in> set (map (\<lambda>k. JStr (''phase watchdog: '' @ k)) (keys p))))"

definition check_trigger :: "json \<Rightarrow> nat \<Rightarrow> json \<Rightarrow> (nat \<times> string) option \<Rightarrow> unit res" where
  "check_trigger limits len prim trigger =
     bindr (item prim ''outcome'') (\<lambda>outcome.
     bindr (case trigger of None \<Rightarrow> Inr () | Some (n, why) \<Rightarrow>
         needp (outcome \<noteq> JStr ''command_success'') ''resource policy: trigger contradicts command_success''
         (needp (Suc n = len) ''resource policy: monitor continued after stop trigger''
         (bindr (if outcome = JStr ''runner_error'' then Inr True
                 else if outcome = JStr ''timeout'' then watchdog_reason limits (jget prim ''reason'') else Inr False) (\<lambda>preempted.
          needp (outcome = JStr ''resource_stop'' \<or> preempted) ''resource policy: trigger/outcome disagreement'' (Inr ()))))) (\<lambda>_.
     if outcome = JStr ''resource_stop'' then
       (case trigger of None \<Rightarrow> Inl (PolicyError ''resource policy: stop without common trigger'')
        | Some (n, why) \<Rightarrow> needp (jget prim ''reason'' = JStr why) ''resource policy: stop reason disagreement'' (Inr ()))
     else Inr ()))"

definition resource_decision :: "json list \<Rightarrow> json \<Rightarrow> json \<Rightarrow> json res" where
  "resource_decision monitor core limits =
     needp (monitor \<noteq> []) ''resource policy: missing common monitor samples''
     (bindr (fold_res (decide_row limits) (enumerate 0 monitor) no_decision) (\<lambda>d.
      bindr (check_published limits core d) (\<lambda>escalation.
      bindr (item core ''primary'') (\<lambda>prim.
      bindr (check_trigger limits (length monitor) prim (dc_trigger d)) (\<lambda>_.
      bindr (case dc_trigger d of None \<Rightarrow> Inr JNull | Some (n, why) \<Rightarrow> item (monitor ! n) ''sequence'') (\<lambda>first.
      Inr (JObj [(''monitor_samples'', JInt (int (length monitor))), (''sampled_peak_kib'', JInt (dc_peak d)),
        (''minimum_memavailable_kib'', opt_json JInt (dc_min d)), (''observed_stop_required'', JBool (dc_trigger d \<noteq> None)),
        (''first_trigger_sequence'', first), (''stop_reason'', opt_json (JStr \<circ> snd) (dc_trigger d)), (''stop_escalation'', JBool escalation)])))))))"

section \<open>The report of a run as the verifier reads it\<close>

definition primary_json :: "primary \<Rightarrow> json" where
  "primary_json p = (case p of
     NotStarted \<Rightarrow> JObj [(''outcome'', JStr ''not_started'')]
   | Interrupted n \<Rightarrow> JObj [(''outcome'', JStr ''interrupted''), (''signal'', JInt n)]
   | CommandSuccess c st \<Rightarrow> JObj [(''outcome'', JStr ''command_success''), (''waitid_code'', JInt c), (''waitid_status'', JInt st)]
   | CommandFailed c st \<Rightarrow> JObj [(''outcome'', JStr ''command_failed''), (''waitid_code'', JInt c), (''waitid_status'', JInt st)]
   | TimedOut why \<Rightarrow> JObj [(''outcome'', JStr ''timeout''), (''reason'', JStr why)]
   | ResourceStop why \<Rightarrow> JObj [(''outcome'', JStr ''resource_stop''), (''reason'', JStr why)]
   | RunnerError t msg \<Rightarrow> JObj [(''outcome'', JStr ''runner_error''), (''error_type'', JStr t), (''message'', JStr msg)])"

text \<open>The fields of \<^verbatim>\<open>result.json\<close> that the decision reads, and the flags beside them.\<close>

definition core_json :: "run_record \<Rightarrow> json" where
  "core_json r = JObj [(''argv'', JArr (map JStr (rr_argv r))), (''primary'', primary_json (rr_primary r)), (''runner_signals'', JArr (map JInt (rr_signals r))),
     (''stage_observations'', JArr (rr_stages r)), (''sampled_group_peak_rss_kib'', JInt (rr_peak r)),
     (''minimum_memavailable_kib'', opt_json JInt (rr_min_available r)), (''stop_escalation'', JBool (rr_stop_escalation r)),
     (''evidence_complete'', JBool (rr_evidence_complete r)), (''overall_success'', JBool (rr_overall_success r))]"

section \<open>The verifier accepts what the runner recorded\<close>

text \<open>The limits of a valid policy are the runner's own constants.\<close>

definition runner_limits :: "json \<Rightarrow> bool" where
  "runner_limits limits \<longleftrightarrow> item limits ''rss_stop_kib'' = Inr (JInt RSS_STOP_KIB) \<and> item limits ''available_stop_kib'' = Inr (JInt AVAILABLE_STOP_KIB) \<and>
     item limits ''stop_escalation_kib'' = Inr (JInt ESCALATION_STOP_KIB) \<and>
     (\<exists>p. item limits ''phase_seconds'' = Inr p \<and> keys_are p (map fst PHASE_BUDGETS))"

lemma item_present: "jget v k \<noteq> JNull \<Longrightarrow> item v k = Inr (jget v k)"
  by (cases v) (auto simp: item_def jget_def split: option.splits)

lemma parsed_limits:
  assumes "parse_policy raw = Inr limits"
  shows "runner_limits limits"
proof -
  have f: "sort_keys (jget limits k) = sort_keys v" if "(k, v) \<in> set FIXED" for k v
    using parse_policyD [OF assms] that unfolding policy_sane_def by blast
  let ?p = "JObj [(''compile'', JInt 30), (''setup'', JInt 90), (''setup_wrong_vk'', JInt 90), (''prove'', JInt 60)]"
  have "jget limits ''rss_stop_kib'' = JInt 2097152" "jget limits ''available_stop_kib'' = JInt 2097152" "jget limits ''stop_escalation_kib'' = JInt 1048576"
    using f [of "''rss_stop_kib''" "JInt 2097152"] f [of "''available_stop_kib''" "JInt 2097152"] f [of "''stop_escalation_kib''" "JInt 1048576"]
    by (simp_all add: FIXED_def sort_keys_leaf)
  moreover have "keys_are (sort_keys (jget limits ''phase_seconds'')) (map fst PHASE_BUDGETS)"
    using f [of "''phase_seconds''" ?p] by (auto simp: FIXED_def keys_are_def keys_def PHASE_BUDGETS_def)
  then have p: "keys_are (jget limits ''phase_seconds'') (map fst PHASE_BUDGETS)" by (simp add: keys_are_sorted)
  then have "jget limits ''phase_seconds'' \<noteq> JNull" by (auto simp: keys_are_def)
  ultimately show ?thesis using p
    by (auto simp: runner_limits_def item_present RSS_STOP_KIB_def AVAILABLE_STOP_KIB_def ESCALATION_STOP_KIB_def)
qed

lemma compare_int: "above x (JInt y) = Inr (x > y)" "below x (JInt y) = Inr (x < y)" "floor_kib (JInt y) = Inr (y div 1024)"
  by (auto simp: above_def below_def floor_kib_def dec_le_def dec_scale_def)

lemma row_fields:
  "item (row_json r) ''phase'' = Inr (phase_json (r_phase r))" "item (phase_json p) ''name'' = Inr (JStr (ph_name p))"
  "item (row_json r) ''sample_status'' = Inr (JStr (status_name (r_status r)))" "jget (row_json r) ''mem_available_bytes'' = opt_json JInt (r_available r)"
  "item (row_json r) ''group_rss_bytes'' = Inr (opt_json JInt (r_rss r))" "item (row_json r) ''sequence'' = Inr (JInt (r_sequence r))"
  by (simp_all add: row_json_def phase_json_def item_def jget_def)

lemma row_reason_limits:
  assumes "runner_limits limits"
  shows "row_reason limits (row_kib r) (avail_kib r) = Inr (if tripped r then Some (trip_reason r) else None)"
  using assms by (auto simp: runner_limits_def row_reason_def compare_int tripped_def trip_reason_def)

lemma decide_row_recorded:
  assumes "runner_limits limits" "boot_fit r"
  shows "decide_row limits (n, row_json r) d = Inr \<lparr>dc_peak = max (dc_peak d) (row_kib r),
    dc_min = Some (case dc_min d of None \<Rightarrow> avail_kib r | Some m \<Rightarrow> min m (avail_kib r)),
    dc_trigger = (if tripped r \<and> dc_trigger d = None then Some (n, trip_reason r) else dc_trigger d)\<rparr>"
proof -
  from assms(2) obtain a where a: "r_available r = Some a" "settled r" "ph_name (r_phase r) = ''readiness'' \<or> ph_name (r_phase r) = ''workload''"
      "r_status r = COMPLETE \<longrightarrow> r_rss r \<noteq> None"
    by (auto simp: boot_fit_def monitored_def phased_def)
  have rss: "(if status_name (r_status r) = ''COMPLETE'' then bindr (item (row_json r) ''group_rss_bytes'') floor_kib else Inr 0) = Inr (row_kib r)"
    using a(2,4) by (auto simp: settled_def row_fields row_kib_def opt_json_def compare_int or_zero_def)
  have st: "status_name (r_status r) \<in> {''COMPLETE'', ''ZOMBIE_ONLY'', ''NO_LIVE_MEMBERS''}" using a(2) by (auto simp: settled_def)
  have av: "is_int (opt_json JInt (r_available r))" "jint (row_json r) ''mem_available_bytes'' div 1024 = avail_kib r"
    using a(1) by (simp_all add: opt_json_def jint_def row_fields avail_kib_def or_zero_def)
  show ?thesis
    unfolding decide_row_def using a(3) st av rss
    by (auto simp: row_fields Let_def row_reason_limits [OF assms(1)] split: option.splits)
qed

lemma decide_rows_quiet:
  assumes "runner_limits limits" "\<forall>r \<in> set rows. boot_fit r \<and> \<not> tripped r"
  shows "fold_res (decide_row limits) (enumerate 0 (map row_json rows)) no_decision =
    Inr \<lparr>dc_peak = peak_of rows, dc_min = min_of (map avail_kib rows), dc_trigger = None\<rparr>"
  using assms(2)
proof (induction rows rule: rev_induct)
  case (snoc r rows)
  then show ?case
    by (simp add: enumerate_append_eq fold_res_append decide_row_recorded [OF assms(1)] peak_of_def min_of_snoc min.commute split: option.split)
qed (simp add: no_decision_def peak_of_def)

lemma decide_rows_recorded:
  assumes "runner_limits limits" "\<forall>r \<in> set rows. boot_fit r" "\<forall>r \<in> set (butlast rows). \<not> tripped r" "rows \<noteq> []"
  shows "fold_res (decide_row limits) (enumerate 0 (map row_json rows)) no_decision =
    Inr \<lparr>dc_peak = peak_of rows, dc_min = min_of (map avail_kib rows),
      dc_trigger = (if tripped (last rows) then Some (length rows - 1, trip_reason (last rows)) else None)\<rparr>"
proof -
  obtain front r where rows: "rows = front @ [r]" using assms(4) by (cases rows rule: rev_cases) auto
  have "\<forall>r \<in> set front. boot_fit r \<and> \<not> tripped r" "boot_fit r" using assms(2,3) rows by auto
  then show ?thesis
    using decide_rows_quiet [OF assms(1), of front]
    by (simp add: rows enumerate_append_eq fold_res_append decide_row_recorded [OF assms(1)] peak_of_def min_of_snoc min.commute split: option.split)
qed

lemma core_fields:
  "is_dict (core_json r)" "item (core_json r) ''primary'' = Inr (primary_json (rr_primary r))"
  "jget (core_json r) ''sampled_group_peak_rss_kib'' = JInt (rr_peak r)" "jget (core_json r) ''minimum_memavailable_kib'' = opt_json JInt (rr_min_available r)"
  "jget (core_json r) ''stop_escalation'' = JBool (rr_stop_escalation r)"
  by (simp_all add: core_json_def item_def jget_def)

lemma check_published_recorded:
  assumes "runner_limits limits" "reports s r" "numbers_of rows s" "rows \<noteq> []" "dc_peak d = peak_of rows" "dc_min d = min_of (map avail_kib rows)"
  shows "check_published limits (core_json r) d = Inr (rr_stop_escalation r)"
proof -
  obtain m where "min_of (map avail_kib rows) = Some m" using assms(4) min_of_snoc by (cases rows rule: rev_cases) auto
  with assms show ?thesis
    by (simp add: check_published_def core_fields reports_def numbers_of_def runner_limits_def compare_int opt_json_def)
qed

definition trigger_of :: "row list \<Rightarrow> (nat \<times> string) option" where
  "trigger_of rows = (if rows \<noteq> [] \<and> tripped (last rows) then Some (length rows - 1, trip_reason (last rows)) else None)"

lemma check_trigger_recorded:
  assumes "runner_limits limits" "reports s r" "accounts rows s" "rows \<noteq> []"
  shows "check_trigger limits (length rows) (primary_json (rr_primary r)) (trigger_of rows) = Inr ()"
proof -
  obtain sigs where p: "rr_primary r = late_interrupt sigs (primary s)" using assms(2) by (auto simp: reports_def)
  obtain ph where ph: "item limits ''phase_seconds'' = Inr ph" "keys_are ph (map fst PHASE_BUDGETS)" using assms(1) by (auto simp: runner_limits_def)
  show ?thesis
  proof (cases "tripped (last rows)")
    case True
    then consider "primary s = ResourceStop (trip_reason (last rows))"
      | k where "k \<in> set (map fst PHASE_BUDGETS)" "primary s = TimedOut (''phase watchdog: '' @ k)"
      using assms(3,4) unfolding accounts_def by blast
    then show ?thesis
    proof cases
      case 1
      then have "rr_primary r = ResourceStop (trip_reason (last rows))" by (simp add: p late_interrupt_def is_success_def)
      with True assms(4) show ?thesis by (simp add: check_trigger_def trigger_of_def primary_json_def item_def jget_def)
    next
      case (2 k)
      then have "rr_primary r = TimedOut (''phase watchdog: '' @ k)" by (simp add: p late_interrupt_def is_success_def)
      moreover have "watchdog_reason limits (JStr (''phase watchdog: '' @ k)) = Inr True"
        using 2(1) ph by (auto simp: watchdog_reason_def keys_are_def)
      ultimately show ?thesis using True assms(4) by (simp add: check_trigger_def trigger_of_def primary_json_def item_def jget_def)
    qed
  next
    case False
    then have "\<forall>why. primary s \<noteq> ResourceStop why" using assms(3) by (auto simp: accounts_def)
    then have "\<forall>why. rr_primary r \<noteq> ResourceStop why" by (simp add: p late_interrupt_def)
    with False show ?thesis by (cases "rr_primary r") (simp_all add: check_trigger_def trigger_of_def primary_json_def item_def)
  qed
qed

lemma decision_recorded:
  assumes "runner_limits limits" "reports s r" "accounts rows s" "rows \<noteq> []" "\<forall>r \<in> set rows. boot_fit r"
  shows "\<exists>d. resource_decision (map row_json rows) (core_json r) limits = Inr d \<and>
    jget d ''observed_stop_required'' = JBool (tripped (last rows)) \<and> jget d ''sampled_peak_kib'' = JInt (peak_of rows)"
proof -
  let ?d = "\<lparr>dc_peak = peak_of rows, dc_min = min_of (map avail_kib rows), dc_trigger = trigger_of rows\<rparr>"
  have f: "fold_res (decide_row limits) (enumerate 0 (map row_json rows)) no_decision = Inr ?d"
    using decide_rows_recorded [OF assms(1,5)] assms(3,4) by (simp add: accounts_def trigger_of_def)
  have p: "check_published limits (core_json r) ?d = Inr (rr_stop_escalation r)"
    by (rule check_published_recorded [OF assms(1,2) _ assms(4)]) (use assms(3) in \<open>simp_all add: accounts_def\<close>)
  have s: "\<exists>v. (case trigger_of rows of None \<Rightarrow> Inr JNull | Some (n, why) \<Rightarrow> item (map row_json rows ! n) ''sequence'') = Inr v"
    using assms(4) by (auto simp: trigger_of_def row_fields)
  have t: "trigger_of rows \<noteq> None \<longleftrightarrow> tripped (last rows)" using assms(4) by (simp add: trigger_of_def)
  show ?thesis
    using s assms(4) unfolding resource_decision_def
    by (auto simp: f p t core_fields check_trigger_recorded [OF assms(1-4)] jget_def simp del: not_None_eq)
qed

section \<open>The whole run\<close>

lemma cleanup_row_appends:
  assumes "cleanup_row K rid out w = Some (Inr u, w')" "holds_rows rows (bw_recorder w)"
  shows "\<exists>extra. holds_rows (rows @ extra) (bw_recorder w') \<and> list_all (\<lambda>x. r_site x = ''cleanup_check'') extra"
proof -
  from assms(1) consider (none) "w' = w"
    | (row) j t n r w1 w2 where "clock K w = Some (Inr t, w1)" "append_to out r w2 = Some (Inr (), w')"
        "observe K (json_ident j) rid (int n) (Some (cleanup_phase t j)) ''cleanup_check'' w1 = Some (Inr r, w2)"
    unfolding cleanup_row_def by (auto simp: bindi_Some_iff io_simps split: option.splits prod.splits)
  then show ?thesis
  proof cases
    case none
    with assms(2) show ?thesis by (intro exI [of _ "[]"]) simp
  next
    case row
    have "bw_recorder w2 = bw_recorder w"
      using keepsD [OF keeps_clock(1) row(1), of bw_recorder] keepsD [OF keeps_observe row(3), of bw_recorder] by simp
    then have "holds_rows (rows @ [r]) (bw_recorder w')" using append_to_returns [OF row(2)] assms(2) by simp
    moreover have "r_site r = ''cleanup_check''" using returnsD [OF observe_labels row(3)] by (simp add: labelled_def)
    ultimately show ?thesis by (intro exI [of _ "[r]"]) simp
  qed
qed

lemma recorded_run_accounts:
  assumes start: "boot_ready w" "holds_rows [] (bw_recorder w)"
    and run: "recorded_run n K sha (boot_monitor E sha K) cfg rid out w = Some (Inr (Some r, None), w')"
    and ok: "\<forall>a b. rr_primary r \<noteq> RunnerError a b"
  shows "\<exists>rows s extra. accounts rows s \<and> reports s r \<and> (\<forall>x \<in> set rows. boot_fit x) \<and>
    holds_rows (rows @ extra) (bw_recorder w') \<and> list_all (\<lambda>x. r_site x = ''cleanup_check'') extra"
proof -
  from run obtain w1 x where run1: "run_command n K sha (boot_monitor E sha K) (\<lambda>r. write_file K ''result.json'') cfg w = Some (Inr r, w1)"
      and x: "cleanup_row K rid out w1 = Some (x, w')" "(case x of Inl e \<Rightarrow> Some e | Inr u \<Rightarrow> None) = None"
    unfolding recorded_run_def try_Some_iff by (auto simp: bindi_Some_iff attempt_Some_iff io_simps)
  from x(2) obtain u where "x = Inr u" by (cases x) auto
  with x(1) have row: "cleanup_row K rid out w1 = Some (Inr u, w')" by simp
  have "keeps (boot.recorded rows) (write_file K ''result.json'')" for rows by (rule keeps_write_file) simp_all
  moreover have "boot.recorded [] w" using start by (simp add: boot.recorded_def)
  ultimately obtain rows s where "boot.recorded rows w1" "accounts rows s" "reports s r"
    using boot.run_command_accounts [OF _ run1 _ ok] by blast
  with cleanup_row_appends [OF row, of rows] show ?thesis by (auto simp: boot.recorded_def)
qed

section \<open>The property\<close>

lemma decided_rows:
  assumes "runner_limits limits" "accounts rows s" "reports s r" "\<forall>x \<in> set rows. boot_fit x" "list_all (\<lambda>x. r_site x = ''cleanup_check'') extra"
    and "mon = filter (\<lambda>x. r_site x = ''runner_monitor'') (rows @ extra)"
  shows "mon = [] \<or> (\<exists>d. resource_decision (map row_json mon) (core_json r) limits = Inr d \<and>
    jget d ''observed_stop_required'' = JBool (tripped (last mon)) \<and> jget d ''sampled_peak_kib'' = JInt (rr_peak r))"
proof -
  have "filter (\<lambda>x. r_site x = ''runner_monitor'') rows = rows" using assms(4) by (auto simp: boot_fit_def monitored_def intro: filter_True)
  moreover have "filter (\<lambda>x. r_site x = ''runner_monitor'') extra = []" using assms(5) by (auto simp: list_all_iff filter_empty_conv)
  ultimately have m: "mon = rows" using assms(6) by simp
  have "rr_peak r = peak_of rows" using assms(2,3) by (simp add: accounts_def numbers_of_def reports_def)
  then show ?thesis using decision_recorded [OF assms(1,3,2) _ assms(4)] by (auto simp: m)
qed

text \<open>
  C36: the verifier's resource decision agrees with the runner: for a valid policy and a run under the bootstrap's
  monitor that did not fail in the runner itself, the rows on disk are the monitor's rows and the cleanup sample,
  and the decision, recomputed from the monitor's rows and compared with the published report, accepts (unless there
  was no monitor sample at all): peak, minimum, escalation, and the stop exactly when the last row trips a limit.
\<close>

theorem resource_decision_agrees:
  assumes "parse_policy raw = Inr limits" and "boot_ready w" "holds_rows [] (bw_recorder w)"
    and "recorded_run n K sha (boot_monitor E sha K) cfg rid out w = Some (Inr (Some r, None), w')"
    and "\<forall>a b. rr_primary r \<noteq> RunnerError a b"
  shows "\<exists>rows mon. holds_rows rows (bw_recorder w') \<and> mon = filter (\<lambda>x. r_site x = ''runner_monitor'') rows \<and>
    (mon = [] \<or> (\<exists>d. resource_decision (map row_json mon) (core_json r) limits = Inr d \<and>
       jget d ''observed_stop_required'' = JBool (tripped (last mon)) \<and> jget d ''sampled_peak_kib'' = JInt (rr_peak r)))"
proof -
  obtain rows s extra where a: "accounts rows s" "reports s r" "\<forall>x \<in> set rows. boot_fit x"
      "holds_rows (rows @ extra) (bw_recorder w')" "list_all (\<lambda>x. r_site x = ''cleanup_check'') extra"
    using recorded_run_accounts [OF assms(2-5)] by blast
  show ?thesis
    by (rule exI [of _ "rows @ extra"], rule exI, intro conjI, rule a(4), rule refl, rule decided_rows [OF parsed_limits [OF assms(1)] a(1,2,3,5) refl])
qed

section \<open>An example run\<close>

text \<open>The session leader of the example host is a zombie from its eighth call on; the monitor sees it once, then the child has exited.\<close>

definition ex_zombie :: "string \<Rightarrow> int \<Rightarrow> phase \<Rightarrow> string \<Rightarrow> int \<Rightarrow> row" where
  "ex_zombie rid n ph site t = \<lparr>r_run_id = rid, r_sequence = n, r_start = t, r_end = t + 9, r_phase = ph, r_site = site,
     r_owner = example_ident ''S'', r_anchor_before = Some (example_ident ''Z''), r_anchor_after = Some (example_ident ''Z''),
     r_scan_before = [example_ident ''Z''], r_scan_after = [example_ident ''Z''], r_scan_errors = [],
     r_members = [\<lparr>m_before = example_ident ''Z'', m_after = Some (example_ident ''Z''), m_rss = None, m_status = ZOMBIE\<rparr>],
     r_status = ZOMBIE_ONLY, r_rss = None, r_available = Some 4096000000, r_errors = []\<rparr>"

lemma ex_zombie_observed:
  "8 \<le> tick w \<Longrightarrow> observe example_host (example_ident ''S'') rid n (Some ph) site w =
     Some (Inr (ex_zombie rid n ph site (int (tick w))), w\<lparr>tick := tick w + 10\<rparr>)"
  by (simp add: ex_zombie_def observe_def observe_body_def observe_close_def scan_def observe_member_def run_steps example_reader example_kernel
      new_row_def example_ident_def dead_state_def judge_def gr_same_def key_values_def undiscovered_def
      classify_def row_invalid_def row_partial_def anchors_def signature_def MAX_MEMBERS_def Let_def)

definition ex_phase :: phase where
  "ex_phase = \<lparr>ph_name = ''workload'', ph_event = Some \<lparr>ev_kind = ''release_acknowledged'', ev_ns = 3, ev_owner = example_ident ''S''\<rparr>\<rparr>"

definition ex_boot_env :: boot_env where
  "ex_boot_env = \<lparr>be_run_id = ''r'', be_owner = (\<lambda>t. quiet_view []), be_write = (\<lambda>t. Inr ()), be_fsync = (\<lambda>t. Inr ()), be_wire = example_wire, be_deadline = 0\<rparr>"

text \<open>The channel has seen its five events, so the monitor neither waits nor reports.\<close>

definition ex_boot :: boot_world where
  "ex_boot = \<lparr>tick = 0, log = [], bw_recorder = new_recorder ''r'' MAX_STREAM_BYTES MAX_SAMPLES, bw_owner = Some (ident_json (example_ident ''S'')),
     bw_link = (new_link ''r'')\<lparr>lk_chan := (new_chan ''r'')\<lparr>ch_sequence := 5\<rparr>\<rparr>, bw_phase = Some ex_phase, bw_error = None\<rparr>"

definition ex_sampled :: "boot_world \<Rightarrow> bool" where
  "ex_sampled w \<longleftrightarrow> bw_owner w = Some (ident_json (example_ident ''S'')) \<and> bw_phase w = Some ex_phase \<and> ch_sequence (lk_chan (bw_link w)) = 5"

lemma ex_owner: "json_ident (ident_json (example_ident ''S'')) = example_ident ''S''" "py_eq (jget (ident_json (example_ident ''S'')) ''pid'') (JInt 100)"
  by (simp_all add: json_ident_def ident_json_def example_ident_def jget_def jint_def dec_eq_def)

lemma ex_row_length: "length (dump False 0 (row_json (r\<lparr>r_available := Some n\<rparr>))) + length (show_int 0) =
    length (dump False 0 (row_json (r\<lparr>r_available := Some 0\<rparr>))) + length (show_int n)"
  by (simp add: row_json_def opt_json_def)

lemma ex_length:
  assumes "length (dump False 0 (row_json ((ex_zombie rid n ph site t)\<lparr>r_available := Some 0\<rparr>))) < 1900"
  shows "length (jsonl (row_json (ex_zombie rid n ph site t))) < 2000"
proof -
  let ?r = "ex_zombie rid n ph site t"
  have "length (show_int 4096000000) < 20" by (simp add: show_int_def show_nat.simps)
  moreover have "?r\<lparr>r_available := Some 4096000000\<rparr> = ?r" by (simp add: ex_zombie_def)
  ultimately show ?thesis using assms ex_row_length [of 4096000000 ?r] by (simp add: jsonl_def dumps_def)
qed

lemma ex_lengths:
  "length (jsonl (row_json (ex_zombie ''r'' 0 ex_phase ''runner_monitor'' 9))) < 2000"
  "length (jsonl (row_json (ex_zombie ''r'' 1 (cleanup_phase 32 (ident_json (example_ident ''S''))) ''cleanup_check'' 33))) < 2000"
  by (rule ex_length, code_simp)+

definition ex_stored :: "row \<Rightarrow> recorder \<Rightarrow> recorder" where
  "ex_stored r rc = fst (append_row (Inr ()) r rc)"

lemma ex_append:
  assumes "\<not> over_bound rc r" "ph_name (r_phase r) \<in> set PHASES"
  shows "append_row (Inr ()) r rc = (ex_stored r rc, Inr ())"
  using assms by (simp add: ex_stored_def append_row_def Let_def)

definition ex_first :: row where "ex_first = ex_zombie ''r'' 0 ex_phase ''runner_monitor'' 9"

definition ex_recorder :: recorder where "ex_recorder = ex_stored ex_first (new_recorder ''r'' MAX_STREAM_BYTES MAX_SAMPLES)"

lemma ex_first_stored: "append_row (Inr ()) ex_first (new_recorder ''r'' MAX_STREAM_BYTES MAX_SAMPLES) = (ex_recorder, Inr ())"
  unfolding ex_recorder_def using ex_lengths
  by (intro ex_append) (simp_all add: ex_first_def over_bound_def new_recorder_def MAX_RECORD_BYTES_def MAX_STREAM_BYTES_def MAX_SAMPLES_def MAX_MEMBERS_def
      ex_zombie_def ex_phase_def PHASES_def)

lemma ex_monitor:
  assumes "tick w = 9" "ex_sampled w" "bw_recorder w = new_recorder ''r'' MAX_STREAM_BYTES MAX_SAMPLES"
  shows "boot_monitor ex_boot_env sha example_host 100 w =
    Some (Inr (\<lparr>live = [], zombies = [as_proc (example_ident ''Z'')], sn_errors = [], rss_kib = 0\<rparr>, 4000000), w\<lparr>tick := 20, bw_recorder := ex_recorder\<rparr>)"
proof -
  have n: "rc_count (bw_recorder w) = 0" "ch_sequence (lk_chan (bw_link w)) = 5" "bw_owner w = Some (ident_json (example_ident ''S''))" "bw_phase w = Some ex_phase"
    using assms(2,3) by (simp_all add: ex_sampled_def new_recorder_def)
  have o: "observe example_host (example_ident ''S'') ''r'' 0 (Some ex_phase) ''runner_monitor'' w = Some (Inr ex_first, w\<lparr>tick := 19\<rparr>)"
    using ex_zombie_observed [of w "''r''" 0 ex_phase "''runner_monitor''"] assms(1) by (simp add: ex_first_def)
  have a: "append_to (be_write ex_boot_env) ex_first (w\<lparr>tick := 19\<rparr>) = Some (Inr (), w\<lparr>tick := 20, bw_recorder := ex_recorder\<rparr>)"
    by (simp add: append_to_def ex_boot_env_def assms(3) ex_first_stored)
  have r: "settled ex_first \<and> r_available ex_first \<noteq> None"
      "row_sample ex_first = Inr (\<lparr>live = [], zombies = [as_proc (example_ident ''Z'')], sn_errors = [], rss_kib = 0\<rparr>, 4000000)"
    by (simp_all add: ex_first_def ex_zombie_def settled_def row_sample_def row_snapshot_def row_kib_def after_of_def map_filter_def)
  have "boot_body ex_boot_env sha example_host 100 w =
    Some (Inr (\<lparr>live = [], zombies = [as_proc (example_ident ''Z'')], sn_errors = [], rss_kib = 0\<rparr>, 4000000), w\<lparr>tick := 20, bw_recorder := ex_recorder\<rparr>)"
    using a o r n by (simp add: boot_body_def boot_owner_def boot_phase_def boot_report_def sequence_now_def run_steps ex_owner ex_boot_env_def)
  then show ?thesis by (simp add: boot_monitor_def run_steps)
qed

lemma ex_iterations:
  "\<lbrakk>tick w = 7; 0 \<le> start; ex_sampled w; bw_recorder w = new_recorder ''r'' MAX_STREAM_BYTES MAX_SAMPLES\<rbrakk> \<Longrightarrow>
     iteration example_host (boot_monitor ex_boot_env sha example_host) 210 t0 start 100 (initial_state\<lparr>process := Some 100, owner := x\<rparr>) w =
     Some (Inr ((initial_state\<lparr>process := Some 100, owner := x, min_available := Some 4000000\<rparr>), Continue), w\<lparr>tick := 21, bw_recorder := ex_recorder\<rparr>)"
  "tick w = 22 \<Longrightarrow> iteration example_host (boot_monitor ex_boot_env sha example_host) 210 t0 start 100 s w =
     Some (Inr (s\<lparr>primary := CommandSuccess 1 0\<rparr>, Break), w\<lparr>tick := 23\<rparr>)"
  by (simp_all add: iteration_def guarded_def run_steps example_kernel interrupts_def example_no_signals
      observed_exit_def exit_primary_def CLD_EXITED_def ex_monitor ex_sampled_def note_sample_def initial_state_def take_text_def
      watchdogs_def phase_expired_def RSS_STOP_KIB_def AVAILABLE_STOP_KIB_def)

definition ex_final :: run_state where
  "ex_final = initial_state\<lparr>process := Some 100, owner := Some example_owner, min_available := Some 4000000, primary := CommandSuccess 1 0\<rparr>"

lemma ex_execute:
  assumes "tick w = 2" "0 \<le> start" "ex_sampled w" "bw_recorder w = new_recorder ''r'' MAX_STREAM_BYTES MAX_SAMPLES"
  shows "\<exists>l. execute (Suc (Suc 0)) example_host (boot_monitor ex_boot_env sha example_host) example_config t0 start initial_state w =
    Some (Inr (ex_final, Break), w\<lparr>tick := 24, log := l, bw_recorder := ex_recorder\<rparr>)"
proof -
  have o: "p_sid example_owner = 100" "p_pgid example_owner = 100" by (simp_all add: example_owner_def)
  show ?thesis
    using assms by (simp add: execute_def guarded_def with_files_def popen_def supervise_child_def run_steps ex_sampled_def
        example_kernel example_identity ex_iterations example_config_def Let_def o ex_final_def)
      (cases w, simp)
qed

lemma ex_conclude:
  assumes "tick w = 24"
  shows "case conclude (Suc (Suc 0)) example_host example_config ex_final w of
    Some (Inr c, w') \<Rightarrow> success c \<and> tick w' = 29 \<and> bw_recorder w' = bw_recorder w \<and> bw_owner w' = bw_owner w | _ \<Rightarrow> False"
  using assms
  by (simp add: ex_final_def conclude_def initial_state_def cleanup_steps example_snapshot example_kernel enter_def new_result_def
      world.defs cleanup_world.defs cleanup_succeeds_def)

lemma ex_run_finish:
  assumes "tick w = 29" "success c"
  shows "\<exists>r l. finish_report example_host sha (\<lambda>r. write_file example_host ''result.json'') example_config t0 ex_final c w = Some (Inr r, w\<lparr>tick := 32, log := l\<rparr>) \<and>
    rr_primary r = CommandSuccess 1 0"
  using assms
  by (simp add: finish_report_def run_steps raw_capture_def interrupts_def example_no_signals example_kernel ex_final_def
      file_report_def overall_def report_of_def late_interrupt_def is_success_def initial_state_def ESCALATION_STOP_KIB_def) blast

definition ex_second :: row where "ex_second = ex_zombie ''r'' 1 (cleanup_phase 32 (ident_json (example_ident ''S''))) ''cleanup_check'' 33"

lemma append_row_counts:
  assumes "append_row (Inr ()) r rc = (rc', Inr ())"
  shows "rc_error rc' = rc_error rc \<and> rc_count rc' = Suc (rc_count rc) \<and> rc_bytes rc' = rc_bytes rc + length (jsonl (row_json r)) \<and>
    rc_max_bytes rc' = rc_max_bytes rc \<and> rc_max_samples rc' = rc_max_samples rc"
  using assms by (auto simp: append_row_def Let_def tally_def split: if_splits)

lemma ex_second_stored: "append_row (Inr ()) ex_second ex_recorder = (ex_stored ex_second ex_recorder, Inr ())"
proof -
  have "\<not> over_bound ex_recorder ex_second"
    using append_row_counts [OF ex_first_stored] ex_lengths
    by (simp add: over_bound_def new_recorder_def ex_first_def ex_second_def MAX_RECORD_BYTES_def MAX_STREAM_BYTES_def MAX_SAMPLES_def MAX_MEMBERS_def) (simp add: ex_zombie_def)
  then show ?thesis by (rule ex_append) (simp add: ex_second_def ex_zombie_def cleanup_phase_def PHASES_def)
qed

lemma ex_cleanup_row:
  assumes "tick w = 32" "bw_owner w = Some (ident_json (example_ident ''S''))" "bw_recorder w = ex_recorder"
  shows "cleanup_row example_host ''r'' (\<lambda>t. Inr ()) w = Some (Inr (), w\<lparr>tick := 44, bw_recorder := ex_stored ex_second ex_recorder\<rparr>)"
proof -
  have c: "rc_error ex_recorder = None" "rc_count ex_recorder = 1" using append_row_counts [OF ex_first_stored] by (simp_all add: new_recorder_def)
  have o: "observe example_host (example_ident ''S'') ''r'' 1 (Some (cleanup_phase 32 (ident_json (example_ident ''S'')))) ''cleanup_check'' (w\<lparr>tick := 33\<rparr>) =
      Some (Inr ex_second, w\<lparr>tick := 43\<rparr>)"
    using ex_zombie_observed [of "w\<lparr>tick := 33\<rparr>" "''r''" 1 "cleanup_phase 32 (ident_json (example_ident ''S''))" "''cleanup_check''"] by (simp add: ex_second_def)
  show ?thesis
    using assms by (simp add: cleanup_row_def run_steps example_kernel c ex_owner o append_to_def ex_second_stored)
qed

lemma ex_run: "\<exists>r w'. recorded_run (Suc (Suc 0)) example_host id (boot_monitor ex_boot_env id example_host) example_config ''r'' (\<lambda>t. Inr ()) ex_boot = Some (Inr (Some r, None), w') \<and>
    rr_primary r = CommandSuccess 1 0 \<and> rc_count (bw_recorder w') = 2"
proof -
  let ?w = "ex_boot\<lparr>tick := 2\<rparr>"
  have b: "ex_sampled ?w" "bw_recorder ?w = new_recorder ''r'' MAX_STREAM_BYTES MAX_SAMPLES" "tick ex_boot = 0" "bw_owner ex_boot = Some (ident_json (example_ident ''S''))"
    by (simp_all add: ex_boot_def ex_sampled_def)
  from ex_execute [of ?w 1 id 2] b(1,2) obtain l where e: "execute (Suc (Suc 0)) example_host (boot_monitor ex_boot_env id example_host) example_config 2 1 initial_state ?w =
      Some (Inr (ex_final, Break), ?w\<lparr>tick := 24, log := l, bw_recorder := ex_recorder\<rparr>)" by auto
  from ex_conclude [of "?w\<lparr>tick := 24, log := l, bw_recorder := ex_recorder\<rparr>"] obtain c w1
    where c: "conclude (Suc (Suc 0)) example_host example_config ex_final (?w\<lparr>tick := 24, log := l, bw_recorder := ex_recorder\<rparr>) = Some (Inr c, w1)"
      "success c" "tick w1 = 29" "bw_recorder w1 = ex_recorder" "bw_owner w1 = Some (ident_json (example_ident ''S''))"
    unfolding run_outcome_iff using b(4) by auto
  from ex_run_finish [OF c(3,2), of id 2] obtain r l2 where f: "rr_primary r = CommandSuccess 1 0"
      "finish_report example_host id (\<lambda>r. write_file example_host ''result.json'') example_config 2 ex_final c w1 = Some (Inr r, w1\<lparr>tick := 32, log := l2\<rparr>)" by blast
  have valid: "valid_config example_config" by (simp add: example_config_def valid_config_def valid_budget_def)
  have "run_command (Suc (Suc 0)) example_host id (boot_monitor ex_boot_env id example_host) (\<lambda>r. write_file example_host ''result.json'') example_config ex_boot =
      Some (Inr r, w1\<lparr>tick := 32, log := l2\<rparr>)"
    using valid e c(1) f(2) by (simp add: run_command_def example_kernel bindi_apply sys_def clock_def io_apply b(3) record_failure_def Let_def numeral_2_eq_2)
  moreover have "rc_count (ex_stored ex_second ex_recorder) = 2"
    using append_row_counts [OF ex_first_stored] append_row_counts [OF ex_second_stored] by (simp add: new_recorder_def)
  ultimately show ?thesis using f(1) ex_cleanup_row [of "w1\<lparr>tick := 32, log := l2\<rparr>"] c(4,5)
    by (simp add: recorded_run_def run_steps)
qed

theorem resource_decision_agrees_witness:
  "\<exists>rows mon w'. holds_rows rows (bw_recorder w') \<and> length rows = 2 \<and> mon = filter (\<lambda>x. r_site x = ''runner_monitor'') rows \<and>
    (\<exists>r. recorded_run (Suc (Suc 0)) example_host id (boot_monitor ex_boot_env id example_host) example_config ''r'' (\<lambda>t. Inr ()) ex_boot = Some (Inr (Some r, None), w') \<and>
     (mon = [] \<or> (\<exists>d. resource_decision (map row_json mon) (core_json r) (sort_keys example_policy) = Inr d)))"
proof -
  have start: "boot_ready ex_boot" "holds_rows [] (bw_recorder ex_boot)" by (simp_all add: ex_boot_def boot_ready_def phased_def ex_phase_def holds_new)
  obtain r w' where run: "recorded_run (Suc (Suc 0)) example_host id (boot_monitor ex_boot_env id example_host) example_config ''r'' (\<lambda>t. Inr ()) ex_boot = Some (Inr (Some r, None), w')"
      "\<forall>a b. rr_primary r \<noteq> RunnerError a b" and two: "rc_count (bw_recorder w') = 2" using ex_run by auto
  have "length rows = 2" if "holds_rows rows (bw_recorder w')" for rows using two that by (simp add: holds_rows_def)
  then show ?thesis using resource_decision_agrees [OF example_policy_parses start run] run(1) by blast
qed

end
