(* ===== verification/Barrier.thy ===== *)
theory Barrier
  imports Run_Command
begin

text \<open>
  The start barrier of \<^verbatim>\<open>supervise.py\<close>: the loop that waits for the target's handshake, takes the
  pre-release sample, releases the target and takes the acknowledgement.

  One iteration is a function of the state and of an \<open>observation\<close>, the answers the host gave to the
  calls of that iteration; a run is a list of observations, so a theorem for all lists holds for
  every timing of the peer, the target and the signals. The sampler is \<^verbatim>\<open>processes.observe\<close>; the
  callbacks (\<open>hooks\<close>) of an event may raise, and the observation says whether they do.
\<close>

section \<open>The sampler\<close>

record exe_ref =
  ex_path :: string
  ex_dev :: int
  ex_ino :: int
  ex_sha :: string

record live_probe =
  lp_ident :: proc_id
  lp_exe :: exe_ref
  lp_rss :: int
  lp_available :: int
  lp_start :: ns
  lp_end :: ns

datatype probe = NotLive proc_id ns ns | Live live_probe

record reading =
  rd_before :: "proc_id option res"
  rd_exe :: "exe_ref res"
  rd_statm :: "string res"
  rd_after :: "proc_id option res"
  rd_exe_again :: "exe_ref res"
  rd_meminfo :: "string res"
  rd_start :: ns
  rd_end :: ns

definition statm_pages :: "string \<Rightarrow> int res" where
  "statm_pages text = bindr (nth_res (py_split text) 1) py_int"

definition observe_target :: "int \<Rightarrow> proc_id \<Rightarrow> reading \<Rightarrow> probe res" where
  "observe_target page own rd =
     bindr (rd_before rd) (\<lambda>a. case a of
        None \<Rightarrow> Inl ProcessLookupError
      | Some i \<Rightarrow>
          requires (ps_same (Some i) (Some own)) (RuntimeError ''target_identity_changed'')
          (if dead_state (p_state i) then Inr (NotLive i (rd_start rd) (rd_end rd))
           else bindr (rd_exe rd) (\<lambda>exe.
             bindr (bindr (rd_statm rd) statm_pages) (\<lambda>pages.
             bindr (rd_after rd) (\<lambda>b.
             requires (ps_same (Some i) b \<and> \<not> dead_state (p_state (the b))) ProcessLookupError
             (bindr (rd_exe_again rd) (\<lambda>again.
              requires (again = exe) (RuntimeError ''target_executable_changed'')
              (bindr (bindr (rd_meminfo rd) (\<lambda>text. first_available (str_splitlines text))) (\<lambda>available.
               Inr (Live \<lparr>lp_ident = the b, lp_exe = exe, lp_rss = pages * page, lp_available = available * 1024,
                 lp_start = rd_start rd, lp_end = rd_end rd\<rparr>))))))))))"

section \<open>The state of the barrier\<close>

datatype trace_row =
    Missing string string ns ns
  | Sampled string probe

record sup_config =
  sc_role :: string
  sc_token :: string
  sc_uid :: int
  sc_page :: int
  sc_start :: ns
  sc_barrier_deadline :: ns
  sc_outer :: ns
  sc_exe :: exe_ref

record sup =
  su_target :: "proc_id option"
  su_peer :: "(int \<times> int \<times> int) option"
  su_buf :: string
  su_hello :: bool
  su_acked :: bool
  su_last_sample :: ns
  su_release_begin :: "ns option"
  su_release_complete :: "ns option"
  su_ack :: "ns option"
  su_pre :: "live_probe option"
  su_reason :: "string option"
  su_events :: "(string \<times> ns) list"
  su_trace :: "trace_row list"
  su_sent :: "string list"

record obs =
  ob_owner :: "proc_id option res"
  ob_now :: ns
  ob_pending :: bool
  ob_accept :: "(int \<times> int \<times> int) option res"
  ob_recv :: "string option res"
  ob_peer_ident :: "proc_id option res"
  ob_peer_exe :: "exe_ref res"
  ob_ack_ns :: ns
  ob_sample_ns :: ns
  ob_reading :: reading
  ob_target_ident :: "proc_id option res"
  ob_target_exe :: "exe_ref res"
  ob_pending_late :: bool
  ob_begin_ns :: ns
  ob_send :: "unit res"
  ob_complete_ns :: ns
  ob_hook :: "string \<Rightarrow> unit res"
  ob_event_ns :: "string \<Rightarrow> ns"
  ob_gone :: "ns \<times> ns"
  ob_exited :: "bool res"
  ob_current :: "proc_id option res"

text \<open>A statement of the loop body: the state survives the exception it raises.\<close>

definition chain :: "sup \<times> step \<Rightarrow> (sup \<Rightarrow> sup \<times> step) \<Rightarrow> sup \<times> step" where
  "chain x f = (case x of (s, st) \<Rightarrow> if st = Continue then f s else (s, st))"

definition check :: "bool \<Rightarrow> py_error \<Rightarrow> sup \<Rightarrow> sup \<times> step" where
  "check c e s = (s, if c then Continue else Raised e)"

definition given :: "'a res \<Rightarrow> sup \<Rightarrow> ('a \<Rightarrow> sup \<times> step) \<Rightarrow> sup \<times> step" where
  "given r s f = (case r of Inl e \<Rightarrow> (s, Raised e) | Inr x \<Rightarrow> f x)"

definition fail_with :: "string \<Rightarrow> sup \<Rightarrow> sup" where
  "fail_with reason s = (if su_reason s = None then s\<lparr>su_reason := Some reason\<rparr> else s)"

definition note_event :: "obs \<Rightarrow> string \<Rightarrow> sup \<Rightarrow> sup \<times> step" where
  "note_event o' name s = (let s1 = s\<lparr>su_events := su_events s @ [(name, ob_event_ns o' name)]\<rparr> in given (ob_hook o' name) s1 (\<lambda>_. (s1, Continue)))"

definition get_target :: "obs \<Rightarrow> sup \<Rightarrow> sup \<times> step" where
  "get_target o' s = (if su_target s \<noteq> None then (s, Continue) else given (ob_owner o') s (\<lambda>t. (s\<lparr>su_target := t\<rparr>, Continue)))"

text \<open>The image the target must have: device, inode and hash, wherever it was started from.\<close>

definition same_image :: "exe_ref \<Rightarrow> exe_ref \<Rightarrow> bool" where
  "same_image a b \<longleftrightarrow> ex_dev a = ex_dev b \<and> ex_ino a = ex_ino b \<and> ex_sha a = ex_sha b"

definition GiB2 :: int where "GiB2 = 2 * 1024 ^ 3"

definition sample_ok :: "sup_config \<Rightarrow> proc_id \<Rightarrow> probe \<Rightarrow> unit res" where
  "sample_ok c target p =
     (case p of
        NotLive i a b \<Rightarrow> requires (ps_same (Some i) (Some target)) (RuntimeError ''sample_identity_mismatch'') (Inr ())
      | Live l \<Rightarrow>
          requires (ps_same (Some (lp_ident l)) (Some target)) (RuntimeError ''sample_identity_mismatch'')
          (requires (same_image (lp_exe l) (sc_exe c)) (RuntimeError ''sample_executable_mismatch'')
          (requires (lp_rss l > 0) (RuntimeError ''invalid_live_sample'')
          (requires (lp_rss l \<le> GiB2 \<and> lp_available l \<ge> GiB2) (RuntimeError ''resource_safety_stop'') (Inr ())))))"

definition take_sample :: "sup_config \<Rightarrow> obs \<Rightarrow> string \<Rightarrow> sup \<Rightarrow> sup \<times> probe res" where
  "take_sample c o' cls s =
     (let s1 = s\<lparr>su_last_sample := ob_sample_ns o'\<rparr> in
      case su_target s of
        None \<Rightarrow> (s1, Inl TypeError)
      | Some t \<Rightarrow>
          (case bindr (observe_target (sc_page c) t (ob_reading o')) (\<lambda>p. bindr (sample_ok c t p) (\<lambda>_. Inr p)) of
             Inl e \<Rightarrow> (s1, Inl e)
           | Inr p \<Rightarrow> (s1\<lparr>su_trace := su_trace s1 @ [Sampled cls p]\<rparr>, Inr p)))"

section \<open>One iteration\<close>

definition accept_peer :: "obs \<Rightarrow> sup \<Rightarrow> sup \<times> step" where
  "accept_peer o' s =
     (if su_peer s \<noteq> None then (s, Continue)
      else given (ob_accept o') s (\<lambda>p. case p of
        None \<Rightarrow> (s, Continue)
      | Some x \<Rightarrow> note_event o' ''peer_connected'' (s\<lparr>su_peer := Some x\<rparr>)))"

definition receive_block :: "obs \<Rightarrow> sup \<Rightarrow> sup \<times> step" where
  "receive_block o' s =
     given (ob_recv o') s (\<lambda>block. case block of
        None \<Rightarrow> (s, Continue)
      | Some b \<Rightarrow>
          if b = [] then (s, Raised (RuntimeError ''broken_ipc''))
          else let s1 = s\<lparr>su_buf := su_buf s @ b\<rparr> in check (length (su_buf s1) \<le> 4096) (RuntimeError ''oversized_handshake'') s1)"

definition ready_message :: "sup_config \<Rightarrow> json \<Rightarrow> proc_id \<Rightarrow> int \<times> int \<times> int \<Rightarrow> bool" where
  "ready_message c msg target peer \<longleftrightarrow>
     py_eq (jget msg ''version'') (JInt 1) \<and> py_eq (jget msg ''event'') (JStr ''ready'') \<and> py_eq (jget msg ''token'') (JStr (sc_token c)) \<and>
     py_eq (jget msg ''role'') (JStr (sc_role c)) \<and> py_eq (jget msg ''pid'') (JInt (p_pid target)) \<and>
     fst peer = p_pid target \<and> fst (snd peer) = sc_uid c"

definition released_message :: "sup_config \<Rightarrow> proc_id \<Rightarrow> json" where
  "released_message c target = JObj [(''version'', JInt 1), (''event'', JStr ''released''), (''pid'', JInt (p_pid target)), (''role'', JStr (sc_role c))]"

text \<open>The first message identifies the target.\<close>

definition take_hello :: "sup_config \<Rightarrow> obs \<Rightarrow> json \<Rightarrow> sup \<Rightarrow> sup \<times> step" where
  "take_hello c o' msg s =
     (case (su_target s, su_peer s) of
        (Some t, Some peer) \<Rightarrow>
          chain (check (is_dict msg) AttributeError s) (\<lambda>s.
          chain (check (ready_message c msg t peer) (RuntimeError ''readiness_identity_mismatch'') s) (\<lambda>s.
          given (ob_peer_ident o') s (\<lambda>i.
          chain (check (ps_same (Some t) i) (RuntimeError ''readiness_process_changed'') s) (\<lambda>s.
          given (ob_peer_exe o') s (\<lambda>exe.
          chain (check (same_image exe (sc_exe c)) (RuntimeError ''readiness_executable_mismatch'') s) (\<lambda>s.
          note_event o' ''target_identified'' (s\<lparr>su_hello := True\<rparr>)))))))
      | _ \<Rightarrow> (s, Raised (RuntimeError ''owner_not_published'')))"

text \<open>The second one acknowledges the release.\<close>

definition take_ack :: "sup_config \<Rightarrow> obs \<Rightarrow> json \<Rightarrow> sup \<Rightarrow> sup \<times> step" where
  "take_ack c o' msg s =
     (case su_target s of
        None \<Rightarrow> (s, Raised (RuntimeError ''bad_release_acknowledgement''))
      | Some t \<Rightarrow>
          chain (check (su_release_begin s \<noteq> None \<and> py_eq msg (released_message c t)) (RuntimeError ''bad_release_acknowledgement'') s) (\<lambda>s.
          note_event o' ''target_acknowledged'' (s\<lparr>su_acked := True, su_ack := Some (ob_ack_ns o')\<rparr>)))"

definition take_message :: "sup_config \<Rightarrow> obs \<Rightarrow> sup \<Rightarrow> sup \<times> step" where
  "take_message c o' s =
     (if LF \<in> set (su_buf s) \<and> (su_hello s \<or> su_target s \<noteq> None) then
        (let line = takeWhile (\<lambda>x. x \<noteq> LF) (su_buf s); s1 = s\<lparr>su_buf := tl (dropWhile (\<lambda>x. x \<noteq> LF) (su_buf s))\<rparr> in
         given (loads_plain line) s1 (\<lambda>msg. if su_hello s1 then take_ack c o' msg s1 else take_hello c o' msg s1))
      else (s, Continue))"

definition intake :: "sup_config \<Rightarrow> obs \<Rightarrow> sup \<Rightarrow> sup \<times> step" where
  "intake c o' s = (if su_peer s \<noteq> None \<and> \<not> su_acked s then chain (receive_block o' s) (take_message c o') else (s, Continue))"

text \<open>The release: only behind a fresh live sample of the unchanged target.\<close>

definition RELEASE :: string where
  "RELEASE = ''{\"version\":1,\"event\":\"release\"}'' @ [LF]"

definition send_release :: "obs \<Rightarrow> sup \<Rightarrow> sup \<times> step" where
  "send_release o' s =
     (let s1 = s\<lparr>su_release_begin := Some (ob_begin_ns o'), su_sent := su_sent s @ [RELEASE]\<rparr> in
      given (ob_send o') s1 (\<lambda>_. note_event o' ''released'' (s1\<lparr>su_release_complete := Some (ob_complete_ns o')\<rparr>)))"

definition release :: "sup_config \<Rightarrow> obs \<Rightarrow> live_probe \<Rightarrow> sup \<Rightarrow> sup \<times> step" where
  "release c o' l s =
     chain (note_event o' ''sampler_ready'' (s\<lparr>su_pre := Some l\<rparr>)) (\<lambda>s.
     given (ob_target_ident o') s (\<lambda>i.
     chain (check (ps_same (su_target s) i) (RuntimeError ''identity_changed_before_release'') s) (\<lambda>s.
     given (ob_target_exe o') s (\<lambda>exe.
     chain (check (exe = lp_exe l) (RuntimeError ''identity_changed_before_release'') s) (\<lambda>s.
     chain (note_event o' ''before_release'' s) (\<lambda>s.
     if ob_pending_late o' then (fail_with ''supervisor_interrupted'' s, Raised (RuntimeError ''interrupted_before_release''))
     else send_release o' s))))))"

definition gate :: "sup_config \<Rightarrow> obs \<Rightarrow> sup \<Rightarrow> sup \<times> step" where
  "gate c o' s =
     (if su_hello s \<and> su_release_begin s = None then
        (case take_sample c o' ''pre_release'' s of
           (s1, Inl e) \<Rightarrow> (s1, Raised e)
         | (s1, Inr (NotLive i a b)) \<Rightarrow> (s1, Continue)
         | (s1, Inr (Live l)) \<Rightarrow> release c o' l s1)
      else if su_acked s \<and> ob_now o' - su_last_sample s \<ge> 10000000 then
        (case take_sample c o' ''post_release'' s of
           (s1, Inr p) \<Rightarrow> (s1, Continue)
         | (s1, Inl e) \<Rightarrow>
             if e = FileNotFoundError \<or> e = ProcessLookupError
             then (s1\<lparr>su_trace := su_trace s1 @ [Missing ''exited_during_post_sample'' ''post_release'' (fst (ob_gone o')) (snd (ob_gone o'))]\<rparr>, Continue)
             else (s1, Raised e))
      else (s, Continue))"

definition deadlines :: "sup_config \<Rightarrow> obs \<Rightarrow> sup \<Rightarrow> sup \<times> step" where
  "deadlines c o' s =
     (if ob_pending o' then (fail_with ''supervisor_interrupted'' s, Break)
      else if ob_now o' - sc_start c > sc_outer c then (fail_with ''outer_timeout'' s, Break)
      else (s, Continue))"

definition exits :: "sup_config \<Rightarrow> obs \<Rightarrow> sup \<Rightarrow> sup \<times> step" where
  "exits c o' s =
     (if \<not> su_acked s \<and> ob_now o' \<ge> sc_barrier_deadline c then (fail_with ''barrier_timeout'' s, Break)
      else given (ob_exited o') s (\<lambda>gone.
        if gone then ((if su_acked s then s else fail_with (if su_hello s then ''handshake_incomplete'' else ''target_exited_before_handshake'') s), Break)
        else if su_target s \<noteq> None \<and> \<not> su_hello s then
          given (ob_current o') s (\<lambda>i. case i of
             None \<Rightarrow> (fail_with ''target_exited_before_handshake'' s, Break)
           | Some p \<Rightarrow> if dead_state (p_state p) then (fail_with ''target_exited_before_handshake'' s, Break) else (s, Continue))
        else (s, Continue)))"

definition barrier_step :: "sup_config \<Rightarrow> obs \<Rightarrow> sup \<Rightarrow> sup \<times> step" where
  "barrier_step c o' s =
     chain (get_target o' s) (\<lambda>s.
     chain (deadlines c o' s) (\<lambda>s.
     chain (accept_peer o' s) (\<lambda>s.
     chain (intake c o' s) (\<lambda>s.
     chain (gate c o' s) (exits c o')))))"

text \<open>The loop over what the host answers; a run that has not left the loop is still at \<open>Continue\<close>.\<close>

fun barrier_loop :: "sup_config \<Rightarrow> obs list \<Rightarrow> sup \<Rightarrow> sup \<times> step" where
  "barrier_loop c [] s = (s, Continue)"
| "barrier_loop c (o' # os) s = chain (barrier_step c o' s) (barrier_loop c os)"

definition new_sup :: "ns \<Rightarrow> sup" where
  "new_sup t = \<lparr>su_target = None, su_peer = None, su_buf = [], su_hello = False, su_acked = False, su_last_sample = 0, su_release_begin = None,
     su_release_complete = None, su_ack = None, su_pre = None, su_reason = None, su_events = [(''runner_created'', t)], su_trace = [], su_sent = []\<rparr>"

section \<open>Invariants of the barrier\<close>

text \<open>A live sample that may open the gate: of this target, of the approved image, within the memory limits.\<close>

definition opens :: "sup_config \<Rightarrow> proc_id \<Rightarrow> live_probe \<Rightarrow> bool" where
  "opens c t l \<longleftrightarrow> ps_same (Some (lp_ident l)) (Some t) \<and> same_image (lp_exe l) (sc_exe c) \<and> 0 < lp_rss l \<and> lp_rss l \<le> GiB2 \<and> GiB2 \<le> lp_available l"

definition safe :: "sup_config \<Rightarrow> sup \<Rightarrow> bool" where
  "safe c s \<longleftrightarrow>
     su_sent s = (if su_release_begin s = None then [] else [RELEASE]) \<and>
     (su_hello s \<longrightarrow> (\<exists>t p. su_target s = Some t \<and> su_peer s = Some p \<and> fst p = p_pid t \<and> fst (snd p) = sc_uid c)) \<and>
     (su_release_begin s \<noteq> None \<longrightarrow> su_hello s \<and>
       (\<exists>t l. su_target s = Some t \<and> su_pre s = Some l \<and> Sampled ''pre_release'' (Live l) \<in> set (su_trace s) \<and> opens c t l)) \<and>
     (su_acked s \<longrightarrow> su_release_begin s \<noteq> None)"

definition milestones :: "sup \<Rightarrow> string list" where
  "milestones s = ''runner_created'' # (if su_peer s \<noteq> None then [''peer_connected''] else []) @ (if su_hello s then [''target_identified''] else []) @
     (if su_release_begin s \<noteq> None then [''sampler_ready'', ''before_release'', ''released''] else []) @
     (if su_acked s then [''target_acknowledged''] else [])"

definition ordered :: "sup \<Rightarrow> bool" where
  "ordered s \<longleftrightarrow> map fst (su_events s) = milestones s \<and> (su_release_begin s \<noteq> None \<longrightarrow> su_release_complete s \<noteq> None) \<and>
     (su_acked s \<longleftrightarrow> su_ack s \<noteq> None)"

fun raised :: "step \<Rightarrow> bool" where
  "raised (Raised e) = True"
| "raised _ = False"

definition kept :: "sup_config \<Rightarrow> sup \<times> step \<Rightarrow> bool" where
  "kept c x \<longleftrightarrow> safe c (fst x) \<and> (\<not> raised (snd x) \<longrightarrow> ordered (fst x))"

named_theorems kept_intros \<open>steps that keep the invariant of the barrier\<close>

lemma kept_chain [kept_intros]:
  assumes "kept c x" and "\<And>s. safe c s \<Longrightarrow> ordered s \<Longrightarrow> kept c (f s)"
  shows "kept c (chain x f)"
  using assms by (cases x) (auto simp: kept_def chain_def)

lemma kept_given [kept_intros]:
  assumes "safe c s" "\<And>x. kept c (f x)"
  shows "kept c (given r s f)"
  using assms by (cases r) (auto simp: kept_def given_def)

lemma kept_same [kept_intros]: "safe c s \<Longrightarrow> ordered s \<Longrightarrow> kept c (s, st)"
  by (simp add: kept_def)

lemma kept_check [kept_intros]: "safe c s \<Longrightarrow> ordered s \<Longrightarrow> kept c (check b e s)"
  by (simp add: kept_def check_def)

lemma fail_keeps [simp]: "safe c (fail_with r s) = safe c s" "ordered (fail_with r s) = ordered s"
  unfolding fail_with_def safe_def ordered_def milestones_def by (cases "su_reason s"; auto)+

lemma kept_get_target [kept_intros]: "safe c s \<Longrightarrow> ordered s \<Longrightarrow> kept c (get_target o' s)"
  unfolding get_target_def
  by (auto intro!: kept_intros) (auto simp: kept_def safe_def ordered_def milestones_def)

lemma kept_deadlines [kept_intros]: "safe c s \<Longrightarrow> ordered s \<Longrightarrow> kept c (deadlines c o' s)"
  by (simp add: deadlines_def kept_def)

lemma kept_accept [kept_intros]: "safe c s \<Longrightarrow> ordered s \<Longrightarrow> kept c (accept_peer o' s)"
  unfolding accept_peer_def
  by (auto intro!: kept_intros split: option.split)
    (auto simp: kept_def note_event_def Let_def given_def safe_def ordered_def milestones_def split: sum.splits)

lemma kept_receive [kept_intros]: "safe c s \<Longrightarrow> ordered s \<Longrightarrow> kept c (receive_block o' s)"
  unfolding receive_block_def
  by (auto intro!: kept_intros split: option.split simp: Let_def)
    (auto simp: kept_def check_def safe_def ordered_def milestones_def)

lemma checkE: "chain (check b e s) f = (if b then f s else (s, Raised e))"
  by (simp add: chain_def check_def)

lemma kept_hello [kept_intros]: "safe c s \<Longrightarrow> ordered s \<Longrightarrow> \<not> su_hello s \<Longrightarrow> kept c (take_hello c o' msg s)"
  unfolding take_hello_def checkE
  by (auto intro!: kept_intros split: option.split)
    (auto simp: kept_def note_event_def Let_def given_def safe_def ordered_def milestones_def ready_message_def split: sum.splits)

lemma kept_ack [kept_intros]: "safe c s \<Longrightarrow> ordered s \<Longrightarrow> \<not> su_acked s \<Longrightarrow> kept c (take_ack c o' msg s)"
  unfolding take_ack_def checkE
  by (auto intro!: kept_intros split: option.split)
    (auto simp: kept_def note_event_def Let_def given_def safe_def ordered_def milestones_def split: sum.splits)

lemma kept_message [kept_intros]:
  assumes "safe c s" "ordered s" "\<not> su_acked s"
  shows "kept c (take_message c o' s)"
proof -
  let ?s = "s\<lparr>su_buf := tl (dropWhile (\<lambda>x. x \<noteq> LF) (su_buf s))\<rparr>"
  have "safe c ?s" "ordered ?s" "\<not> su_acked ?s" using assms by (auto simp: safe_def ordered_def milestones_def)
  then have "kept c (given r ?s (\<lambda>msg. if su_hello ?s then take_ack c o' msg ?s else take_hello c o' msg ?s))" for r
    by (intro kept_given) (auto intro: kept_ack kept_hello)
  then show ?thesis unfolding take_message_def Let_def using assms(1,2) by (simp add: kept_same)
qed

lemma receive_acked: "su_acked (fst (receive_block o' s)) = su_acked s"
  by (auto simp: receive_block_def given_def check_def Let_def split: sum.split option.split)

lemma kept_intake [kept_intros]:
  assumes "safe c s" "ordered s"
  shows "kept c (intake c o' s)"
proof (cases "su_peer s \<noteq> None \<and> \<not> su_acked s")
  case True
  obtain s1 st where r: "receive_block o' s = (s1, st)" by (cases "receive_block o' s")
  then have k: "kept c (s1, st)" and "\<not> su_acked s1" using kept_receive [OF assms, of o'] receive_acked [of o' s] True by simp_all
  have "intake c o' s = chain (s1, st) (take_message c o')" using True r by (simp add: intake_def)
  then show ?thesis
  proof (cases "st = Continue")
    case True
    then show ?thesis using k \<open>\<not> su_acked s1\<close> \<open>intake c o' s = _\<close> by (simp add: chain_def kept_def [of c "(s1, Continue)"] kept_message)
  qed (use k in \<open>simp add: chain_def\<close>)
qed (use assms in \<open>auto simp: intake_def intro: kept_same\<close>)

text \<open>What a sample adds to the state.\<close>

lemma take_sampleD:
  assumes "take_sample c o' cls s = (s1, r)"
  shows "\<exists>xs. s1 = s\<lparr>su_last_sample := ob_sample_ns o', su_trace := su_trace s @ xs\<rparr> \<and>
    (case r of Inl e \<Rightarrow> xs = [] | Inr p \<Rightarrow> xs = [Sampled cls p] \<and> (\<exists>t. su_target s = Some t \<and> (\<forall>l. p = Live l \<longrightarrow> opens c t l)))"
proof (cases "su_target s")
  case None
  then show ?thesis using assms by (auto simp: take_sample_def intro!: exI [of _ "[]"])
next
  case (Some t)
  show ?thesis
  proof (cases "bindr (observe_target (sc_page c) t (ob_reading o')) (\<lambda>p. bindr (sample_ok c t p) (\<lambda>_. Inr p))")
    case (Inl e)
    have "(s1, r) = (s\<lparr>su_last_sample := ob_sample_ns o'\<rparr>, Inl e)" using assms by (simp add: take_sample_def Some Inl)
    then show ?thesis by (auto intro!: exI [of _ "[]"])
  next
    case (Inr p)
    have "(s1, r) = (s\<lparr>su_last_sample := ob_sample_ns o', su_trace := su_trace s @ [Sampled cls p]\<rparr>, Inr p)" using assms by (simp add: take_sample_def Some Inr)
    moreover from Inr
    have "sample_ok c t p = Inr ()" by (auto simp: bindr_Inr_iff)
    then have "\<forall>l. p = Live l \<longrightarrow> opens c t l" by (auto simp: sample_ok_def opens_def requires_Inr_iff)
    ultimately show ?thesis using Some by auto
  qed
qed

lemma safe_more_trace: "safe c s \<Longrightarrow> safe c (s\<lparr>su_last_sample := t, su_trace := su_trace s @ xs\<rparr>)"
  "ordered s \<Longrightarrow> ordered (s\<lparr>su_last_sample := t, su_trace := su_trace s @ xs\<rparr>)"
  by (auto simp: safe_def ordered_def milestones_def)

lemma chain_event:
  "chain (note_event o' n s) f =
     given (ob_hook o' n) (s\<lparr>su_events := su_events s @ [(n, ob_event_ns o' n)]\<rparr>) (\<lambda>_. f (s\<lparr>su_events := su_events s @ [(n, ob_event_ns o' n)]\<rparr>))"
  by (simp add: note_event_def Let_def given_def chain_def split: sum.split)

lemma kept_raised: "safe c s \<Longrightarrow> kept c (s, Raised e)"
  by (simp add: kept_def)

text \<open>Events, the pre-release sample and the failure reason do not matter to \<open>safe\<close> before the release.\<close>

lemma safe_unreleased:
  assumes "safe c s" "su_release_begin s = None"
  shows "safe c (s\<lparr>su_events := es\<rparr>)" "safe c (s\<lparr>su_pre := p, su_events := es\<rparr>)"
  using assms by (auto simp: safe_def)

lemma kept_send:
  assumes "safe c s" "su_hello s" "su_target s = Some t" "su_pre s = Some l" "Sampled ''pre_release'' (Live l) \<in> set (su_trace s)" "opens c t l"
    and "su_release_begin s = None" and "map fst (su_events s) = [''runner_created'', ''peer_connected'', ''target_identified'', ''sampler_ready'', ''before_release'']"
    and "su_ack s = None"
  shows "kept c (send_release o' s)"
proof -
  have a: "\<not> su_acked s" "su_peer s \<noteq> None" using assms(1,2,7) by (auto simp: safe_def)
  have s1: "safe c (s\<lparr>su_release_begin := x, su_sent := su_sent s @ [RELEASE], su_release_complete := y, su_events := z\<rparr>)" if "x \<noteq> None" for x y z
    using assms that by (auto simp: safe_def)
  have s2: "safe c (s\<lparr>su_release_begin := x, su_sent := su_sent s @ [RELEASE]\<rparr>)" if "x \<noteq> None" for x
    using assms that by (auto simp: safe_def)
  have ord: "ordered (s\<lparr>su_release_begin := Some x, su_sent := w, su_release_complete := Some y, su_events := su_events s @ [(''released'', z)]\<rparr>)" for x y z w
    using assms(2,8,9) a by (simp add: ordered_def milestones_def)
  show ?thesis
    unfolding send_release_def note_event_def Let_def using s1 s2 ord
    by (auto intro!: kept_given kept_same)
qed

lemma kept_release:
  assumes "safe c s" "ordered s" "su_hello s" "su_release_begin s = None" "su_target s = Some t" "Sampled ''pre_release'' (Live l) \<in> set (su_trace s)" "opens c t l"
  shows "kept c (release c o' l s)"
proof -
  have a: "\<not> su_acked s" "su_peer s \<noteq> None" using assms(1,3,4) by (auto simp: safe_def)
  let ?s1 = "s\<lparr>su_pre := Some l, su_events := su_events s @ [(''sampler_ready'', ob_event_ns o' ''sampler_ready'')]\<rparr>"
  let ?s2 = "?s1\<lparr>su_events := su_events ?s1 @ [(''before_release'', ob_event_ns o' ''before_release'')]\<rparr>"
  have names: "map fst (su_events s) = [''runner_created'', ''peer_connected'', ''target_identified'']" "su_ack s = None"
    using assms(2,3,4) a by (auto simp: ordered_def milestones_def)
  have s1: "safe c ?s1" and s2: "safe c ?s2" using safe_unreleased [OF assms(1,4)] by simp_all
  have "kept c (send_release o' ?s2)"
    by (rule kept_send [OF s2, of t l]) (use assms names in simp_all)
  moreover have "kept c (fail_with ''supervisor_interrupted'' ?s2, Raised e)" for e using s2 by (intro kept_raised) simp
  ultimately show ?thesis
    unfolding release_def chain_event checkE using s1 s2 by (auto intro!: kept_given kept_raised)
qed

lemma kept_gate [kept_intros]:
  assumes "safe c s" "ordered s"
  shows "kept c (gate c o' s)"
proof -
  consider (pre) "su_hello s" "su_release_begin s = None" | (post) "\<not> (su_hello s \<and> su_release_begin s = None)" "su_acked s \<and> ob_now o' - su_last_sample s \<ge> 10000000"
    | (none) "\<not> (su_hello s \<and> su_release_begin s = None)" "\<not> (su_acked s \<and> ob_now o' - su_last_sample s \<ge> 10000000)" by argo
  then show ?thesis
  proof cases
    case pre
    obtain s1 r where t: "take_sample c o' ''pre_release'' s = (s1, r)" by (cases "take_sample c o' ''pre_release'' s")
    then obtain xs where s1: "s1 = s\<lparr>su_last_sample := ob_sample_ns o', su_trace := su_trace s @ xs\<rparr>"
      and xs: "case r of Inl e \<Rightarrow> xs = [] | Inr p \<Rightarrow> xs = [Sampled ''pre_release'' p] \<and> (\<exists>t. su_target s = Some t \<and> (\<forall>l. p = Live l \<longrightarrow> opens c t l))"
      using take_sampleD by blast
    have k: "safe c s1" "ordered s1" using safe_more_trace assms by (simp_all add: s1)
    show ?thesis
    proof (cases r)
      case (Inl e)
      then show ?thesis using pre t k by (simp add: gate_def kept_same)
    next
      case (Inr p)
      show ?thesis
      proof (cases p)
        case (NotLive i a b)
        then show ?thesis using pre t k Inr by (simp add: gate_def kept_same)
      next
        case (Live l)
        with xs Inr obtain tg where "su_target s = Some tg" "opens c tg l" "xs = [Sampled ''pre_release'' (Live l)]" by auto
        then show ?thesis using pre t Inr Live kept_release [OF k, of tg l o'] by (simp add: gate_def s1)
      qed
    qed
  next
    case post
    obtain s1 r where t: "take_sample c o' ''post_release'' s = (s1, r)" by (cases "take_sample c o' ''post_release'' s")
    then obtain xs where s1: "s1 = s\<lparr>su_last_sample := ob_sample_ns o', su_trace := su_trace s @ xs\<rparr>" using take_sampleD by blast
    have k: "safe c s1" "ordered s1" using safe_more_trace assms by (simp_all add: s1)
    moreover have "safe c (s1\<lparr>su_trace := su_trace s1 @ ys\<rparr>)" "ordered (s1\<lparr>su_trace := su_trace s1 @ ys\<rparr>)" for ys
      using k by (auto simp: safe_def ordered_def milestones_def)
    ultimately show ?thesis using post t by (auto simp: gate_def kept_def split: sum.splits)
  qed (use assms in \<open>auto simp: gate_def intro: kept_same\<close>)
qed

lemma kept_exits [kept_intros]: "safe c s \<Longrightarrow> ordered s \<Longrightarrow> kept c (exits c o' s)"
  unfolding exits_def by (auto intro!: kept_intros split: option.split)

lemma kept_step: "safe c s \<Longrightarrow> ordered s \<Longrightarrow> kept c (barrier_step c o' s)"
  unfolding barrier_step_def by (intro kept_intros)

lemma kept_loop: "safe c s \<Longrightarrow> ordered s \<Longrightarrow> kept c (barrier_loop c os s)"
  by (induction os arbitrary: s) (auto intro!: kept_chain kept_same kept_step)

lemma new_sup_safe: "safe c (new_sup t)" "ordered (new_sup t)"
  by (simp_all add: new_sup_def safe_def ordered_def milestones_def)

section \<open>Time\<close>

text \<open>The stamps of a run with a monotonic clock, and what they make of the state.\<close>

fun timely :: "ns \<Rightarrow> obs list \<Rightarrow> bool" where
  "timely t [] = True"
| "timely t (o' # os) \<longleftrightarrow> t \<le> ob_ack_ns o' \<and> rd_end (ob_reading o') \<le> ob_begin_ns o' \<and> ob_begin_ns o' \<le> ob_complete_ns o' \<and>
     ob_ack_ns o' \<le> ob_complete_ns o' \<and> timely (ob_complete_ns o') os"

definition chrono :: "ns \<Rightarrow> sup \<Rightarrow> bool" where
  "chrono t s \<longleftrightarrow>
     (\<forall>b. su_release_begin s = Some b \<longrightarrow> (\<exists>l. su_pre s = Some l \<and> lp_end l \<le> b)) \<and>
     (\<forall>k. su_release_complete s = Some k \<longrightarrow> k \<le> t \<and> (\<exists>b. su_release_begin s = Some b \<and> b \<le> k)) \<and>
     (\<forall>a. su_ack s = Some a \<longrightarrow> (\<exists>k. su_release_complete s = Some k \<and> k \<le> a))"

definition clockwork :: "sup \<Rightarrow> live_probe option \<times> ns option \<times> ns option \<times> ns option" where
  "clockwork s = (su_pre s, su_release_begin s, su_release_complete s, su_ack s)"

lemma chrono_clockwork: "clockwork s' = clockwork s \<Longrightarrow> chrono t s' = chrono t s"
  by (simp add: clockwork_def chrono_def)

lemma clockwork_fail [simp]: "clockwork (fail_with r s) = clockwork s"
  by (simp add: clockwork_def fail_with_def)

lemma clockwork_same:
  "clockwork (fst (get_target o' s)) = clockwork s" "clockwork (fst (deadlines c o' s)) = clockwork s"
  "clockwork (fst (accept_peer o' s)) = clockwork s" "clockwork (fst (receive_block o' s)) = clockwork s"
  "clockwork (fst (take_hello c o' msg s)) = clockwork s" "clockwork (fst (exits c o' s)) = clockwork s"
proof -
  show "clockwork (fst (get_target o' s)) = clockwork s" by (auto simp: get_target_def given_def clockwork_def split: sum.split)
  show "clockwork (fst (deadlines c o' s)) = clockwork s" by (auto simp: deadlines_def)
  show "clockwork (fst (accept_peer o' s)) = clockwork s"
    by (auto simp: accept_peer_def given_def note_event_def Let_def clockwork_def split: sum.split option.split)
  show "clockwork (fst (receive_block o' s)) = clockwork s"
    by (auto simp: receive_block_def given_def check_def Let_def clockwork_def split: sum.split option.split)
  show "clockwork (fst (take_hello c o' msg s)) = clockwork s"
    unfolding take_hello_def checkE by (auto simp: given_def note_event_def Let_def clockwork_def split: sum.split option.split)
  show "clockwork (fst (exits c o' s)) = clockwork s"
    by (auto simp: exits_def given_def split: sum.split option.split)
qed

lemma chain_fst: "P (fst x) \<Longrightarrow> (\<And>s. x = (s, Continue) \<Longrightarrow> P (fst (f s))) \<Longrightarrow> P (fst (chain x f))"
  by (cases x) (auto simp: chain_def)

lemma chrono_ack:
  assumes "chrono t s" "ordered s" "t \<le> ob_ack_ns o'"
  shows "chrono t (fst (take_ack c o' msg s))"
proof -
  have "chrono t (s\<lparr>su_acked := True, su_ack := Some (ob_ack_ns o'), su_events := es\<rparr>)" if "su_release_begin s \<noteq> None" for es
    using assms that by (auto simp: chrono_def ordered_def)
  then show ?thesis using assms(1) unfolding take_ack_def checkE by (auto simp: given_def note_event_def Let_def split: sum.split option.split)
qed

lemma chrono_message:
  assumes "chrono t s" "ordered s" "t \<le> ob_ack_ns o'"
  shows "chrono t (fst (take_message c o' s))"
proof -
  let ?s = "s\<lparr>su_buf := tl (dropWhile (\<lambda>x. x \<noteq> LF) (su_buf s))\<rparr>"
  have c: "clockwork ?s = clockwork s" "ordered ?s" using assms(2) by (auto simp: clockwork_def ordered_def milestones_def)
  then have "chrono t ?s" using chrono_clockwork assms(1) by blast
  then have "chrono t (fst (take_ack c o' msg ?s))" "chrono t (fst (take_hello c o' msg ?s))" for msg
    using chrono_ack [OF _ c(2) assms(3)] chrono_clockwork [OF clockwork_same(5)] by blast+
  with \<open>chrono t ?s\<close> assms(1) show ?thesis by (auto simp: take_message_def Let_def given_def split: sum.split)
qed

lemma chrono_given: "chrono t x \<Longrightarrow> (\<And>y. chrono t (fst (f y))) \<Longrightarrow> chrono t (fst (given r x f))"
  by (cases r) (auto simp: given_def)

lemma chrono_release:
  assumes "chrono t s" "su_release_begin s = None" "lp_end l \<le> ob_begin_ns o'" "ob_begin_ns o' \<le> ob_complete_ns o'" "t \<le> ob_complete_ns o'"
  shows "chrono (ob_complete_ns o') (fst (release c o' l s))"
proof -
  have n: "su_release_complete s = None" "su_ack s = None" using assms(1,2) by (auto simp: chrono_def)
  have sent: "chrono (ob_complete_ns o') (fst (send_release o' (s\<lparr>su_pre := Some l, su_events := es\<rparr>)))" for es
    unfolding send_release_def note_event_def Let_def
    by (intro chrono_given) (simp_all add: chrono_def n assms(3,4))
  have before: "chrono (ob_complete_ns o') (s\<lparr>su_pre := Some l, su_events := es\<rparr>)" for es using n assms(2) by (simp add: chrono_def)
  then have late: "chrono (ob_complete_ns o') (fail_with r (s\<lparr>su_pre := Some l, su_events := es\<rparr>))" for r es using chrono_clockwork [OF clockwork_fail] by blast
  show ?thesis
    unfolding release_def chain_event checkE
    by (auto intro!: chrono_given simp: sent before late)
qed

lemma chrono_gate:
  assumes "chrono t s" "rd_end (ob_reading o') \<le> ob_begin_ns o'" "ob_begin_ns o' \<le> ob_complete_ns o'" "t \<le> ob_complete_ns o'"
  shows "chrono (ob_complete_ns o') (fst (gate c o' s))"
proof -
  have mono: "chrono (ob_complete_ns o') x" if "chrono t x" for x using that assms(4) by (force simp: chrono_def)
  have ends: "lp_end l = rd_end (ob_reading o')" if "take_sample c o' cls s = (s1, Inr (Live l))" for cls s1 l
    using that by (auto simp: take_sample_def Let_def observe_target_def bindr_Inr_iff requires_Inr_iff split: option.splits sum.splits if_splits)
  have keep: "chrono t s1" "su_release_begin s1 = su_release_begin s" "chrono t (s1\<lparr>su_trace := ys\<rparr>)" if "take_sample c o' cls s = (s1, r)" for cls s1 r ys
    using take_sampleD [OF that] assms(1) by (auto simp: chrono_def)
  have rel: "chrono (ob_complete_ns o') (fst (release c o' l s1))" if "take_sample c o' cls s = (s1, Inr (Live l))" "su_release_begin s = None" for cls s1 l
    using chrono_release [OF keep(1) [OF that(1)]] keep(2) [OF that(1)] that(2) ends [OF that(1)] assms(2,3,4) by simp
  show ?thesis
    unfolding gate_def using rel mono [OF keep(1)] mono [OF keep(3)] mono [OF assms(1)]
    by (auto split: prod.split sum.split probe.split)
qed

lemma chrono_step:
  assumes "chrono t s" "safe c s" "ordered s" "timely t (o' # os)"
  shows "chrono (ob_complete_ns o') (fst (barrier_step c o' s))"
proof -
  have t: "t \<le> ob_ack_ns o'" "t \<le> ob_complete_ns o'" using assms(4) by auto
  have mono: "chrono (ob_complete_ns o') x" if "chrono t x" for x using that t(2) by (force simp: chrono_def)
  have same: "chrono t x" if "clockwork x = clockwork y" "chrono t y" for x y using that chrono_clockwork by blast
  define P where "P x \<longleftrightarrow> chrono t x \<and> safe c x \<and> ordered x" for x
  have intake: "chrono t (fst (intake c o' x))" if "P x" for x
  proof -
    have "chrono t (fst (receive_block o' x))" using that same [OF clockwork_same(4)] by (simp add: P_def)
    moreover have "chrono t (fst (take_message c o' y))" if "receive_block o' x = (y, Continue)" for y
      using that \<open>P x\<close> kept_receive [of c x o'] \<open>chrono t (fst (receive_block o' x))\<close> chrono_message [OF _ _ t(1)] by (simp add: P_def kept_def)
    ultimately have "chrono t (fst (chain (receive_block o' x) (take_message c o')))" by (rule chain_fst)
    then show ?thesis using that by (simp add: intake_def P_def)
  qed
  have gate: "chrono (ob_complete_ns o') (fst (chain (gate c o' x) (exits c o')))" if "P x" for x
  proof -
    have "chrono (ob_complete_ns o') (fst (gate c o' x))" using that assms(4) t by (intro chrono_gate [of t]) (auto simp: P_def)
    then show ?thesis by (rule chain_fst) (use \<open>chrono _ (fst (gate c o' x))\<close> chrono_clockwork [OF clockwork_same(6)] in auto)
  qed
  have via: "chrono (ob_complete_ns o') (fst (chain x f))"
    if "chrono t (fst x)" "kept c x" "\<And>y. P y \<Longrightarrow> chrono (ob_complete_ns o') (fst (f y))" for x f
    using that mono by (cases x) (auto simp: chain_def P_def kept_def)
  have 4: "chrono (ob_complete_ns o') (fst (chain (intake c o' x) (\<lambda>s. chain (gate c o' s) (exits c o'))))" if "P x" for x
    by (rule via [OF intake [OF that]]) (use that in \<open>auto simp: P_def intro: kept_intake gate [unfolded P_def]\<close>)
  have 3: "chrono (ob_complete_ns o') (fst (chain (accept_peer o' x) (\<lambda>s. chain (intake c o' s) (\<lambda>s. chain (gate c o' s) (exits c o')))))" if "P x" for x
    by (rule via [OF same [OF clockwork_same(3)]]) (use that in \<open>auto simp: P_def intro: kept_accept 4 [unfolded P_def]\<close>)
  have 2: "chrono (ob_complete_ns o') (fst (chain (deadlines c o' x) (\<lambda>s. chain (accept_peer o' s) (\<lambda>s. chain (intake c o' s) (\<lambda>s. chain (gate c o' s) (exits c o'))))))" if "P x" for x
    by (rule via [OF same [OF clockwork_same(2)]]) (use that in \<open>auto simp: P_def intro: kept_deadlines 3 [unfolded P_def]\<close>)
  show ?thesis
    unfolding barrier_step_def
    by (rule via [OF same [OF clockwork_same(1)]]) (use assms(1,2,3) in \<open>auto simp: P_def intro: kept_get_target 2 [unfolded P_def]\<close>)
qed

lemma chrono_loop:
  assumes "chrono t s" "safe c s" "ordered s" "timely t os"
  shows "\<exists>t'. chrono t' (fst (barrier_loop c os s))"
  using assms
proof (induction os arbitrary: s t)
  case (Cons o' os)
  obtain s1 st where st: "barrier_step c o' s = (s1, st)" by (cases "barrier_step c o' s")
  then have c1: "chrono (ob_complete_ns o') s1" using chrono_step [OF Cons.prems] by simp
  show ?case
  proof (cases "st = Continue")
    case True
    then have "safe c s1" "ordered s1" using kept_step [OF Cons.prems(2,3), of o'] st by (simp_all add: kept_def)
    then show ?thesis using Cons.IH [OF c1] Cons.prems(4) st True by (simp add: chain_def)
  qed (use c1 st in \<open>auto simp: chain_def\<close>)
qed auto

lemma step_continues:
  assumes "barrier_step c o' s = (s', Continue)"
  shows "\<not> ob_pending o'" "ob_now o' - sc_start c \<le> sc_outer c" "su_acked s' \<or> ob_now o' < sc_barrier_deadline c"
proof -
  have ch: "\<exists>y. x = (y, Continue) \<and> f y = (z, Continue)" if "chain x f = (z, Continue)" for x f z
    using that by (cases x) (auto simp: chain_def split: if_splits)
  obtain s1 where "chain (deadlines c o' s1) (\<lambda>s. chain (accept_peer o' s) (\<lambda>s. chain (intake c o' s) (\<lambda>s. chain (gate c o' s) (exits c o')))) = (s', Continue)"
    using ch [OF assms [unfolded barrier_step_def]] by blast
  then obtain s2 where d: "deadlines c o' s1 = (s2, Continue)"
    and r: "chain (accept_peer o' s2) (\<lambda>s. chain (intake c o' s) (\<lambda>s. chain (gate c o' s) (exits c o'))) = (s', Continue)" using ch by blast
  from d show "\<not> ob_pending o'" "ob_now o' - sc_start c \<le> sc_outer c" by (auto simp: deadlines_def split: if_splits)
  from r obtain s3 where "chain (intake c o' s3) (\<lambda>s. chain (gate c o' s) (exits c o')) = (s', Continue)" using ch by blast
  then obtain s4 where "chain (gate c o' s4) (exits c o') = (s', Continue)" using ch by blast
  then obtain s5 where "exits c o' s5 = (s', Continue)" using ch by blast
  then show "su_acked s' \<or> ob_now o' < sc_barrier_deadline c"
    by (auto simp: exits_def given_def fail_with_def split: if_splits sum.splits option.splits)
qed

lemma loop_continues:
  assumes "barrier_loop c os s = (s', Continue)"
  shows "\<forall>o' \<in> set os. \<not> ob_pending o' \<and> ob_now o' - sc_start c \<le> sc_outer c" and "os \<noteq> [] \<Longrightarrow> su_acked s' \<or> ob_now (last os) < sc_barrier_deadline c"
proof -
  have "(\<forall>o' \<in> set os. \<not> ob_pending o' \<and> ob_now o' - sc_start c \<le> sc_outer c) \<and> (os \<noteq> [] \<longrightarrow> su_acked s' \<or> ob_now (last os) < sc_barrier_deadline c)"
    using assms
  proof (induction os arbitrary: s)
    case (Cons o' os)
    then obtain s1 where "barrier_step c o' s = (s1, Continue)" "barrier_loop c os s1 = (s', Continue)"
      by (cases "barrier_step c o' s") (auto simp: chain_def split: if_splits)
    then show ?case using step_continues [of c o' s s1] Cons.IH [of s1] by auto
  qed simp
  then show "\<forall>o' \<in> set os. \<not> ob_pending o' \<and> ob_now o' - sc_start c \<le> sc_outer c" "os \<noteq> [] \<Longrightarrow> su_acked s' \<or> ob_now (last os) < sc_barrier_deadline c" by blast+
qed

section \<open>An example run\<close>

definition ex_target :: proc_id where
  "ex_target = \<lparr>p_pid = 10, p_state = ''S'', p_pgid = 10, p_sid = 10, p_ticks = 7, p_ppid = 9\<rparr>"

definition ex_image :: exe_ref where
  "ex_image = \<lparr>ex_path = ''/x'', ex_dev = 1, ex_ino = 2, ex_sha = ''h''\<rparr>"

definition ex_config :: sup_config where
  "ex_config = \<lparr>sc_role = ''probe'', sc_token = ''k'', sc_uid = 5, sc_page = 4096, sc_start = 0, sc_barrier_deadline = 1000, sc_outer = 5000, sc_exe = ex_image\<rparr>"

definition ex_reading :: "ns \<Rightarrow> reading" where
  "ex_reading t = \<lparr>rd_before = Inr (Some ex_target), rd_exe = Inr ex_image, rd_statm = Inr ''3 2'', rd_after = Inr (Some ex_target),
     rd_exe_again = Inr ex_image, rd_meminfo = Inr ''MemAvailable: 3000000 kB'', rd_start = t, rd_end = t + 1\<rparr>"

definition ex_obs :: "ns \<Rightarrow> string option \<Rightarrow> bool \<Rightarrow> obs" where
  "ex_obs t block gone = \<lparr>ob_owner = Inr (Some ex_target), ob_now = t, ob_pending = False, ob_accept = Inr (Some (10, 5, 5)), ob_recv = Inr block,
     ob_peer_ident = Inr (Some ex_target), ob_peer_exe = Inr ex_image, ob_ack_ns = t + 1, ob_sample_ns = t + 2, ob_reading = ex_reading (t + 2),
     ob_target_ident = Inr (Some ex_target), ob_target_exe = Inr ex_image, ob_pending_late = False, ob_begin_ns = t + 4, ob_send = Inr (),
     ob_complete_ns = t + 5, ob_hook = (\<lambda>_. Inr ()), ob_event_ns = (\<lambda>_. t), ob_gone = (t, t), ob_exited = Inr gone, ob_current = Inr (Some ex_target)\<rparr>"

definition ex_ready :: string where
  "ex_ready = ''{\"version\":1,\"event\":\"ready\",\"token\":\"k\",\"role\":\"probe\",\"pid\":10}'' @ [LF]"

definition ex_released :: string where
  "ex_released = ''{\"version\":1,\"event\":\"released\",\"pid\":10,\"role\":\"probe\"}'' @ [LF]"

definition ex_run :: "obs list" where
  "ex_run = [ex_obs 10 (Some ex_ready) False, ex_obs 20 (Some ex_released) True]"

definition ex_live :: "ns \<Rightarrow> live_probe" where
  "ex_live t = \<lparr>lp_ident = ex_target, lp_exe = ex_image, lp_rss = 8192, lp_available = 3072000000, lp_start = t, lp_end = t + 1\<rparr>"

lemma ex_probed: "observe_target 4096 ex_target (ex_reading t) = Inr (Live (ex_live t))"
proof -
  have "statm_pages ''3 2'' = Inr 2" by code_simp
  moreover have "str_splitlines ''MemAvailable: 3000000 kB'' = [''MemAvailable: 3000000 kB'']" "py_startswith ''MemAvailable: 3000000 kB'' ''MemAvailable:''"
    "nth_res (py_split ''MemAvailable: 3000000 kB'') 1 = Inr ''3000000''" by code_simp+
  moreover have "py_int ''3000000'' = Inr 3000000"
    by (simp add: py_int_def py_nat_def is_digit_def digit_val_def Let_def)
  ultimately have "first_available (str_splitlines ''MemAvailable: 3000000 kB'') = Inr 3000000" by (simp add: second_field_int_def)
  then show ?thesis using \<open>statm_pages ''3 2'' = Inr 2\<close>
    by (simp add: observe_target_def ex_reading_def ex_target_def ps_same_def key_values_def dead_state_def ex_live_def requires_def)
qed

lemma ex_steps:
  "barrier_step ex_config (ex_obs 10 (Some ex_ready) False) (new_sup 1) =
     (\<lparr>su_target = Some ex_target, su_peer = Some (10, 5, 5), su_buf = [], su_hello = True, su_acked = False, su_last_sample = 12, su_release_begin = Some 14,
       su_release_complete = Some 15, su_ack = None, su_pre = Some (ex_live 12), su_reason = None,
       su_events = [(''runner_created'', 1), (''peer_connected'', 10), (''target_identified'', 10), (''sampler_ready'', 10), (''before_release'', 10), (''released'', 10)],
       su_trace = [Sampled ''pre_release'' (Live (ex_live 12))], su_sent = [RELEASE]\<rparr>, Continue)"
proof -
  let ?msg = "JObj [(''version'', JInt 1), (''event'', JStr ''ready''), (''token'', JStr ''k''), (''role'', JStr ''probe''), (''pid'', JInt 10)]"
  have "loads_plain (takeWhile (\<lambda>x. x \<noteq> LF) ex_ready) = Inr ?msg" "LF \<in> set ex_ready" "tl (dropWhile (\<lambda>x. x \<noteq> LF) ex_ready) = []" "length ex_ready \<le> 4096" "ex_ready \<noteq> []"
    by code_simp+
  moreover have "ready_message ex_config ?msg ex_target (10, 5, 5)" by code_simp
  moreover have "sample_ok ex_config ex_target (Live (ex_live t)) = Inr ()" for t
    by (simp add: sample_ok_def ex_config_def ex_live_def ex_target_def ps_same_def key_values_def same_image_def GiB2_def)
  moreover have "lp_exe (ex_live t) = ex_image" "sc_page ex_config = 4096" "same_image ex_image (sc_exe ex_config)" "ps_same (Some ex_target) (Some ex_target)" for t
    by (simp_all add: ex_live_def ex_config_def same_image_def ps_same_def key_values_def)
  moreover have "sc_start ex_config = 0" "sc_outer ex_config = 5000" "sc_barrier_deadline ex_config = 1000" by (simp_all add: ex_config_def)
  ultimately show ?thesis
    unfolding barrier_step_def new_sup_def
    by (simp add: get_target_def deadlines_def accept_peer_def intake_def receive_block_def take_message_def take_hello_def gate_def take_sample_def release_def
        send_release_def exits_def chain_def check_def given_def note_event_def Let_def ex_obs_def ex_probed)
qed

lemma ex_loop: "\<exists>s. barrier_loop ex_config ex_run (new_sup 1) = (s, Break) \<and> su_acked s"
proof -
  let ?msg = "JObj [(''version'', JInt 1), (''event'', JStr ''released''), (''pid'', JInt 10), (''role'', JStr ''probe'')]"
  have "loads_plain (takeWhile (\<lambda>x. x \<noteq> LF) ex_released) = Inr ?msg" "LF \<in> set ex_released" "tl (dropWhile (\<lambda>x. x \<noteq> LF) ex_released) = []"
    "length ex_released \<le> 4096" "ex_released \<noteq> []" by code_simp+
  moreover have "py_eq ?msg (released_message ex_config ex_target)" by code_simp
  moreover have "sc_start ex_config = 0" "sc_outer ex_config = 5000" "sc_barrier_deadline ex_config = 1000" by (simp_all add: ex_config_def)
  ultimately show ?thesis
    unfolding ex_run_def barrier_loop.simps ex_steps
    by (simp add: barrier_step_def get_target_def deadlines_def accept_peer_def intake_def receive_block_def take_message_def take_ack_def gate_def
        exits_def chain_def check_def given_def note_event_def Let_def ex_obs_def)
qed

lemma ex_timely: "timely 0 ex_run"
  by (simp add: ex_run_def ex_obs_def ex_reading_def)

section \<open>Properties\<close>

text \<open>
  C27: the gate opens once and only behind evidence: in every run of the barrier, whatever the host,
  the peer and the signals do and wherever it stops, either nothing was released or exactly one
  release was sent, to a peer with the pid of the published target and our uid, behind a recorded
  live pre-release sample of that same process, of the approved image and within the memory limits.
\<close>

theorem release_gated:
  "let s = fst (barrier_loop c os (new_sup t)) in
   su_release_begin s = None \<and> su_sent s = [] \<or>
   su_sent s = [RELEASE] \<and> su_hello s \<and>
     (\<exists>tg peer l. su_target s = Some tg \<and> su_peer s = Some peer \<and> fst peer = p_pid tg \<and> fst (snd peer) = sc_uid c \<and>
       su_pre s = Some l \<and> Sampled ''pre_release'' (Live l) \<in> set (su_trace s) \<and> opens c tg l)"
proof -
  have "safe c (fst (barrier_loop c os (new_sup t)))" using kept_loop [OF new_sup_safe] by (simp add: kept_def)
  then show ?thesis by (auto simp: safe_def Let_def)
qed

text \<open>
  C28: a completed handshake leaves the whole story behind: when the loop ends acknowledged and not
  by an exception, the events are the seven milestones in their order, each once, and with a
  monotonic clock the pre-release sample ended before the release began, which ended before the
  acknowledgement.
\<close>

theorem acknowledged_in_order:
  assumes "barrier_loop c os (new_sup t) = (s, st)" "\<not> raised st" "su_acked s" "timely u os"
  shows "map fst (su_events s) = [''runner_created'', ''peer_connected'', ''target_identified'', ''sampler_ready'', ''before_release'', ''released'', ''target_acknowledged''] \<and>
    (\<exists>l b k a. su_pre s = Some l \<and> su_release_begin s = Some b \<and> su_release_complete s = Some k \<and> su_ack s = Some a \<and> lp_end l \<le> b \<and> b \<le> k \<and> k \<le> a)"
proof -
  have k: "safe c s" "ordered s" using kept_loop [OF new_sup_safe, of c os t] assms(1,2) by (simp_all add: kept_def)
  have "chrono u (new_sup t)" by (simp add: chrono_def new_sup_def)
  from chrono_loop [OF this new_sup_safe assms(4)] obtain t' where ch: "chrono t' s" using assms(1) by (metis fst_conv)
  have h: "su_hello s" "su_peer s \<noteq> None" "su_release_begin s \<noteq> None" "su_release_complete s \<noteq> None" "su_ack s \<noteq> None"
    using k assms(3) by (auto simp: safe_def ordered_def)
  then have "map fst (su_events s) = [''runner_created'', ''peer_connected'', ''target_identified'', ''sampler_ready'', ''before_release'', ''released'', ''target_acknowledged'']"
    using k(2) assms(3) by (simp add: ordered_def milestones_def)
  moreover have "\<exists>l b k a. su_pre s = Some l \<and> su_release_begin s = Some b \<and> su_release_complete s = Some k \<and> su_ack s = Some a \<and> lp_end l \<le> b \<and> b \<le> k \<and> k \<le> a"
    using ch h unfolding chrono_def by fastforce
  ultimately show ?thesis by blast
qed

theorem acknowledged_in_order_witness:
  "\<exists>s. barrier_loop ex_config ex_run (new_sup 1) = (s, Break) \<and> length (su_events s) = 7"
proof -
  obtain s where s: "barrier_loop ex_config ex_run (new_sup 1) = (s, Break)" "su_acked s" using ex_loop by blast
  have "map fst (su_events s) = [''runner_created'', ''peer_connected'', ''target_identified'', ''sampler_ready'', ''before_release'', ''released'', ''target_acknowledged'']"
    using acknowledged_in_order [OF s(1) _ s(2) ex_timely] by simp
  then have "length (map fst (su_events s)) = 7" by simp
  then have "length (su_events s) = 7" by simp
  with s(1) show ?thesis by blast
qed

text \<open>
  C29: the barrier is bounded: a loop that is still running has seen no interrupt and no reading of
  the clock past the outer budget, and at or past the barrier's deadline it runs on only when the
  target has acknowledged.
\<close>

theorem barrier_bounded:
  assumes "barrier_loop c os s = (s', Continue)" "os \<noteq> []"
  shows "(\<forall>o' \<in> set os. \<not> ob_pending o' \<and> ob_now o' \<le> sc_start c + sc_outer c) \<and>
    (sc_barrier_deadline c \<le> ob_now (last os) \<longrightarrow> su_acked s')"
  using loop_continues [OF assms(1)] assms(2) by force

theorem barrier_bounded_witness:
  "\<exists>s'. barrier_loop ex_config [ex_obs 10 (Some ex_ready) False] (new_sup 1) = (s', Continue) \<and> ob_now (ex_obs 10 (Some ex_ready) False) \<le> sc_start ex_config + sc_outer ex_config"
proof -
  obtain s' where s: "barrier_step ex_config (ex_obs 10 (Some ex_ready) False) (new_sup 1) = (s', Continue)" using ex_steps by blast
  then have "barrier_loop ex_config [ex_obs 10 (Some ex_ready) False] (new_sup 1) = (s', Continue)" by (simp add: chain_def)
  from this barrier_bounded [OF this] show ?thesis by (intro exI [of _ s']) simp
qed

end
