(* ===== verification/Supervise.thy ===== *)
theory Supervise
  imports Barrier
begin

text \<open>
  The end of a supervised run, \<^verbatim>\<open>supervise.py\<close>: \<open>finish\<close> stops and reaps what is left, the record
  that is published is derived from the state of the barrier, the trace and the runner's own report,
  and \<^verbatim>\<open>resource_audit.py\<close> recomputes the published numbers from the trace.
\<close>

section \<open>Finishing\<close>

record fin =
  fn_signals :: "string list"
  fn_errors :: "(string \<times> string) list"
  fn_reaped :: "bool option"
  fn_residual :: "proc_id list option"
  fn_exit :: "int option"
  fn_success :: bool

record fin_world = world +
  fin :: fin

definition set_fin :: "(fin \<Rightarrow> fin) \<Rightarrow> ('b fin_world_scheme, unit) io" where
  "set_fin f = modify (\<lambda>w. w\<lparr>fin := f (fin w)\<rparr>)"

definition note_error :: "py_error \<Rightarrow> ('b fin_world_scheme, unit) io" where
  "note_error e = set_fin (\<lambda>f. f\<lparr>fn_errors := fn_errors f @ [(error_type e, error_message e)]\<rparr>)"

definition signal_members :: "kernel \<Rightarrow> string \<Rightarrow> proc_id option \<Rightarrow> int \<Rightarrow> ('b fin_world_scheme, unit) io" where
  "signal_members K what own number =
     bindi (ps_members K own) (\<lambda>ms.
       if ms = [] then ret ()
       else bindi (ps_send K own number) (\<lambda>_. set_fin (\<lambda>f. f\<lparr>fn_signals := fn_signals f @ [what]\<rparr>)))"

fun drain :: "nat \<Rightarrow> kernel \<Rightarrow> ns \<Rightarrow> proc_id option \<Rightarrow> proc_id option \<Rightarrow> ('b fin_world_scheme, unit) io" where
  "drain 0 K deadline runner target = (\<lambda>w. None)"
| "drain (Suc n) K deadline runner target =
     bindi (clock K) (\<lambda>now.
       if deadline \<le> now then ret ()
       else bindi (ps_members K runner) (\<lambda>rs.
         bindi (if rs \<noteq> [] then ret rs else ps_members K target) (\<lambda>ms.
           if ms = [] then ret () else bindi sleep (\<lambda>_. drain n K deadline runner target))))"

definition stop_all :: "nat \<Rightarrow> kernel \<Rightarrow> int \<Rightarrow> proc_id option \<Rightarrow> proc_id option \<Rightarrow> ('b fin_world_scheme, unit) io" where
  "stop_all n K pid runner target =
     bindi (signal_members K ''runner_SIGTERM'' runner SIGTERM) (\<lambda>_.
     bindi (clock K) (\<lambda>now.
     bindi (drain n K (now + 5 * second) runner target) (\<lambda>_.
     bindi (signal_members K ''target_SIGKILL'' target SIGKILL) (\<lambda>_.
     bindi (signal_members K ''runner_SIGKILL'' runner SIGKILL) (\<lambda>_.
     bindi (sys (\<lambda>t. k_wait K t pid)) (\<lambda>code.
     bindi (emit (Reaped pid code)) (\<lambda>_.
       set_fin (\<lambda>f. f\<lparr>fn_exit := Some code, fn_reaped := Some True\<rparr>))))))))"

definition residual :: "kernel \<Rightarrow> proc_id option \<Rightarrow> proc_id option \<Rightarrow> ('b fin_world_scheme, unit) io" where
  "residual K runner target =
     bindi (ps_members K runner) (\<lambda>rs. bindi (ps_members K target) (\<lambda>ts. set_fin (\<lambda>f. f\<lparr>fn_residual := Some (rs @ ts)\<rparr>)))"

definition finish_body :: "nat \<Rightarrow> kernel \<Rightarrow> int \<Rightarrow> proc_id option \<Rightarrow> proc_id option \<Rightarrow> ('b fin_world_scheme, fin) io" where
  "finish_body n K pid runner target =
     bindi (attempt (stop_all n K pid runner target)) (\<lambda>r.
     bindi (case r of Inr u \<Rightarrow> ret () | Inl e \<Rightarrow> note_error e) (\<lambda>_.
     bindi (attempt (residual K runner target)) (\<lambda>r.
     bindi (case r of Inr u \<Rightarrow> ret () | Inl e \<Rightarrow> note_error e) (\<lambda>_.
     bindi (set_fin (\<lambda>f. f\<lparr>fn_success := fn_reaped f = Some True \<and> fn_residual f = Some [] \<and> fn_errors f = []\<rparr>)) (\<lambda>_.
       gets fin)))))"

definition new_fin :: fin where
  "new_fin = \<lparr>fn_signals = [], fn_errors = [], fn_reaped = Some False, fn_residual = None, fn_exit = None, fn_success = False\<rparr>"

text \<open>Without a process there is nothing to stop.\<close>

definition finish :: "nat \<Rightarrow> kernel \<Rightarrow> int option \<Rightarrow> proc_id option \<Rightarrow> proc_id option \<Rightarrow> ('b world_scheme, fin) io" where
  "finish n K proc runner target = (case proc of
      None \<Rightarrow> ret (new_fin\<lparr>fn_success := True, fn_reaped := None, fn_residual := Some []\<rparr>)
    | Some pid \<Rightarrow> (\<lambda>w.
        case finish_body n K pid runner target (world.extend (world.truncate w) (fin_world.fields new_fin)) of
          None \<Rightarrow> None
        | Some (r, w') \<Rightarrow> Some (r, w\<lparr>tick := tick w', log := log w'\<rparr>)))"

section \<open>What finishing does to the host\<close>

text \<open>A signal goes to the group of a leader that was read back from the kernel in the call before it.\<close>

definition addressed :: "kernel \<Rightarrow> proc_id option \<Rightarrow> int \<Rightarrow> nat \<Rightarrow> bool" where
  "addressed K own g t \<longleftrightarrow> (\<exists>o' cur t0. own = Some o' \<and> g = p_pgid o' \<and> safe_anchor K o' \<and> t = Suc t0 \<and> seen_as K t0 (p_pid o') cur \<and> ps_same (Some o') (Some cur))"

fun permitted :: "kernel \<Rightarrow> int \<Rightarrow> proc_id option \<Rightarrow> proc_id option \<Rightarrow> effect \<Rightarrow> bool" where
  "permitted K pid runner target (Killpg g s t) \<longleftrightarrow>
     s \<in> {SIGTERM, SIGKILL} \<and> addressed K runner g t \<or> s = SIGKILL \<and> addressed K target g t"
| "permitted K pid runner target (Reaped p code) \<longleftrightarrow> p = pid"
| "permitted K pid runner target _ \<longleftrightarrow> False"

lemma logs_set_fin [logs_intros]: "logs P (set_fin f)" "logs P (note_error e)"
  by (auto simp: logs_def set_fin_def note_error_def io_simps)

lemma logs_ps_send:
  assumes "\<And>g t. addressed K own g t \<Longrightarrow> P (Killpg g number t)"
  shows "logs P (ps_send K own number)"
proof (cases own)
  case None
  then show ?thesis by (simp add: ps_send_def logs_basic)
next
  case (Some o')
  show ?thesis
  proof (rule logsI)
    fix w r w' assume run: "ps_send K own number w = Some (r, w')"
    from run consider (raised) e where "ps_identity K (p_pid o') w = Some (Inl e, w')"
      | (read) i w1 where "ps_identity K (p_pid o') w = Some (Inr i, w1)"
          "(if \<not> ps_same (Some o') i then raise (RuntimeError ''unverifiable_session_anchor'')
            else if \<not> safe_anchor K o' then raise (RuntimeError ''unsafe_session_anchor'')
            else bindi (attempt (killpg K (p_pgid o') number)) (\<lambda>r. case r of Inl e \<Rightarrow> if e = ProcessLookupError then ret () else raise e | Inr u \<Rightarrow> ret ())) w1 = Some (r, w')"
      unfolding ps_send_def Some by (auto simp: bindi_Some_iff)
    then show "(\<exists>xs. log w' = log w @ xs \<and> (\<forall>x \<in> set xs. P x)) \<and> tick w \<le> tick w'"
    proof cases
      case raised
      then show ?thesis using logs_quietD [OF logs_ps_identity raised] by simp
    next
      case read
      note q = logs_quietD [OF logs_ps_identity read(1)]
      show ?thesis
      proof (cases "ps_same (Some o') i \<and> safe_anchor K o'")
        case True
        then obtain cur where cur: "i = Some cur" by (cases i) (auto simp: ps_same_def)
        have at: "seen_as K (tick w) (p_pid o') cur" "w1 = w\<lparr>tick := Suc (tick w)\<rparr>" using ps_identity_SomeD read(1) cur by blast+
        have "log w' = log w @ [Killpg (p_pgid o') number (Suc (tick w))]" "tick w \<le> tick w'"
          using read(2) True at(2) by (auto simp: io_simps killpg_def split: sum.splits if_splits)
        moreover have "addressed K own (p_pgid o') (Suc (tick w))" using Some True cur at(1) unfolding addressed_def by blast
        ultimately show ?thesis using assms by auto
      qed (use read(2) q in \<open>auto simp: io_simps split: if_splits\<close>)
    qed
  qed
qed

lemma logs_signal_members:
  "(\<And>g t. addressed K own g t \<Longrightarrow> P (Killpg g number t)) \<Longrightarrow> logs P (signal_members K what own number)"
  unfolding signal_members_def by (auto intro!: logs_intros logs_ps_send)

lemma logs_drain [logs_intros]: "logs P (drain n K d runner target)"
proof (induction n)
  case 0
  show ?case by (simp add: logs_def)
next
  case (Suc n)
  then show ?case by (auto intro!: logs_intros)
qed

lemma logs_finish_body: "logs (permitted K pid runner target) (finish_body n K pid runner target)"
  unfolding finish_body_def stop_all_def residual_def
  by (intro logs_intros logs_signal_members) (auto split: sum.split intro!: logs_intros)

section \<open>Finishing ends, and what success says\<close>

lemma total_set_fin [total_intros]: "total (set_fin f)" "total (note_error e)"
  by (auto simp: set_fin_def note_error_def intro: total_intros)

lemma total_ps_members [total_intros]: "total (ps_members K own)"
proof -
  have "total (ps_scan K sid names)" for sid names by (induction names) (auto intro!: total_intros)
  then show ?thesis unfolding ps_members_def by (cases own) (auto intro!: total_intros)
qed

lemma total_signal_members [total_intros]: "total (signal_members K what own number)"
proof -
  have "total (ps_send K own number)" unfolding ps_send_def by (auto split: option.split sum.split intro!: total_intros)
  then show ?thesis unfolding signal_members_def by (auto intro!: total_intros)
qed

lemma drain_settles:
  assumes "\<forall>t\<ge>T. deadline \<le> k_clock K t"
  shows "settles (\<lambda>n. drain n K deadline runner target) w"
proof (induction "T - tick w" arbitrary: w rule: less_induct)
  case less
  have "settles (\<lambda>n. drain (Suc n) K deadline runner target) w"
    unfolding drain.simps
  proof (rule settles_bindi [OF settles_total [OF total_sys(2)]])
    fix now w1 assume c: "clock K w = Some (Inr now, w1)"
    show "settles (\<lambda>n. if deadline \<le> now then ret () else bindi (ps_members K runner) (\<lambda>rs.
         bindi (if rs \<noteq> [] then ret rs else ps_members K target) (\<lambda>ms.
           if ms = [] then ret () else bindi sleep (\<lambda>_. drain n K deadline runner target)))) w1"
    proof (intro settles_if settles_bindi [OF settles_total] settles_total)
      fix rs w2 ms w3 u w4
      assume late: "\<not> deadline \<le> now" and m: "ps_members K runner w1 = Some (Inr rs, w2)"
        "(if rs \<noteq> [] then ret rs else ps_members K target) w2 = Some (Inr ms, w3)" "sleep w3 = Some (Inr u, w4)"
      have "\<not> T \<le> tick w" using c late assms by (auto simp: clock_def sys_def)
      moreover have "tick w1 \<le> tick w2" using logs_quietD [OF logs_ps_members m(1)] by simp
      moreover have "tick w2 \<le> tick w3" using m(2) logs_quietD [OF logs_ps_members, of K target w2] by (auto simp: io_simps split: if_splits)
      moreover have "tick w < tick w1" "tick w3 < tick w4" using c m(3) by (auto simp: clock_def sleep_def sys_def)
      ultimately show "settles (\<lambda>n. drain n K deadline runner target) w4" by (intro less) simp
    qed (auto intro: total_intros)
  qed
  then show ?case by (rule settles_Suc)
qed

lemma finish_settles:
  assumes "clock_diverges K"
  shows "settles (\<lambda>n. finish n K proc runner target) w"
proof (cases proc)
  case (Some pid)
  have stop: "settles (\<lambda>n. stop_all n K pid runner target) v" for v :: fin_world
    unfolding stop_all_def
  proof (rule settles_bindi [OF settles_total [OF total_signal_members]], rule settles_bindi [OF settles_total [OF total_sys(2)]], rule settles_bindi)
    fix now :: ns and v1 v2 :: fin_world
    obtain T where "\<forall>t\<ge>T. now + 5 * second \<le> k_clock K t" using assms unfolding clock_diverges_def by blast
    then show "settles (\<lambda>n. drain n K (now + 5 * second) runner target) v2" by (rule drain_settles)
  qed (rule settles_total, auto intro!: total_intros)
  have "settles (\<lambda>n. finish_body n K pid runner target) v" for v :: fin_world
    unfolding finish_body_def residual_def
    by (rule settles_bindi, rule settles_attempt, rule stop, rule settles_total) (auto split: sum.split intro!: total_intros)
  then obtain n0 x where "\<forall>n\<ge>n0. finish_body n K pid runner target (world.extend (world.truncate w) (fin_world.fields new_fin)) = Some x"
    unfolding settles_def by blast
  then show ?thesis unfolding settles_def finish_def Some
    by (intro exI [of _ n0] exI [of _ "(fst x, w\<lparr>tick := tick (snd x), log := log (snd x)\<rparr>)"]) (auto split: prod.split)
qed (auto simp: finish_def settles_def io_simps)

lemma keeps_fin_quiet [keeps_intros]: "keeps fin (ps_members K own)" "keeps fin (ps_send K own number)"
proof -
  have i: "keeps fin (ps_identity K pid)" for pid
    unfolding ps_identity_def by (intro keeps_intros keeps_sys) (auto split: sum.split intro!: keeps_intros)
  have s: "keeps fin (ps_scan K sid names)" for sid names by (induction names) (auto intro!: keeps_intros i)
  show "keeps fin (ps_members K own)" unfolding ps_members_def by (cases own) (auto intro!: keeps_intros keeps_sys s)
  have k: "keeps fin (killpg K g n)" for g n by (auto simp: keeps_def killpg_def)
  show "keeps fin (ps_send K own number)" unfolding ps_send_def by (auto split: option.split sum.split intro!: keeps_intros i k)
qed

lemma residual_run:
  assumes "residual K runner target w = Some (Inr u, w')"
  obtains rs ts w1 w2 where "ps_members K runner w = Some (Inr rs, w1)" "ps_members K target w1 = Some (Inr ts, w2)"
    "w' = w2\<lparr>fin := (fin w)\<lparr>fn_residual := Some (rs @ ts)\<rparr>\<rparr>"
proof -
  from assms obtain rs ts w1 w2 where m: "ps_members K runner w = Some (Inr rs, w1)" "ps_members K target w1 = Some (Inr ts, w2)"
    "w' = w2\<lparr>fin := (fin w2)\<lparr>fn_residual := Some (rs @ ts)\<rparr>\<rparr>"
    unfolding residual_def by (auto simp: bindi_Some_iff set_fin_def io_simps)
  moreover have "fin w2 = fin w" using keepsD [OF keeps_fin_quiet(1) m(1)] keepsD [OF keeps_fin_quiet(1) m(2)] by simp
  ultimately show ?thesis using that by metis
qed

lemma stop_all_run:
  assumes "stop_all n K pid runner target w = Some (Inr u, w')"
  obtains code where "Reaped pid code \<in> set (log w')" "fn_exit (fin w') = Some code"
proof -
  from assms obtain code w1 where "bindi (emit (Reaped pid code)) (\<lambda>_. set_fin (\<lambda>f. f\<lparr>fn_exit := Some code, fn_reaped := Some True\<rparr>)) w1 = Some (Inr u, w')"
    unfolding stop_all_def by (auto simp: bindi_Some_iff)
  then have "log w' = log w1 @ [Reaped pid code]" "fn_exit (fin w') = Some code"
    by (auto simp: bindi_Some_iff emit_def set_fin_def io_simps)
  then show ?thesis using that by simp
qed

text \<open>The two closing scans of a finish that counts as a success.\<close>

definition cleared :: "kernel \<Rightarrow> proc_id option \<Rightarrow> proc_id option \<Rightarrow> nat \<Rightarrow> bool" where
  "cleared K runner target t \<longleftrightarrow> (\<exists>w0 w1 w2 :: fin_world. ps_members K runner w0 = Some (Inr [], w1) \<and> ps_members K target w1 = Some (Inr [], w2) \<and> tick w2 = t)"

lemma finish_body_success:
  fixes w :: fin_world
  assumes "finish_body n K pid runner target w = Some (Inr f, w')" "fn_success f"
  shows "fn_errors f = [] \<and> fn_residual f = Some [] \<and> cleared K runner target (tick w') \<and> (\<exists>code. fn_exit f = Some code \<and> Reaped pid code \<in> set (log w'))"
proof -
  from assms(1) obtain r1 w1 w2 r2 w3 w4 where
    a: "stop_all n K pid runner target w = Some (r1, w1)" and b: "(case r1 of Inr u \<Rightarrow> ret () | Inl e \<Rightarrow> note_error e) w1 = Some (Inr (), w2)"
    and c: "residual K runner target w2 = Some (r2, w3)" and d: "(case r2 of Inr u \<Rightarrow> ret () | Inl e \<Rightarrow> note_error e) w3 = Some (Inr (), w4)"
    and f: "f = (fin w4)\<lparr>fn_success := fn_reaped (fin w4) = Some True \<and> fn_residual (fin w4) = Some [] \<and> fn_errors (fin w4) = []\<rparr>"
    and w': "log w' = log w4" "tick w' = tick w4"
    unfolding finish_body_def by (auto simp: bindi_Some_iff attempt_Some_iff set_fin_def io_simps)
  have g: "fn_residual (fin w4) = Some []" "fn_errors (fin w4) = []" using assms(2) by (simp_all add: f)
  obtain u2 where r2: "r2 = Inr u2" using d g(2) by (cases r2) (auto simp: note_error_def set_fin_def io_simps)
  then have w4: "w4 = w3" using d by (simp add: io_simps)
  obtain rs ts v1 v2 where m: "ps_members K runner w2 = Some (Inr rs, v1)" "ps_members K target v1 = Some (Inr ts, v2)"
    "w3 = v2\<lparr>fin := (fin w2)\<lparr>fn_residual := Some (rs @ ts)\<rparr>\<rparr>" using residual_run [OF c [unfolded r2]] .
  obtain u1 where r1: "r1 = Inr u1" using b g(2) w4 m(3) by (cases r1) (auto simp: note_error_def set_fin_def io_simps)
  then have w2: "w2 = w1" using b by (simp add: io_simps)
  obtain code where code: "Reaped pid code \<in> set (log w1)" "fn_exit (fin w1) = Some code" using stop_all_run [OF a [unfolded r1]] .
  have "log v2 = log w1" using logs_quietD [OF logs_ps_members m(1)] logs_quietD [OF logs_ps_members m(2)] w2 by simp
  moreover have "cleared K runner target (tick w')" unfolding cleared_def using m g w4 w' by (intro exI [of _ w2] exI [of _ v1] exI [of _ v2]) simp
  ultimately show ?thesis using code g f w4 w2 m(3) w' by auto
qed

lemma no_raise_finish: "no_raise (finish n K proc runner target)"
proof (cases proc)
  case (Some pid)
  have "no_raise (finish_body n K pid runner target)"
    unfolding finish_body_def set_fin_def note_error_def
    by (intro no_raise_intros) (auto split: sum.split intro!: no_raise_intros)
  then show ?thesis by (auto simp: no_raise_def finish_def Some split: option.splits)
qed (auto simp: finish_def no_raise_def io_simps)

lemma finish_log:
  assumes "finish n K (Some pid) runner target w = Some (r, w')"
  shows "\<exists>xs. log w' = log w @ xs \<and> (\<forall>x \<in> set xs. permitted K pid runner target x)"
proof -
  from assms obtain v where v: "finish_body n K pid runner target (world.extend (world.truncate w) (fin_world.fields new_fin)) = Some (r, v)" "log w' = log v"
    unfolding finish_def by (auto split: option.splits)
  have "log (world.extend (world.truncate w) (fin_world.fields new_fin) :: fin_world) = log w" by (simp add: world.defs)
  then show ?thesis using logsD [OF logs_finish_body v(1)] v(2) by simp
qed

lemma finish_success:
  assumes "finish n K (Some pid) runner target w = Some (Inr f, w')" "fn_success f"
  shows "fn_errors f = [] \<and> fn_residual f = Some [] \<and> cleared K runner target (tick w') \<and> (\<exists>code. fn_exit f = Some code \<and> Reaped pid code \<in> set (log w'))"
proof -
  from assms(1) obtain v where v: "finish_body n K pid runner target (world.extend (world.truncate w) (fin_world.fields new_fin)) = Some (Inr f, v)"
    "log w' = log v" "tick w' = tick v"
    unfolding finish_def by (auto split: option.splits)
  show ?thesis using finish_body_success [OF v(1) assms(2)] v(2,3) by simp
qed

lemma example_ps_identity:
  "ps_identity example_host 100 w =
     Some (Inr (Some (if tick w < 8 then example_owner else example_owner\<lparr>p_state := ''Z''\<rparr>)), w\<lparr>tick := Suc (tick w)\<rparr>)"
  by (simp add: ps_identity_def run_steps example_kernel example_stat)

lemma example_members:
  "ps_members example_host (Some example_owner) w = Some (Inr (if tick w < 7 then [example_owner] else []), w\<lparr>tick := tick w + 2\<rparr>)"
  "ps_members example_host None w = Some (Inr [], w)"
  by (simp_all add: ps_members_def run_steps example_kernel example_numbers example_ps_identity dead_state_def example_owner_def)

lemmas finish_steps = finish_def finish_body_def stop_all_def residual_def signal_members_def set_fin_def note_error_def ps_send_def run_steps

lemma ex_finish:
  obtains f w' where "finish (Suc (Suc 0)) example_host (Some 100) (Some example_owner) None fresh = Some (Inr f, w')" "fn_success f"
    "log w' = [Killpg 100 SIGTERM 3, Reaped 100 0]"
proof -
  have own: "p_pid example_owner = 100" "p_pgid example_owner = 100" "p_sid example_owner = 100" by (simp_all add: example_owner_def)
  have "case finish (Suc (Suc 0)) example_host (Some 100) (Some example_owner) None fresh of Some (Inr f, w') \<Rightarrow>
      fn_success f \<and> log w' = [Killpg 100 SIGTERM 3, Reaped 100 0] | _ \<Rightarrow> False"
    by (simp add: finish_steps example_members example_ps_identity example_kernel fresh_def new_fin_def world.defs fin_world.defs ps_same_def key_values_def
        safe_anchor_def own second_def)
  then show ?thesis unfolding run_outcome_iff using that by blast
qed

section \<open>Properties of finishing\<close>

text \<open>
  C30: finishing touches only what the supervisor started: the only processes it signals are the
  groups of the runner (terminate, then kill) and of the target (kill), each time as a session
  leader other than PID 1 and our own group whose identity was read back in the call before, and
  the only process it reaps is the runner.
\<close>

theorem finish_lawful:
  assumes "finish n K (Some pid) runner target w = Some (r, w')"
  shows "\<exists>xs. log w' = log w @ xs \<and> (\<forall>x \<in> set xs. permitted K pid runner target x)"
  using assms by (rule finish_log)

theorem finish_lawful_witness:
  "permitted example_host 100 (Some example_owner) None (Killpg 100 SIGTERM 3)"
proof -
  have 0: "log fresh = []" by (simp add: fresh_def)
  obtain f w' where "finish (Suc (Suc 0)) example_host (Some 100) (Some example_owner) None fresh = Some (Inr f, w')" "log w' = [Killpg 100 SIGTERM 3, Reaped 100 0]"
    by (rule ex_finish)
  then show ?thesis using finish_lawful [of "Suc (Suc 0)" example_host 100 "Some example_owner" None fresh "Inr f" w'] 0 by auto
qed

text \<open>
  C31: finishing always reports: with a clock that advances and enough fuel it returns and never
  raises, whatever the host does, and a reported success means that no error occurred, the runner
  was reaped with the recorded status, and the last two scans found neither session alive.
\<close>

theorem finish_reports:
  assumes "clock_diverges K"
  shows "\<exists>n0 f w'. (\<forall>n\<ge>n0. finish n K (Some pid) runner target w = Some (Inr f, w')) \<and>
    (fn_success f \<longrightarrow> fn_errors f = [] \<and> fn_residual f = Some [] \<and> cleared K runner target (tick w') \<and> (\<exists>code. fn_exit f = Some code \<and> Reaped pid code \<in> set (log w')))"
proof -
  obtain n0 x where x: "\<forall>n\<ge>n0. finish n K (Some pid) runner target w = Some x" using finish_settles [OF assms] unfolding settles_def by blast
  obtain r w' where rw: "x = (r, w')" by (cases x)
  obtain f where f: "r = Inr f" using no_raiseD [OF no_raise_finish, of n0 K "Some pid" runner target w r w'] x rw by auto
  then have "fn_success f \<longrightarrow> fn_errors f = [] \<and> fn_residual f = Some [] \<and> cleared K runner target (tick w') \<and> (\<exists>code. fn_exit f = Some code \<and> Reaped pid code \<in> set (log w'))"
    using finish_success [of n0 K pid runner target w f w'] x rw by blast
  then show ?thesis using x rw f by blast
qed

theorem finish_reports_witness:
  "\<exists>n0 f w'. \<forall>n\<ge>n0. finish n example_host (Some 100) (Some example_owner) None fresh = Some (Inr f, w')"
  using finish_reports [OF example_diverges, of 100 "Some example_owner" None fresh] by blast

end
