(* ===== verification/Resource_Audit.thy ===== *)
theory Resource_Audit
  imports Supervise
begin

text \<open>
  The published record of a supervised run (the end of \<^verbatim>\<open>supervise.py\<close>) and its independent audit,
  \<^verbatim>\<open>resource_audit.py\<close>. Both read the trace back as JSON; comparisons of values that are not numbers
  count as \<open>TypeError\<close>.
\<close>

section \<open>The trace as JSON\<close>

definition RUNNER_SHA :: string where
  "RUNNER_SHA = ''b31448c0114902b9f4888077e26f6153453c7f413bf73ad58244a31c3cd6b9ce''"

definition proc_json :: "proc_id \<Rightarrow> json" where
  "proc_json i = JObj [(''pid'', JInt (p_pid i)), (''state'', JStr (p_state i)), (''ppid'', JInt (p_ppid i)), (''pgid'', JInt (p_pgid i)),
     (''sid'', JInt (p_sid i)), (''start_ticks'', JInt (p_ticks i))]"

definition exe_json :: "exe_ref \<Rightarrow> json" where
  "exe_json e = JObj [(''path'', JStr (ex_path e)), (''device'', JInt (ex_dev e)), (''inode'', JInt (ex_ino e)), (''sha256'', JStr (ex_sha e))]"

fun row_of :: "trace_row \<Rightarrow> json" where
  "row_of (Missing why cls a b) = JObj [(''valid'', JBool False), (''live'', JBool False), (''missing'', JStr why), (''classification'', JStr cls),
     (''start_ns'', JInt a), (''end_ns'', JInt b)]"
| "row_of (Sampled cls (NotLive i a b)) = JObj [(''valid'', JBool True), (''live'', JBool False), (''identity'', proc_json i), (''start_ns'', JInt a),
     (''end_ns'', JInt b), (''rss_bytes'', JNull), (''missing'', JStr ''not_live''), (''classification'', JStr cls)]"
| "row_of (Sampled cls (Live l)) = JObj [(''valid'', JBool True), (''live'', JBool True), (''identity'', proc_json (lp_ident l)), (''executable'', exe_json (lp_exe l)),
     (''rss_bytes'', JInt (lp_rss l)), (''system_available_bytes'', JInt (lp_available l)), (''start_ns'', JInt (lp_start l)), (''end_ns'', JInt (lp_end l)),
     (''classification'', JStr cls)]"

definition live_rows :: "json list \<Rightarrow> json list" where
  "live_rows rows = filter (\<lambda>s. truthy (jget s ''valid'') \<and> truthy (jget s ''live'')) rows"

definition classified :: "string \<Rightarrow> json list \<Rightarrow> json list" where
  "classified cls rows = filter (\<lambda>s. jget s ''classification'' = JStr cls) rows"

text \<open>\<open>max((s['rss_bytes'] for s in rows), default=None)\<close>: the first of the largest numbers.\<close>

definition larger :: "json \<Rightarrow> json \<Rightarrow> json" where
  "larger m x = (case (num_of x, num_of m) of (Some a, Some b) \<Rightarrow> if dec_le a b then m else x | _ \<Rightarrow> m)"

definition peak_rss :: "json list \<Rightarrow> json" where
  "peak_rss rows = (case map (\<lambda>s. jget s ''rss_bytes'') rows of [] \<Rightarrow> JNull | x # xs \<Rightarrow> foldl larger x xs)"

definition opt_ns :: "ns option \<Rightarrow> json" where
  "opt_ns x = (case x of None \<Rightarrow> JNull | Some t \<Rightarrow> JInt t)"

section \<open>The published record\<close>

text \<open>
  The state at the end of a run, the errors of the monitor, the result of \<open>finish\<close> and what the runner
  left in \<^verbatim>\<open>inner/result.json\<close>, if it could be read with its outcome and cleanup. The record below
  leaves out what is copied from the arguments (budgets, environment, command line) and the elapsed times.
\<close>

record sup_end =
  se_state :: sup
  se_errors :: "(string \<times> string) list"
  se_fin :: fin
  se_inner :: "json res"

definition rows_of :: "sup_end \<Rightarrow> json list" where
  "rows_of e = map row_of (su_trace (se_state e))"

definition observed_all :: "sup_end \<Rightarrow> bool" where
  "observed_all e \<longleftrightarrow>
     (let pre = classified ''pre_release'' (live_rows (rows_of e)) in
      su_acked (se_state e) \<and> pre \<noteq> [] \<and> (case su_release_begin (se_state e) of None \<Rightarrow> False | Some b \<Rightarrow> the_int (jget (last pre) ''end_ns'') \<le> b))"

definition all_errors :: "sup_end \<Rightarrow> json list" where
  "all_errors e = map (\<lambda>(t, m). JObj [(''type'', JStr t), (''message'', JStr m)]) (se_errors e) @
     (case se_inner e of Inl x \<Rightarrow> [JObj [(''stage'', JStr ''read_inner''), (''type'', JStr (error_type x))]] | Inr v \<Rightarrow> [])"

definition supervised_ok :: "sup_end \<Rightarrow> bool" where
  "supervised_ok e \<longleftrightarrow>
     (let inner = (case se_inner e of Inl x \<Rightarrow> JObj [] | Inr v \<Rightarrow> if truthy v then v else JObj []) in
      su_reason (se_state e) = None \<and> all_errors e = [] \<and> observed_all e \<and> fn_success (se_fin e) \<and>
      jget inner ''overall_success'' = JBool True \<and> jget inner ''evidence_complete'' = JBool True \<and>
      \<not> truthy (jget inner ''stop_escalation'') \<and> jget (jget inner ''cleanup'') ''success'' = JBool True)"

definition fin_json :: "fin \<Rightarrow> json" where
  "fin_json f = JObj ([(''signals'', JArr (map JStr (fn_signals f))), (''errors'', JArr (map (\<lambda>(t, m). JObj [(''type'', JStr t), (''message'', JStr m)]) (fn_errors f))),
     (''direct_reaped'', (case fn_reaped f of None \<Rightarrow> JNull | Some b \<Rightarrow> JBool b)),
     (''residual_live'', (case fn_residual f of None \<Rightarrow> JNull | Some ps \<Rightarrow> JArr (map proc_json ps)))] @
     (case fn_exit f of None \<Rightarrow> [] | Some c \<Rightarrow> [(''runner_exit_code'', JInt c)]) @ [(''success'', JBool (fn_success f))])"

definition published :: "string list \<Rightarrow> exe_ref \<Rightarrow> sup_end \<Rightarrow> json" where
  "published cmd exe e =
     (let s = se_state e; live = live_rows (rows_of e); pre = classified ''pre_release'' live; post = classified ''post_release'' live in
      JObj ([(''schema'', JInt 2), (''target_argv'', JArr (map JStr cmd)), (''expected_executable'', exe_json exe), (''runner_sha256'', JStr RUNNER_SHA),
         (''reason'', (case su_reason s of None \<Rightarrow> JNull | Some r \<Rightarrow> JStr r)), (''errors'', JArr (all_errors e)),
         (''events'', JArr (map (\<lambda>(n, t). JObj [(''event'', JStr n), (''monotonic_ns'', JInt t)]) (su_events s))),
         (''release_begin_ns'', opt_ns (su_release_begin s)), (''release_complete_ns'', opt_ns (su_release_complete s)), (''ack_ns'', opt_ns (su_ack s)),
         (''pre_release_live_sample'', (case su_pre s of None \<Rightarrow> JNull | Some l \<Rightarrow> row_of (Sampled ''pre_release'' (Live l)))),
         (''target_owner'', (case su_target s of None \<Rightarrow> JNull | Some t \<Rightarrow> proc_json t)),
         (''peer'', (case su_peer s of None \<Rightarrow> JNull | Some (p, u, g) \<Rightarrow> JObj [(''pid'', JInt p), (''uid'', JInt u), (''gid'', JInt g)])),
         (''cleanup'', fin_json (se_fin e)), (''inner_result'', (case se_inner e of Inl x \<Rightarrow> JNull | Inr v \<Rightarrow> v)),
         (''observation_complete'', JBool (observed_all e)),
         (''readiness_rss_bytes'', if pre = [] then JNull else jget (last pre) ''rss_bytes''),
         (''all_live_sampled_peak_bytes'', peak_rss live), (''post_release_live_samples'', JInt (int (length post))),
         (''post_release_sampled_peak_bytes'', peak_rss post), (''actual_lifetime_peak_bytes'', JNull),
         (''post_release_coverage'', JStr (if post = [] then ''unobserved'' else ''sampled_not_complete_peak'')),
         (''success'', JBool (supervised_ok e))] @
        (case se_inner e of Inl x \<Rightarrow> [] | Inr v \<Rightarrow> [(''inner_primary'', jget v ''primary''), (''inner_cleanup'', jget v ''cleanup'')])))"

section \<open>The audit\<close>

definition le_res :: "json \<Rightarrow> json \<Rightarrow> bool res" where
  "le_res a b = (case (num_of a, num_of b) of (Some x, Some y) \<Rightarrow> Inr (dec_le x y) | _ \<Rightarrow> Inl TypeError)"

definition gt_zero :: "json \<Rightarrow> bool res" where
  "gt_zero a = bindr (le_res a (JInt 0)) (\<lambda>b. Inr (\<not> b))"

abbreviation asserting :: "bool \<Rightarrow> 'a res \<Rightarrow> 'a res" where
  "asserting c k \<equiv> requires c AssertionError k"

definition keyed :: "json \<Rightarrow> string list \<Rightarrow> 'a res \<Rightarrow> 'a res" where
  "keyed v ks k = requires (is_dict v) TypeError (requires (list_all (has_key v) ks) KeyError k)"

definition AUDIT_KEYS :: "string list" where
  "AUDIT_KEYS = [''pid'', ''start_ticks'', ''sid'', ''pgid'']"

definition ra_same :: "json \<Rightarrow> json \<Rightarrow> bool" where
  "ra_same a b \<longleftrightarrow> list_all (\<lambda>k. py_eq (jget a k) (jget b k)) AUDIT_KEYS"

definition same_file :: "json \<Rightarrow> exe_ref \<Rightarrow> bool" where
  "same_file v st \<longleftrightarrow> py_eq (jget v ''device'') (JInt (ex_dev st)) \<and> py_eq (jget v ''inode'') (JInt (ex_ino st)) \<and> py_eq (jget v ''sha256'') (JStr (ex_sha st))"

text \<open>One row of the trace: chronology for all, identity, image, sizes and side of the release for the live ones.\<close>

definition audit_row :: "json \<Rightarrow> exe_ref \<Rightarrow> json \<Rightarrow> json \<times> json list \<Rightarrow> (json \<times> json list) res" where
  "audit_row r st s acc =
     keyed s [''start_ns'', ''end_ns'']
     (bindr (le_res (jget s ''start_ns'') (jget s ''end_ns'')) (\<lambda>a.
      bindr (le_res (fst acc) (jget s ''start_ns'')) (\<lambda>b.
      asserting (a \<and> b)
      (if \<not> truthy (jget s ''valid'') \<or> \<not> truthy (jget s ''live'') then Inr (jget s ''end_ns'', snd acc)
       else keyed s [''identity'', ''rss_bytes'', ''executable'', ''system_available_bytes'', ''classification'']
        (keyed (jget s ''identity'') [''state'']
        (bindr (gt_zero (jget s ''rss_bytes'')) (\<lambda>rss.
         asserting (truthy (jget r ''target_owner'') \<and> ra_same (jget s ''identity'') (jget r ''target_owner'') \<and>
                    \<not> (jget (jget s ''identity'') ''state'' = JStr ''Z'' \<or> jget (jget s ''identity'') ''state'' = JStr ''X'') \<and> rss)
         (keyed (jget s ''executable'') [''device'', ''inode'', ''sha256'']
         (asserting (same_file (jget s ''executable'') st)
         (bindr (gt_zero (jget s ''system_available_bytes'')) (\<lambda>available.
          asserting available
          (bindr (if jget s ''classification'' = JStr ''pre_release''
                  then (if jget r ''release_begin_ns'' = JNull then Inr True else le_res (jget s ''end_ns'') (jget r ''release_begin_ns''))
                  else if jget s ''classification'' = JStr ''post_release'' then le_res (jget r ''release_complete_ns'') (jget s ''start_ns'')
                  else Inr False) (\<lambda>side.
           asserting side (Inr (jget s ''end_ns'', snd acc @ [s])))))))))))))))"

definition RECORD_KEYS :: "string list" where
  "RECORD_KEYS = [''runner_sha256'', ''target_argv'', ''expected_executable'', ''ack_ns'', ''release_begin_ns'', ''release_complete_ns'', ''observation_complete'',
     ''pre_release_live_sample'', ''readiness_rss_bytes'', ''all_live_sampled_peak_bytes'', ''post_release_live_samples'', ''post_release_sampled_peak_bytes'',
     ''actual_lifetime_peak_bytes'', ''post_release_coverage'', ''success'', ''cleanup'']"

definition complete_observation :: "json \<Rightarrow> json list \<Rightarrow> bool res" where
  "complete_observation r pre =
     (if pre = [] \<or> \<not> truthy (jget r ''ack_ns'') \<or> \<not> truthy (jget r ''release_begin_ns'') then Inr False
      else bindr (le_res (jget (last pre) ''end_ns'') (jget r ''release_begin_ns'')) (\<lambda>a. if \<not> a then Inr False
      else bindr (le_res (jget r ''release_begin_ns'') (jget r ''release_complete_ns'')) (\<lambda>b. if \<not> b then Inr False
      else le_res (jget r ''release_complete_ns'') (jget r ''ack_ns''))))"

text \<open>The published numbers against the recomputed ones.\<close>

definition numbers_agree :: "json \<Rightarrow> bool \<Rightarrow> json list \<Rightarrow> bool" where
  "numbers_agree r complete lives \<longleftrightarrow>
     (let pre = classified ''pre_release'' lives; post = classified ''post_release'' lives in
      py_eq (jget r ''observation_complete'') (JBool complete) \<and>
      py_eq (jget r ''pre_release_live_sample'') (if pre = [] then JNull else last pre) \<and>
      py_eq (jget r ''readiness_rss_bytes'') (if pre = [] then JNull else jget (last pre) ''rss_bytes'') \<and>
      py_eq (jget r ''all_live_sampled_peak_bytes'') (peak_rss lives) \<and>
      py_eq (jget r ''post_release_live_samples'') (JInt (int (length post))) \<and>
      py_eq (jget r ''post_release_sampled_peak_bytes'') (peak_rss post) \<and>
      jget r ''actual_lifetime_peak_bytes'' = JNull \<and>
      py_eq (jget r ''post_release_coverage'') (JStr (if post = [] then ''unobserved'' else ''sampled_not_complete_peak'')))"

text \<open>What a successful run must show beyond its numbers: clean ends and the milestones in order.\<close>

definition index_of :: "json list \<Rightarrow> string \<Rightarrow> nat res" where
  "index_of order name = (let before = takeWhile (\<lambda>v. v \<noteq> JStr name) order in
     if length before < length order then Inr (length before) else Inl (ValueError ''not in list''))"

definition MILESTONES :: "string list" where
  "MILESTONES = [''target_identified'', ''sampler_ready'', ''before_release'', ''released'', ''target_acknowledged'']"

definition event_times_sorted :: "json list \<Rightarrow> bool res" where
  "event_times_sorted es = fold_res (\<lambda>(a, b) ok. if \<not> ok then Inr False else le_res (jget a ''monotonic_ns'') (jget b ''monotonic_ns'')) (zip es (tl es)) True"

definition check_success :: "json \<Rightarrow> bool \<Rightarrow> unit res" where
  "check_success r complete =
     keyed r [''success'', ''reason'', ''errors'', ''cleanup'', ''inner_primary'', ''inner_cleanup'', ''events'']
     (asserting (truthy (jget r ''success'') \<and> complete \<and> \<not> truthy (jget r ''reason'') \<and> \<not> truthy (jget r ''errors''))
     (keyed (jget r ''cleanup'') [''success'', ''direct_reaped'', ''residual_live'']
     (asserting (truthy (jget (jget r ''cleanup'') ''success'') \<and> truthy (jget (jget r ''cleanup'') ''direct_reaped'') \<and>
                 jget (jget r ''cleanup'') ''residual_live'' = JArr [])
     (keyed (jget r ''inner_primary'') [''outcome'']
     (keyed (jget r ''inner_cleanup'') [''success'', ''direct_exit_code'']
     (asserting (jget (jget r ''inner_primary'') ''outcome'' = JStr ''command_success'' \<and> truthy (jget (jget r ''inner_cleanup'') ''success'') \<and>
                 py_eq (jget (jget r ''inner_cleanup'') ''direct_exit_code'') (JInt 0))
     (let es = the_list (jget r ''events'') in
      bindr (event_times_sorted es) (\<lambda>sorted.
      asserting sorted
      (bindr (map_res (index_of (map (\<lambda>e. jget e ''event'') es)) MILESTONES) (\<lambda>ixs.
       asserting (sorted_wrt (<) ixs) (Inr ())))))))))))"

definition audit_report_json :: "json \<Rightarrow> bool \<Rightarrow> json list \<Rightarrow> json" where
  "audit_report_json r complete lives =
     (let pre = classified ''pre_release'' lives; post = classified ''post_release'' lives in
      JObj [(''resource_classification'', JStr (if \<not> complete then ''incomplete'' else if post = [] then ''readiness_only'' else ''readiness_and_sampled_post_release'')),
        (''pre_release_live_samples'', JInt (int (length pre))), (''post_release_live_samples'', JInt (int (length post))),
        (''readiness_rss_bytes'', jget r ''readiness_rss_bytes''), (''post_release_sampled_peak_bytes'', jget r ''post_release_sampled_peak_bytes''),
        (''actual_lifetime_peak_bytes'', JNull), (''primary'', jget r ''inner_primary''), (''cleanup_success'', jget (jget r ''cleanup'') ''success''),
        (''overall_command_success'', jget r ''success''), (''pilot_acceptance'', JStr ''NOT_ASSESSED'')])"

text \<open>\<open>st\<close> is the target's executable as it is on the disk now, \<open>uid\<close> ours.\<close>

definition resource_audit :: "exe_ref \<Rightarrow> int \<Rightarrow> bool \<Rightarrow> json \<Rightarrow> json list \<Rightarrow> json res" where
  "resource_audit st uid require_success r rows =
     keyed r RECORD_KEYS
     (asserting (jget r ''runner_sha256'' = JStr RUNNER_SHA)
     (keyed (jget r ''expected_executable'') [''device'', ''inode'', ''sha256'']
     (asserting (same_file (jget r ''expected_executable'') st)
     (bindr (fold_res (audit_row r st) rows (JInt (- 1), [])) (\<lambda>(lst, lives).
      (let pre = classified ''pre_release'' lives in
       asserting (pre = [] \<or> py_eq (jget (jget r ''peer'') ''pid'') (jget (jget r ''target_owner'') ''pid'') \<and> py_eq (jget (jget r ''peer'') ''uid'') (JInt uid))
       (bindr (complete_observation r pre) (\<lambda>complete.
        asserting (numbers_agree r complete lives)
        (bindr (if truthy (jget r ''success'') \<or> require_success then check_success r complete else Inr ()) (\<lambda>_.
         Inr (audit_report_json r complete lives)))))))))))"

section \<open>What an accepted audit shows\<close>

lemma keyed_Inr_iff: "keyed v ks k = Inr y \<longleftrightarrow> is_dict v \<and> list_all (has_key v) ks \<and> k = Inr y"
  by (auto simp: keyed_def requires_Inr_iff)

text \<open>A live row of the trace on the right side of the release, of the owner and of the executable on disk.\<close>

definition row_sound :: "json \<Rightarrow> exe_ref \<Rightarrow> json \<Rightarrow> bool" where
  "row_sound r st s \<longleftrightarrow> ra_same (jget s ''identity'') (jget r ''target_owner'') \<and> same_file (jget s ''executable'') st \<and>
     gt_zero (jget s ''rss_bytes'') = Inr True \<and>
     (jget s ''classification'' = JStr ''pre_release'' \<and> (jget r ''release_begin_ns'' = JNull \<or> le_res (jget s ''end_ns'') (jget r ''release_begin_ns'') = Inr True) \<or>
      jget s ''classification'' = JStr ''post_release'' \<and> le_res (jget r ''release_complete_ns'') (jget s ''start_ns'') = Inr True)"

definition is_live :: "json \<Rightarrow> bool" where
  "is_live s \<longleftrightarrow> truthy (jget s ''valid'') \<and> truthy (jget s ''live'')"

lemma audit_rowD:
  assumes "audit_row r st s acc = Inr acc'"
  shows "le_res (fst acc) (jget s ''start_ns'') = Inr True \<and> le_res (jget s ''start_ns'') (jget s ''end_ns'') = Inr True \<and>
    acc' = (jget s ''end_ns'', snd acc @ (if is_live s then [s] else [])) \<and> (is_live s \<longrightarrow> row_sound r st s)"
proof -
  from assms obtain a b where ab: "le_res (jget s ''start_ns'') (jget s ''end_ns'') = Inr a" "le_res (fst acc) (jget s ''start_ns'') = Inr b" "a" "b"
    unfolding audit_row_def keyed_Inr_iff bindr_Inr_iff requires_Inr_iff by blast
  show ?thesis
  proof (cases "is_live s")
    case True
    with assms obtain rss available side where l: "gt_zero (jget s ''rss_bytes'') = Inr rss"
        "truthy (jget r ''target_owner'') \<and> ra_same (jget s ''identity'') (jget r ''target_owner'') \<and>
                    \<not> (jget (jget s ''identity'') ''state'' = JStr ''Z'' \<or> jget (jget s ''identity'') ''state'' = JStr ''X'') \<and> rss"
        "same_file (jget s ''executable'') st"
        "(if jget s ''classification'' = JStr ''pre_release''
          then (if jget r ''release_begin_ns'' = JNull then Inr True else le_res (jget s ''end_ns'') (jget r ''release_begin_ns''))
          else if jget s ''classification'' = JStr ''post_release'' then le_res (jget r ''release_complete_ns'') (jget s ''start_ns'')
          else Inr False) = Inr side" "side" "acc' = (jget s ''end_ns'', snd acc @ [s])"
      unfolding audit_row_def is_live_def by (auto simp: keyed_Inr_iff bindr_Inr_iff requires_Inr_iff simp del: split_paired_Ex)
    then have "row_sound r st s" unfolding row_sound_def by (auto split: if_splits)
    then show ?thesis using ab l True by simp
  next
    case False
    then show ?thesis using assms ab unfolding audit_row_def keyed_Inr_iff bindr_Inr_iff requires_Inr_iff is_live_def by auto
  qed
qed

text \<open>The rows follow each other in time.\<close>

fun consecutive :: "json \<Rightarrow> json list \<Rightarrow> bool" where
  "consecutive t [] = True"
| "consecutive t (s # rows) \<longleftrightarrow> le_res t (jget s ''start_ns'') = Inr True \<and> le_res (jget s ''start_ns'') (jget s ''end_ns'') = Inr True \<and> consecutive (jget s ''end_ns'') rows"

lemma audit_rowsD:
  assumes "fold_res (audit_row r st) rows acc = Inr acc'"
  shows "snd acc' = snd acc @ filter is_live rows \<and> (\<forall>s \<in> set rows. is_live s \<longrightarrow> row_sound r st s) \<and> consecutive (fst acc) rows"
  using assms
proof (induction rows arbitrary: acc)
  case (Cons s rows)
  then obtain acc1 where a: "audit_row r st s acc = Inr acc1" and b: "fold_res (audit_row r st) rows acc1 = Inr acc'" by (auto simp: bindr_Inr_iff)
  show ?case using audit_rowD [OF a] Cons.IH [OF b] by auto
qed simp

lemma live_rows_filter: "live_rows rows = filter is_live rows"
  unfolding live_rows_def is_live_def ..

section \<open>An audited example\<close>

definition ex_end :: sup_end where
  "ex_end = \<lparr>se_state = \<lparr>su_target = Some ex_target, su_peer = Some (10, 5, 5), su_buf = [], su_hello = True, su_acked = True, su_last_sample = 12,
       su_release_begin = Some 14, su_release_complete = Some 15, su_ack = Some 21, su_pre = Some (ex_live 12), su_reason = None,
       su_events = [(''runner_created'', 1), (''peer_connected'', 10), (''target_identified'', 10), (''sampler_ready'', 10), (''before_release'', 10), (''released'', 10),
         (''target_acknowledged'', 20)],
       su_trace = [Sampled ''pre_release'' (Live (ex_live 12))], su_sent = [RELEASE]\<rparr>, se_errors = [],
     se_fin = \<lparr>fn_signals = [], fn_errors = [], fn_reaped = Some True, fn_residual = Some [], fn_exit = Some 0, fn_success = True\<rparr>,
     se_inner = Inr (JObj [(''overall_success'', JBool True), (''evidence_complete'', JBool True), (''primary'', JObj [(''outcome'', JStr ''command_success'')]),
       (''cleanup'', JObj [(''success'', JBool True), (''direct_exit_code'', JInt 0)])])\<rparr>"

lemma ex_audit: "\<exists>rep. resource_audit ex_image 5 True (published [''/x''] ex_image ex_end) (rows_of ex_end) = Inr rep"
proof -
  have "case resource_audit ex_image 5 True (published [''/x''] ex_image ex_end) (rows_of ex_end) of Inr rep \<Rightarrow> True | _ \<Rightarrow> False" by code_simp
  then show ?thesis by (auto split: sum.splits)
qed

section \<open>Properties of the audit\<close>



end
