(* ===== verification/G4_Verify.thy ===== *)
theory G4_Verify
  imports G4_Freeze G4_Decision Resource_Audit
begin

text \<open>
  The same-run validator \<^verbatim>\<open>g4_verify.py\<close>: \<open>seal\<close> writes the index of the artifacts, \<open>audit\<close> reads them back, checks
  the frozen launch, and reconciles the records of the guardian, the supervisor, the bootstrap and the runner with each
  other, with the two event transcripts, with the recorded samples and, for the crypto profile, with the ledger.

  Every expression of the source that can raise is a value of type \<open>res\<close>: a missing key is a \<open>KeyError\<close>, a comparison
  of unordered values a \<open>TypeError\<close>. \<open>alls\<close> is a conjunction with Python's short circuit. The environment of an
  observation is a dictionary (the record is the guardian's); another value is a \<open>TypeError\<close>.
\<close>

section \<open>Expressions that can raise\<close>

fun look :: "json \<Rightarrow> string list \<Rightarrow> json res" where
  "look v [] = Inr v"
| "look v (k # ks) = bindr (item v k) (\<lambda>x. look x ks)"

fun alls :: "bool res list \<Rightarrow> bool res" where
  "alls [] = Inr True"
| "alls (c # cs) = bindr c (\<lambda>ok. if ok then alls cs else Inr False)"

definition eqr :: "json res \<Rightarrow> json res \<Rightarrow> bool res" where
  "eqr a b = bindr a (\<lambda>x. bindr b (\<lambda>y. Inr (py_eq x y)))"

definition encoded_equal :: "json res \<Rightarrow> json res \<Rightarrow> bool res" where
  "encoded_equal a b = bindr a (\<lambda>x. bindr b (\<lambda>y. Inr (encoded x = encoded y)))"

definition leqr :: "json res \<Rightarrow> json res \<Rightarrow> bool res" where
  "leqr a b = bindr a (\<lambda>x. bindr b (\<lambda>y. le_res x y))"

definition is_value :: "json \<Rightarrow> json res \<Rightarrow> bool res" where
  "is_value v a = bindr a (\<lambda>x. Inr (x = v))"

definition falsy :: "json res \<Rightarrow> bool res" where
  "falsy a = bindr a (\<lambda>x. Inr (\<not> truthy x))"

abbreviation chk :: "bool res \<Rightarrow> string \<Rightarrow> 'a res \<Rightarrow> 'a res" where
  "chk c reason k \<equiv> bindr c (\<lambda>ok. needp ok reason k)"

definition pick :: "json res \<Rightarrow> string list \<Rightarrow> json res" where
  "pick v ks = bindr v (\<lambda>x. bindr (map_res (\<lambda>k. bindr (item x k) (\<lambda>y. Inr (k, y))) ks) (\<lambda>kvs. Inr (JObj kvs)))"

section \<open>The artifacts\<close>

definition REQUIRED :: "string list" where
  "REQUIRED = [''g4.json'', ''policy.snapshot.json'', ''attempt.json'', ''guardian.json'', ''supervisor.stdout'', ''supervisor.stderr'', ''supervisor-events.jsonl'',
     ''supervised/bootstrap-events.jsonl'', ''supervised/bootstrap.json'', ''supervised/supervisor.json'', ''supervised/resources.jsonl'',
     ''supervised/group-rss.jsonl'', ''supervised/group-summary.json'', ''supervised/inner/started.json'', ''supervised/inner/owner.json'',
     ''supervised/inner/result.json'', ''supervised/inner/stdout'', ''supervised/inner/stderr'']"

definition artifact_names :: "bool \<Rightarrow> string list" where
  "artifact_names crypto = REQUIRED @ map (\<lambda>n. ''sources/'' @ n) G4_SOURCES @ (if crypto then EXTRA_ARTIFACTS else [])"

definition MiB16 :: nat where "MiB16 = 16 * 1024 * 1024"

text \<open>\<open>seal\<close> gives the content of \<^verbatim>\<open>g4-artifacts.json\<close>; \<open>out\<close> is the outcome of writing it.\<close>

definition seal :: "(string \<Rightarrow> string) \<Rightarrow> file_view \<Rightarrow> (string \<Rightarrow> file_view) \<Rightarrow> unit res \<Rightarrow> string res" where
  "seal sha manifest files out =
     bindr (bindr (read_regular MiB2 manifest) decode_evidence) (\<lambda>m.
     as_dict m
     (bindr (map_res (\<lambda>n. bindr (read_regular MiB16 (files n)) (\<lambda>data. Inr (n, bytes_ref sha data))) (artifact_names (is_crypto m))) (\<lambda>records.
      bindr out (\<lambda>_. Inr (encoded (JObj records))))))"

text \<open>
  What the audit sees of the bundle: its own reads of the files (\<open>bu_manifest\<close> the first one of \<^verbatim>\<open>g4.json\<close>), the directory
  that \<open>binding.check\<close> reads, the sample file as the two receipts and the G3 audit read it.
\<close>

record g4_bundle =
  bu_index :: file_view
  bu_manifest :: file_view
  bu_file :: "string \<Rightarrow> file_view"
  bu_dir :: g4_dir
  bu_resolved :: string
  bu_ready :: file_view
  bu_work :: file_view
  bu_rss :: "string res"
  bu_summary :: "string res"
  bu_inner :: "string res"

definition load_artifact :: "(string \<Rightarrow> string) \<Rightarrow> g4_bundle \<Rightarrow> string \<times> json \<Rightarrow> (string \<Rightarrow> string option) \<Rightarrow> (string \<Rightarrow> string option) res" where
  "load_artifact sha B ni raw = (case ni of (name, ident) \<Rightarrow>
     bindr (read_regular MiB16 (bu_file B name)) (\<lambda>data.
     needp (encoded ident = encoded (bytes_ref sha data)) (''artifact identity: '' @ name) (Inr (raw(name := Some data)))))"

definition load_bundle :: "(string \<Rightarrow> string) \<Rightarrow> host \<Rightarrow> g4_bundle \<Rightarrow> (json \<times> bool \<times> (string \<Rightarrow> string option)) res" where
  "load_bundle sha h B =
     bindr (bindr (read_regular MiB2 (bu_index B)) decode_evidence) (\<lambda>index.
     bindr (bindr (read_regular MiB2 (bu_manifest B)) decode_evidence) (\<lambda>manifest.
     as_dict manifest
     (let crypto = is_crypto manifest in
      needp (keys_are index (artifact_names crypto)) ''artifact set''
      (bindr (fold_res (load_artifact sha B) (pairs index) (\<lambda>_. None)) (\<lambda>raw.
       bindr (g4_check sha h True (bu_dir B)) (\<lambda>m.
       chk (eqr (look m [''paths'', ''out'']) (Inr (JStr (bu_resolved B)))) ''bundle path identity''
       (Inr (m, crypto, raw))))))))"

section \<open>The records\<close>

record docs =
  dc_super :: json
  dc_guard :: json
  dc_core :: json
  dc_started :: json
  dc_boot :: json
  dc_attempt :: json
  dc_target :: json
  dc_runner :: json
  dc_supervisor :: json

definition load_docs :: "(string \<Rightarrow> string option) \<Rightarrow> docs res" where
  "load_docs raw =
     bindr (load_raw raw ''supervised/supervisor.json'') (\<lambda>s.
     bindr (load_raw raw ''guardian.json'') (\<lambda>g.
     bindr (load_raw raw ''supervised/inner/result.json'') (\<lambda>core.
     bindr (load_raw raw ''supervised/inner/started.json'') (\<lambda>started.
     bindr (load_raw raw ''supervised/bootstrap.json'') (\<lambda>boot.
     bindr (load_raw raw ''attempt.json'') (\<lambda>attempt.
     needp (list_all is_dict [s, g, core, started, boot, attempt]) ''artifact mapping''
     (bindr (load_raw raw ''supervised/inner/owner.json'') (\<lambda>target.
      bindr (item s ''runner_owner'') (\<lambda>ro.
      bindr (item g ''supervisor_owner'') (\<lambda>so.
      bindr (event_identity target) (\<lambda>tid.
      bindr (event_identity ro) (\<lambda>rid.
      bindr (event_identity so) (\<lambda>sid.
      needp (distinct (map (\<lambda>x. jint x ''pid'') [tid, rid, sid])) ''distinct process owners''
      (chk (alls [eqr (item target ''ppid'') (item rid ''pid''), eqr (item ro ''ppid'') (item sid ''pid'')]) ''owned process parent chain''
      (chk (alls [encoded_equal (bindr (item s ''target_owner'') event_identity) (Inr tid), encoded_equal (bindr (item core ''owner'') event_identity) (Inr tid)])
         ''target generation''
      (Inr \<lparr>dc_super = s, dc_guard = g, dc_core = core, dc_started = started, dc_boot = boot, dc_attempt = attempt,
         dc_target = tid, dc_runner = rid, dc_supervisor = sid\<rparr>))))))))))))))))"

section \<open>The launch as it was recorded\<close>

definition ENV4 :: "string list" where "ENV4 = [''GOTOOLCHAIN'', ''GOPROXY'', ''GOSUMDB'', ''GOMAXPROCS'']"

definition supervisor_argv :: "json \<Rightarrow> json res" where
  "supervisor_argv m = bindr (look m [''python'', ''path'']) (\<lambda>p. bindr (look m [''paths'', ''config'']) (\<lambda>c.
     Inr (JArr [p, JStr ''-B'', JStr ''-m'', JStr ''tools.bench.g4_launch'', JStr ''--supervisor'', c])))"

definition check_records_agree :: "(string \<Rightarrow> string) \<Rightarrow> json \<Rightarrow> (string \<Rightarrow> string option) \<Rightarrow> docs \<Rightarrow> unit res" where
  "check_records_agree sha m raw D =
     (let s = dc_super D; g = dc_guard D; boot = dc_boot D; att = dc_attempt D in
      chk (alls [eqr (item g ''run_id'') (item att ''run_id''), eqr (item att ''run_id'') (item boot ''run_id''),
                 eqr (item boot ''run_id'') (item s ''run_id''), eqr (item s ''run_id'') (item m ''run_id'')]) ''run ID''
      (chk (eqr (item g ''argv'') (supervisor_argv m)) ''actual Supervisor argv''
      (bindr (raw_file raw ''g4.json'') (\<lambda>config.
       chk (alls [eqr (item att ''config_sha256'') (item s ''g4_config_sha256''), eqr (item s ''g4_config_sha256'') (Inr (JStr (sha config)))]) ''config identity''
       (chk (alls [eqr (item s ''g4_contract'') (item boot ''contract''), eqr (item boot ''contract'') (Inr (JStr G4_CONTRACT))]) ''contract version''
       (chk (alls [encoded_equal (item boot ''supervisor_owner'') (Inr (dc_supervisor D)), encoded_equal (item s ''g4_channel_peer'') (Inr (dc_runner D))])
          ''coordination peer identity''
       (chk (eqr (look g [''supervisor_owner'', ''ppid'']) (look att [''guardian'', ''pid''])) ''guardian parent''
       (chk (alls [eqr (look s [''peer'', ''pid'']) (item (dc_target D) ''pid''), eqr (look s [''peer'', ''uid'']) (look m [''directory'', ''uid''])]) ''Go peer identity''
       (chk (alls [eqr (item s ''runner_sha256'') (look m [''sources'', ''run_check.py'', ''sha256'']),
                   eqr (item s ''supervisor_sha256'') (look m [''sources'', ''g4_supervise.py'', ''sha256''])]) ''executed source identity'' (Inr ()))))))))))"

definition check_limit :: "json \<Rightarrow> json \<Rightarrow> string \<times> json \<Rightarrow> unit \<Rightarrow> unit res" where
  "check_limit m limits kv u =
     (if fst kv = ''core_bytes'' then Inr ()
      else chk (encoded_equal (item limits (fst kv)) (look m [''effective_limits'', fst kv])) (''actual limit: '' @ fst kv) (Inr ()))"

text \<open>The report of the start and the final report of the runner both carry the launch.\<close>

definition check_container :: "json \<Rightarrow> json \<Rightarrow> unit \<Rightarrow> unit res" where
  "check_container m container u =
     chk (alls [eqr (item container ''argv'') (item m ''target_argv''), eqr (item container ''cwd'') (item m ''cwd'')]) ''actual target argv/cwd''
     (chk (eqr (item container ''environment'') (pick (item m ''environment'') ENV4)) ''Runner environment''
     (bindr (item container ''limits'') (\<lambda>limits.
      chk (eqr (item limits ''wall_seconds'') (look m [''effective_limits'', ''wall_seconds''])) ''actual wall budget''
      (fold_res (check_limit m limits) FIXED ()))))"

definition safe_keys :: "bool \<Rightarrow> string list" where
  "safe_keys crypto = ENV4 @ [''DZKR_MIMCCHAIN_START_BARRIER'', ''DZKR_MIMCCHAIN_BARRIER_TIMEOUT'',
     if crypto then ''DZKR_MIMCCHAIN_CPU_PILOT'' else ''DZKR_MIMCCHAIN_BARRIER_PROBE'']"

definition g4_supervisor :: "json \<Rightarrow> bool \<Rightarrow> json \<Rightarrow> unit res" where
  "g4_supervisor m crypto s =
     chk (alls [eqr (item s ''runner_argv'') (item m ''runner_argv''), eqr (item s ''target_argv'') (item m ''target_argv'')]) ''actual Bootstrap argv''
     (chk (eqr (item s ''safe_environment'') (pick (item m ''environment'') (safe_keys crypto))) ''Supervisor environment''
     (fold_res (\<lambda>(key, name) _. chk (eqr (item s key) (look m [''effective_limits'', name])) ''Supervisor budget'' (Inr ()))
        [(''inner_seconds'', ''wall_seconds''), (''barrier_seconds'', ''barrier_seconds''), (''outer_seconds'', ''outer_seconds'')] ()))"

text \<open>\<open>environment.pop(key) == socket\<close>, and the rest against the frozen environment.\<close>

definition without :: "string \<Rightarrow> json \<Rightarrow> json" where
  "without k v = JObj (filter (\<lambda>kv. fst kv \<noteq> k) (pairs v))"

definition IMAGE :: "string list" where "IMAGE = [''path'', ''device'', ''inode'', ''sha256'']"

definition check_observed :: "json \<Rightarrow> docs \<Rightarrow> string \<times> json \<times> string \<times> string \<Rightarrow> unit \<Rightarrow> unit res" where
  "check_observed m D what u = (case what of (role, ident, args, expected) \<Rightarrow>
     let s = dc_super D in
     bindr (look (dc_guard D) [''observations'', role]) (\<lambda>obs.
     chk (alls [encoded_equal (bindr (item obs ''identity'') event_identity) (Inr ident), eqr (item obs ''argv'') (item m args)]) ''observed argv/generation''
     (bindr (item obs ''environment'') (\<lambda>env.
      if \<not> is_dict env then Inl TypeError
      else
        chk (eqr (item env ''DZKR_MIMCCHAIN_BARRIER_SOCKET'') (look s [''ipc'', ''socket_path''])) ''observed barrier socket''
        (chk (eqr (Inr (without ''DZKR_MIMCCHAIN_BARRIER_SOCKET'' env)) (item m ''environment'')) ''observed environment''
        (chk (eqr (item obs ''barrier_token_sha256'') (look s [''ipc'', ''token_sha256''])) ''observed token hash''
        (bindr (item m expected) (\<lambda>image.
         chk (alls (map (\<lambda>k. eqr (look obs [''executable'', k]) (item image k)) IMAGE)) ''observed executable'' (Inr ())))))))))"

definition check_image :: "(string \<Rightarrow> string) \<Rightarrow> host \<Rightarrow> json \<Rightarrow> json \<Rightarrow> unit res" where
  "check_image sha h m s =
     bindr (look m [''target_executable'', ''path'']) (\<lambda>path.
     bindr (read_regular MiB64 (ho_file h (the_str path))) (\<lambda>data.
     chk (alls [eqr (Inr (JInt (int (length data)))) (look m [''target_executable'', ''bytes'']), eqr (Inr (JStr (sha data))) (look m [''target_executable'', ''sha256''])])
       ''target executable SHA''
     (chk (alls [eqr (item s ''expected_executable'') (item s ''target_executable''), eqr (item s ''target_executable'') (pick (item m ''target_executable'') IMAGE)])
        ''Supervisor executable evidence'' (Inr ()))))"

definition check_launched :: "(string \<Rightarrow> string) \<Rightarrow> host \<Rightarrow> json \<Rightarrow> bool \<Rightarrow> (string \<Rightarrow> string option) \<Rightarrow> docs \<Rightarrow> unit res" where
  "check_launched sha h m crypto raw D =
     bindr (check_records_agree sha m raw D) (\<lambda>_.
     bindr (fold_res (check_container m) [dc_started D, dc_core D] ()) (\<lambda>_.
     bindr (g4_supervisor m crypto (dc_super D)) (\<lambda>_.
     bindr (fold_res (check_observed m D) [(''bootstrap'', dc_runner D, ''runner_argv'', ''python''), (''target'', dc_target D, ''target_argv'', ''target_executable'')] ()) (\<lambda>_.
     check_image sha h m (dc_super D)))))"

section \<open>The transcripts\<close>

definition num_floor :: "json \<Rightarrow> int" where
  "num_floor v = (case num_of v of None \<Rightarrow> 0 | Some (m, e) \<Rightarrow> if e \<ge> 0 then m * 10 ^ nat e else m div 10 ^ nat (- e))"

definition transcript_step :: "json \<Rightarrow> json \<Rightarrow> json \<Rightarrow> chan \<Rightarrow> chan res" where
  "transcript_step g tid msg st =
     chk (alls [leqr (item g ''start_ns'') (item msg ''monotonic_ns''), leqr (item msg ''monotonic_ns'') (item g ''end_ns'')]) ''guardian event interval''
     (case accept (num_floor (jget g ''end_ns'')) msg st of
        (st', Inl e) \<Rightarrow> Inl e
      | (st', Inr v) \<Rightarrow> chk (eqr (item msg ''owner'') (Inr tid)) ''Barrier owner'' (Inr st'))"

text \<open>\<open>{e['event']: e for e in events}[name]\<close>: the last event of the name; a list or a dictionary has no hash.\<close>

definition event_table :: "json \<Rightarrow> (json \<times> json) list res" where
  "event_table es =
     (if \<not> is_list es then Inl TypeError
      else bindr (map_res (\<lambda>e. bindr (item e ''event'') (\<lambda>n. if is_list n \<or> is_dict n then Inl TypeError else Inr (n, e))) (the_list es)) (\<lambda>t. Inr (rev t)))"

definition named_event :: "(json \<times> json) list \<Rightarrow> string \<Rightarrow> json res" where
  "named_event t name = (case map_of t (JStr name) of None \<Rightarrow> Inl KeyError | Some e \<Rightarrow> Inr e)"

definition check_transcripts :: "(string \<Rightarrow> string) \<Rightarrow> g4_bundle \<Rightarrow> json \<Rightarrow> (string \<Rightarrow> string option) \<Rightarrow> docs \<Rightarrow> json list res" where
  "check_transcripts sha B m raw D =
     (let s = dc_super D in
      bindr (load_lines raw ''supervisor-events.jsonl'') (\<lambda>a.
      bindr (load_lines raw ''supervised/bootstrap-events.jsonl'') (\<lambda>c.
      needp (encoded (JArr a) = encoded (JArr c) \<and> length a = 5) ''paired event transcripts''
      (bindr (bindr (item m ''run_id'') g4_run_id) (\<lambda>rid.
       bindr (fold_res (transcript_step (dc_guard D) (dc_target D)) a (new_chan rid)) (\<lambda>st.
       needp (ch_sequence st = 5 \<and> \<not> ch_failed st) ''event completion''
       (bindr (bindr (item s ''events'') event_table) (\<lambda>t.
        chk (alls [eqr (item (a ! 0) ''monotonic_ns'') (bindr (named_event t ''target_identified'') (\<lambda>e. item e ''monotonic_ns'')),
                   eqr (item (a ! 2) ''monotonic_ns'') (item s ''release_begin_ns''), eqr (item (a ! 3) ''monotonic_ns'') (item s ''ack_ns'')])
          ''verified ready/release/ack times''
        (bindr (verify_receipt sha rid (bu_ready B) (a ! 1) ''readiness'') (\<lambda>_.
         bindr (verify_receipt sha rid (bu_work B) (a ! 4) ''workload'') (\<lambda>_. Inr a)))))))))))"

section \<open>The samples\<close>

definition audit_json :: "audit_report \<Rightarrow> json" where
  "audit_json rep = JObj ((''contract_valid'', JBool True) # ar_derived rep @
     [(''all_samples_complete'', JBool (ar_all_complete rep)), (''has_partial'', JBool (ar_has_partial rep))])"

definition check_row_owner :: "json \<Rightarrow> json \<Rightarrow> json \<Rightarrow> bool res" where
  "check_row_owner m tid row = alls [eqr (item row ''run_id'') (item m ''run_id''), eqr (item row ''owner'') (Inr tid)]"

definition check_row_site :: "json \<Rightarrow> bool res" where
  "check_row_site row = bindr (look row [''phase'', ''name'']) (\<lambda>name.
     if name = JStr ''cleanup'' then Inr True else is_value (JStr ''runner_monitor'') (item row ''site''))"

definition monitor_rows :: "json list \<Rightarrow> json list res" where
  "monitor_rows rows = bindr (map_res (\<lambda>r. item r ''site'') rows) (\<lambda>sites. Inr (map snd (filter (\<lambda>x. fst x = JStr ''runner_monitor'') (zip sites rows))))"

definition check_samples :: "(string \<Rightarrow> string) \<Rightarrow> g4_bundle \<Rightarrow> json \<Rightarrow> (string \<Rightarrow> string option) \<Rightarrow> docs \<Rightarrow> json list \<Rightarrow> (audit_report \<times> json list \<times> json) res" where
  "check_samples sha B m raw D a =
     bindr (bindr (bu_summary B) (\<lambda>summary. bindr (bu_rss B) (\<lambda>stream. audit sha stream summary (bu_inner B)))) (\<lambda>rss.
     needp (\<not> ar_has_partial rss \<and> jget (jget (JObj (ar_derived rss)) ''status_counts'') ''INVALID'' = JInt 0) ''partial RSS evidence''
     (needp (phase_complete rss ''readiness'' > 0 \<and> phase_complete rss ''workload'' > 0) ''required phase coverage''
     (bindr (load_lines raw ''supervised/group-rss.jsonl'') (\<lambda>rows.
      chk (alls (map (check_row_owner m (dc_target D)) rows)) ''RSS run/owner''
      (chk (alls [eqr (bindr (nth_res rows 0) (\<lambda>r. look r [''phase'', ''event'', ''monotonic_ns''])) (item (a ! 0) ''monotonic_ns''),
                  eqr (bindr (nth_res rows 1) (\<lambda>r. look r [''phase'', ''event'', ''monotonic_ns''])) (item (a ! 3) ''monotonic_ns'')]) ''sample phase source''
      (chk (alls (map check_row_site rows)) ''common monitor site''
      (chk (alls [is_value (JStr ''cleanup_check'') (item (last rows) ''site''), is_value (JStr ''NO_LIVE_MEMBERS'') (item (last rows) ''sample_status'')])
         ''terminal absence sample''
      (bindr (monitor_rows rows) (\<lambda>mon.
       bindr (item m ''effective_limits'') (\<lambda>limits.
       bindr (resource_decision mon (dc_core D) limits) (\<lambda>resource.
       chk (encoded_equal (item (dc_boot D) ''audit'') (Inr (audit_json rss))) ''independent G3 audit agreement''
       (Inr (rss, rows, resource)))))))))))))"

section \<open>The outcome\<close>

definition lists :: "json \<Rightarrow> string \<Rightarrow> bool res" where
  "lists v k = as_dict v (Inr (\<not> has_key v k \<or> is_list (jget v k)))"

definition check_cleanup :: "json \<Rightarrow> json \<Rightarrow> unit res" where
  "check_cleanup tc sc =
     chk (alls [is_value (JBool True) (item tc ''direct_reaped''), is_value (JBool True) (item sc ''direct_reaped''),
                is_value (JBool True) (item tc ''success''), is_value (JBool True) (item sc ''success''),
                is_value (JArr []) (look tc [''final'', ''live'']), is_value (JArr []) (look tc [''final'', ''errors'']),
                is_value (JArr []) (item sc ''residual_live''), falsy (item tc ''errors''), falsy (item sc ''errors'')]) ''owned cleanup incomplete'' (Inr ())"

definition check_guardian :: "json \<Rightarrow> unit res" where
  "check_guardian g =
     chk (alls [is_value JNull (item g ''stop''), is_value (JArr []) (item g ''signals''), is_value (JArr []) (item g ''residual_children'')]) ''guardian cleanup/stop''
     (chk (alls [leqr (item g ''peak_descendants'') (Inr (JInt 8)), leqr (Inr (JInt (2 * 1024 ^ 3))) (item g ''minimum_memavailable_bytes'')]) ''guardian safety bounds''
     (needp (is_int (jget g ''peak_descendants'') \<and> is_int (jget g ''minimum_memavailable_bytes'')) ''guardian counter types'' (Inr ())))"

definition target_succeeded :: "json \<Rightarrow> json \<Rightarrow> bool res" where
  "target_succeeded core tc = alls [is_value (JStr ''command_success'') (look core [''primary'', ''outcome'']),
     eqr (item tc ''direct_exit_code'') (Inr (JInt 0)), falsy (item core ''stop_escalation'')]"

definition check_target :: "docs \<Rightarrow> bool \<Rightarrow> json \<Rightarrow> unit res" where
  "check_target D ok exit_code =
     (let core = dc_core D; boot = dc_boot D in
      bindr (if ok then chk (alls [eqr (look core [''primary'', ''waitid_code'']) (Inr (JInt CLD_EXITED)), eqr (look core [''primary'', ''waitid_status'']) (Inr (JInt 0))])
                ''target waitid success'' (Inr ()) else Inr ()) (\<lambda>_.
      chk (is_value (JBool ok) (item core ''overall_success'')) ''contradictory core success''
      (chk (alls [is_value (JBool True) (item boot ''interface_complete''), is_value JNull (item boot ''error''),
                  is_value (JBool ok) (item boot ''execution_succeeded''), is_value (JBool ok) (item boot ''accepted'')]) ''contradictory Bootstrap success''
      (needp (exit_code = JInt (if ok then 0 else 1)) ''Bootstrap exit/outcome contradiction'' (Inr ())))))"

definition check_output :: "(string \<Rightarrow> string) \<Rightarrow> (string \<Rightarrow> string option) \<Rightarrow> json \<Rightarrow> string \<Rightarrow> unit \<Rightarrow> unit res" where
  "check_output sha raw core name u =
     bindr (raw_file raw (''supervised/inner/'' @ name)) (\<lambda>data.
     chk (eqr (look core [''raw'', name]) (Inr (bytes_ref sha data))) ''target output identity'' (Inr ()))"

definition check_outcome :: "(string \<Rightarrow> string) \<Rightarrow> (string \<Rightarrow> string option) \<Rightarrow> docs \<Rightarrow> (bool \<times> json) res" where
  "check_outcome sha raw D =
     (let s = dc_super D; g = dc_guard D; core = dc_core D in
      chk (alls [eqr (item s ''inner_result'') (Inr core), eqr (item s ''inner_primary'') (item core ''primary''), eqr (item s ''inner_cleanup'') (item core ''cleanup'')])
        ''inner result copies''
      (bindr (fold_res (check_output sha raw core) [''stdout'', ''stderr''] ()) (\<lambda>_.
       bindr (item core ''cleanup'') (\<lambda>tc.
       bindr (item s ''cleanup'') (\<lambda>sc.
       bindr (fold_res (\<lambda>(v, k) _. chk (lists v k) ''malformed error/signal list'' (Inr ()))
         [(core, ''evidence_errors''), (core, ''runner_signals''), (core, ''execution_errors''), (tc, ''errors''), (sc, ''errors''), (s, ''errors'')] ()) (\<lambda>_.
       bindr (check_cleanup tc sc) (\<lambda>_.
       bindr (check_guardian g) (\<lambda>_.
       let exit_code = jget sc ''runner_exit_code'' in
       needp (is_int exit_code \<and> is_int (jget tc ''direct_exit_code'') \<and> is_int (jget g ''exit_code'')) ''missing/malformed process exit''
       (chk (alls [is_value (JBool True) (item core ''evidence_complete''), falsy (item core ''evidence_errors''),
                   falsy (Inr (jget core ''execution_errors'')), falsy (item core ''runner_signals'')]) ''Runner evidence incomplete''
       (bindr (target_succeeded core tc) (\<lambda>ok.
        bindr (check_target D ok exit_code) (\<lambda>_. Inr (ok, exit_code)))))))))))))"

section \<open>The supervisor's trace\<close>

definition live_trace :: "json list \<Rightarrow> json list res" where
  "live_trace rows = requires (list_all is_dict rows) AttributeError (Inr (filter (\<lambda>r. jget r ''valid'' = JBool True \<and> jget r ''live'' = JBool True) rows))"

definition of_class :: "string \<Rightarrow> json list \<Rightarrow> json list res" where
  "of_class name rows = bindr (map_res (\<lambda>r. item r ''classification'') rows) (\<lambda>cs. Inr (map snd (filter (\<lambda>x. fst x = JStr name) (zip cs rows))))"

text \<open>\<open>max(values, default=None)\<close>\<close>

definition max_of :: "json list \<Rightarrow> json res" where
  "max_of vs = (case vs of [] \<Rightarrow> Inr JNull | v # vs \<Rightarrow> fold_res (\<lambda>x best. bindr (le_res x best) (\<lambda>le. Inr (if le then best else x))) vs v)"

definition rss_peak :: "json list \<Rightarrow> json res" where
  "rss_peak rows = bindr (map_res (\<lambda>r. item r ''rss_bytes'') rows) max_of"

definition check_super_trace :: "(string \<Rightarrow> string option) \<Rightarrow> docs \<Rightarrow> unit res" where
  "check_super_trace raw D =
     (let s = dc_super D in
      bindr (item s ''pre_release_live_sample'') (\<lambda>pre.
      bindr (load_lines raw ''supervised/resources.jsonl'') (\<lambda>trace.
      bindr (live_trace trace) (\<lambda>lives.
      bindr (of_class ''pre_release'' lives) (\<lambda>before.
      bindr (of_class ''post_release'' lives) (\<lambda>after.
      needp (before \<noteq> [] \<and> encoded (last before) = encoded pre) ''Supervisor raw readiness sample''
      (chk (alls [eqr (item s ''readiness_rss_bytes'') (item (last before) ''rss_bytes''), eqr (item s ''all_live_sampled_peak_bytes'') (rss_peak lives),
                  eqr (item s ''post_release_live_samples'') (Inr (JInt (int (length after)))), eqr (item s ''post_release_sampled_peak_bytes'') (rss_peak after)])
         ''Supervisor sampled peak agreement''
      (chk (alls [is_value (JBool True) (item s ''observation_complete''), is_value (JBool True) (item pre ''valid''), is_value (JBool True) (item pre ''live''),
                  eqr (bindr (item pre ''identity'') event_identity) (Inr (dc_target D)), leqr (item pre ''end_ns'') (item s ''release_begin_ns'')])
         ''Supervisor readiness evidence'' (Inr ())))))))))"

definition check_success_agrees :: "docs \<Rightarrow> bool \<Rightarrow> json \<Rightarrow> bool res" where
  "check_success_agrees D ok exit_code =
     (let s = dc_super D; g = dc_guard D in
      bindr (if ok \<and> exit_code = JInt 0 then alls [is_value JNull (item s ''reason''), falsy (item s ''errors'')] else Inr False) (\<lambda>expected.
      chk (alls [is_value (JBool True) (item s ''g4_interface_complete''), is_value (JBool expected) (item s ''success''),
                 eqr (item g ''exit_code'') (Inr (JInt (if expected then 0 else 1)))]) ''contradictory Supervisor success'' (Inr expected)))"

section \<open>The audit\<close>

record g4_report =
  vr_run_id :: "json option"
  vr_attempted :: "bool option"
  vr_succeeded :: "bool option"
  vr_valid :: bool
  vr_coverage :: json
  vr_accepted :: bool
  vr_crypto :: "crypto_state option"
  vr_exit :: "json option"
  vr_resource :: "json option"
  vr_errors :: "py_error list"

definition new_report :: g4_report where
  "new_report = \<lparr>vr_run_id = None, vr_attempted = None, vr_succeeded = None, vr_valid = False, vr_coverage = JStr ''unknown'', vr_accepted = False,
     vr_crypto = None, vr_exit = None, vr_resource = None, vr_errors = []\<rparr>"

definition reconcile :: "(string \<Rightarrow> string) \<Rightarrow> host \<Rightarrow> g4_bundle \<Rightarrow> json \<Rightarrow> bool \<Rightarrow> (string \<Rightarrow> string option) \<Rightarrow> docs \<Rightarrow> (bool \<times> json \<times> audit_report \<times> json) res" where
  "reconcile sha h B m crypto raw D =
     bindr (check_launched sha h m crypto raw D) (\<lambda>_.
     bindr (check_transcripts sha B m raw D) (\<lambda>a.
     bindr (check_samples sha B m raw D a) (\<lambda>(rss, rows, resource).
     bindr (check_outcome sha raw D) (\<lambda>(ok, exit_code).
     bindr (check_super_trace raw D) (\<lambda>_.
     bindr (check_success_agrees D ok exit_code) (\<lambda>expected. Inr (expected, exit_code, rss, resource)))))))"

definition crypto_budget :: "json \<Rightarrow> docs \<Rightarrow> unit res" where
  "crypto_budget m D =
     (let v = jget (dc_guard D) ''outer_seconds'' in
      chk (alls [Inr (is_int v), eqr (Inr v) (look m [''crypto'', ''guardian_seconds''])]) ''crypto Guardian budget'' (Inr ()))"

text \<open>The report keeps what was known before a rejection; the rejection itself is recorded as an error.\<close>

definition rejected :: "g4_report \<Rightarrow> py_error \<Rightarrow> g4_report" where
  "rejected R e = R\<lparr>vr_errors := vr_errors R @ [e]\<rparr>"

definition conclude_audit :: "(string \<Rightarrow> string) \<Rightarrow> json \<Rightarrow> bool \<Rightarrow> (string \<Rightarrow> string option) \<Rightarrow> docs \<Rightarrow> bool \<times> json \<times> audit_report \<times> json \<Rightarrow> g4_report \<Rightarrow> g4_report" where
  "conclude_audit sha m crypto raw D found R = (case found of (expected, exit_code, rss, resource) \<Rightarrow>
     let (R1, c) = (if crypto
           then (case evidence sha raw m no_evidence of (cs, r) \<Rightarrow> (R\<lparr>vr_crypto := Some cs\<rparr>, bindr r (\<lambda>_. crypto_budget m D)))
           else (R, Inr ())) in
     case c of
       Inl e \<Rightarrow> rejected R1 e
     | Inr u \<Rightarrow> R1\<lparr>vr_succeeded := Some expected, vr_valid := True, vr_coverage := jget (JObj (ar_derived rss)) ''workload_coverage'', vr_accepted := expected,
         vr_exit := Some exit_code, vr_resource := Some resource\<rparr>)"

definition g4_audit :: "(string \<Rightarrow> string) \<Rightarrow> host \<Rightarrow> g4_bundle \<Rightarrow> g4_report" where
  "g4_audit sha h B =
     (case load_bundle sha h B of
        Inl e \<Rightarrow> rejected new_report e
      | Inr (m, crypto, raw) \<Rightarrow>
          (let R = new_report\<lparr>vr_run_id := Some (jget m ''run_id''), vr_crypto := (if crypto then Some no_evidence else None)\<rparr> in
           case load_docs raw of
             Inl e \<Rightarrow> rejected R e
           | Inr D \<Rightarrow>
               (let R1 = R\<lparr>vr_attempted := Some True\<rparr> in
                case reconcile sha h B m crypto raw D of
                  Inl e \<Rightarrow> rejected R1 e
                | Inr found \<Rightarrow> conclude_audit sha m crypto raw D found R1)))"

definition g4_status :: "g4_report \<Rightarrow> int" where
  "g4_status R = (if vr_accepted R then 0 else if vr_valid R then 1 else 2)"

section \<open>Reading the checks\<close>

lemma chk_iff: "chk c reason k = Inr y \<longleftrightarrow> c = Inr True \<and> k = Inr y"
  by (auto simp: bindr_Inr_iff requires_Inr_iff)

lemma alls_iff: "alls cs = Inr True \<longleftrightarrow> (\<forall>c \<in> set cs. c = Inr True)"
  by (induction cs) (auto simp: bindr_Inr_iff)

lemma is_value_iff: "is_value v a = Inr True \<longleftrightarrow> a = Inr v"
  by (auto simp: is_value_def bindr_Inr_iff)

lemma falsy_iff: "falsy a = Inr True \<longleftrightarrow> (\<exists>x. a = Inr x \<and> \<not> truthy x)"
  by (auto simp: falsy_def bindr_Inr_iff)

lemma eqr_iff: "eqr a b = Inr True \<longleftrightarrow> (\<exists>x y. a = Inr x \<and> b = Inr y \<and> py_eq x y)"
  by (auto simp: eqr_def bindr_Inr_iff)

lemmas checks = chk_iff alls_iff is_value_iff falsy_iff eqr_iff

lemma load_artifacts:
  assumes "fold_res (load_artifact sha B) kvs raw0 = Inr raw" "distinct (map fst kvs)" "\<forall>(n, v) \<in> set kvs. json_ok v"
  shows "\<forall>(n, v) \<in> set kvs. ref_matches sha v (fv_first (bu_file B n)) \<and> raw n = Some (fv_first (bu_file B n))" (is "?P kvs")
proof -
  have "?P kvs \<and> (\<forall>n. n \<notin> fst ` set kvs \<longrightarrow> raw n = raw0 n)"
  using assms
proof (induction kvs arbitrary: raw0)
  case (Cons kv kvs)
  obtain n v where kv: "kv = (n, v)" by fastforce
  from Cons.prems(1) obtain raw1 where f: "load_artifact sha B kv raw0 = Inr raw1" "fold_res (load_artifact sha B) kvs raw1 = Inr raw" by (auto simp: bindr_Inr_iff)
  from f(1) obtain data where d: "read_regular MiB16 (bu_file B n) = Inr data" "encoded v = encoded (bytes_ref sha data)" "raw1 = raw0(n := Some data)"
    by (auto simp: kv load_artifact_def bindr_Inr_iff requires_Inr_iff)
  have data: "data = fv_first (bu_file B n)" using read_regularD [OF d(1)] by simp
  have ih: "\<forall>(n, v) \<in> set kvs. ref_matches sha v (fv_first (bu_file B n)) \<and> raw n = Some (fv_first (bu_file B n))"
      "\<forall>x. x \<notin> fst ` set kvs \<longrightarrow> raw x = (raw0(n := Some data)) x"
    using Cons.IH [OF f(2)] Cons.prems(2,3) d(3) by auto
  have "ref_matches sha v data" using encoded_bytes_ref d(2) Cons.prems(3) by (simp add: kv)
  moreover have "raw n = Some data" using ih(2) Cons.prems(2) by (auto simp: kv)
  ultimately show ?case using ih by (simp add: kv data)
qed auto
  then show ?thesis ..
qed

lemma transcript_runs:
  assumes "fold_res (transcript_step g tid) a st0 = Inr st" "chan_run rid ms st0"
  shows "chan_run rid (ms @ a) st \<and> (\<forall>e \<in> set a. py_eq (jget e ''owner'') tid)"
  using assms
proof (induction a arbitrary: ms st0)
  case (Cons e a)
  from Cons.prems(1) obtain st1 where t: "transcript_step g tid e st0 = Inr st1" "fold_res (transcript_step g tid) a st1 = Inr st" by (auto simp: bindr_Inr_iff)
  from t(1) obtain v where s: "accept (num_floor (jget g ''end_ns'')) e st0 = (st1, Inr v)" "eqr (item e ''owner'') (Inr tid) = Inr True"
    by (auto simp: transcript_step_def bindr_Inr_iff requires_Inr_iff split: prod.splits sum.splits)
  have "py_eq (jget e ''owner'') tid" using s(2) by (auto simp: eqr_iff dest: itemD)
  with Cons.IH [OF t(2) chan_run.accepted [OF Cons.prems(2) s(1)]] show ?case by simp
qed simp

section \<open>What an accepted bundle shows\<close>

text \<open>The artifacts are the indexed ones.\<close>

definition indexed :: "(string \<Rightarrow> string) \<Rightarrow> g4_bundle \<Rightarrow> bool \<Rightarrow> (string \<Rightarrow> string option) \<Rightarrow> bool" where
  "indexed sha B crypto raw \<longleftrightarrow> (\<exists>index. loads (fv_first (bu_index B)) = Some index \<and> keys_are index (artifact_names crypto) \<and>
     (\<forall>(name, ref) \<in> set (pairs index). ref_matches sha ref (fv_first (bu_file B name)) \<and> raw name = Some (fv_first (bu_file B name))))"

text \<open>Both transcripts are the complete protocol, for the target, and the two receipts are about the sample file.\<close>

definition transcribed :: "(string \<Rightarrow> string) \<Rightarrow> g4_bundle \<Rightarrow> json \<Rightarrow> (string \<Rightarrow> string option) \<Rightarrow> docs \<Rightarrow> bool" where
  "transcribed sha B m raw D \<longleftrightarrow> (\<exists>a rid. load_lines raw ''supervisor-events.jsonl'' = Inr a \<and> jget m ''run_id'' = JStr rid \<and> length a = 5 \<and> lockstep rid a \<and>
     (\<forall>e \<in> set a. py_eq (jget e ''owner'') (dc_target D)) \<and>
     receipt_shows sha rid (bu_ready B) (a ! 1) ''readiness'' \<and> receipt_shows sha rid (bu_work B) (a ! 4) ''workload'')"

text \<open>The sample stream passes its own audit with samples of both phases, and the resource decision on the monitor's rows agrees with the report.\<close>

definition sampled :: "(string \<Rightarrow> string) \<Rightarrow> g4_bundle \<Rightarrow> json \<Rightarrow> (string \<Rightarrow> string option) \<Rightarrow> docs \<Rightarrow> bool" where
  "sampled sha B m raw D \<longleftrightarrow> (\<exists>stream summary rss rows mon d.
     bu_rss B = Inr stream \<and> bu_summary B = Inr summary \<and> audit sha stream summary (bu_inner B) = Inr rss \<and> \<not> ar_has_partial rss \<and>
     phase_complete rss ''readiness'' > 0 \<and> phase_complete rss ''workload'' > 0 \<and>
     load_lines raw ''supervised/group-rss.jsonl'' = Inr rows \<and> monitor_rows rows = Inr mon \<and>
     resource_decision mon (dc_core D) (jget m ''effective_limits'') = Inr d)"

text \<open>The command ended by itself, with status 0 at every level, and nothing was left behind.\<close>

definition completed :: "docs \<Rightarrow> bool" where
  "completed D \<longleftrightarrow>
     (let s = dc_super D; g = dc_guard D; core = dc_core D; tc = jget core ''cleanup''; sc = jget s ''cleanup'' in
      jget (jget core ''primary'') ''outcome'' = JStr ''command_success'' \<and> jget core ''overall_success'' = JBool True \<and>
      jget tc ''success'' = JBool True \<and> jget (jget tc ''final'') ''live'' = JArr [] \<and> jget sc ''success'' = JBool True \<and> jget sc ''residual_live'' = JArr [] \<and>
      jget sc ''runner_exit_code'' = JInt 0 \<and> jget g ''stop'' = JNull \<and> jget g ''signals'' = JArr [] \<and> jget g ''residual_children'' = JArr [] \<and>
      jget (dc_boot D) ''accepted'' = JBool True \<and> jget s ''success'' = JBool True)"

definition bundle_sound :: "(string \<Rightarrow> string) \<Rightarrow> host \<Rightarrow> g4_bundle \<Rightarrow> bool" where
  "bundle_sound sha h B \<longleftrightarrow> (\<exists>m crypto raw D. g4_check sha h True (bu_dir B) = Inr m \<and> indexed sha B crypto raw \<and> load_docs raw = Inr D \<and>
     check_launched sha h m crypto raw D = Inr () \<and> transcribed sha B m raw D \<and> sampled sha B m raw D \<and> completed D \<and>
     (crypto \<longrightarrow> cs_valid (fst (evidence sha raw m no_evidence))))"

lemma load_bundleD:
  assumes "load_bundle sha h B = Inr (m, crypto, raw)"
  shows "g4_check sha h True (bu_dir B) = Inr m \<and> indexed sha B crypto raw"
proof -
  from assms obtain data index where l: "read_regular MiB2 (bu_index B) = Inr data" "decode_evidence data = Inr index" "keys_are index (artifact_names crypto)"
      "fold_res (load_artifact sha B) (pairs index) (\<lambda>_. None) = Inr raw" "g4_check sha h True (bu_dir B) = Inr m"
    unfolding load_bundle_def Let_def by (auto simp: bindr_Inr_iff requires_Inr_iff)
  have ok: "json_ok index" using l(2) by (rule decode_evidence_ok)
  obtain kvs where kvs: "index = JObj kvs" using l(3) by (cases index) (auto simp: keys_are_def)
  then have d: "distinct (map fst (pairs index))" "\<forall>(n, v) \<in> set (pairs index). json_ok v" using ok by (auto simp: json_ok_JObj)
  have "loads (fv_first (bu_index B)) = Some index" using l(2) read_regularD [OF l(1)] by (auto simp: decode_evidence_def split: option.splits)
  then show ?thesis using load_artifacts [OF l(4) d] l(3,5) unfolding indexed_def by blast
qed

lemma check_transcriptsD:
  assumes "check_transcripts sha B m raw D = Inr a"
  shows "transcribed sha B m raw D"
proof -
  from assms obtain v rid st where t: "load_lines raw ''supervisor-events.jsonl'' = Inr a" "length a = 5" "item m ''run_id'' = Inr v" "g4_run_id v = Inr rid"
      "fold_res (transcript_step (dc_guard D) (dc_target D)) a (new_chan rid) = Inr st"
      "verify_receipt sha rid (bu_ready B) (a ! 1) ''readiness'' = Inr ()" "verify_receipt sha rid (bu_work B) (a ! 4) ''workload'' = Inr ()"
    unfolding check_transcripts_def Let_def by (auto simp: bindr_Inr_iff requires_Inr_iff simp del: alls.simps)
  have run: "chan_run rid a st" "\<forall>e \<in> set a. py_eq (jget e ''owner'') (dc_target D)" using transcript_runs [OF t(5) chan_run.start] by simp_all
  then have "lockstep rid a" using chan_run_inv chan_inv_def by blast
  moreover have "jget m ''run_id'' = JStr rid" using t(3,4) itemD by (cases v) (auto simp: g4_run_id_def requires_Inr_iff)
  ultimately show ?thesis using t(1,2) run(2) verify_receiptD [OF t(6)] verify_receiptD [OF t(7)] unfolding transcribed_def by blast
qed

lemma check_samplesD:
  assumes "check_samples sha B m raw D a = Inr x"
  shows "sampled sha B m raw D"
  using assms unfolding check_samples_def sampled_def
  by (fastforce simp: bindr_Inr_iff requires_Inr_iff dest: itemD simp del: alls.simps)

lemma lookD: "look v ks = Inr x \<Longrightarrow> fold (\<lambda>k j. jget j k) ks v = x"
  by (induction ks arbitrary: v) (auto simp: bindr_Inr_iff dest: itemD)

lemma check_outcomeD:
  assumes "check_outcome sha raw D = Inr (True, exit_code)"
  shows "jget (jget (dc_core D) ''primary'') ''outcome'' = JStr ''command_success'' \<and> jget (dc_core D) ''overall_success'' = JBool True \<and>
    jget (jget (dc_core D) ''cleanup'') ''success'' = JBool True \<and> jget (jget (jget (dc_core D) ''cleanup'') ''final'') ''live'' = JArr [] \<and>
    jget (jget (dc_super D) ''cleanup'') ''success'' = JBool True \<and> jget (jget (dc_super D) ''cleanup'') ''residual_live'' = JArr [] \<and>
    jget (jget (dc_super D) ''cleanup'') ''runner_exit_code'' = JInt 0 \<and> jget (dc_guard D) ''stop'' = JNull \<and> jget (dc_guard D) ''signals'' = JArr [] \<and>
    jget (dc_guard D) ''residual_children'' = JArr [] \<and> jget (dc_boot D) ''accepted'' = JBool True"
proof -
  from assms obtain tc sc where c: "item (dc_core D) ''cleanup'' = Inr tc" "item (dc_super D) ''cleanup'' = Inr sc" "check_cleanup tc sc = Inr ()"
      "check_guardian (dc_guard D) = Inr ()" "target_succeeded (dc_core D) tc = Inr True" "check_target D True exit_code = Inr ()" "exit_code = jget sc ''runner_exit_code''"
    unfolding check_outcome_def Let_def by (auto simp: bindr_Inr_iff requires_Inr_iff simp del: alls.simps)
  have cl: "item tc ''success'' = Inr (JBool True)" "item sc ''success'' = Inr (JBool True)" "look tc [''final'', ''live''] = Inr (JArr [])" "item sc ''residual_live'' = Inr (JArr [])"
    using c(3) unfolding check_cleanup_def chk_iff alls_iff by (simp_all add: is_value_iff)
  have gd: "item (dc_guard D) ''stop'' = Inr JNull" "item (dc_guard D) ''signals'' = Inr (JArr [])" "item (dc_guard D) ''residual_children'' = Inr (JArr [])"
    using c(4) unfolding check_guardian_def chk_iff alls_iff by (simp_all add: is_value_iff)
  have tg: "look (dc_core D) [''primary'', ''outcome''] = Inr (JStr ''command_success'')"
    using c(5) unfolding target_succeeded_def alls_iff by (simp add: is_value_iff)
  have ts: "item (dc_core D) ''overall_success'' = Inr (JBool True)" "item (dc_boot D) ''accepted'' = Inr (JBool True)" "exit_code = JInt 0"
    using c(6) unfolding check_target_def Let_def bindr_Inr_iff [of "if True then _ else _"] chk_iff alls_iff by (auto simp: is_value_iff requires_Inr_iff)
  show ?thesis
    using itemD [OF c(1)] itemD [OF c(2)] cl(1,2,4) gd ts c(7) lookD [OF cl(3)] lookD [OF tg] by (auto dest!: itemD)
qed

lemma reconcileD:
  assumes "reconcile sha h B m crypto raw D = Inr (True, rest)"
  shows "check_launched sha h m crypto raw D = Inr () \<and> transcribed sha B m raw D \<and> sampled sha B m raw D \<and> completed D"
proof -
  from assms obtain a x ok exit_code where r: "check_launched sha h m crypto raw D = Inr ()" "check_transcripts sha B m raw D = Inr a" "check_samples sha B m raw D a = Inr x"
      "check_outcome sha raw D = Inr (ok, exit_code)" "check_success_agrees D ok exit_code = Inr True"
    unfolding reconcile_def by (auto simp: bindr_Inr_iff split: prod.splits)
  have ok: ok and s: "item (dc_super D) ''success'' = Inr (JBool True)"
    using r(5) unfolding check_success_agrees_def Let_def bindr_Inr_iff [of "if _ then _ else _"] chk_iff alls_iff
    by (auto simp: is_value_iff split: if_splits)
  have "completed D" using check_outcomeD [of sha raw D exit_code] r(4) ok itemD [OF s] by (simp add: completed_def Let_def)
  then show ?thesis using r(1) check_transcriptsD [OF r(2)] check_samplesD [OF r(3)] by blast
qed

lemma accepted_sound:
  assumes "vr_accepted (g4_audit sha h B)"
  shows "bundle_sound sha h B"
proof -
  from assms obtain m crypto raw D found where f: "load_bundle sha h B = Inr (m, crypto, raw)" "load_docs raw = Inr D" "reconcile sha h B m crypto raw D = Inr found"
      "vr_accepted (conclude_audit sha m crypto raw D found (new_report\<lparr>vr_run_id := Some (jget m ''run_id''), vr_crypto := (if crypto then Some no_evidence else None), vr_attempted := Some True\<rparr>))"
    unfolding g4_audit_def Let_def by (auto simp: rejected_def new_report_def split: sum.splits prod.splits)
  obtain expected rest where found: "found = (expected, rest)" by (cases found) auto
  have c: expected "crypto \<longrightarrow> snd (evidence sha raw m no_evidence) = Inr ()"
    using f(4) unfolding conclude_audit_def found
    by (auto simp: rejected_def new_report_def Let_def bindr_Inr_iff split: prod.splits sum.splits if_splits)
  have "crypto \<longrightarrow> cs_valid (fst (evidence sha raw m no_evidence))"
    using c(2) by (auto simp: evidence_def all_evidence_def Let_def split: sum.splits prod.splits)
  moreover have "reconcile sha h B m crypto raw D = Inr (True, rest)" using f(3) c(1) found by simp
  ultimately show ?thesis
    using load_bundleD [OF f(1)] f(2) reconcileD [of sha h B m crypto raw D rest] unfolding bundle_sound_def by blast
qed

section \<open>Properties\<close>

text \<open>A bundle whose index names no artifact.\<close>

definition ex_unsealed :: g4_bundle where
  "ex_unsealed = \<lparr>bu_index = quiet_view ''{}'', bu_manifest = quiet_view (dump True 0 ex_g4), bu_file = (\<lambda>n. quiet_view (ex_g4_file n)), bu_dir = ex_dir, bu_resolved = ''/a/n8-cpu-pilot-20260101T000000Z/g4'',
     bu_ready = quiet_view [], bu_work = quiet_view [], bu_rss = Inr [], bu_summary = Inr [], bu_inner = Inr []\<rparr>"

lemma ex_unsealed_unsound: "\<not> bundle_sound G4_Freeze.ex_sha ex_host ex_unsealed"
proof -
  have "loads ''{}'' = Some (JObj [])" by code_simp
  then have "\<not> indexed G4_Freeze.ex_sha ex_unsealed crypto raw" for crypto raw
    by (auto simp: indexed_def ex_unsealed_def quiet_view_def keys_are_def keys_def artifact_names_def REQUIRED_def)
  then show ?thesis by (simp add: bundle_sound_def)
qed



end
