(* ===== verification/G4_Supervise.thy ===== *)
theory G4_Supervise
  imports Resource_Audit G4_Freeze
begin

text \<open>
  The G4 supervisor \<^verbatim>\<open>g4_supervise.py\<close>. Its loop is the one of \<^verbatim>\<open>supervise.py\<close> (theory \<open>Barrier\<close>) with the methods of a
  \<open>Controller\<close> as the callbacks of the milestones; the controller owns the supervisor's end of the channel. The theory has
  the controller, the selection of the entry point, the environment of the runner, and the success that the G4 supervisor
  publishes.

  The callbacks of a finished loop are replayed over its events. This is what the loop did: the fields of the record that a callback
  reads (the target, the release and the acknowledgement) are set before the callback's event and never change afterwards.
\<close>

section \<open>The controller\<close>

text \<open>
  The server as the controller sees it: \<open>sv_listen\<close> is the connection, with the verdict of \<open>peer_matches\<close>, \<open>sv_readiness\<close> and
  \<open>sv_workload\<close> are the raw file at the time of the two receipts, \<open>sv_config\<close> is the hash of the frozen configuration.
\<close>

record g4_server =
  sv_wire :: wire
  sv_deadline :: int
  sv_run_id :: string
  sv_runner :: ident
  sv_pid :: int
  sv_config :: string
  sv_listen :: "nat \<Rightarrow> bool res"
  sv_readiness :: file_view
  sv_workload :: file_view

text \<open>\<open>Server.accept\<close>\<close>

definition server_accept :: "g4_server \<Rightarrow> (link, unit) io" where
  "server_accept S =
     bindi (budget (sv_wire S) (sv_deadline S)) (\<lambda>_.
     bindi (attempt (syscall (sv_listen S))) (\<lambda>r.
       case r of
         Inl e \<Rightarrow> raise (if e = TimeoutError then InterfaceError ''channel timeout'' else e)
       | Inr peer \<Rightarrow> server_hello (sv_wire S) (sv_deadline S) peer (sv_run_id S) (sv_runner S) (sv_pid S) (sv_config S)))"

text \<open>\<open>self.link\<close> is \<open>None\<close> until the runner has connected; a call on it is an \<open>AttributeError\<close> then.\<close>

definition with_link :: "(link, 'a) io \<Rightarrow> (link option, 'a) io" where
  "with_link m = (\<lambda>k. case k of None \<Rightarrow> Some (Inl AttributeError, None) | Some l \<Rightarrow> map_option (\<lambda>(r, l'). (r, Some l')) (m l))"

definition runner_created :: "g4_server \<Rightarrow> (link option, unit) io" where
  "runner_created S = (\<lambda>k. case server_accept S (new_link (sv_run_id S)) of
      None \<Rightarrow> None
    | Some (r, l) \<Rightarrow> Some (r, case r of Inl e \<Rightarrow> k | Inr u \<Rightarrow> Some l))"

definition send_event :: "g4_server \<Rightarrow> string \<Rightarrow> json \<Rightarrow> ns \<Rightarrow> (link, unit) io" where
  "send_event S event target stamp =
     bindi (lift_res (event_identity target)) (\<lambda>t.
     bindi (link_send (sv_wire S) (sv_deadline S) event t (Some stamp) JNull) (\<lambda>_. ret ()))"

definition receive_receipt :: "(string \<Rightarrow> string) \<Rightarrow> g4_server \<Rightarrow> string \<Rightarrow> file_view \<Rightarrow> string \<Rightarrow> (link, unit) io" where
  "receive_receipt sha S event v phase_name =
     bindi (link_receive (sv_wire S) (sv_deadline S) event) (\<lambda>value.
     lift_res (verify_receipt sha (sv_run_id S) v value phase_name))"

definition ready :: "g4_server \<Rightarrow> json \<Rightarrow> ns \<Rightarrow> (link option, unit) io" where
  "ready S target stamp = with_link (send_event S ''ready_verified'' target stamp)"

definition before_release :: "(string \<Rightarrow> string) \<Rightarrow> g4_server \<Rightarrow> (link option, unit) io" where
  "before_release sha S = with_link (receive_receipt sha S ''readiness_persisted'' (sv_readiness S) ''readiness'')"

definition released :: "g4_server \<Rightarrow> json \<Rightarrow> ns \<Rightarrow> (link option, unit) io" where
  "released S target stamp = with_link (send_event S ''release_initiated'' target stamp)"

definition acknowledged :: "(string \<Rightarrow> string) \<Rightarrow> g4_server \<Rightarrow> json \<Rightarrow> ns \<Rightarrow> (link option, unit) io" where
  "acknowledged sha S target stamp =
     with_link (bindi (send_event S ''release_acknowledged'' target stamp) (\<lambda>_.
       receive_receipt sha S ''workload_persisted'' (sv_workload S) ''workload''))"

definition controller_complete :: "link option \<Rightarrow> bool" where
  "controller_complete k = (case k of None \<Rightarrow> False | Some l \<Rightarrow> ch_sequence (lk_chan l) = 5 \<and> \<not> ch_failed (lk_chan l))"

definition controller_close :: "g4_server \<Rightarrow> (link option, unit) io" where
  "controller_close S = (\<lambda>k. if k = None \<or> controller_complete k then Some (Inr (), k)
     else with_link (link_fail (sv_wire S) ''incomplete_supervisor_coordination'') k)"

section \<open>The callbacks of a run\<close>

definition target_json :: "sup \<Rightarrow> json" where
  "target_json s = (case su_target s of None \<Rightarrow> JNull | Some t \<Rightarrow> proc_json t)"

text \<open>The callback of one event, \<open>stamp\<close> being the stamp of the event itself.\<close>

definition hook :: "(string \<Rightarrow> string) \<Rightarrow> g4_server \<Rightarrow> sup \<Rightarrow> string \<Rightarrow> ns \<Rightarrow> (link option, unit) io" where
  "hook sha S s name stamp =
     (if name = ''runner_created'' then runner_created S
      else if name = ''target_identified'' then ready S (target_json s) stamp
      else if name = ''before_release'' then before_release sha S
      else if name = ''released'' then released S (target_json s) (the (su_release_begin s))
      else if name = ''target_acknowledged'' then acknowledged sha S (target_json s) (the (su_ack s))
      else ret ())"

fun replay :: "(string \<Rightarrow> string) \<Rightarrow> g4_server \<Rightarrow> sup \<Rightarrow> (string \<times> ns) list \<Rightarrow> (link option, unit) io" where
  "replay sha S s [] = ret ()"
| "replay sha S s ((name, stamp) # evs) = bindi (hook sha S s name stamp) (\<lambda>_. replay sha S s evs)"

section \<open>Entry point, environment and success\<close>

text \<open>\<open>supervise\<close>: the legacy supervisor, or the manifest of the checked G4 launch.\<close>

definition g4_select :: "(string \<Rightarrow> string) \<Rightarrow> host \<Rightarrow> g4_dir option \<Rightarrow> string \<Rightarrow> json \<Rightarrow> string \<Rightarrow> bool \<Rightarrow> json option res" where
  "g4_select sha h config entrypoint args out options =
     (if entrypoint = ''legacy'' then needp (config = None) ''legacy entrypoint cannot use G4 config'' (Inr None)
      else case config of
        None \<Rightarrow> Inl (PolicyError ''unapproved Supervisor entrypoint/options'')
      | Some d \<Rightarrow>
          needp ((entrypoint = G4_ENTRYPOINT \<or> entrypoint = CRYPTO_ENTRYPOINT) \<and> \<not> options) ''unapproved Supervisor entrypoint/options''
          (bindr (g4_check sha h True d) (\<lambda>m.
           needp (py_eq (JStr entrypoint) (jget m ''entrypoint'') \<and> py_eq args (jget m ''target_argv'') \<and> py_eq (JStr out) (jget (jget m ''paths'') ''supervised''))
             ''G4 Supervisor launch mismatch'' (Inr (Some m)))))"

definition GATES :: "string list" where
  "GATES = [''DZKR_MIMCCHAIN_CALIBRATE'', ''DZKR_MIMCCHAIN_GROTH16'', ''DZKR_MIMCCHAIN_CPU_PILOT'', ''DZKR_MIMCCHAIN_CPU_AUDIT'', ''DZKR_MIMCCHAIN_BARRIER_PROBE'']"

definition strings_of :: "json \<Rightarrow> (string \<times> string) list" where
  "strings_of v = map (\<lambda>(k, x). (k, the_str x)) (pairs v)"

definition g4_env :: "json \<Rightarrow> string \<Rightarrow> string \<Rightarrow> (string \<times> string) list" where
  "g4_env m sockpath token =
     (let env = filter (\<lambda>(k, v). k \<notin> set GATES) (strings_of (jget m ''environment''));
          env = AList.updates (map fst (strings_of (launch_overrides m))) (map snd (strings_of (launch_overrides m))) env;
          env = AList.updates [''PYTHONDONTWRITEBYTECODE'', ''GOTOOLCHAIN'', ''GOPROXY'', ''GOSUMDB'', ''GOMAXPROCS'', ''DZKR_MIMCCHAIN_START_BARRIER'',
            ''DZKR_MIMCCHAIN_BARRIER_SOCKET'', ''DZKR_MIMCCHAIN_BARRIER_TOKEN''] [''1'', ''local'', ''off'', ''off'', ''4'', ''1'', sockpath, token] env in
      if map_of env ''DZKR_MIMCCHAIN_BARRIER_TIMEOUT'' = None then AList.update ''DZKR_MIMCCHAIN_BARRIER_TIMEOUT'' ''5s'' env else env)"

definition g4_success :: "sup_end \<Rightarrow> link option \<Rightarrow> bool" where
  "g4_success e k \<longleftrightarrow> supervised_ok e \<and> controller_complete k \<and> fn_exit (se_fin e) = Some 0"

text \<open>A gate of the target is open only when the frozen launch asks for it, whatever the environment of the launch says.\<close>

lemma map_of_updates_other: "k \<notin> set ks \<Longrightarrow> map_of (AList.updates ks vs al) k = map_of al k"
proof (induction ks arbitrary: vs al)
  case (Cons x ks)
  then show ?case by (cases vs) (auto simp: AList.update_conv')
qed simp

lemma g4_env_gates:
  assumes "k \<in> set GATES"
  shows "map_of (g4_env m sockpath token) k = map_of (strings_of (launch_overrides m)) k"
proof -
  let ?env = "filter (\<lambda>(k, v). k \<notin> set GATES) (strings_of (jget m ''environment''))"
  have none: "map_of ?env k = None" using assms by (auto simp: map_of_eq_None_iff)
  have k: "k \<noteq> ''DZKR_MIMCCHAIN_BARRIER_TIMEOUT''" "k \<notin> set [''PYTHONDONTWRITEBYTECODE'', ''GOTOOLCHAIN'', ''GOPROXY'', ''GOSUMDB'', ''GOMAXPROCS'', ''DZKR_MIMCCHAIN_START_BARRIER'',
            ''DZKR_MIMCCHAIN_BARRIER_SOCKET'', ''DZKR_MIMCCHAIN_BARRIER_TOKEN'']" using assms by (auto simp: GATES_def)
  have d: "map_of (if c then AList.update ''DZKR_MIMCCHAIN_BARRIER_TIMEOUT'' v e else e) k = map_of e k" for c and v :: string and e
    using k(1) by (simp add: AList.update_conv')
  have "map_of (g4_env m sockpath token) k = map_of (AList.updates (map fst (strings_of (launch_overrides m))) (map snd (strings_of (launch_overrides m))) ?env) k"
    unfolding g4_env_def Let_def by (simp only: d map_of_updates_other [OF k(2)])
  also have "\<dots> = map_of (strings_of (launch_overrides m)) k"
    using none by (auto simp: launch_overrides_def strings_of_def AList.update_conv')
  finally show ?thesis .
qed

text \<open>The approved entry points run the checked manifest; the legacy one never has a G4 configuration.\<close>

lemma g4_selectD:
  assumes "g4_select sha h config entrypoint args out options = Inr r"
  shows "case r of None \<Rightarrow> entrypoint = ''legacy'' \<and> config = None
    | Some m \<Rightarrow> (\<exists>d. config = Some d \<and> g4_check sha h True d = Inr m) \<and> jget m ''entrypoint'' = JStr entrypoint \<and> \<not> options"
  using assms by (auto simp: g4_select_def res_simps split: if_splits option.splits)

section \<open>What the channel went through\<close>

lemma keeps_syscall: "(\<And>l n. f (l\<lparr>lk_tick := n\<rparr>) = f l) \<Longrightarrow> keeps f (syscall g)"
  by (auto simp: keeps_def syscall_def)

lemma keeps_chan [keeps_intros]: "keeps lk_chan (syscall g)" "keeps lk_chan (budget W dl)" "keeps lk_chan (frame W dl v)" "keeps lk_chan (journal_record W v)"
  unfolding budget_def frame_def journal_record_def link_clock_def
  by (auto intro!: keeps_intros keeps_syscall keeps_modify split: sum.split)

lemma keeps_fill [keeps_intros]: "keeps lk_chan (fill n W dl)"
  by (induction n) (auto simp: Let_def keeps_def [of lk_chan "\<lambda>l. None"] intro!: keeps_intros keeps_modify split: sum.split)

lemma keeps_link_read [keeps_intros]: "keeps lk_chan (link_read W dl)"
  unfolding link_read_def by (auto intro!: keeps_intros keeps_modify split: option.split)

lemma keeps_server_accept: "keeps lk_chan (server_accept S)"
  unfolding server_accept_def server_hello_def by (auto intro!: keeps_intros split: sum.split)

lemma with_linkD: "with_link m k = Some (Inr u, k') \<Longrightarrow> \<exists>l l'. k = Some l \<and> k' = Some l' \<and> m l = Some (Inr u, l')"
  by (auto simp: with_link_def split: option.splits)

lemma runner_createdD: "runner_created S k = Some (Inr u, k') \<Longrightarrow> \<exists>l. k' = Some l \<and> lk_chan l = new_chan (sv_run_id S)"
  using keepsD [OF keeps_server_accept] by (fastforce simp: runner_created_def new_link_def split: option.splits prod.splits sum.splits)

lemma send_eventD:
  assumes "send_event S event target stamp l = Some (Inr u, l')"
  shows "\<exists>t msg now. event_identity target = Inr t \<and> message event t stamp JNull (lk_chan l) = Inr msg \<and> accept now msg (lk_chan l) = (lk_chan l', Inr msg)"
proof -
  from assms obtain t msg l1 l2 where r: "event_identity target = Inr t" "message event t stamp JNull (lk_chan l) = Inr msg" "link_accept (sv_wire S) msg l = Some (Inr l1, l2)" "lk_chan l' = lk_chan l2"
    unfolding send_event_def link_send_def by (auto simp: io_simps dest!: frameD journal_recordD)
  from link_acceptD [OF r(3)] obtain st where st: "accept (wr_clock (sv_wire S) (lk_tick l)) msg (lk_chan l) = (st, Inr l1)" "lk_chan l2 = st" by auto
  have "l1 = msg" using acceptD [OF st(1)] by simp
  then show ?thesis using r st by (intro exI [of _ t] exI [of _ msg] exI conjI) auto
qed

lemma receive_receiptD:
  assumes "receive_receipt sha S event v ph l = Some (Inr u, l')"
  shows "\<exists>msg now. verify_receipt sha (sv_run_id S) v msg ph = Inr () \<and> accept now msg (lk_chan l) = (lk_chan l', Inr msg)"
proof -
  from assms obtain msg l1 m l2 where r: "link_read (sv_wire S) (sv_deadline S) l = Some (Inr msg, l1)" "link_accept (sv_wire S) msg l1 = Some (Inr m, l2)" "lk_chan l' = lk_chan l2"
      "verify_receipt sha (sv_run_id S) v msg ph = Inr ()"
    unfolding receive_receipt_def link_receive_def by (auto simp: io_simps split: if_splits dest!: journal_recordD)
  have "lk_chan l1 = lk_chan l" using keepsD [OF keeps_link_read r(1)] .
  moreover from link_acceptD [OF r(2)] obtain st where st: "accept (wr_clock (sv_wire S) (lk_tick l1)) msg (lk_chan l1) = (st, Inr m)" "lk_chan l2 = st" by auto
  ultimately show ?thesis using acceptD [OF st(1)] r by metis
qed

text \<open>The messages that the channel has accepted, and that it has not failed.\<close>

definition spoken :: "g4_server \<Rightarrow> json list \<Rightarrow> link option \<Rightarrow> bool" where
  "spoken S ms k \<longleftrightarrow> (\<exists>l. k = Some l \<and> chan_run (sv_run_id S) ms (lk_chan l) \<and> \<not> ch_failed (lk_chan l))"

lemma accept_open: "accept now msg st = (st', Inr m) \<Longrightarrow> \<not> ch_failed st'"
  using acceptD [of now msg st st' m] accept_bodyD [of msg "st\<lparr>ch_owner := Some (jget msg ''owner'')\<rparr>" st'] by (auto simp: accept_header_def requires_Inr_iff)

lemma spoken_created: "runner_created S k = Some (Inr u, k') \<Longrightarrow> spoken S [] k'"
  using runner_createdD [of S k u k'] chan_run.start [of "sv_run_id S"] by (auto simp: spoken_def new_chan_def)

lemma spoken_step: "spoken S ms (Some l) \<Longrightarrow> accept now msg (lk_chan l) = (lk_chan l', Inr msg) \<Longrightarrow> spoken S (ms @ [msg]) (Some l')"
  by (auto simp: spoken_def intro: chan_run.accepted dest: accept_open)

lemma send_spoken:
  assumes "send_event S event target stamp l = Some (Inr u, l')" "spoken S ms (Some l)"
  shows "\<exists>msg. spoken S (ms @ [msg]) (Some l') \<and> stamp_of msg = stamp \<and> event_identity target = Inr (jget msg ''owner'')"
proof -
  from send_eventD [OF assms(1)] obtain t msg now where r: "event_identity target = Inr t" "message event t stamp JNull (lk_chan l) = Inr msg"
    "accept now msg (lk_chan l) = (lk_chan l', Inr msg)" by blast
  have "stamp_of msg = stamp" "jget msg ''owner'' = t" using r(2) by (auto simp: message_def bindr_Inr_iff stamp_of_def jint_def jget_def)
  then show ?thesis using r(1) spoken_step [OF assms(2) r(3)] by blast
qed

lemma receive_spoken:
  assumes "receive_receipt sha S event v ph l = Some (Inr u, l')" "spoken S ms (Some l)"
  shows "\<exists>msg. spoken S (ms @ [msg]) (Some l') \<and> receipt_shows sha (sv_run_id S) v msg ph"
  using receive_receiptD [OF assms(1)] spoken_step [OF assms(2)] verify_receiptD by blast

text \<open>The callbacks that return move the channel on, one milestone at a time.\<close>

lemma ready_spoken: "ready S target stamp k = Some (Inr u, k') \<Longrightarrow> spoken S ms k \<Longrightarrow>
    \<exists>msg. spoken S (ms @ [msg]) k' \<and> stamp_of msg = stamp \<and> event_identity target = Inr (jget msg ''owner'')"
  unfolding ready_def using send_spoken by (blast dest!: with_linkD)

lemma released_spoken: "released S target stamp k = Some (Inr u, k') \<Longrightarrow> spoken S ms k \<Longrightarrow>
    \<exists>msg. spoken S (ms @ [msg]) k' \<and> stamp_of msg = stamp \<and> event_identity target = Inr (jget msg ''owner'')"
  unfolding released_def using send_spoken by (blast dest!: with_linkD)

lemma before_release_spoken: "before_release sha S k = Some (Inr u, k') \<Longrightarrow> spoken S ms k \<Longrightarrow>
    \<exists>msg. spoken S (ms @ [msg]) k' \<and> receipt_shows sha (sv_run_id S) (sv_readiness S) msg ''readiness''"
  unfolding before_release_def using receive_spoken by (blast dest!: with_linkD)

lemma acknowledged_spoken:
  assumes "acknowledged sha S target stamp k = Some (Inr u, k')" "spoken S ms k"
  shows "\<exists>m3 m4. spoken S (ms @ [m3, m4]) k' \<and> stamp_of m3 = stamp \<and> receipt_shows sha (sv_run_id S) (sv_workload S) m4 ''workload''"
proof -
  from with_linkD [OF assms(1) [unfolded acknowledged_def]] obtain l l1 l' where l: "k = Some l" "k' = Some l'" "send_event S ''release_acknowledged'' target stamp l = Some (Inr (), l1)"
    "receive_receipt sha S ''workload_persisted'' (sv_workload S) ''workload'' l1 = Some (Inr u, l')" by (auto simp: io_simps)
  from send_spoken [OF l(3)] assms(2) l(1) obtain m3 where m3: "spoken S (ms @ [m3]) (Some l1)" "stamp_of m3 = stamp" by blast
  from receive_spoken [OF l(4) m3(1)] m3(2) l(2) show ?thesis by force
qed

lemma complete_spoken: "spoken S ms k \<Longrightarrow> controller_complete k \<longleftrightarrow> length ms = 5"
  by (auto simp: spoken_def controller_complete_def chan_inv_def dest!: chan_run_inv)

lemma spoken_lockstep: "spoken S ms k \<Longrightarrow> lockstep (sv_run_id S) ms"
  by (auto simp: spoken_def chan_inv_def dest!: chan_run_inv)

section \<open>The interface of a run\<close>

text \<open>What the release and the acknowledgement of a run rest on.\<close>

definition readiness_shown :: "(string \<Rightarrow> string) \<Rightarrow> g4_server \<Rightarrow> sup \<Rightarrow> ns \<Rightarrow> bool" where
  "readiness_shown sha S s b \<longleftrightarrow> (\<exists>msg t. event_identity (target_json s) = Inr t \<and> owner_values (jget msg ''owner'') = owner_values t \<and>
     receipt_shows sha (sv_run_id S) (sv_readiness S) msg ''readiness'' \<and> jint (sample_of msg) ''end_ns'' \<le> b)"

definition workload_shown :: "(string \<Rightarrow> string) \<Rightarrow> g4_server \<Rightarrow> sup \<Rightarrow> ns \<Rightarrow> bool" where
  "workload_shown sha S s a \<longleftrightarrow> (\<exists>msg t. event_identity (target_json s) = Inr t \<and> owner_values (jget msg ''owner'') = owner_values t \<and>
     receipt_shows sha (sv_run_id S) (sv_workload S) msg ''workload'' \<and> a \<le> jint (sample_of msg) ''start_ns'')"

definition up_to_release :: "(string \<Rightarrow> string) \<Rightarrow> g4_server \<Rightarrow> sup \<Rightarrow> json list \<Rightarrow> bool" where
  "up_to_release sha S s ms \<longleftrightarrow> (\<exists>m0 m1 m2 rest. ms = m0 # m1 # m2 # rest \<and> event_identity (target_json s) = Inr (jget m0 ''owner'') \<and>
     receipt_shows sha (sv_run_id S) (sv_readiness S) m1 ''readiness'' \<and> stamp_of m2 = the (su_release_begin s))"

lemma lockstep_parts:
  assumes "lockstep rid ms"
  shows "i < length ms \<Longrightarrow> owner_values (jget (ms ! i) ''owner'') = owner_values (jget (ms ! 0) ''owner'')"
    and "i < j \<Longrightarrow> j < length ms \<Longrightarrow> stamp_of (ms ! i) \<le> stamp_of (ms ! j)"
  using assms by (auto simp: lockstep_def)

lemma up_to_releaseD:
  assumes "up_to_release sha S s ms" "lockstep (sv_run_id S) ms" "su_release_begin s = Some b"
  shows "readiness_shown sha S s b"
proof -
  from assms(1) obtain m0 m1 m2 rest where m: "ms = m0 # m1 # m2 # rest" "event_identity (target_json s) = Inr (jget m0 ''owner'')"
    "receipt_shows sha (sv_run_id S) (sv_readiness S) m1 ''readiness''" "stamp_of m2 = b" using assms(3) by (auto simp: up_to_release_def)
  have "jint (sample_of m1) ''end_ns'' \<le> stamp_of m1" using assms(2) unfolding lockstep_def m(1) by simp
  moreover have "owner_values (jget m1 ''owner'') = owner_values (jget m0 ''owner'')" "stamp_of m1 \<le> stamp_of m2"
    using lockstep_parts(1) [OF assms(2), of 1] lockstep_parts(2) [OF assms(2), of 1 2] by (simp_all add: m(1))
  ultimately show ?thesis unfolding readiness_shown_def using m(2-4) by (intro exI [of _ m1] exI [of _ "jget m0 ''owner''"]) auto
qed

lemma replay_released:
  assumes "replay sha S s [(''runner_created'', a1), (''peer_connected'', a2), (''target_identified'', a3), (''sampler_ready'', a4), (''before_release'', a5), (''released'', a6)] None = Some (Inr u, k)"
  shows "\<exists>ms. spoken S ms k \<and> length ms = 3 \<and> up_to_release sha S s ms"
proof -
  from assms obtain k0 k1 k2 where r: "runner_created S None = Some (Inr (), k0)" "ready S (target_json s) a3 k0 = Some (Inr (), k1)" "before_release sha S k1 = Some (Inr (), k2)"
    "released S (target_json s) (the (su_release_begin s)) k2 = Some (Inr (), k)" by (auto simp: hook_def io_simps)
  from ready_spoken [OF r(2) spoken_created [OF r(1)]] obtain m0 where m0: "spoken S [m0] k1" "event_identity (target_json s) = Inr (jget m0 ''owner'')" by auto
  from before_release_spoken [OF r(3) m0(1)] obtain m1 where m1: "spoken S [m0, m1] k2" "receipt_shows sha (sv_run_id S) (sv_readiness S) m1 ''readiness''" by auto
  from released_spoken [OF r(4) m1(1)] obtain m2 where m2: "spoken S [m0, m1, m2] k" "stamp_of m2 = the (su_release_begin s)" by auto
  show ?thesis using m0(2) m1(2) m2 by (intro exI [of _ "[m0, m1, m2]"]) (simp add: up_to_release_def)
qed

lemma ret_first: "bindi (ret x) f = f x"
  by (rule ext) (simp add: bindi_def ret_def)

lemma replay_acknowledged:
  assumes "replay sha S s (evs @ [(''target_acknowledged'', a)]) None = Some (Inr u, k)"
  shows "\<exists>k1. replay sha S s evs None = Some (Inr (), k1) \<and> acknowledged sha S (target_json s) (the (su_ack s)) k1 = Some (Inr (), k)"
proof -
  have app: "replay sha S s (xs @ ys) = bindi (replay sha S s xs) (\<lambda>_. replay sha S s ys)" for xs ys
    by (induction xs) (auto simp: bindi_assoc ret_first)
  show ?thesis using assms unfolding app by (auto simp: io_simps hook_def)
qed

lemma replay_complete:
  assumes "replay sha S s [(''runner_created'', a1), (''peer_connected'', a2), (''target_identified'', a3), (''sampler_ready'', a4), (''before_release'', a5), (''released'', a6),
      (''target_acknowledged'', a7)] None = Some (Inr u, k)" "su_ack s = Some a"
  shows "\<exists>ms. spoken S ms k \<and> length ms = 5 \<and> up_to_release sha S s ms \<and> workload_shown sha S s a"
proof -
  let ?evs = "[(''runner_created'', a1), (''peer_connected'', a2), (''target_identified'', a3), (''sampler_ready'', a4), (''before_release'', a5), (''released'', a6)]"
  from replay_acknowledged [of sha S s ?evs a7 u k] assms(1) obtain k1 where k1: "replay sha S s ?evs None = Some (Inr (), k1)"
    "acknowledged sha S (target_json s) a k1 = Some (Inr (), k)" using assms(2) by auto
  from replay_released [OF k1(1)] obtain ms where ms: "spoken S ms k1" "length ms = 3" "up_to_release sha S s ms" by blast
  from acknowledged_spoken [OF k1(2) ms(1)] obtain m3 m4 where m: "spoken S (ms @ [m3, m4]) k" "stamp_of m3 = a"
    "receipt_shows sha (sv_run_id S) (sv_workload S) m4 ''workload''" by blast
  from ms(2,3) obtain m0 m1 m2 where e: "ms = [m0, m1, m2]" "event_identity (target_json s) = Inr (jget m0 ''owner'')" by (auto simp: up_to_release_def)
  note lock = spoken_lockstep [OF m(1)]
  have "a \<le> jint (sample_of m4) ''start_ns''" using lock m(2) unfolding lockstep_def e(1) by simp
  moreover have "owner_values (jget m4 ''owner'') = owner_values (jget m0 ''owner'')" using lockstep_parts(1) [OF lock, of 4] by (simp add: e(1))
  ultimately have "workload_shown sha S s a" unfolding workload_shown_def using e(2) m(3) by blast
  moreover have "up_to_release sha S s (ms @ [m3, m4])" using ms(3) by (auto simp: up_to_release_def)
  ultimately show ?thesis using m(1) ms(2) by (intro exI [of _ "ms @ [m3, m4]"]) simp
qed

text \<open>Before the release the channel is not complete.\<close>

lemma replay_early:
  assumes "replay sha S s evs None = Some (Inr u, k)" "map fst evs \<in> {[''runner_created''], [''runner_created'', ''peer_connected''], [''runner_created'', ''peer_connected'', ''target_identified'']}"
  shows "\<not> controller_complete k"
proof -
  from assms obtain k0 where "runner_created S None = Some (Inr (), k0)" "k = k0 \<or> (\<exists>a3. ready S (target_json s) a3 k0 = Some (Inr (), k))"
    by (auto simp: hook_def io_simps map_eq_Cons_conv) blast
  then obtain ms where "spoken S ms k" "length ms \<le> 1" using spoken_created ready_spoken by force
  then show ?thesis using complete_spoken by auto
qed

lemma release_receipts:
  assumes "barrier_loop c os (new_sup t) = (s, st)" "\<not> raised st" "replay sha S s (su_events s) None = Some (Inr (), k)"
  shows "(controller_complete k \<longleftrightarrow> su_acked s) \<and> (\<forall>b. su_release_begin s = Some b \<longrightarrow> readiness_shown sha S s b) \<and> (\<forall>a. su_ack s = Some a \<longrightarrow> workload_shown sha S s a)"
proof -
  have k: "safe c s" "ordered s" using kept_loop [OF new_sup_safe, of c os t] assms(1,2) by (simp_all add: kept_def)
  note ev = k(2) [unfolded ordered_def milestones_def]
  consider (acked) "su_acked s" | (rel) "\<not> su_acked s" "su_release_begin s \<noteq> None" | (early) "\<not> su_acked s" "su_release_begin s = None" by blast
  then show ?thesis
  proof cases
    case acked
    then obtain a b where h: "su_hello s" "su_peer s \<noteq> None" "su_release_begin s = Some b" "su_ack s = Some a" using k by (auto simp: safe_def ordered_def)
    then obtain a1 a2 a3 a4 a5 a6 a7 where "su_events s = [(''runner_created'', a1), (''peer_connected'', a2), (''target_identified'', a3), (''sampler_ready'', a4),
        (''before_release'', a5), (''released'', a6), (''target_acknowledged'', a7)]" using ev acked by (auto simp: map_eq_Cons_conv)
    from replay_complete [OF assms(3) [unfolded this] h(4)] obtain ms where ms: "spoken S ms k" "length ms = 5" "up_to_release sha S s ms" "workload_shown sha S s a" by blast
    show ?thesis using acked h ms complete_spoken [OF ms(1)] up_to_releaseD [OF ms(3) spoken_lockstep [OF ms(1)]] by auto
  next
    case rel
    then have h: "su_hello s" "su_peer s \<noteq> None" "su_ack s = None" using k by (auto simp: safe_def ordered_def)
    then obtain a1 a2 a3 a4 a5 a6 where "su_events s = [(''runner_created'', a1), (''peer_connected'', a2), (''target_identified'', a3), (''sampler_ready'', a4),
        (''before_release'', a5), (''released'', a6)]" using ev rel by (auto simp: map_eq_Cons_conv)
    from replay_released [OF assms(3) [unfolded this]] obtain ms where ms: "spoken S ms k" "length ms = 3" "up_to_release sha S s ms" by blast
    show ?thesis using rel h ms complete_spoken [OF ms(1)] up_to_releaseD [OF ms(3) spoken_lockstep [OF ms(1)]] by auto
  next
    case early
    then have "su_ack s = None" "su_hello s \<longrightarrow> su_peer s \<noteq> None" using k by (auto simp: safe_def ordered_def)
    moreover have "\<not> controller_complete k" using ev early calculation by (intro replay_early [OF assms(3)]) (auto split: if_splits)
    ultimately show ?thesis using early by simp
  qed
qed


text \<open>So the success that the G4 supervisor publishes rests on both receipts.\<close>

lemma g4_success_shown:
  assumes "barrier_loop c os (new_sup t) = (se_state e, st)" "\<not> raised st" "replay sha S (se_state e) (su_events (se_state e)) None = Some (Inr (), k)" "g4_success e k"
  shows "\<exists>a b. su_release_begin (se_state e) = Some b \<and> su_ack (se_state e) = Some a \<and> readiness_shown sha S (se_state e) b \<and> workload_shown sha S (se_state e) a"
proof -
  have "su_acked (se_state e)" using assms(4) by (simp add: g4_success_def supervised_ok_def observed_all_def Let_def)
  moreover have "safe c (se_state e)" "ordered (se_state e)" using kept_loop [OF new_sup_safe, of c os t] assms(1,2) by (simp_all add: kept_def)
  ultimately obtain a b where "su_release_begin (se_state e) = Some b" "su_ack (se_state e) = Some a" by (auto simp: safe_def ordered_def)
  then show ?thesis using release_receipts [OF assms(1-3)] by blast
qed

section \<open>An example run\<close>

definition ex_owner_of :: json where
  "ex_owner_of = JObj [(''pid'', JInt 10), (''start_ticks'', JInt 7), (''sid'', JInt 10), (''pgid'', JInt 10)]"

definition ex_raw_row :: "int \<Rightarrow> int \<Rightarrow> string \<Rightarrow> json" where
  "ex_raw_row n t ph = JObj [(''end_ns'', JInt t), (''owner'', ex_owner_of), (''phase'', JObj [(''name'', JStr ph)]), (''run_id'', JStr example_id),
     (''sample_status'', JStr ''COMPLETE''), (''sequence'', JInt n), (''start_ns'', JInt t)]"

definition ex_rows :: "json list" where "ex_rows = [ex_raw_row 0 11 ''readiness'', ex_raw_row 1 22 ''workload'']"

definition ex_bytes :: "nat \<Rightarrow> string" where "ex_bytes n = concat (map jsonl (take n ex_rows))"

definition ex_hash :: "string \<Rightarrow> string" where "ex_hash raw = example_id @ example_id"

definition ex_msg :: "nat \<Rightarrow> json" where
  "ex_msg n = JObj [(''schema'', JInt 1), (''contract'', JStr G4_CONTRACT), (''run_id'', JStr example_id), (''sequence'', JInt (int n)),
     (''event'', JStr (ORDER ! n)), (''owner'', ex_owner_of), (''monotonic_ns'', JInt ([10, 12, 14, 21, 30] ! n)), (''state'', JStr (STATES ! n)),
     (''sample'', if n = 1 then example_sample 0 11 216 else if n = 4 then example_sample 1 22 431 else JNull)]"

definition ex_runner :: ident where "ex_runner = \<lparr>p_pid = 20, p_state = ''S'', p_pgid = 20, p_sid = 20, p_ticks = 5\<rparr>"

definition ex_hello :: json where
  "ex_hello = hello_json ''hello'' example_id (JObj [(''pid'', JInt 20), (''start_ticks'', JInt 5), (''sid'', JInt 20), (''pgid'', JInt 20)]) 2 ''c''"

definition ex_server :: g4_server where
  "ex_server = \<lparr>sv_wire = \<lparr>wr_clock = (\<lambda>_. 100), wr_recv = (\<lambda>_. Inr (jsonl ex_hello @ jsonl (ex_msg 1) @ jsonl (ex_msg 4))), wr_send = (\<lambda>_. Inr ()),
       wr_write = (\<lambda>t. Inr (length (jsonl (ex_msg (if t = 9 then 0 else if t = 11 then 1 else if t = 15 then 2 else if t = 19 then 3 else 4)))))\<rparr>,
     sv_deadline = 1000, sv_run_id = example_id, sv_runner = ex_runner, sv_pid = 2, sv_config = ''c'', sv_listen = (\<lambda>_. Inr True),
     sv_readiness = quiet_view (ex_bytes 1), sv_workload = quiet_view (ex_bytes 2)\<rparr>"

lemma ex_msg_sizes: "length (jsonl (ex_msg 0)) \<le> 500" "length (jsonl (ex_msg 1)) \<le> 500" "length (jsonl (ex_msg 2)) \<le> 500" "length (jsonl (ex_msg 3)) \<le> 500" "length (jsonl (ex_msg 4)) \<le> 500"
    "length (jsonl ex_hello) \<le> 500"
  by code_simp+

lemma ex_bytes_size: "length (ex_bytes 1) = 216" "length (ex_bytes 2) = 431"
  by code_simp+

lemma ex_rows_read: "map_res decode_evidence (py_splitlines (ex_bytes n)) = Inr (map sort_keys (take n ex_rows))"
proof -
  have ok: "json_ok v" if "v \<in> set ex_rows" for v using that by (auto simp: ex_rows_def ex_raw_row_def ex_owner_of_def json_ok_def)
  have "list_all json_ok vs \<Longrightarrow> map_res decode_evidence (map dumps vs) = Inr (map sort_keys vs)" for vs
    by (induction vs) (simp_all add: decode_evidence_def loads_dumps)
  moreover have "list_all json_ok (take n ex_rows)" using ok by (auto simp: list_all_iff dest: in_set_takeD)
  ultimately have "map_res decode_evidence (map dumps (take n ex_rows)) = Inr (map sort_keys (take n ex_rows))" by blast
  then show ?thesis by (simp add: ex_bytes_def splitlines_jsonl)
qed

lemma ex_agree: "row_agrees example_id (jget (sort_keys (ex_msg 1)) ''owner'') (jget (sort_keys (ex_msg 1)) ''sample'') ''readiness'' (sort_keys (ex_raw_row 0 11 ''readiness'')) = Inr ()"
    "row_agrees example_id (jget (sort_keys (ex_msg 4)) ''owner'') (jget (sort_keys (ex_msg 4)) ''sample'') ''workload'' (sort_keys (ex_raw_row 1 22 ''workload'')) = Inr ()"
    "jget (sort_keys (ex_msg 1)) ''sample'' = sort_keys (example_sample 0 11 216)" "jget (sort_keys (ex_msg 4)) ''sample'' = sort_keys (example_sample 1 22 431)"
    "jint (sort_keys (example_sample 0 11 216)) ''raw_bytes'' = 216" "jint (sort_keys (example_sample 1 22 431)) ''raw_bytes'' = 431"
    "jint (sort_keys (example_sample 0 11 216)) ''sequence'' = 0" "jint (sort_keys (example_sample 1 22 431)) ''sequence'' = 1"
    "jget (sort_keys (example_sample n t c)) ''raw_sha256'' = JStr (example_id @ example_id)"
  by (code_simp, code_simp, code_simp, code_simp, code_simp, code_simp, code_simp, code_simp, simp add: example_sample_def jget_sorted json_ok_def jget_def)

lemma ex_receipts: "verify_receipt ex_hash example_id (quiet_view (ex_bytes 1)) (sort_keys (ex_msg 1)) ''readiness'' = Inr ()"
    "verify_receipt ex_hash example_id (quiet_view (ex_bytes 2)) (sort_keys (ex_msg 4)) ''workload'' = Inr ()"
proof -
  have "take 1 ex_rows = [ex_raw_row 0 11 ''readiness'']" "take 2 ex_rows = ex_rows" by (simp_all add: ex_rows_def)
  then show "verify_receipt ex_hash example_id (quiet_view (ex_bytes 1)) (sort_keys (ex_msg 1)) ''readiness'' = Inr ()"
      "verify_receipt ex_hash example_id (quiet_view (ex_bytes 2)) (sort_keys (ex_msg 4)) ''workload'' = Inr ()"
    using ex_agree(1,2) unfolding verify_receipt_def Let_def
    by (simp_all add: quiet_view_def private_stat_def ex_bytes_size ex_agree(3-) ex_rows_read ex_hash_def ex_rows_def del: One_nat_def)
qed

definition ex_chan :: "nat \<Rightarrow> chan" where
  "ex_chan n = \<lparr>ch_run_id = example_id, ch_sequence = n, ch_last = [- 1, 10, 12, 14, 21, 30] ! n,
     ch_owner = (if n = 0 then None else Some (if n = 2 \<or> n = 5 then sort_keys ex_owner_of else ex_owner_of)),
     ch_ready = (if n > 1 then Some (sort_keys (example_sample 0 11 216)) else None), ch_ack = (if n > 3 then Some 21 else None), ch_failed = False\<rparr>"

lemma ex_accepted: "accept 100 (ex_msg 0) (ex_chan 0) = (ex_chan 1, Inr (ex_msg 0))" "accept 100 (sort_keys (ex_msg 1)) (ex_chan 1) = (ex_chan 2, Inr (sort_keys (ex_msg 1)))"
    "accept 100 (ex_msg 2) (ex_chan 2) = (ex_chan 3, Inr (ex_msg 2))" "accept 100 (ex_msg 3) (ex_chan 3) = (ex_chan 4, Inr (ex_msg 3))"
    "accept 100 (sort_keys (ex_msg 4)) (ex_chan 4) = (ex_chan 5, Inr (sort_keys (ex_msg 4)))"
  by code_simp+

lemma ex_msg_ok: "json_ok ex_hello" "json_ok (ex_msg n)"
  by (simp_all add: ex_hello_def hello_json_def ex_msg_def ex_owner_of_def example_sample_def json_ok_def)

lemma ex_server_calls: "wr_clock (sv_wire ex_server) t = 100" "wr_send (sv_wire ex_server) t = Inr ()" "sv_deadline ex_server = 1000" "sv_run_id ex_server = example_id"
    "sv_listen ex_server t = Inr True" "sv_readiness ex_server = quiet_view (ex_bytes 1)" "sv_workload ex_server = quiet_view (ex_bytes 2)"
    "wr_recv (sv_wire ex_server) t = Inr (jsonl ex_hello @ jsonl (ex_msg 1) @ jsonl (ex_msg 4))" "sv_runner ex_server = ex_runner" "sv_pid ex_server = 2" "sv_config ex_server = ''c''"
    "wr_write (sv_wire ex_server) 9 = Inr (length (jsonl (ex_msg 0)))" "wr_write (sv_wire ex_server) 11 = Inr (length (jsonl (ex_msg 1)))"
    "wr_write (sv_wire ex_server) 15 = Inr (length (jsonl (ex_msg 2)))" "wr_write (sv_wire ex_server) 19 = Inr (length (jsonl (ex_msg 3)))"
    "wr_write (sv_wire ex_server) 21 = Inr (length (jsonl (ex_msg 4)))"
  by (simp_all add: ex_server_def)

text \<open>A send and a receive of the example, at a given state of the link.\<close>

lemma ex_send:
  assumes "accept 100 msg (lk_chan l) = (st, Inr msg)" "message event ex_owner_of stamp JNull (lk_chan l) = Inr msg" "length (jsonl msg) \<le> 500" "lk_count l < 6"
    "wr_write (sv_wire ex_server) (lk_tick l + 3) = Inr (length (jsonl msg))" "event_index event = Inr i"
  shows "\<exists>l'. send_event ex_server event (proc_json ex_target) stamp l = Some (Inr (), l') \<and> lk_chan l' = st \<and> lk_buffer l' = lk_buffer l \<and> lk_count l' = Suc (lk_count l) \<and> lk_tick l' = lk_tick l + 4"
proof -
  have "event_identity (proc_json ex_target) = Inr ex_owner_of" by code_simp
  then show ?thesis using assms
    by (simp add: send_event_def link_send_def link_accept_def frame_def budget_def journal_record_def link_clock_def syscall_def bindi_def ret_def gets_def
        lift_res_def attempt_def modify_def ex_server_calls MAX_MESSAGE_def numeral_eq_Suc)
qed

lemma ex_receive:
  assumes "lk_buffer l = jsonl msg @ rest" "accept 100 (sort_keys msg) (lk_chan l) = (st, Inr (sort_keys msg))" "json_ok msg" "length (jsonl msg) \<le> 500" "lk_count l < 6"
    "wr_write (sv_wire ex_server) (lk_tick l + 1) = Inr (length (jsonl msg))" "jget (sort_keys msg) ''event'' = JStr event" "verify_receipt ex_hash example_id v (sort_keys msg) ph = Inr ()"
  shows "\<exists>l'. receive_receipt ex_hash ex_server event v ph l = Some (Inr (), l') \<and> lk_chan l' = st \<and> lk_buffer l' = rest \<and> lk_count l' = Suc (lk_count l) \<and> lk_tick l' = lk_tick l + 2"
proof -
  have js: "jsonl (sort_keys msg) = jsonl msg" by (simp add: jsonl_def dumps_def sort_keys_idem)
  have "link_read W dl l = Some (Inr (sort_keys msg), l\<lparr>lk_buffer := rest\<rparr>)" for W dl using read_frame [OF assms(1,3)] assms(4) by (simp add: MAX_MESSAGE_def)
  then show ?thesis using assms
    by (simp add: receive_receipt_def link_receive_def link_accept_def journal_record_def link_clock_def syscall_def bindi_def ret_def gets_def
        lift_res_def modify_def ex_server_calls MAX_MESSAGE_def js)
qed

text \<open>One round of the receive loop.\<close>

lemma fill_step:
  assumes "n = Suc k" "lk_buffer l = []" "wr_recv W (Suc (lk_tick l)) = Inr block" "take (MAX_MESSAGE + 1) block = block" "block \<noteq> []" "line_length block \<le> MAX_MESSAGE" "wr_clock W (lk_tick l) < dl"
  shows "fill n W dl l = fill k W dl (l\<lparr>lk_tick := Suc (Suc (lk_tick l)), lk_buffer := block\<rparr>)"
proof -
  have "budget W dl l = Some (Inr (), l\<lparr>lk_tick := Suc (lk_tick l)\<rparr>)"
    using assms(7) by (simp add: budget_def link_clock_def syscall_def bindi_def ret_def)
  then show ?thesis using assms(2-6) unfolding assms(1) fill.simps
    by (simp add: syscall_def bindi_def gets_def attempt_def modify_def Let_def del: fill.simps)
qed

lemma ex_fill:
  assumes "lk_buffer l = []"
  shows "fill READ_FUEL (sv_wire ex_server) 1000 l = Some (Inr (), l\<lparr>lk_tick := lk_tick l + 2, lk_buffer := jsonl ex_hello @ jsonl (ex_msg 1) @ jsonl (ex_msg 4)\<rparr>)"
proof -
  define B where "B = jsonl ex_hello @ jsonl (ex_msg 1) @ jsonl (ex_msg 4)"
  have len: "length B \<le> 1500" using ex_msg_sizes by (simp add: B_def)
  have LF: "LF \<in> set B" by (simp add: B_def jsonl_def)
  have "length (takeWhile (\<lambda>c. c \<noteq> LF) B) \<le> 1500" using len length_takeWhile_le [of "\<lambda>c. c \<noteq> LF" B] by linarith
  then have line: "line_length B \<le> MAX_MESSAGE" by (simp add: line_length_def MAX_MESSAGE_def)
  have B: "take (MAX_MESSAGE + 1) B = B" "B \<noteq> []" using len LF by (auto simp: MAX_MESSAGE_def)
  let ?l = "l\<lparr>lk_tick := Suc (Suc (lk_tick l)), lk_buffer := B\<rparr>"
  have "fill READ_FUEL (sv_wire ex_server) 1000 l = fill (Suc (MAX_MESSAGE + 1)) (sv_wire ex_server) 1000 ?l"
    using assms LF line B unfolding READ_FUEL_def
    by (subst fill_step [where k = "Suc (MAX_MESSAGE + 1)" and block = B]) (simp_all add: ex_server_calls B_def del: fill.simps)
  also have "\<dots> = Some (Inr (), ?l)" using LF unfolding fill.simps by (simp add: bindi_def gets_def ret_def del: fill.simps)
  finally show ?thesis by (simp add: B_def)
qed

lemma ex_read_hello:
  assumes "lk_buffer l = []"
  shows "link_read (sv_wire ex_server) 1000 l = Some (Inr (sort_keys ex_hello), l\<lparr>lk_tick := lk_tick l + 2, lk_buffer := jsonl (ex_msg 1) @ jsonl (ex_msg 4)\<rparr>)"
proof -
  let ?l = "l\<lparr>lk_tick := lk_tick l + 2, lk_buffer := jsonl ex_hello @ jsonl (ex_msg 1) @ jsonl (ex_msg 4)\<rparr>"
  have F: "fill (Suc n) W dl ?l = Some (Inr (), ?l)" for n W dl
    by (subst fill.simps(2)) (simp add: bindi_def gets_def ret_def jsonl_def del: fill.simps)
  have R: "READ_FUEL = Suc (MAX_MESSAGE + 2)" by (simp add: READ_FUEL_def)
  have "fill READ_FUEL (sv_wire ex_server) 1000 ?l = Some (Inr (), ?l)" unfolding R by (rule F)
  then have "link_read (sv_wire ex_server) 1000 l = link_read (sv_wire ex_server) 1000 ?l" using ex_fill [OF assms] by (simp add: link_read_def bindi_def)
  then show ?thesis using read_frame [of ?l ex_hello "jsonl (ex_msg 1) @ jsonl (ex_msg 4)" "sv_wire ex_server" 1000] ex_msg_ok(1) ex_msg_sizes(6) by (simp add: MAX_MESSAGE_def)
qed

lemma ex_connected: "\<exists>l. runner_created ex_server None = Some (Inr (), Some l) \<and> lk_chan l = ex_chan 0 \<and> lk_buffer l = jsonl (ex_msg 1) @ jsonl (ex_msg 4) \<and> lk_count l = 0 \<and> lk_tick l = 6"
proof -
  have who: "event_identity (ident_json ex_runner) = Inr (JObj [(''pid'', JInt 20), (''start_ticks'', JInt 5), (''sid'', JInt 20), (''pgid'', JInt 20)])" by code_simp
  have eq: "py_eq (sort_keys ex_hello) ex_hello" by code_simp
  have size: "length (jsonl (hello_json ''connected'' example_id (JObj [(''pid'', JInt 20), (''start_ticks'', JInt 5), (''sid'', JInt 20), (''pgid'', JInt 20)]) 2 ''c'')) \<le> 500" by code_simp
  show ?thesis
    using eq size
    by (simp add: runner_created_def server_accept_def server_hello_def budget_def link_clock_def syscall_def bindi_def ret_def lift_res_def attempt_def modify_def frame_def
        ex_server_calls who ex_read_hello new_link_def ex_hello_def [symmetric] MAX_MESSAGE_def ex_chan_def new_chan_def)
qed

definition ex_end :: sup where
  "ex_end = \<lparr>su_target = Some ex_target, su_peer = Some (10, 5, 5), su_buf = [], su_hello = True, su_acked = True, su_last_sample = 12, su_release_begin = Some 14,
     su_release_complete = Some 15, su_ack = Some 21, su_pre = Some (ex_live 12), su_reason = None,
     su_events = [(''runner_created'', 1), (''peer_connected'', 10), (''target_identified'', 10), (''sampler_ready'', 10), (''before_release'', 10), (''released'', 10), (''target_acknowledged'', 20)],
     su_trace = [Sampled ''pre_release'' (Live (ex_live 12))], su_sent = [RELEASE]\<rparr>"

lemma ex_run_ends: "barrier_loop ex_config ex_run (new_sup 1) = (ex_end, Break)"
proof -
  let ?msg = "JObj [(''version'', JInt 1), (''event'', JStr ''released''), (''pid'', JInt 10), (''role'', JStr ''probe'')]"
  have "loads_plain (takeWhile (\<lambda>x. x \<noteq> LF) ex_released) = Inr ?msg" "LF \<in> set ex_released" "tl (dropWhile (\<lambda>x. x \<noteq> LF) ex_released) = []"
    "length ex_released \<le> 4096" "ex_released \<noteq> []" by code_simp+
  moreover have "py_eq ?msg (released_message ex_config ex_target)" by code_simp
  moreover have "sc_start ex_config = 0" "sc_outer ex_config = 5000" "sc_barrier_deadline ex_config = 1000" by (simp_all add: ex_config_def)
  ultimately show ?thesis
    unfolding ex_run_def barrier_loop.simps ex_steps ex_end_def
    by (simp add: barrier_step_def get_target_def deadlines_def accept_peer_def intake_def receive_block_def take_message_def take_ack_def gate_def
        exits_def chain_def check_def given_def note_event_def Let_def ex_obs_def)
qed

lemma ex_messages: "message ''ready_verified'' ex_owner_of 10 JNull (ex_chan 0) = Inr (ex_msg 0)" "message ''release_initiated'' ex_owner_of 14 JNull (ex_chan 2) = Inr (ex_msg 2)"
    "message ''release_acknowledged'' ex_owner_of 21 JNull (ex_chan 3) = Inr (ex_msg 3)" "event_index ''ready_verified'' = Inr 0" "event_index ''release_initiated'' = Inr 2"
    "event_index ''release_acknowledged'' = Inr 3" "jget (sort_keys (ex_msg 1)) ''event'' = JStr ''readiness_persisted''" "jget (sort_keys (ex_msg 4)) ''event'' = JStr ''workload_persisted''"
  by code_simp+

lemma ex_replayed: "\<exists>k. replay ex_hash ex_server ex_end (su_events ex_end) None = Some (Inr (), k)"
proof -
  obtain l0 where l0: "runner_created ex_server None = Some (Inr (), Some l0)" "lk_chan l0 = ex_chan 0" "lk_buffer l0 = jsonl (ex_msg 1) @ jsonl (ex_msg 4)" "lk_count l0 = 0" "lk_tick l0 = 6"
    using ex_connected by blast
  obtain l1 where l1: "send_event ex_server ''ready_verified'' (proc_json ex_target) 10 l0 = Some (Inr (), l1)" "lk_chan l1 = ex_chan 1" "lk_buffer l1 = jsonl (ex_msg 1) @ jsonl (ex_msg 4)" "lk_count l1 = 1" "lk_tick l1 = 10"
    using ex_send [of "ex_msg 0" l0 "ex_chan 1" "''ready_verified''" 10 0] l0 ex_accepted(1) ex_messages(1,4) ex_msg_sizes(1) by (auto simp: ex_server_calls)
  obtain l2 where l2: "receive_receipt ex_hash ex_server ''readiness_persisted'' (quiet_view (ex_bytes 1)) ''readiness'' l1 = Some (Inr (), l2)" "lk_chan l2 = ex_chan 2" "lk_buffer l2 = jsonl (ex_msg 4)" "lk_count l2 = 2" "lk_tick l2 = 12"
    using ex_receive [of l1 "ex_msg 1" "jsonl (ex_msg 4)" "ex_chan 2" "''readiness_persisted''" "quiet_view (ex_bytes 1)" "''readiness''"] l1 ex_accepted(2) ex_msg_ok(2) ex_msg_sizes(2) ex_messages(7) ex_receipts(1)
    by (auto simp: ex_server_calls)
  obtain l3 where l3: "send_event ex_server ''release_initiated'' (proc_json ex_target) 14 l2 = Some (Inr (), l3)" "lk_chan l3 = ex_chan 3" "lk_buffer l3 = jsonl (ex_msg 4)" "lk_count l3 = 3" "lk_tick l3 = 16"
    using ex_send [of "ex_msg 2" l2 "ex_chan 3" "''release_initiated''" 14 2] l2 ex_accepted(3) ex_messages(2,5) ex_msg_sizes(3) by (auto simp: ex_server_calls)
  obtain l4 where l4: "send_event ex_server ''release_acknowledged'' (proc_json ex_target) 21 l3 = Some (Inr (), l4)" "lk_chan l4 = ex_chan 4" "lk_buffer l4 = jsonl (ex_msg 4)" "lk_count l4 = 4" "lk_tick l4 = 20"
    using ex_send [of "ex_msg 3" l3 "ex_chan 4" "''release_acknowledged''" 21 3] l3 ex_accepted(4) ex_messages(3,6) ex_msg_sizes(4) by (auto simp: ex_server_calls)
  obtain l5 where l5: "receive_receipt ex_hash ex_server ''workload_persisted'' (quiet_view (ex_bytes 2)) ''workload'' l4 = Some (Inr (), l5)"
    using ex_receive [of l4 "ex_msg 4" "[]" "ex_chan 5" "''workload_persisted''" "quiet_view (ex_bytes 2)" "''workload''"] l4 ex_accepted(5) ex_msg_ok(2) ex_msg_sizes(5) ex_messages(8) ex_receipts(2)
    by (auto simp: ex_server_calls)
  have t: "target_json ex_end = proc_json ex_target" "su_release_begin ex_end = Some 14" "su_ack ex_end = Some 21" by (simp_all add: target_json_def ex_end_def)
  have "hook ex_hash ex_server ex_end ''runner_created'' 1 None = Some (Inr (), Some l0)" "hook ex_hash ex_server ex_end ''target_identified'' 10 (Some l0) = Some (Inr (), Some l1)"
    "hook ex_hash ex_server ex_end ''before_release'' 10 (Some l1) = Some (Inr (), Some l2)" "hook ex_hash ex_server ex_end ''released'' 10 (Some l2) = Some (Inr (), Some l3)"
    "hook ex_hash ex_server ex_end ''target_acknowledged'' 20 (Some l3) = Some (Inr (), Some l5)"
    using l0 l1 l2 l3 l4 l5
    by (simp_all add: hook_def ready_def before_release_def released_def acknowledged_def with_link_def t ex_server_calls bindi_def)
  moreover have "hook ex_hash ex_server ex_end ''peer_connected'' 10 = ret ()" "hook ex_hash ex_server ex_end ''sampler_ready'' 10 = ret ()" by (simp_all add: hook_def)
  moreover have "su_events ex_end = [(''runner_created'', 1), (''peer_connected'', 10), (''target_identified'', 10), (''sampler_ready'', 10), (''before_release'', 10), (''released'', 10), (''target_acknowledged'', 20)]"
    by (simp add: ex_end_def)
  ultimately show ?thesis by (simp add: bindi_def ret_def)
qed


end
