(* ===== verification/Owned_Child.thy ===== *)
theory Owned_Child
  imports Run_Command Policy_Binding
begin

text \<open>
  One owned child of the outer collector: the functions of \<^verbatim>\<open>tests/harness.py\<close> that the collector calls
  (\<open>children\<close>, \<open>descendants\<close>, \<open>reap_adopted\<close>, \<open>signal_children\<close>, \<open>cleanup\<close>) and \<open>child\<close> of
  \<^verbatim>\<open>d2_collect.py\<close>, which starts a command, watches it until it exits, a limit trips or the deadline passes,
  and leaves the cleanup to the harness.

  The calls that \<open>kernel\<close> does not have (the children file of a process, pidfds, \<open>waitpid\<close>) are fields of \<open>owned_host\<close>,
  functions of the tick in the same way. \<open>image\<close> is the observation of \<open>processes.executable\<close>. Everything that an
  exception leaves behind in the source (\<open>r\<close>, \<open>proc\<close>, \<open>pidfd\<close>, \<open>proc.returncode\<close>) is a field of the world.
\<close>

section \<open>State\<close>

record owned_host =
  oh_kernel :: kernel
  oh_pid :: int
  oh_children :: "nat \<Rightarrow> int \<Rightarrow> string res"
  oh_pidfd :: "nat \<Rightarrow> int \<Rightarrow> unit res"
  oh_fdclose :: "nat \<Rightarrow> unit res"
  oh_send :: "nat \<Rightarrow> int \<Rightarrow> int \<Rightarrow> unit res"
  oh_waitpid :: "nat \<Rightarrow> int \<Rightarrow> int res"
  oh_image :: "nat \<Rightarrow> int \<Rightarrow> json res"
  oh_select :: "nat \<Rightarrow> unit res"

record child_row =
  cr_argv :: "string list"
  cr_owner :: "proc_id option"
  cr_waitid :: "wait_event option"
  cr_exit :: "int option"
  cr_signal :: "int option"
  cr_stop :: "string option"
  cr_before :: bool
  cr_clean :: bool
  cr_residual :: "int list option"
  cr_signals :: "(int \<times> proc_id) list"
  cr_errors :: "string list"
  cr_start :: ns
  cr_end :: "ns option"

record child_world = world +
  row :: child_row
  proc :: "int option"
  pidfd :: bool
  returncode :: "int option"

definition set_row :: "(child_row \<Rightarrow> child_row) \<Rightarrow> ('b child_world_scheme, unit) io" where
  "set_row f = modify (\<lambda>w. w\<lparr>row := f (row w)\<rparr>)"

text \<open>\<open>r['stop'] = r['stop'] or reason\<close>: the first reason stays.\<close>

definition first_of :: "'a option \<Rightarrow> 'a \<Rightarrow> 'a option" where
  "first_of old new = (case old of None \<Rightarrow> Some new | Some x \<Rightarrow> Some x)"

definition first_stop :: "string \<Rightarrow> ('b child_world_scheme, unit) io" where
  "first_stop reason = set_row (\<lambda>r. r\<lparr>cr_stop := first_of (cr_stop r) reason\<rparr>)"

definition row_error :: "string \<Rightarrow> ('b child_world_scheme, unit) io" where
  "row_error e = set_row (\<lambda>r. r\<lparr>cr_errors := cr_errors r @ [e]\<rparr>)"

section \<open>The harness\<close>

definition children :: "owned_host \<Rightarrow> int \<Rightarrow> ('b world_scheme, int list) io" where
  "children H pid =
     bindi (attempt (sys (\<lambda>t. oh_children H t pid))) (\<lambda>r.
       case r of
         Inl e \<Rightarrow> if e = FileNotFoundError then ret [] else raise e
       | Inr raw \<Rightarrow> lift_res (map_res py_int (py_split raw)))"

text \<open>The \<open>for\<close> loop of \<open>descendants\<close> over one list of children; the stack \<open>pending\<close> has its top first.\<close>

fun note_children :: "int list \<Rightarrow> int list \<times> int list \<Rightarrow> int list \<times> int list" where
  "note_children [] st = st"
| "note_children (k # ks) (stack, found) =
     note_children ks (if k \<in> set found then (stack, found) else (k # stack, k # found))"

fun descend :: "nat \<Rightarrow> owned_host \<Rightarrow> int list \<times> int list \<Rightarrow> ('b world_scheme, int list) io" where
  "descend n H ([], found) = ret found"
| "descend 0 H (p # stack, found) = (\<lambda>w. None)"
| "descend (Suc n) H (p # stack, found) = bindi (children H p) (\<lambda>ks. descend n H (note_children ks (stack, found)))"

definition descendants :: "nat \<Rightarrow> owned_host \<Rightarrow> int \<Rightarrow> ('b world_scheme, int list) io" where
  "descendants n H pid = descend n H ([pid], [])"

fun reap_each :: "owned_host \<Rightarrow> int option \<Rightarrow> int list \<Rightarrow> ('b world_scheme, unit) io" where
  "reap_each H exclude [] = ret ()"
| "reap_each H exclude (pid # pids) =
     (if exclude = Some pid then reap_each H exclude pids
      else bindi (sys (\<lambda>t. k_waitid (oh_kernel H) t pid)) (\<lambda>ev.
           bindi (if ev = None then ret () else bindi (sys (\<lambda>t. oh_waitpid H t pid)) (\<lambda>st. emit (Reaped pid st))) (\<lambda>_.
           reap_each H exclude pids)))"

definition reap_adopted :: "owned_host \<Rightarrow> int option \<Rightarrow> ('b world_scheme, unit) io" where
  "reap_adopted H exclude = bindi (children H (oh_pid H)) (reap_each H exclude)"

text \<open>One child: the parent and the generation are checked before and after the pidfd is opened.\<close>

definition signal_open :: "owned_host \<Rightarrow> int \<Rightarrow> int \<Rightarrow> proc_id \<Rightarrow> ('b child_world_scheme, unit) io" where
  "signal_open H signum pid before =
     bindi (ps_identity (oh_kernel H) pid) (\<lambda>after.
       case after of
         None \<Rightarrow> raise (RuntimeError ''refusing signal: child identity changed'')
       | Some a \<Rightarrow>
           if \<not> ps_same (Some before) after \<or> p_ppid a \<noteq> oh_pid H then raise (RuntimeError ''refusing signal: child identity changed'')
           else if dead_state (p_state a) then ret ()
           else bindi (sys (\<lambda>t. oh_send H t pid signum)) (\<lambda>_. set_row (\<lambda>r. r\<lparr>cr_signals := cr_signals r @ [(signum, a)]\<rparr>)))"

definition signal_child :: "owned_host \<Rightarrow> int \<Rightarrow> int \<Rightarrow> ('b child_world_scheme, unit) io" where
  "signal_child H signum pid =
     bindi (ps_identity (oh_kernel H) pid) (\<lambda>before.
       case before of
         None \<Rightarrow> ret ()
       | Some b \<Rightarrow>
           if p_ppid b \<noteq> oh_pid H then raise (RuntimeError ''refusing signal: child ownership changed'')
           else bindi (attempt (sys (\<lambda>t. oh_pidfd H t pid))) (\<lambda>r.
             case r of
               Inl e \<Rightarrow> if e = ProcessLookupError then ret () else raise e
             | Inr u \<Rightarrow>
                 bindi (attempt (signal_open H signum pid b)) (\<lambda>r.
                 bindi (sys (oh_fdclose H)) (\<lambda>_.
                   case r of Inl e \<Rightarrow> if e = ProcessLookupError then ret () else raise e | Inr u \<Rightarrow> ret ()))))"

fun signal_each :: "owned_host \<Rightarrow> int \<Rightarrow> int list \<Rightarrow> ('b child_world_scheme, unit) io" where
  "signal_each H signum [] = ret ()"
| "signal_each H signum (pid # pids) = bindi (signal_child H signum pid) (\<lambda>_. signal_each H signum pids)"

definition signal_children :: "owned_host \<Rightarrow> int \<Rightarrow> ('b child_world_scheme, unit) io" where
  "signal_children H signum = bindi (children H (oh_pid H)) (signal_each H signum)"

fun stop_loop :: "nat \<Rightarrow> owned_host \<Rightarrow> int \<Rightarrow> int \<Rightarrow> ns \<Rightarrow> ('b child_world_scheme, unit) io" where
  "stop_loop 0 H pid signum deadline = (\<lambda>w. None)"
| "stop_loop (Suc n) H pid signum deadline =
     bindi (children H (oh_pid H)) (\<lambda>ks.
       if ks = [] then ret ()
       else bindi (clock (oh_kernel H)) (\<lambda>now.
         if \<not> now < deadline then ret ()
         else
           bindi (signal_children H signum) (\<lambda>_.
           bindi (reap_adopted H (Some pid)) (\<lambda>_.
           bindi (sys (\<lambda>t. k_waitid (oh_kernel H) t pid)) (\<lambda>ev.
           bindi (if ev = None then ret False else bindi (children H (oh_pid H)) (\<lambda>ks. ret (list_all (\<lambda>k. k = pid) ks))) (\<lambda>alone.
             if alone then ret () else bindi sleep (\<lambda>_. stop_loop n H pid signum deadline)))))))"

fun stop_phases :: "nat \<Rightarrow> owned_host \<Rightarrow> int \<Rightarrow> (int \<times> ns) list \<Rightarrow> ('b child_world_scheme, unit) io" where
  "stop_phases n H pid [] = ret ()"
| "stop_phases n H pid ((signum, budget) # rest) =
     bindi (clock (oh_kernel H)) (\<lambda>now.
     bindi (stop_loop n H pid signum (now + budget)) (\<lambda>_. stop_phases n H pid rest))"

definition STOP_PHASES :: "(int \<times> ns) list" where
  "STOP_PHASES = [(SIGTERM, second), (SIGKILL, 2 * second)]"

text \<open>\<open>proc.wait(timeout=1)\<close>\<close>

definition proc_wait :: "owned_host \<Rightarrow> int \<Rightarrow> ('b child_world_scheme, unit) io" where
  "proc_wait H pid =
     bindi (sys (\<lambda>t. k_wait (oh_kernel H) t pid)) (\<lambda>code.
     bindi (emit (Reaped pid code)) (\<lambda>_. modify (\<lambda>w. w\<lparr>returncode := Some code\<rparr>)))"

definition harness_cleanup :: "nat \<Rightarrow> owned_host \<Rightarrow> int \<Rightarrow> ('b child_world_scheme, int list) io" where
  "harness_cleanup n H pid =
     bindi (stop_phases n H pid STOP_PHASES) (\<lambda>_.
     bindi (proc_wait H pid) (\<lambda>_.
     bindi (reap_adopted H None) (\<lambda>_. children H (oh_pid H))))"

section \<open>The child\<close>

definition start_row :: "string list \<Rightarrow> ns \<Rightarrow> child_row" where
  "start_row args start = \<lparr>cr_argv = args, cr_owner = None, cr_waitid = None, cr_exit = None, cr_signal = None, cr_stop = None,
     cr_before = False, cr_clean = False, cr_residual = None, cr_signals = [], cr_errors = [], cr_start = start, cr_end = None\<rparr>"

definition available :: "kernel \<Rightarrow> ('b world_scheme, int) io" where
  "available K = bindi (sys (k_meminfo K)) (\<lambda>raw. bindi (lift_res (first_available (str_splitlines raw))) (\<lambda>kib. ret (kib * 1024)))"

definition with_output :: "kernel \<Rightarrow> ('b world_scheme, 'a) io \<Rightarrow> ('b world_scheme, 'a) io" where
  "with_output K m =
     bindi (sys (k_open K)) (\<lambda>_. bindi (attempt m) (\<lambda>r. bindi (sys (k_close K)) (\<lambda>_. lift_res r)))"

text \<open>The branch of the loop that has seen the exit.\<close>

definition note_exit :: "owned_host \<Rightarrow> int \<Rightarrow> ns \<Rightarrow> wait_event \<Rightarrow> ('b child_world_scheme, unit) io" where
  "note_exit H pid deadline ev =
     bindi (set_row (\<lambda>r. r\<lparr>cr_waitid := Some ev\<rparr>)) (\<lambda>_.
     bindi (clock (oh_kernel H)) (\<lambda>now.
     bindi (set_row (\<lambda>r. r\<lparr>cr_before := now < deadline\<rparr>)) (\<lambda>_.
     bindi (if now < deadline then ret () else set_row (\<lambda>r. r\<lparr>cr_stop := Some ''outer_timeout''\<rparr>)) (\<lambda>_.
     bindi (children H (oh_pid H)) (\<lambda>ks.
       if list_ex (\<lambda>k. k \<noteq> pid) ks then first_stop ''unexpected_descendants'' else ret ())))))"

definition over_limits :: "nat \<Rightarrow> owned_host \<Rightarrow> ('b world_scheme, bool) io" where
  "over_limits n H =
     bindi (descendants n H (oh_pid H)) (\<lambda>ds.
       if length ds > 8 then ret True else bindi (available (oh_kernel H)) (\<lambda>a. ret (a < 2 * 1024 ^ 3)))"

fun watch_child :: "nat \<Rightarrow> owned_host \<Rightarrow> nat \<Rightarrow> int \<Rightarrow> ns \<Rightarrow> ('b child_world_scheme, unit) io" where
  "watch_child 0 H t0 pid deadline = (\<lambda>w. None)"
| "watch_child (Suc n) H t0 pid deadline =
     bindi (clock (oh_kernel H)) (\<lambda>now.
       if now \<ge> deadline then set_row (\<lambda>r. r\<lparr>cr_stop := Some ''outer_timeout''\<rparr>)
       else bindi (interrupts (oh_kernel H) t0) (\<lambda>sigs.
         if sigs \<noteq> [] then set_row (\<lambda>r. r\<lparr>cr_stop := Some ''collector_interrupted''\<rparr>)
         else bindi (sys (\<lambda>t. k_waitid (oh_kernel H) t pid)) (\<lambda>event.
           case event of
             Some ev \<Rightarrow> note_exit H pid deadline ev
           | None \<Rightarrow>
               bindi (reap_adopted H (Some pid)) (\<lambda>_.
               bindi (over_limits (Suc n) H) (\<lambda>over.
                 if over then set_row (\<lambda>r. r\<lparr>cr_stop := Some ''outer_resource_stop''\<rparr>)
                 else
                   bindi (clock (oh_kernel H)) (\<lambda>_.
                   bindi (sys (oh_select H)) (\<lambda>_. watch_child n H t0 pid deadline)))))))"

definition owned_by :: "owned_host \<Rightarrow> proc_id \<Rightarrow> bool" where
  "owned_by H i \<longleftrightarrow> p_ppid i = oh_pid H \<and> p_pid i = p_pgid i \<and> p_pgid i = p_sid i"

definition image_matches :: "json \<Rightarrow> json \<Rightarrow> bool" where
  "image_matches exe python \<longleftrightarrow> list_all (\<lambda>k. py_eq (jget exe k) (jget python k)) [''path'', ''device'', ''inode'', ''sha256'']"

definition check_exe :: "owned_host \<Rightarrow> json \<Rightarrow> int \<Rightarrow> proc_id \<Rightarrow> ('b world_scheme, unit) io" where
  "check_exe H python pid i =
     bindi (sys (\<lambda>t. oh_image H t pid)) (\<lambda>exe.
       if \<not> image_matches exe python then raise (PolicyError ''D2 child executable/generation'')
       else bindi (ps_identity (oh_kernel H) pid) (\<lambda>again.
         if ps_same (Some i) again then ret () else raise (PolicyError ''D2 child executable/generation'')))"

definition start_child :: "nat \<Rightarrow> owned_host \<Rightarrow> nat \<Rightarrow> json \<Rightarrow> (string \<rightharpoonup> string) \<Rightarrow> string list \<Rightarrow> ns \<Rightarrow> ('b child_world_scheme, unit) io" where
  "start_child n H t0 python env args deadline =
     bindi (popen (oh_kernel H) args env) (\<lambda>pid.
     bindi (modify (\<lambda>w. w\<lparr>proc := Some pid\<rparr>)) (\<lambda>_.
     bindi (sys (\<lambda>t. oh_pidfd H t pid)) (\<lambda>_.
     bindi (modify (\<lambda>w. w\<lparr>pidfd := True\<rparr>)) (\<lambda>_.
     bindi (ps_identity (oh_kernel H) pid) (\<lambda>it.
     bindi (set_row (\<lambda>r. r\<lparr>cr_owner := it\<rparr>)) (\<lambda>_.
       case it of
         None \<Rightarrow> raise (PolicyError ''D2 child ownership'')
       | Some i \<Rightarrow>
           if \<not> owned_by H i then raise (PolicyError ''D2 child ownership'')
           else bindi (if dead_state (p_state i) then ret () else check_exe H python pid i) (\<lambda>_. watch_child n H t0 pid deadline)))))))"

definition exit_signal :: "int option \<Rightarrow> int option" where
  "exit_signal rc = (case rc of Some c \<Rightarrow> if c < 0 then Some (- c) else None | None \<Rightarrow> None)"

definition take_code :: "('b child_world_scheme, unit) io" where
  "take_code = modify (\<lambda>w. w\<lparr>row := (row w)\<lparr>cr_exit := returncode w, cr_signal := exit_signal (returncode w)\<rparr>\<rparr>)"

definition clean_child :: "nat \<Rightarrow> owned_host \<Rightarrow> int \<Rightarrow> ('b child_world_scheme, unit) io" where
  "clean_child n H pid =
     bindi (attempt (
       bindi (harness_cleanup n H pid) (\<lambda>rest.
       bindi (set_row (\<lambda>r. r\<lparr>cr_residual := Some rest\<rparr>)) (\<lambda>_.
       bindi take_code (\<lambda>_.
         modify (\<lambda>w. w\<lparr>row := (row w)\<lparr>cr_clean := rest = [] \<and> returncode w \<noteq> None\<rparr>\<rparr>)))))) (\<lambda>r.
     bindi (case r of Inl e \<Rightarrow> row_error (''cleanup:'' @ error_type e) | Inr u \<Rightarrow> ret ()) (\<lambda>_. take_code))"

definition close_pidfd :: "owned_host \<Rightarrow> ('b child_world_scheme, unit) io" where
  "close_pidfd H =
     bindi (attempt (sys (oh_fdclose H))) (\<lambda>r.
       case r of
         Inl e \<Rightarrow> if is_OSError e then bindi (first_stop ''collector_exception'') (\<lambda>_. row_error (''pidfd_close:'' @ error_type e)) else raise e
       | Inr u \<Rightarrow> ret ())"

definition child :: "nat \<Rightarrow> owned_host \<Rightarrow> nat \<Rightarrow> json \<Rightarrow> (string \<rightharpoonup> string) \<Rightarrow> string list \<Rightarrow> ns \<Rightarrow> ('b child_world_scheme, child_row) io" where
  "child n H t0 python env args deadline =
     bindi (clock (oh_kernel H)) (\<lambda>start.
     bindi (modify (\<lambda>w. w\<lparr>row := start_row args start, proc := None, pidfd := False, returncode := None\<rparr>)) (\<lambda>_.
     bindi (attempt (with_output (oh_kernel H) (with_output (oh_kernel H) (start_child n H t0 python env args deadline)))) (\<lambda>r.
     bindi (case r of Inl e \<Rightarrow> bindi (first_stop ''collector_exception'') (\<lambda>_. row_error (error_type e)) | Inr u \<Rightarrow> ret ()) (\<lambda>_.
     bindi (gets proc) (\<lambda>p.
     bindi (case p of Some pid \<Rightarrow> clean_child n H pid | None \<Rightarrow> ret ()) (\<lambda>_.
     bindi (gets pidfd) (\<lambda>fd.
     bindi (if fd then close_pidfd H else ret ()) (\<lambda>_.
     bindi (clock (oh_kernel H)) (\<lambda>now.
     bindi (set_row (\<lambda>r. r\<lparr>cr_end := Some now\<rparr>)) (\<lambda>_. gets row))))))))))"


section \<open>What the harness leaves alone\<close>

text \<open>The children of a process at one moment; \<open>children\<close> is one call of the host.\<close>

definition kids_at :: "owned_host \<Rightarrow> int \<Rightarrow> nat \<Rightarrow> int list res" where
  "kids_at H pid t = (case oh_children H t pid of
      Inl e \<Rightarrow> if e = FileNotFoundError then Inr [] else Inl e
    | Inr raw \<Rightarrow> map_res py_int (py_split raw))"

lemma children_sys: "children H pid = sys (kids_at H pid)"
  by (rule ext) (auto simp: children_def kids_at_def sys_def bindi_def attempt_def ret_def raise_def lift_res_def split: sum.split)

text \<open>
  Parts of the world that the harness does not touch: it makes calls, logs what it reaps, and notes the signals it
  sends in the row.
\<close>

definition harness_frame :: "('b child_world_scheme \<Rightarrow> 'c) \<Rightarrow> bool" where
  "harness_frame f \<longleftrightarrow> (\<forall>w n. f (w\<lparr>tick := n\<rparr>) = f w) \<and> (\<forall>w p c. f (w\<lparr>log := world.log w @ [Reaped p c]\<rparr>) = f w) \<and>
     (\<forall>w s. f (w\<lparr>row := (row w)\<lparr>cr_signals := s\<rparr>\<rparr>) = f w)"

lemma harness_frameD:
  "harness_frame f \<Longrightarrow> f (w\<lparr>tick := n\<rparr>) = f w" "harness_frame f \<Longrightarrow> f (w\<lparr>log := world.log w @ [Reaped p c]\<rparr>) = f w"
  "harness_frame f \<Longrightarrow> f (w\<lparr>row := (row w)\<lparr>cr_signals := s\<rparr>\<rparr>) = f w"
  by (auto simp: harness_frame_def)

lemma hf_sys [keeps_intros]: "harness_frame f \<Longrightarrow> keeps f (sys g)" "harness_frame f \<Longrightarrow> keeps f (clock K)" "harness_frame f \<Longrightarrow> keeps f sleep"
    "harness_frame f \<Longrightarrow> keeps f (children H pid)"
  by (simp_all add: children_sys clock_def sleep_def keeps_sys harness_frameD)

lemma hf_reaped [keeps_intros]: "harness_frame f \<Longrightarrow> keeps f (emit (Reaped p c))"
  unfolding emit_def by (rule keeps_modify) (simp add: harness_frameD)

lemma hf_ps_identity [keeps_intros]: "harness_frame f \<Longrightarrow> keeps f (ps_identity K pid)"
  unfolding ps_identity_def by (auto intro!: keeps_intros split: sum.split)

lemma hf_reap_each [keeps_intros]: "harness_frame f \<Longrightarrow> keeps f (reap_each H exclude pids)"
  by (induction pids) (auto intro!: keeps_intros)

lemma hf_reap_adopted [keeps_intros]: "harness_frame f \<Longrightarrow> keeps f (reap_adopted H exclude)"
  unfolding reap_adopted_def by (intro keeps_intros)

lemma hf_signal_open [keeps_intros]: "harness_frame f \<Longrightarrow> keeps f (signal_open H signum pid before)"
  unfolding signal_open_def set_row_def by (auto intro!: keeps_intros keeps_modify simp: harness_frameD split: option.split)

lemma hf_signal_child [keeps_intros]: "harness_frame f \<Longrightarrow> keeps f (signal_child H signum pid)"
  unfolding signal_child_def by (auto intro!: keeps_intros split: option.split sum.split)

lemma hf_signal_each [keeps_intros]: "harness_frame f \<Longrightarrow> keeps f (signal_each H signum pids)"
  by (induction pids) (auto intro!: keeps_intros)

lemma hf_signal_children [keeps_intros]: "harness_frame f \<Longrightarrow> keeps f (signal_children H signum)"
  unfolding signal_children_def by (intro keeps_intros)

lemma keeps_None [keeps_intros]: "keeps f (\<lambda>w. None)"
  by (simp add: keeps_def)

lemma hf_stop_loop [keeps_intros]: "harness_frame f \<Longrightarrow> keeps f (stop_loop n H pid signum deadline)"
  by (induction n) (auto intro!: keeps_intros)

lemma hf_stop_phases [keeps_intros]: "harness_frame f \<Longrightarrow> keeps f (stop_phases n H pid ps)"
  by (induction ps) (auto intro!: keeps_intros)

lemma hf_descend [keeps_intros]: "harness_frame f \<Longrightarrow> keeps f (descend n H st)"
  by (induction n H st rule: descend.induct) (auto intro!: keeps_intros)

lemma hf_over_limits [keeps_intros]: "harness_frame f \<Longrightarrow> keeps f (over_limits n H)"
  unfolding over_limits_def descendants_def available_def by (auto intro!: keeps_intros)

lemma hf_check_exe [keeps_intros]: "harness_frame f \<Longrightarrow> keeps f (check_exe H python pid i)"
  unfolding check_exe_def by (auto intro!: keeps_intros)

lemma hoare_keeps:
  assumes "keeps f m" and "\<And>w w'. f w = f w' \<Longrightarrow> P w \<Longrightarrow> P w'"
  shows "hoare P m (\<lambda>_. P) (\<lambda>_. P)"
  using assms unfolding hoare_def keeps_def by (metis (no_types, lifting) old.sum.simps(5,6) sum.exhaust)

section \<open>What a row says about the child\<close>

text \<open>The exit was observed while the clock still stood before the deadline.\<close>

definition exited_in_time :: "owned_host \<Rightarrow> int \<Rightarrow> ns \<Rightarrow> bool" where
  "exited_in_time H pid deadline \<longleftrightarrow> (\<exists>t ev. k_waitid (oh_kernel H) t pid = Inr (Some ev) \<and> k_clock (oh_kernel H) (Suc t) < deadline)"

text \<open>The child was reaped with this code, and afterwards the collector had no child left.\<close>

definition left_nothing :: "owned_host \<Rightarrow> int \<Rightarrow> int \<Rightarrow> bool" where
  "left_nothing H pid code \<longleftrightarrow> (\<exists>t t'. t < t' \<and> k_wait (oh_kernel H) t pid = Inr code \<and> kids_at H (oh_pid H) t' = Inr [])"

definition run_part :: "'b child_world_scheme \<Rightarrow> (string list \<times> (string \<rightharpoonup> string) \<times> int) list \<times> int option \<times> bool" where
  "run_part w = (launched (world.log w), proc w, cr_before (row w))"

definition run_seen :: "owned_host \<Rightarrow> string list \<Rightarrow> (string \<rightharpoonup> string) \<Rightarrow> ns \<Rightarrow> (string list \<times> (string \<rightharpoonup> string) \<times> int) list \<Rightarrow>
    (string list \<times> (string \<rightharpoonup> string) \<times> int) list \<times> int option \<times> bool \<Rightarrow> bool" where
  "run_seen H args env deadline L x = (case x of (ls, p, before) \<Rightarrow>
     (case p of None \<Rightarrow> ls = L \<and> \<not> before | Some pid \<Rightarrow> ls = L @ [(args, env, pid)] \<and> (before \<longrightarrow> exited_in_time H pid deadline)))"

lemma hf_run_part: "harness_frame run_part"
  by (simp add: harness_frame_def run_part_def)

lemma note_exit_seen:
  assumes "k_waitid (oh_kernel H) t pid = Inr (Some ev)"
  shows "hoare (\<lambda>w. tick w = Suc t \<and> proc w = Some pid \<and> run_seen H args env deadline L (run_part w)) (note_exit H pid deadline ev)
     (\<lambda>_ w. run_seen H args env deadline L (run_part w)) (\<lambda>_ w. run_seen H args env deadline L (run_part w))"
proof -
  have "k_clock (oh_kernel H) (Suc t) < deadline \<Longrightarrow> exited_in_time H pid deadline" using assms by (auto simp: exited_in_time_def)
  then show ?thesis
    unfolding note_exit_def first_stop_def hoare_def set_row_def children_sys clock_def
    by (auto simp: io_simps sys_def run_part_def run_seen_def split: if_splits sum.splits)
qed


lemma watch_child_seen:
  "hoare (\<lambda>w. proc w = Some pid \<and> run_seen H args env deadline L (run_part w)) (watch_child n H t0 pid deadline)
     (\<lambda>_ w. run_seen H args env deadline L (run_part w)) (\<lambda>_ w. run_seen H args env deadline L (run_part w))"
    (is "hoare ?I _ ?Q ?E")
proof (induction n)
  case 0
  show ?case by (simp add: hoare_def)
next
  case (Suc n)
  have seq: "hoare ?I (bindi m k) ?Q ?E" if "keeps run_part m" "\<And>x. hoare ?I (k x) ?Q ?E"
    for m :: "('a child_world_scheme, 'x) io" and k :: "'x \<Rightarrow> ('a child_world_scheme, unit) io"
    by (rule hoare_bindi [OF hoare_weaken [OF hoare_keeps [OF that(1), of ?I]] that(2)]) (auto simp: run_part_def)
  have stop: "hoare ?I (set_row (\<lambda>r. r\<lparr>cr_stop := s\<rparr>)) ?Q ?E" for s
    unfolding set_row_def by (auto simp: hoare_def io_simps run_part_def)
  have waiting: "hoare ?I (bindi (reap_adopted H (Some pid)) (\<lambda>_. bindi (over_limits (Suc n) H) (\<lambda>over.
      if over then set_row (\<lambda>r. r\<lparr>cr_stop := Some ''outer_resource_stop''\<rparr>)
      else bindi (clock (oh_kernel H)) (\<lambda>_. bindi (sys (oh_select H)) (\<lambda>_. watch_child n H t0 pid deadline))))) ?Q ?E"
    using Suc.IH by (auto intro!: seq stop hf_reap_adopted hf_over_limits hf_sys hf_run_part)
  have event: "hoare ?I (bindi (sys (\<lambda>t. k_waitid (oh_kernel H) t pid)) (\<lambda>event. case event of Some ev \<Rightarrow> note_exit H pid deadline ev
      | None \<Rightarrow> bindi (reap_adopted H (Some pid)) (\<lambda>_. bindi (over_limits (Suc n) H) (\<lambda>over.
          if over then set_row (\<lambda>r. r\<lparr>cr_stop := Some ''outer_resource_stop''\<rparr>)
          else bindi (clock (oh_kernel H)) (\<lambda>_. bindi (sys (oh_select H)) (\<lambda>_. watch_child n H t0 pid deadline)))))) ?Q ?E"
      (is "hoare _ (bindi _ ?k) _ _")
  proof (rule hoareI)
    fix w r w' assume I: "?I w" and run: "bindi (sys (\<lambda>t. k_waitid (oh_kernel H) t pid)) ?k w = Some (r, w')"
    let ?w = "w\<lparr>tick := Suc (tick w)\<rparr>"
    have I': "?I ?w" using I by (auto simp: run_part_def)
    show "case r of Inl e \<Rightarrow> ?E e w' | Inr x \<Rightarrow> ?Q x w'"
    proof (cases "k_waitid (oh_kernel H) (tick w) pid")
      case (Inl e)
      then show ?thesis using run I' by (auto simp: io_simps sys_def)
    next
      case (Inr event)
      then have k: "?k event ?w = Some (r, w')" using run by (simp add: bindi_def sys_def)
      show ?thesis
      proof (cases event)
        case None
        then show ?thesis using hoareD [OF waiting I'] k by simp
      next
        case (Some ev)
        then show ?thesis using hoareD [OF note_exit_seen [of H "tick w" pid ev], of ?w args env deadline L r w'] Inr I' k by simp
      qed
    qed
  qed
  show ?case
    unfolding watch_child.simps interrupts_def by (auto intro!: seq stop event keeps_intros hf_run_part)
qed

lemma start_child_seen:
  "hoare (\<lambda>w. proc w = None \<and> run_seen H args env deadline L (run_part w)) (start_child n H t0 python env args deadline)
     (\<lambda>_ w. run_seen H args env deadline L (run_part w)) (\<lambda>_ w. run_seen H args env deadline L (run_part w))"
    (is "hoare ?P _ ?Q ?E")
proof -
  let ?I = "\<lambda>pid w. proc w = Some pid \<and> run_seen H args env deadline L (run_part w)"
  have seq: "hoare (?I pid) (bindi m k) ?Q ?E" if "keeps run_part m" "\<And>x. hoare (?I pid) (k x) ?Q ?E"
    for m :: "('a child_world_scheme, 'x) io" and k :: "'x \<Rightarrow> ('a child_world_scheme, unit) io" and pid
    by (rule hoare_bindi [OF hoare_weaken [OF hoare_keeps [OF that(1), of "?I pid"]] that(2)]) (auto simp: run_part_def)
  have raised: "hoare (?I pid) (raise e) ?Q ?E" for e pid by (simp add: hoare_def io_simps)
  have quiet: "keeps run_part (modify (\<lambda>w. w\<lparr>pidfd := b\<rparr>))" "keeps run_part (set_row (\<lambda>r. r\<lparr>cr_owner := it\<rparr>))" for b it
    unfolding set_row_def by (rule keeps_modify; simp add: run_part_def)+
  have owned: "hoare (?I pid) (if \<not> owned_by H i then raise (PolicyError ''D2 child ownership'')
      else bindi (if dead_state (p_state i) then ret () else check_exe H python pid i) (\<lambda>_. watch_child n H t0 pid deadline)) ?Q ?E" for i pid
    by (auto intro!: seq raised watch_child_seen keeps_intros hf_run_part)
  have child: "hoare (?I pid) (bindi (sys (\<lambda>t. oh_pidfd H t pid)) (\<lambda>_. bindi (modify (\<lambda>w. w\<lparr>pidfd := True\<rparr>)) (\<lambda>_.
      bindi (ps_identity (oh_kernel H) pid) (\<lambda>it. bindi (set_row (\<lambda>r. r\<lparr>cr_owner := it\<rparr>)) (\<lambda>_.
      case it of None \<Rightarrow> raise (PolicyError ''D2 child ownership'')
      | Some i \<Rightarrow> if \<not> owned_by H i then raise (PolicyError ''D2 child ownership'')
           else bindi (if dead_state (p_state i) then ret () else check_exe H python pid i) (\<lambda>_. watch_child n H t0 pid deadline)))))) ?Q ?E" for pid
    using owned by (auto intro!: seq raised quiet keeps_intros hf_run_part split: option.split)
  have "hoare ?P (popen (oh_kernel H) args env) (\<lambda>pid w. run_seen H args env deadline L (launched (world.log w), Some pid, cr_before (row w))) ?E"
    by (auto simp: hoare_def popen_def io_simps sys_def emit_def run_part_def run_seen_def split: sum.splits)
  moreover have "hoare (\<lambda>w. run_seen H args env deadline L (launched (world.log w), Some pid, cr_before (row w))) (modify (\<lambda>w. w\<lparr>proc := Some pid\<rparr>)) (\<lambda>_. ?I pid) ?E" for pid
    by (auto simp: hoare_def io_simps run_part_def)
  ultimately show ?thesis
    unfolding start_child_def by (rule hoare_bindi [OF _ hoare_bindi [OF _ child]])
qed


text \<open>The cleanup: a complete one has reaped the child with the code of the row and found no child afterwards.\<close>

definition code_seen :: "owned_host \<Rightarrow> int \<Rightarrow> 'b child_world_scheme \<Rightarrow> bool" where
  "code_seen H pid w \<longleftrightarrow> (\<forall>c. returncode w = Some c \<longrightarrow> (\<exists>t<tick w. k_wait (oh_kernel H) t pid = Inr c))"

definition cleaned :: "owned_host \<Rightarrow> int \<Rightarrow> child_row \<Rightarrow> bool" where
  "cleaned H pid x \<longleftrightarrow> (cr_clean x \<longrightarrow> (\<exists>c. cr_exit x = Some c \<and> left_nothing H pid c))"

lemma hf_returncode: "harness_frame returncode" "harness_frame (\<lambda>w. (run_part w, cr_clean (row w)))"
  by (simp_all add: harness_frame_def run_part_def)

lemma logs_children [logs_intros]: "logs P (children H pid)"
  by (simp add: children_sys logs_basic)

lemma logs_reap_each [logs_intros]: "(\<And>p c. P (Reaped p c)) \<Longrightarrow> logs P (reap_each H exclude pids)"
  by (induction pids) (auto intro!: logs_intros)

lemma logs_reap_adopted [logs_intros]: "(\<And>p c. P (Reaped p c)) \<Longrightarrow> logs P (reap_adopted H exclude)"
  unfolding reap_adopted_def by (intro logs_intros)

lemma harness_cleanup_ends:
  assumes "harness_cleanup n H pid w = Some (r, w')" "returncode w = None"
  shows "(\<forall>rest c. r = Inr rest \<longrightarrow> returncode w' = Some c \<longrightarrow> rest = [] \<longrightarrow> left_nothing H pid c) \<and>
     (\<forall>rest. r = Inr rest \<longrightarrow> returncode w' \<noteq> None)"
proof (cases r)
  case (Inr rest)
  then obtain w1 w2 w3 u1 u2 where s: "stop_phases n H pid STOP_PHASES w = Some (Inr u1, w1)" "proc_wait H pid w1 = Some (Inr u2, w2)"
      "reap_adopted H None w2 = Some (Inr (), w3)" "children H (oh_pid H) w3 = Some (Inr rest, w')"
    using assms(1) unfolding harness_cleanup_def by (auto simp: io_simps)
  from s(2) obtain c where c: "k_wait (oh_kernel H) (tick w1) pid = Inr c" "returncode w2 = Some c" "tick w2 = Suc (tick w1)"
    unfolding proc_wait_def by (auto simp: io_simps sys_def emit_def)
  have "returncode w3 = Some c" using keepsD [OF hf_reap_adopted [OF hf_returncode(1)] s(3)] c(2) by simp
  moreover have "tick w2 \<le> tick w3" using logsD [OF logs_reap_adopted [of "\<lambda>_. True"] s(3)] by simp
  moreover have "kids_at H (oh_pid H) (tick w3) = Inr rest" "returncode w' = returncode w3" using s(4) by (auto simp: children_sys sys_def)
  moreover have "rest = [] \<Longrightarrow> left_nothing H pid c" using c calculation unfolding left_nothing_def by (intro exI [of _ "tick w1"] exI [of _ "tick w3"]) auto
  ultimately show ?thesis using c Inr by auto
qed simp

lemma clean_child_seen:
  assumes "clean_child n H pid w = Some (r, w')" "returncode w = None" "\<not> cr_clean (row w)"
  shows "cleaned H pid (row w') \<and> run_part w' = run_part w \<and> (\<exists>u. r = Inr u)"
proof -
  obtain r1 w1 where h: "harness_cleanup n H pid w = Some (r1, w1)"
    using assms(1) by (cases "harness_cleanup n H pid w") (auto simp: clean_child_def bindi_def attempt_def)
  have "keeps (\<lambda>w. (run_part w, cr_clean (row w))) (harness_cleanup n H pid)"
    unfolding harness_cleanup_def proc_wait_def
    by (intro keeps_intros hf_returncode keeps_modify) (simp add: run_part_def)
  from keepsD [OF this h] have k: "run_part w1 = run_part w" "\<not> cr_clean (row w1)" using assms(3) by simp_all
  show ?thesis
  proof (cases r1)
    case (Inl e)
    then show ?thesis using assms(1) h k unfolding clean_child_def row_error_def set_row_def take_code_def
      by (auto simp: bindi_def attempt_def modify_def run_part_def cleaned_def)
  next
    case (Inr rest)
    then have "r = Inr ()" "row w' = (row w1)\<lparr>cr_residual := Some rest, cr_exit := returncode w1, cr_signal := exit_signal (returncode w1), cr_clean := rest = [] \<and> returncode w1 \<noteq> None\<rparr>"
        "proc w' = proc w1" "world.log w' = world.log w1"
      using assms(1) h unfolding clean_child_def set_row_def take_code_def by (auto simp: bindi_def attempt_def modify_def ret_def)
    then show ?thesis using k Inr harness_cleanup_ends [OF h assms(2)] by (auto simp: run_part_def cleaned_def)
  qed
qed


section \<open>The row of a child\<close>

text \<open>
  What a row stands for: when it reports an exit before the deadline and a complete cleanup with code \<open>c\<close>, exactly one child was
  started for it, with the given arguments and environment, its exit was observed in time, it was reaped with that code, and no child
  was left.
\<close>

definition witnessed :: "owned_host \<Rightarrow> string list \<Rightarrow> (string \<rightharpoonup> string) \<Rightarrow> ns \<Rightarrow> (string list \<times> (string \<rightharpoonup> string) \<times> int) list \<Rightarrow> child_row \<Rightarrow> bool" where
  "witnessed H args env deadline ls x \<longleftrightarrow> (case cr_exit x of None \<Rightarrow> False
     | Some c \<Rightarrow> \<exists>pid. ls = [(args, env, pid)] \<and> left_nothing H pid c \<and> (cr_before x \<longrightarrow> exited_in_time H pid deadline))"

lemma hoare_with_output:
  assumes "hoare P m (\<lambda>_. Q) (\<lambda>_. Q)" "\<And>w. P w \<Longrightarrow> Q w" "\<And>w n. P w \<Longrightarrow> P (w\<lparr>tick := n\<rparr>)" "\<And>w n. Q w \<Longrightarrow> Q (w\<lparr>tick := n\<rparr>)"
  shows "hoare P (with_output K m) (\<lambda>_. Q) (\<lambda>_. Q)"
proof (rule hoareI)
  fix w r w' assume P: "P w" and run: "with_output K m w = Some (r, w')"
  let ?w = "w\<lparr>tick := Suc (tick w)\<rparr>"
  from run consider (closed) "w' = ?w" | (ran) r1 w1 where "m ?w = Some (r1, w1)" "w' = w1\<lparr>tick := Suc (tick w1)\<rparr>"
    unfolding with_output_def by (auto simp: io_simps sys_def)
  then have "Q w'"
  proof cases
    case closed
    then show ?thesis using P assms(2,3) by blast
  next
    case ran
    then have "Q w1" using hoareD [OF assms(1) assms(3) [OF P] ran(1)] by (cases r1) auto
    then show ?thesis using assms(4) ran(2) by blast
  qed
  then show "case r of Inl e \<Rightarrow> Q w' | Inr x \<Rightarrow> Q w'" by (cases r) auto
qed

lemma close_pidfd_keeps: "keeps (\<lambda>w. (run_part w, cr_clean (row w), cr_exit (row w))) (close_pidfd H)"
  unfolding close_pidfd_def first_stop_def row_error_def set_row_def
  by (auto intro!: keeps_intros keeps_modify simp: run_part_def harness_frame_def split: sum.split)

text \<open>The body of the \<open>try\<close> does not touch the fields that only the cleanup sets.\<close>

definition clean_part :: "'b child_world_scheme \<Rightarrow> bool \<times> int option" where
  "clean_part w = (cr_clean (row w), returncode w)"

lemma hf_clean_part: "harness_frame clean_part"
  by (simp add: harness_frame_def clean_part_def)

lemma keeps_watch_child: "keeps clean_part (watch_child n H t0 pid deadline)"
  by (induction n) (auto simp: note_exit_def first_stop_def set_row_def interrupts_def clean_part_def [abs_def] intro!: keeps_intros keeps_modify
      hf_clean_part [unfolded clean_part_def [abs_def]] split: option.split)

lemma keeps_start_child: "keeps clean_part (start_child n H t0 python env args deadline)"
  unfolding start_child_def popen_def emit_def set_row_def
  by (auto intro!: keeps_intros keeps_modify keeps_watch_child hf_clean_part split: option.split) (simp_all add: clean_part_def)

lemma keeps_with_output: "(\<And>w n. f (w\<lparr>tick := n\<rparr>) = f w) \<Longrightarrow> keeps f m \<Longrightarrow> keeps f (with_output K m)"
  unfolding with_output_def by (intro keeps_intros)

lemma child_witnessed:
  assumes "child n H t0 python env args deadline w = Some (Inr x, w')"
  shows "\<exists>ls. launched (world.log w') = launched (world.log w) @ ls \<and> length ls \<le> 1 \<and> (cr_clean x \<longrightarrow> witnessed H args env deadline ls x)"
proof -
  let ?L = "launched (world.log w)"
  let ?w0 = "w\<lparr>tick := Suc (tick w), row := start_row args (k_clock (oh_kernel H) (tick w)), proc := None, pidfd := False, returncode := None\<rparr>"
  let ?body = "with_output (oh_kernel H) (with_output (oh_kernel H) (start_child n H t0 python env args deadline))"
  from assms obtain r1 w1 w2 u where b: "?body ?w0 = Some (r1, w1)"
    and e: "(case r1 of Inl e \<Rightarrow> bindi (first_stop ''collector_exception'') (\<lambda>_. row_error (error_type e)) | Inr u \<Rightarrow> ret ()) w1 = Some (Inr u, w2)"
    and rest: "bindi (case proc w2 of Some pid \<Rightarrow> clean_child n H pid | None \<Rightarrow> ret ()) (\<lambda>_.
       bindi (gets pidfd) (\<lambda>fd. bindi (if fd then close_pidfd H else ret ()) (\<lambda>_.
       bindi (clock (oh_kernel H)) (\<lambda>now. bindi (set_row (\<lambda>r. r\<lparr>cr_end := Some now\<rparr>)) (\<lambda>_. gets row))))) w2 = Some (Inr x, w')"
    unfolding child_def clock_def by (auto simp: bindi_Some_iff attempt_Some_iff io_apply sys_def)
  have "run_seen H args env deadline ?L (run_part w1)"
  proof -
    have "hoare (\<lambda>w. proc w = None \<and> run_seen H args env deadline ?L (run_part w)) ?body
        (\<lambda>_ w. run_seen H args env deadline ?L (run_part w)) (\<lambda>_ w. run_seen H args env deadline ?L (run_part w))"
      by (intro hoare_with_output start_child_seen) (auto simp: run_part_def)
    from hoareD [OF this _ b] show ?thesis by (cases r1) (auto simp: run_part_def run_seen_def start_row_def)
  qed
  moreover have "clean_part w1 = (False, None)"
    using keepsD [OF keeps_with_output [OF _ keeps_with_output [OF _ keeps_start_child]] b] by (simp add: clean_part_def start_row_def)
  moreover have "run_part w2 = run_part w1" "clean_part w2 = clean_part w1"
    using e unfolding first_stop_def row_error_def set_row_def by (auto simp: io_simps run_part_def clean_part_def split: sum.splits)
  ultimately have s: "run_seen H args env deadline ?L (run_part w2)" "clean_part w2 = (False, None)" by simp_all
  from rest obtain w3 w4 u3 u4 where c: "(case proc w2 of Some pid \<Rightarrow> clean_child n H pid | None \<Rightarrow> ret ()) w2 = Some (Inr u3, w3)"
    and p: "(if pidfd w3 then close_pidfd H else ret ()) w3 = Some (Inr u4, w4)"
    and x: "cr_clean x = cr_clean (row w4)" "cr_exit x = cr_exit (row w4)" "cr_before x = cr_before (row w4)" "world.log w' = world.log w4"
    unfolding clock_def set_row_def by (auto simp: bindi_Some_iff io_apply sys_def)
  have w4: "run_part w4 = run_part w3" "cr_clean (row w4) = cr_clean (row w3)" "cr_exit (row w4) = cr_exit (row w3)"
    using p keepsD [OF close_pidfd_keeps, of H w3 "Inr u4" w4] by (auto simp: io_simps split: if_splits)
  show ?thesis
  proof (cases "proc w2")
    case None
    then have "w3 = w2" using c by (simp add: io_simps)
    then show ?thesis using None s w4 x by (auto simp: run_part_def run_seen_def clean_part_def)
  next
    case (Some pid)
    from clean_child_seen [of n H pid w2 "Inr u3" w3] c Some s(2) have "cleaned H pid (row w3)" "run_part w3 = run_part w2" by (auto simp: clean_part_def)
    then show ?thesis using Some s(1) w4 x by (auto simp: run_part_def run_seen_def cleaned_def witnessed_def)
  qed
qed


section \<open>What a child leaves alone\<close>

text \<open>The parts of a larger world that a child does not touch at all.\<close>

definition child_frame :: "('b child_world_scheme \<Rightarrow> 'c) \<Rightarrow> bool" where
  "child_frame f \<longleftrightarrow> (\<forall>w n. f (w\<lparr>tick := n\<rparr>) = f w) \<and> (\<forall>w l. f (w\<lparr>log := l\<rparr>) = f w) \<and> (\<forall>w x. f (w\<lparr>row := x\<rparr>) = f w) \<and>
     (\<forall>w p. f (w\<lparr>proc := p\<rparr>) = f w) \<and> (\<forall>w b. f (w\<lparr>pidfd := b\<rparr>) = f w) \<and> (\<forall>w c. f (w\<lparr>returncode := c\<rparr>) = f w)"

lemma child_frameD:
  assumes "child_frame f"
  shows "harness_frame f" "f (w\<lparr>tick := n\<rparr>) = f w" "f (w\<lparr>log := l\<rparr>) = f w" "f (w\<lparr>row := x\<rparr>) = f w" "f (w\<lparr>proc := p\<rparr>) = f w" "f (w\<lparr>pidfd := b\<rparr>) = f w" "f (w\<lparr>returncode := c\<rparr>) = f w"
  using assms by (auto simp: child_frame_def harness_frame_def)

lemma cf_set_row [keeps_intros]: "child_frame f \<Longrightarrow> keeps f (set_row g)" "child_frame f \<Longrightarrow> keeps f (first_stop s)" "child_frame f \<Longrightarrow> keeps f (row_error e)"
    "child_frame f \<Longrightarrow> keeps f take_code"
  unfolding first_stop_def row_error_def set_row_def take_code_def by (auto intro!: keeps_modify simp: child_frameD)

lemma cf_watch_child [keeps_intros]: "child_frame f \<Longrightarrow> keeps f (watch_child n H t0 pid deadline)"
  by (induction n) (auto simp: note_exit_def interrupts_def intro!: keeps_intros child_frameD(1) split: option.split)

lemma cf_start_child [keeps_intros]: "child_frame f \<Longrightarrow> keeps f (start_child n H t0 python env args deadline)"
  unfolding start_child_def popen_def emit_def
  by (auto intro!: keeps_intros keeps_modify child_frameD(1) simp: child_frameD split: option.split)

lemma cf_clean_child [keeps_intros]: "child_frame f \<Longrightarrow> keeps f (clean_child n H pid)"
  unfolding clean_child_def harness_cleanup_def proc_wait_def
  by (auto intro!: keeps_intros keeps_modify child_frameD(1) simp: child_frameD split: sum.split)

lemma cf_child: "child_frame f \<Longrightarrow> keeps f (child n H t0 python env args deadline)"
  unfolding child_def close_pidfd_def
  by (auto intro!: keeps_intros keeps_modify keeps_with_output child_frameD(1) simp: child_frameD split: sum.split option.split)

end
