(* ===== verification/D2_Collect.thy ===== *)
theory D2_Collect
  imports G4_Freeze Owned_Child
begin

text \<open>
  The outer collector \<^verbatim>\<open>d2_collect.py\<close>: it freezes an intent over a checked crypto launch (\<open>contract\<close>, \<open>prepare\<close>,
  \<open>checked\<close>), and \<open>collect\<close> runs the guardian and the verification once each, as owned children with a common deadline,
  and accepts only when every part of the evidence does.

  The host answers the calls of a run in an arbitrary way, as in \<open>kernel\<close>: every field of \<open>d2_host\<close> is a function of
  the number of calls made so far. SIGTERM and SIGINT are collected between the ticks at which the handlers are installed and
  restored. What an exception leaves behind (\<open>result\<close>, \<open>stage\<close>, the lock, the handlers, the files written) is part
  of the world.
\<close>

section \<open>The intent\<close>

definition D2_CONTRACT :: string where "D2_CONTRACT = ''d2-outer-collector-v1''"

definition EXTRA :: "string list" where "EXTRA = [''d2_collect.py'', ''tests/harness.py'', ''tests/__init__.py'']"

definition PINS :: "(string \<times> string) list" where
  "PINS = [(''tests/harness.py'', ''da5982d451cf78822b7466d4b04ebf804dad305cc92b5b7bc71ff95246a22cad''),
     (''tests/__init__.py'', ''32f7f30f7864dfd23b4ea2506a784ace2e5c62718eef3d232e81d8c0c5573b1d'')]"

text \<open>The program text of the verification child.\<close>

definition VERIFY :: string where
  "VERIFY = concat (map (\<lambda>l. l @ [LF]) [''import json,sys'', ''from pathlib import Path'', ''from tools.bench import g4_verify as v'', ''out=Path(sys.argv[1])'', ''v.seal(out)'',
     ''r=v.audit(out)'', ''print(json.dumps(r,sort_keys=True))'', ''sys.exit(0 if r['' @ [CHR 0x27] @ ''final_accepted'' @ [CHR 0x27] @ ''] else 1 if r['' @ [CHR 0x27] @
     ''evidence_valid'' @ [CHR 0x27] @ ''] else 2)''])"

definition d2_commands :: "json \<Rightarrow> json" where
  "d2_commands m = JObj [
     (''guardian'', JArr [jget (jget m ''python'') ''path'', JStr ''-B'', JStr ''-m'', JStr ''tools.bench.g4_launch'', JStr ''--config'', jget (jget m ''paths'') ''config'']),
     (''verification'', JArr [jget (jget m ''python'') ''path'', JStr ''-B'', JStr ''-c'', JStr VERIFY, jget (jget m ''paths'') ''out''])]"

text \<open>\<open>re.fullmatch(r'n8-cpu-pilot-[0-9]{8}T[0-9]{6}Z', name)\<close>\<close>

definition pilot_name :: "string \<Rightarrow> bool" where
  "pilot_name n \<longleftrightarrow> length n = 29 \<and> take 13 n = ''n8-cpu-pilot-'' \<and> list_all is_digit (take 8 (drop 13 n)) \<and> n ! 21 = CHR ''T'' \<and>
     list_all is_digit (take 6 (drop 22 n)) \<and> n ! 28 = CHR ''Z''"

text \<open>
  What one call of \<open>contract\<close> and \<open>checked\<close> sees: the host and the launch directory for \<open>binding.check\<close>, the config as it is
  read again, the frozen intent and the frozen sources; \<open>cv_parent\<close> is \<open>D2_PARENT\<close>.
\<close>

record d2_view =
  cv_host :: host
  cv_dir :: g4_dir
  cv_parent :: string
  cv_config :: file_view
  cv_intent :: file_view
  cv_source :: "string \<Rightarrow> file_view"

definition intent_json :: "(string \<Rightarrow> string) \<Rightarrow> json \<Rightarrow> string \<Rightarrow> (string \<times> string) list \<Rightarrow> json" where
  "intent_json sha m config sources = JObj [(''contract'', JStr D2_CONTRACT), (''run_id'', jget m ''run_id''), (''config_sha256'', JStr (sha config)),
     (''directory'', jget m ''directory''), (''policy'', jget m ''policy''), (''limits'', jget m ''effective_limits''), (''crypto'', jget m ''crypto''),
     (''python'', jget m ''python''), (''target'', jget m ''target_executable''), (''cwd'', jget m ''cwd''), (''environment'', jget m ''environment''),
     (''commands'', d2_commands m),
     (''adapter_argv'', JArr [jget (jget m ''python'') ''path'', JStr ''-B'', JStr ''-m'', JStr ''tools.bench.d2_collect'', JStr ''run'', JStr ''--config'',
        jget (jget m ''paths'') ''config'']),
     (''outer_seconds'', JInt 25), (''maximum_descendants'', JInt 8), (''disk_minimum_bytes'', JInt (2 * 1024 ^ 3)), (''minimum_available_bytes'', JInt (5 * 1024 ^ 3)),
     (''sources'', JObj (map (\<lambda>(n, raw). (n, bytes_ref sha raw)) sources))]"

definition contract :: "(string \<Rightarrow> string) \<Rightarrow> d2_view \<Rightarrow> (json \<times> json \<times> (string \<times> string) list) res" where
  "contract sha V =
     bindr (g4_check sha (cv_host V) True (cv_dir V)) (\<lambda>m.
     let out = the_str (jget (jget m ''paths'') ''out'') in
     needp (is_crypto m \<and> jget m ''entrypoint'' = JStr CRYPTO_ENTRYPOINT) ''D2 requires crypto profile''
     (needp (path_name out = ''g4'' \<and> path_parent (path_parent out) = cv_parent V \<and> pilot_name (path_name (path_parent out))) ''D2 directory''
     (bindr (with_reads EXTRA (ho_tool (cv_host V))) (\<lambda>sources.
      needp (list_all (\<lambda>(n, x). map_option sha (map_of sources n) = Some x) PINS) ''D2 cleanup source''
      (bindr (read_regular MiB2 (cv_config V)) (\<lambda>config.
       let intent = intent_json sha m config sources in
       needp (py_eq (jget (jget m ''crypto'') ''outer_seconds'') (JInt 25)) ''D2 outer budget'' (Inr (m, intent, sources))))))))"

definition TRACES :: "string list" where
  "TRACES = [''attempt.json'', ''outer-attempt.json'', ''outer-result.json'', ''supervised'', ''crypto'', ''guardian.json'', ''g4-artifacts.json'',
     ''outer-guardian.stdout'', ''outer-guardian.stderr'', ''outer-verification.stdout'', ''outer-verification.stderr'']"

text \<open>\<open>present\<close> says that a path exists or is a symbolic link.\<close>

definition d2_fresh :: "(string \<Rightarrow> bool) \<Rightarrow> unit res" where
  "d2_fresh present = needp (list_all (\<lambda>n. \<not> present n) TRACES) ''D2 attempt already consumed'' (Inr ())"

definition d2_prepare :: "(string \<Rightarrow> string) \<Rightarrow> d2_view \<Rightarrow> (string \<Rightarrow> bool) \<Rightarrow> unit res \<Rightarrow> (string \<Rightarrow> unit res) \<Rightarrow> (string \<times> string) list \<times> json res" where
  "d2_prepare sha V present mk out =
     (case bindr (contract sha V) (\<lambda>(m, intent, sources). bindr (d2_fresh present) (\<lambda>_. bindr mk (\<lambda>_. Inr (intent, sources)))) of
        Inl e \<Rightarrow> ([], Inl e)
      | Inr (intent, sources) \<Rightarrow>
          (case write_all out (map (\<lambda>(n, raw). (''outer-sources/'' @ n, raw)) sources @ [(''outer-intent.json'', encoded intent)]) of
             (w, Inl e) \<Rightarrow> (w, Inl e) | (w, Inr u) \<Rightarrow> (w, Inr intent)))"

definition checked :: "(string \<Rightarrow> string) \<Rightarrow> d2_view \<Rightarrow> (json \<times> json) res" where
  "checked sha V =
     bindr (contract sha V) (\<lambda>(m, intent, sources).
     bindr (bindr (read_regular MiB2 (cv_intent V)) decode_evidence) (\<lambda>frozen.
     needp (encoded frozen = encoded intent) ''D2 frozen intent mismatch''
     (bindr (fold_res (\<lambda>(n, raw) _. bindr (read_regular MiB2 (cv_source V n)) (\<lambda>data. needp (data = raw) ''D2 source snapshot'' (Inr ()))) sources ()) (\<lambda>_.
      Inr (m, intent)))))"


section \<open>Preflight\<close>

record d2_host =
  dh_owned :: owned_host
  dh_view :: "nat \<Rightarrow> d2_view"
  dh_present :: "nat \<Rightarrow> string \<Rightarrow> bool"
  dh_cwd :: string
  dh_argv :: json
  dh_optimize :: bool
  dh_environ :: json
  dh_lock_open :: "nat \<Rightarrow> unit res"
  dh_lock_stat :: "nat \<Rightarrow> file_stat res"
  dh_flock :: "nat \<Rightarrow> unit res"
  dh_primitives :: bool
  dh_statvfs :: "nat \<Rightarrow> (int \<times> int) res"
  dh_load1 :: "nat \<Rightarrow> json res"
  dh_cpus :: "nat \<Rightarrow> int res"
  dh_cmdline :: "nat \<Rightarrow> string \<Rightarrow> string res"
  dh_ipc :: "nat \<Rightarrow> bool"
  dh_prctl :: "nat \<Rightarrow> int"
  dh_is_file :: "nat \<Rightarrow> string \<Rightarrow> bool"
  dh_file :: "nat \<Rightarrow> string \<Rightarrow> file_view"

abbreviation dh_kernel :: "d2_host \<Rightarrow> kernel" where "dh_kernel H \<equiv> oh_kernel (dh_owned H)"
abbreviation dh_pid :: "d2_host \<Rightarrow> int" where "dh_pid H \<equiv> oh_pid (dh_owned H)"

abbreviation needi :: "bool \<Rightarrow> string \<Rightarrow> ('w, unit) io" where
  "needi c reason \<equiv> (if c then ret () else raise (PolicyError reason))"

text \<open>\<open>raw.rstrip(b'\0').split(b'\0')\<close>, and the words that mark a competing experiment.\<close>

definition NUL :: char where "NUL = char_of (0::nat)"

definition cmdline_words :: "string \<Rightarrow> string list" where
  "cmdline_words raw = split_on NUL (rev (dropWhile (\<lambda>c. c = NUL) (rev raw)))"

definition competitor :: "string \<Rightarrow> string \<Rightarrow> bool" where
  "competitor target x \<longleftrightarrow> x \<in> set [''tools.bench.g4_launch'', ''tools.bench.g4_bootstrap'', target] \<or>
     py_startswith x ''/'' \<and> path_name x = ''mimcchain.test''"

fun competing_among :: "d2_host \<Rightarrow> string \<Rightarrow> string list \<Rightarrow> ('b world_scheme, int list) io" where
  "competing_among H target [] = ret []"
| "competing_among H target (name # names) =
     (if \<not> py_isdigit name then competing_among H target names
      else bindi (lift_res (py_int name)) (\<lambda>pid.
        if pid = dh_pid H then competing_among H target names
        else bindi (attempt (sys (\<lambda>t. dh_cmdline H t name))) (\<lambda>r.
          case r of
            Inl e \<Rightarrow> if e = FileNotFoundError \<or> e = ProcessLookupError then competing_among H target names else raise e
          | Inr raw \<Rightarrow>
              bindi (competing_among H target names) (\<lambda>rest.
                ret (if list_ex (competitor target) (cmdline_words raw) then pid # rest else rest)))))"

definition competing :: "d2_host \<Rightarrow> string \<Rightarrow> ('b world_scheme, int list) io" where
  "competing H target = bindi (sys (k_entries (dh_kernel H))) (competing_among H target)"

record d2_snapshot =
  sp_available :: int
  sp_disk :: int
  sp_load1 :: json
  sp_cpus :: int
  sp_competing :: "int list"

definition eligible :: "json \<Rightarrow> d2_snapshot \<Rightarrow> bool" where
  "eligible intent s \<longleftrightarrow> sp_available s \<ge> the_int (jget intent ''minimum_available_bytes'') \<and> sp_disk s \<ge> the_int (jget intent ''disk_minimum_bytes'') \<and>
     sp_cpus s \<ge> 4 \<and> \<not> dec_le (sp_cpus s, 0) (number (sp_load1 s)) \<and> sp_competing s = []"

definition preflight :: "d2_host \<Rightarrow> json \<Rightarrow> ('b world_scheme, d2_snapshot) io" where
  "preflight H intent =
     bindi (needi (dh_primitives H) ''D2 Linux ownership primitives'') (\<lambda>_.
     bindi (children (dh_owned H) (dh_pid H)) (\<lambda>ks.
     bindi (needi (ks = []) ''D2 must start without children'') (\<lambda>_.
     bindi (sys (\<lambda>t. oh_pidfd (dh_owned H) t (dh_pid H))) (\<lambda>_.
     bindi (sys (oh_fdclose (dh_owned H))) (\<lambda>_.
     bindi (available (dh_kernel H)) (\<lambda>mem.
     bindi (sys (dh_statvfs H)) (\<lambda>(bavail, _).
     bindi (sys (dh_statvfs H)) (\<lambda>(_, frsize).
     bindi (sys (dh_load1 H)) (\<lambda>load.
     bindi (sys (dh_cpus H)) (\<lambda>cpus.
     bindi (competing H (the_str (jget (jget intent ''target'') ''path''))) (\<lambda>found.
     let s = \<lparr>sp_available = mem, sp_disk = bavail * frsize, sp_load1 = load, sp_cpus = cpus, sp_competing = found\<rparr> in
     bindi (needi (eligible intent s) ''D2 resource/competing preflight'') (\<lambda>_. ret s))))))))))))"

section \<open>The result\<close>

record outer_result =
  or_run_id :: json
  or_config :: json
  or_intent :: string
  or_start :: ns
  or_deadline :: ns
  or_preflight :: d2_snapshot
  or_phases :: "(string \<times> child_row) list"
  or_primary :: "string option"
  or_failures :: "(string \<times> string) list"
  or_errors :: "string list"
  or_timed_out :: bool
  or_source :: bool
  or_artifact :: bool
  or_g4 :: bool
  or_crypto :: bool
  or_clean :: bool
  or_report :: "json option"
  or_accepted :: bool
  or_interrupts :: "int list option"
  or_end :: "ns option"

record d2_world = child_world +
  outer :: "outer_result option"
  stage :: string
  locked :: bool
  armed :: "nat option"
  published :: "(string \<times> string) list"

definition json_opt :: "('a \<Rightarrow> json) \<Rightarrow> 'a option \<Rightarrow> json" where
  "json_opt f x = (case x of None \<Rightarrow> JNull | Some y \<Rightarrow> f y)"

definition identity_json :: "proc_id \<Rightarrow> json" where
  "identity_json i = JObj [(''pid'', JInt (p_pid i)), (''state'', JStr (p_state i)), (''ppid'', JInt (p_ppid i)), (''pgid'', JInt (p_pgid i)),
     (''sid'', JInt (p_sid i)), (''start_ticks'', JInt (p_ticks i))]"

definition signal_name :: "int \<Rightarrow> string" where
  "signal_name n = (if n = SIGTERM then ''SIGTERM'' else if n = SIGKILL then ''SIGKILL'' else ''SIGINT'')"

definition child_json :: "child_row \<Rightarrow> json" where
  "child_json r = JObj ([(''argv'', JArr (map JStr (cr_argv r))), (''owner'', json_opt identity_json (cr_owner r)),
     (''waitid'', json_opt (\<lambda>e. JObj [(''code'', JInt (si_code e)), (''status'', JInt (si_status e))]) (cr_waitid r)),
     (''raw_exit_code'', json_opt JInt (cr_exit r)), (''signal'', json_opt JInt (cr_signal r)), (''stop'', json_opt JStr (cr_stop r)),
     (''exited_before_deadline'', JBool (cr_before r)), (''cleanup_complete'', JBool (cr_clean r)),
     (''residual_children'', json_opt (\<lambda>ks. JArr (map JInt ks)) (cr_residual r)),
     (''signals'', JArr (map (\<lambda>(n, i). JObj [(''signal'', JStr (signal_name n)), (''identity'', identity_json i)]) (cr_signals r))),
     (''errors'', JArr (map JStr (cr_errors r))), (''start_ns'', JInt (cr_start r))] @
     (case cr_end r of None \<Rightarrow> [] | Some t \<Rightarrow> [(''end_ns'', JInt t)]))"

definition snapshot_json :: "d2_snapshot \<Rightarrow> json" where
  "snapshot_json s = JObj [(''memavailable_bytes'', JInt (sp_available s)), (''disk_available_bytes'', JInt (sp_disk s)), (''load1'', sp_load1 s),
     (''cpus'', JInt (sp_cpus s)), (''competing'', JArr (map JInt (sp_competing s)))]"

definition outer_json :: "outer_result \<Rightarrow> json" where
  "outer_json r = JObj ([(''contract'', JStr D2_CONTRACT), (''run_id'', or_run_id r), (''config_sha256'', or_config r), (''intent_sha256'', JStr (or_intent r)),
     (''start_ns'', JInt (or_start r)), (''deadline_ns'', JInt (or_deadline r)), (''preflight'', snapshot_json (or_preflight r)),
     (''phases'', JObj (map (\<lambda>(n, x). (n, child_json x)) (or_phases r))), (''primary_failure'', json_opt JStr (or_primary r)),
     (''failures'', JArr (map (\<lambda>(p, x). JObj [(''phase'', JStr p), (''reason'', JStr x)]) (or_failures r))), (''collector_errors'', JArr (map JStr (or_errors r))),
     (''outer_timed_out'', JBool (or_timed_out r)), (''source_binding_valid'', JBool (or_source r)), (''artifact_integrity_valid'', JBool (or_artifact r)),
     (''g4_evidence_accepted'', JBool (or_g4 r)), (''crypto_evidence_accepted'', JBool (or_crypto r)), (''cleanup_complete'', JBool (or_clean r)),
     (''verification_report'', json_opt (\<lambda>x. x) (or_report r)), (''accepted'', JBool (or_accepted r))] @
     (case or_interrupts r of None \<Rightarrow> [] | Some xs \<Rightarrow> [(''interrupts'', JArr (map JInt xs))]) @
     (case or_end r of None \<Rightarrow> [] | Some t \<Rightarrow> [(''end_ns'', JInt t)]))"

definition new_outer :: "(string \<Rightarrow> string) \<Rightarrow> json \<Rightarrow> json \<Rightarrow> ns \<Rightarrow> ns \<Rightarrow> d2_snapshot \<Rightarrow> outer_result" where
  "new_outer sha m intent start deadline s = \<lparr>or_run_id = jget m ''run_id'', or_config = jget intent ''config_sha256'', or_intent = sha (encoded intent),
     or_start = start, or_deadline = deadline, or_preflight = s, or_phases = [], or_primary = None, or_failures = [], or_errors = [], or_timed_out = False,
     or_source = False, or_artifact = False, or_g4 = False, or_crypto = False, or_clean = False, or_report = None, or_accepted = False,
     or_interrupts = None, or_end = None\<rparr>"

definition attempt_json :: "(string \<Rightarrow> string) \<Rightarrow> json \<Rightarrow> json \<Rightarrow> ns \<Rightarrow> ns \<Rightarrow> proc_id option \<Rightarrow> json" where
  "attempt_json sha m intent start deadline self = JObj [(''contract'', JStr D2_CONTRACT), (''run_id'', jget m ''run_id''),
     (''config_sha256'', jget intent ''config_sha256''), (''intent_sha256'', JStr (sha (encoded intent))), (''start_ns'', JInt start),
     (''deadline_ns'', JInt deadline), (''owner'', json_opt identity_json self)]"


section \<open>Diagnostic labels\<close>

text \<open>\<open>repr\<close> of a string of 8-bit characters, and \<open>str\<close> of a JSON value.\<close>

definition SQ :: char where "SQ = CHR 0x27"

definition repr_char :: "char \<Rightarrow> char \<Rightarrow> string" where
  "repr_char quote c =
     (let n = of_char c :: nat in
      if c = quote \<or> c = BSL then [BSL, c]
      else if n = 10 then [BSL, CHR ''n''] else if n = 13 then [BSL, CHR ''r''] else if n = 9 then [BSL, CHR ''t'']
      else if 32 \<le> n \<and> n \<le> 126 \<or> 161 \<le> n \<and> n \<noteq> 173 then [c]
      else [BSL, CHR ''x'', hex_digit (n div 16), hex_digit (n mod 16)])"

definition repr_str :: "string \<Rightarrow> string" where
  "repr_str s = (let quote = (if SQ \<in> set s \<and> DQ \<notin> set s then DQ else SQ) in quote # concat (map (repr_char quote) s) @ [quote])"

fun py_repr :: "json \<Rightarrow> string" where
  "py_repr JNull = ''None''"
| "py_repr (JBool b) = (if b then ''True'' else ''False'')"
| "py_repr (JInt i) = show_int i"
| "py_repr (JFloat m e) = float_repr m e"
| "py_repr (JStr s) = repr_str s"
| "py_repr (JArr xs) = CHR ''['' # join '', '' (map py_repr xs) @ '']''"
| "py_repr (JObj kvs) = CHR ''{'' # join '', '' (map (\<lambda>(k, v). repr_str k @ '': '' @ py_repr v) kvs) @ ''}''"

definition py_str :: "json \<Rightarrow> string" where
  "py_str v = (case v of JStr s \<Rightarrow> s | _ \<Rightarrow> py_repr v)"

text \<open>\<open>d.get(k, default)\<close>, and \<open>word in text\<close>.\<close>

definition get_or :: "json \<Rightarrow> json \<Rightarrow> string \<Rightarrow> json" where
  "get_or d v k = (if has_key v k then jget v k else d)"

fun occurs :: "string \<Rightarrow> string \<Rightarrow> bool" where
  "occurs word [] = (word = [])"
| "occurs word (c # cs) = (py_startswith (c # cs) word \<or> occurs word cs)"

definition labels_in :: "(string \<times> string) list \<Rightarrow> string \<Rightarrow> string list" where
  "labels_in entries s = map snd (filter (\<lambda>(word, _). occurs word s) entries)"

definition STOP_WORDS :: "(string \<times> string) list" where
  "STOP_WORDS = [(''resource'', ''resource_stop''), (''headroom'', ''resource_stop''), (''barrier'', ''barrier_failure''), (''timeout'', ''guardian_or_execution_timeout'')]"

definition ERROR_WORDS :: "(string \<times> string) list" where
  "ERROR_WORDS = [(''artifact'', ''artifact_corruption''), (''binding'', ''source_policy_binding_failure''), (''source'', ''source_policy_binding_failure''),
     (''crypto'', ''crypto_evidence_rejected'')]"

definition REQUIRED_FILES :: "(string \<times> string) list" where
  "REQUIRED_FILES = [(''guardian.json'', ''missing_guardian_result''), (''g4-artifacts.json'', ''missing_g4_evidence''), (''crypto/ledger.jsonl'', ''missing_crypto_ledger'')]"

fun missing_labels :: "d2_host \<Rightarrow> (string \<times> string) list \<Rightarrow> ('b world_scheme, string list) io" where
  "missing_labels H [] = ret []"
| "missing_labels H ((name, lab) # rest) =
     bindi (sys (\<lambda>t. Inr (dh_is_file H t name))) (\<lambda>there.
     bindi (missing_labels H rest) (\<lambda>labels. ret (if there then labels else lab # labels)))"

definition stop_text :: "json \<Rightarrow> string res" where
  "stop_text value = (if is_dict value
     then Inr (py_str (get_or (JStr []) value ''stop'') @ py_str (get_or (JStr []) value ''reason'') @ py_str (get_or (JStr []) value ''primary''))
     else Inl AttributeError)"

fun stop_labels :: "d2_host \<Rightarrow> string list \<Rightarrow> ('b world_scheme, string list) io" where
  "stop_labels H [] = ret []"
| "stop_labels H (name # names) =
     bindi (attempt (bindi (sys (\<lambda>t. read_regular MiB2 (dh_file H t name))) (\<lambda>raw. lift_res (bindr (decode_evidence raw) stop_text)))) (\<lambda>r.
     bindi (case r of
         Inl e \<Rightarrow> if is_OSError e \<or> is_ValueError e \<or> e = TypeError \<or> e = AttributeError then ret [] else raise e
       | Inr s \<Rightarrow> ret (labels_in STOP_WORDS s)) (\<lambda>found.
     bindi (stop_labels H names) (\<lambda>labels. ret (found @ labels))))"

definition audit_labels :: "json option \<Rightarrow> string list" where
  "audit_labels rep = (case rep of
      None \<Rightarrow> []
    | Some a \<Rightarrow>
        if jget a ''final_accepted'' = JBool True then []
        else [''evidence_rejected''] @
          (if is_dict (jget a ''crypto'') \<and> jget (jget a ''crypto'') ''evidence_valid'' \<noteq> JBool True then [''crypto_evidence_rejected''] else []) @
          labels_in ERROR_WORDS (py_str (get_or (JArr []) a ''errors'')))"

definition failure_labels :: "d2_host \<Rightarrow> json option \<Rightarrow> ('b world_scheme, string list) io" where
  "failure_labels H rep =
     bindi (missing_labels H REQUIRED_FILES) (\<lambda>missing.
     bindi (stop_labels H [''guardian.json'', ''supervised/supervisor.json'', ''supervised/inner/result.json'']) (\<lambda>stops.
       ret (sort (remdups (missing @ stops @ audit_labels rep)))))"

section \<open>The collection\<close>

definition set_outer :: "(outer_result \<Rightarrow> outer_result) \<Rightarrow> ('b d2_world_scheme, unit) io" where
  "set_outer f = modify (\<lambda>w. w\<lparr>outer := map_option f (outer w)\<rparr>)"

definition set_stage :: "string \<Rightarrow> ('b d2_world_scheme, unit) io" where
  "set_stage s = modify (\<lambda>w. w\<lparr>stage := s\<rparr>)"

definition add_failure :: "string \<Rightarrow> string \<Rightarrow> outer_result \<Rightarrow> outer_result" where
  "add_failure ph reason r = r\<lparr>or_failures := or_failures r @ [(ph, reason)]\<rparr>"

definition first_failure :: "string \<Rightarrow> outer_result \<Rightarrow> outer_result" where
  "first_failure reason r = r\<lparr>or_primary := first_of (or_primary r) reason\<rparr>"

definition recheck :: "(string \<Rightarrow> string) \<Rightarrow> d2_host \<Rightarrow> ('b world_scheme, json \<times> json) io" where
  "recheck sha H = sys (\<lambda>t. checked sha (dh_view H t))"

text \<open>\<open>write_private\<close> into the output directory.\<close>

definition publish :: "d2_host \<Rightarrow> string \<Rightarrow> json \<Rightarrow> ('b d2_world_scheme, unit) io" where
  "publish H name value =
     bindi (sys (\<lambda>t. k_write (dh_kernel H) t name)) (\<lambda>_.
     bindi (emit (Wrote name)) (\<lambda>_. modify (\<lambda>w. w\<lparr>published := published w @ [(name, encoded value)]\<rparr>)))"

text \<open>\<open>pending\<close>: what the handlers have collected so far.\<close>

definition caught_by :: "kernel \<Rightarrow> nat option \<Rightarrow> nat \<Rightarrow> int list" where
  "caught_by K since t = (case since of None \<Rightarrow> [] | Some t0 \<Rightarrow> pending K t0 t)"

definition collected :: "d2_host \<Rightarrow> ('b d2_world_scheme, int list) io" where
  "collected H = gets (\<lambda>w. caught_by (dh_kernel H) (armed w) (tick w))"

definition lock_parent :: "d2_host \<Rightarrow> ('b d2_world_scheme, unit) io" where
  "lock_parent H =
     bindi (sys (dh_lock_open H)) (\<lambda>_.
     bindi (attempt (
       bindi (sys (\<lambda>t. bindr (dh_lock_stat H t) (\<lambda>st.
          needp (fs_regular st \<and> fs_nlink st = 1 \<and> fs_uid st = ho_uid (cv_host (dh_view H t))) ''D2 lock file'' (Inr ())))) (\<lambda>_.
       sys (dh_flock H)))) (\<lambda>r.
       case r of
         Inl e \<Rightarrow> bindi (sys (oh_fdclose (dh_owned H))) (\<lambda>_. raise e)
       | Inr u \<Rightarrow> modify (\<lambda>w. w\<lparr>locked := True\<rparr>)))"

definition phase_reason :: "child_row \<Rightarrow> string option" where
  "phase_reason x = (case cr_stop x of
      Some s \<Rightarrow> Some s
    | None \<Rightarrow>
        if \<not> cr_clean x then Some ''cleanup_incomplete'' else if cr_errors x \<noteq> [] then Some ''cleanup_error''
        else if cr_signals x \<noteq> [] then Some ''emergency_cleanup'' else if cr_exit x \<noteq> Some 0 then Some ''child_nonzero'' else None)"

definition environment_of :: "json \<Rightarrow> string \<rightharpoonup> string" where
  "environment_of m = map_of (map (\<lambda>(k, v). (k, the_str v)) (pairs (jget m ''environment'')))"

definition note_phase :: "string \<Rightarrow> child_row \<Rightarrow> bool \<Rightarrow> outer_result \<Rightarrow> outer_result" where
  "note_phase ph x late r =
     (let r1 = r\<lparr>or_phases := or_phases r @ [(ph, x)], or_timed_out := or_timed_out r \<or> late\<rparr> in
      case phase_reason x of None \<Rightarrow> r1 | Some reason \<Rightarrow> first_failure reason (add_failure ph reason r1))"

fun run_phases :: "nat \<Rightarrow> (string \<Rightarrow> string) \<Rightarrow> d2_host \<Rightarrow> nat \<Rightarrow> json \<Rightarrow> ns \<Rightarrow> (string \<times> json) list \<Rightarrow> ('b d2_world_scheme, unit) io" where
  "run_phases n sha H t0 m deadline [] = ret ()"
| "run_phases n sha H t0 m deadline ((ph, args) # rest) =
     bindi (clock (dh_kernel H)) (\<lambda>now.
     bindi (collected H) (\<lambda>sigs.
       if now \<ge> deadline \<or> sigs \<noteq> [] then
         bindi (clock (dh_kernel H)) (\<lambda>again.
           set_outer (\<lambda>r. first_failure (if again \<ge> deadline then ''outer_timeout'' else ''collector_interrupted'') (r\<lparr>or_timed_out := again \<ge> deadline\<rparr>)))
       else
         bindi (set_stage ''source_policy_binding_failure'') (\<lambda>_.
         bindi (recheck sha H) (\<lambda>_.
         bindi (set_stage ph) (\<lambda>_.
         bindi (child n (dh_owned H) t0 (jget m ''python'') (environment_of m) (map the_str (the_list args)) deadline) (\<lambda>x.
         bindi (if cr_stop x = Some ''outer_timeout'' then ret True else bindi (clock (dh_kernel H)) (\<lambda>now. ret (now \<ge> deadline))) (\<lambda>late.
         bindi (set_outer (note_phase ph x late)) (\<lambda>_.
         bindi (gets (\<lambda>w. or_timed_out (the (outer w)))) (\<lambda>late.
           if late \<or> \<not> cr_clean x then ret () else run_phases n sha H t0 m deadline rest)))))))))"

definition accept_report :: "json \<Rightarrow> outer_result \<Rightarrow> outer_result" where
  "accept_report a r = r\<lparr>or_g4 := jget a ''final_accepted'' = JBool True,
     or_crypto := is_dict (jget a ''crypto'') \<and> jget (jget a ''crypto'') ''evidence_valid'' = JBool True, or_artifact := jget a ''evidence_valid'' = JBool True\<rparr>"

definition report_at :: "d2_host \<Rightarrow> nat \<Rightarrow> json res" where
  "report_at H t = bindr (bindr (read_regular MiB2 (dh_file H t ''outer-verification.stdout'')) decode_evidence) (\<lambda>a.
     needp (is_dict a) ''D2 verification report'' (Inr a))"

definition judge_report :: "d2_host \<Rightarrow> json \<Rightarrow> ('b d2_world_scheme, json option) io" where
  "judge_report H m =
     bindi (gets (\<lambda>w. map_of (or_phases (the (outer w))) ''verification'')) (\<lambda>x.
       case x of
         None \<Rightarrow> ret None
       | Some v \<Rightarrow>
           bindi (sys (\<lambda>t. Inr (dh_is_file H t ''outer-verification.stdout''))) (\<lambda>there.
             if \<not> there then ret None
             else
               bindi (set_stage ''invalid_verification_report'') (\<lambda>_.
               bindi (attempt (sys (report_at H))) (\<lambda>r.
               bindi (case r of
                   Inl e \<Rightarrow> if is_OSError e \<or> is_ValueError e \<or> e = TypeError
                     then bindi (set_outer (add_failure ''verification'' ''invalid_verification_report'')) (\<lambda>_. ret None) else raise e
                 | Inr a \<Rightarrow> ret (Some a)) (\<lambda>rep.
               bindi (set_outer (\<lambda>r. r\<lparr>or_report := rep\<rparr>)) (\<lambda>_.
                 case rep of
                   None \<Rightarrow> ret rep
                 | Some a \<Rightarrow>
                     if cr_exit v \<noteq> Some 0 then ret rep
                     else
                       bindi (set_stage ''verification_run_id_mismatch'') (\<lambda>_.
                       bindi (needi (py_eq (jget a ''run_id'') (jget m ''run_id'')) ''D2 verification run ID'') (\<lambda>_.
                       bindi (set_outer (accept_report a)) (\<lambda>_. ret rep)))))))))"

definition guardian_ok :: "outer_result \<Rightarrow> bool" where
  "guardian_ok r = (case map_of (or_phases r) ''guardian'' of None \<Rightarrow> False
     | Some g \<Rightarrow> cr_exit g = Some 0 \<and> cr_stop g = None \<and> cr_before g)"

definition settle :: "int list \<Rightarrow> bool \<Rightarrow> int list \<Rightarrow> outer_result \<Rightarrow> outer_result" where
  "settle kids late sigs r0 =
     (let r1 = r0\<lparr>or_clean := kids = [] \<and> or_phases r0 \<noteq> [] \<and> list_all (\<lambda>(n, x). cr_clean x) (or_phases r0), or_timed_out := or_timed_out r0 \<or> late\<rparr>;
          r2 = r1\<lparr>or_accepted := guardian_ok r1 \<and> \<not> or_timed_out r1 \<and> sigs = [] \<and> or_clean r1 \<and> or_g4 r1 \<and> or_crypto r1 \<and> or_source r1 \<and>
            or_artifact r1 \<and> or_failures r1 = []\<rparr> in
      if or_accepted r2 then r2 else first_failure (if or_timed_out r2 then ''outer_timeout'' else ''evidence_rejected_or_unknown'') r2)"

definition conclude_run :: "(string \<Rightarrow> string) \<Rightarrow> d2_host \<Rightarrow> ns \<Rightarrow> json option \<Rightarrow> ('b d2_world_scheme, unit) io" where
  "conclude_run sha H deadline rep =
     bindi (set_stage ''source_policy_binding_failure'') (\<lambda>_.
     bindi (recheck sha H) (\<lambda>_.
     bindi (set_stage ''collector_exception'') (\<lambda>_.
     bindi (set_outer (\<lambda>r. r\<lparr>or_source := True\<rparr>)) (\<lambda>_.
     bindi (failure_labels H rep) (\<lambda>labels.
     bindi (set_outer (\<lambda>r. r\<lparr>or_failures := or_failures r @ map (\<lambda>x. (''evidence'', x)) labels\<rparr>)) (\<lambda>_.
     bindi (children (dh_owned H) (dh_pid H)) (\<lambda>kids.
     bindi (clock (dh_kernel H)) (\<lambda>now.
     bindi (collected H) (\<lambda>sigs. set_outer (settle kids (now \<ge> deadline) sigs))))))))))"

definition collect_body :: "nat \<Rightarrow> (string \<Rightarrow> string) \<Rightarrow> d2_host \<Rightarrow> json \<Rightarrow> json \<Rightarrow> ('b d2_world_scheme, unit) io" where
  "collect_body n sha H m intent =
     bindi (preflight H intent) (\<lambda>s.
     bindi (sys (\<lambda>t. needp (\<not> dh_ipc H t) ''D2 stale IPC'' (Inr ()))) (\<lambda>_.
     bindi (sys (\<lambda>t. if dh_prctl H t \<noteq> 0 then Inl (OSError ''D2 subreaper unavailable'') else Inr ())) (\<lambda>_.
     bindi (recheck sha H) (\<lambda>_.
     bindi (clock (dh_kernel H)) (\<lambda>start.
     let deadline = start + the_int (jget intent ''outer_seconds'') * second in
     bindi (ps_identity (dh_kernel H) (dh_pid H)) (\<lambda>self.
     bindi (publish H ''outer-attempt.json'' (attempt_json sha m intent start deadline self)) (\<lambda>_.
     bindi (modify (\<lambda>w. w\<lparr>outer := Some (new_outer sha m intent start deadline s)\<rparr>)) (\<lambda>_.
     bindi (modify (\<lambda>w. w\<lparr>armed := Some (tick w)\<rparr>)) (\<lambda>_.
     bindi (gets tick) (\<lambda>t0.
     bindi (run_phases n sha H t0 m deadline (pairs (jget intent ''commands''))) (\<lambda>_.
     bindi (judge_report H m) (\<lambda>rep. conclude_run sha H deadline rep))))))))))))"

text \<open>\<open>except BaseException\<close>: without a result the exception goes on.\<close>

definition note_exception :: "py_error \<Rightarrow> ('b d2_world_scheme, unit) io" where
  "note_exception e =
     bindi (gets outer) (\<lambda>o'. if o' = None then raise e
       else bindi (gets stage) (\<lambda>st. set_outer (\<lambda>r. add_failure ''collector'' st
         (first_failure ''collector_exception'' (r\<lparr>or_accepted := False, or_errors := or_errors r @ [error_type e]\<rparr>)))))"

text \<open>The commit: the handlers are retired, then the interrupts and the clock are read once more.\<close>

definition commit :: "int list \<Rightarrow> ns \<Rightarrow> outer_result \<Rightarrow> outer_result" where
  "commit sigs now r0 =
     (let r1 = r0\<lparr>or_interrupts := Some sigs, or_end := Some now, or_timed_out := or_timed_out r0 \<or> now \<ge> or_deadline r0\<rparr>;
          r2 = (if sigs = [] then r1 else add_failure ''collector'' ''collector_interrupted'' (first_failure ''collector_interrupted'' r1)) in
      r2\<lparr>or_accepted := or_accepted r2 \<and> sigs = [] \<and> \<not> or_timed_out r2\<rparr>)"

definition commit_result :: "d2_host \<Rightarrow> int list \<Rightarrow> ('b d2_world_scheme, unit) io" where
  "commit_result H sigs =
     bindi (gets outer) (\<lambda>o'.
       case o' of
         None \<Rightarrow> ret ()
       | Some r \<Rightarrow>
           bindi (clock (dh_kernel H)) (\<lambda>now.
           bindi (set_outer (commit sigs now)) (\<lambda>_.
           bindi (gets outer) (\<lambda>o'. publish H ''outer-result.json'' (outer_json (the o'))))))"

text \<open>\<open>try ... except BaseException\<close>, and the \<open>finally\<close> that commits and gives the lock back on every way out.\<close>

definition supervised :: "nat \<Rightarrow> (string \<Rightarrow> string) \<Rightarrow> d2_host \<Rightarrow> json \<Rightarrow> json \<Rightarrow> ('b d2_world_scheme, unit) io" where
  "supervised n sha H m intent = bindi (attempt (collect_body n sha H m intent)) (\<lambda>r. case r of Inl e \<Rightarrow> note_exception e | Inr u \<Rightarrow> ret ())"

definition committed :: "nat \<Rightarrow> (string \<Rightarrow> string) \<Rightarrow> d2_host \<Rightarrow> json \<Rightarrow> json \<Rightarrow> ('b d2_world_scheme, outer_result) io" where
  "committed n sha H m intent =
     bindi (modify (\<lambda>w. w\<lparr>outer := None, armed := None, stage := ''preflight''\<rparr>)) (\<lambda>_.
     bindi (attempt (supervised n sha H m intent)) (\<lambda>r.
     bindi (collected H) (\<lambda>sigs.
     bindi (modify (\<lambda>w. w\<lparr>armed := None\<rparr>)) (\<lambda>_.
     bindi (attempt (commit_result H sigs)) (\<lambda>c.
     bindi (modify (\<lambda>w. w\<lparr>locked := False\<rparr>)) (\<lambda>_.
     bindi (lift_res c) (\<lambda>_.
     bindi (lift_res r) (\<lambda>_. gets (\<lambda>w. the (outer w))))))))))"

definition check_runtime :: "(string \<Rightarrow> string) \<Rightarrow> d2_host \<Rightarrow> json \<Rightarrow> nat \<Rightarrow> unit res" where
  "check_runtime sha H m t =
     bindr (if JStr (dh_cwd H) = jget m ''cwd'' then executable sha (cv_host (dh_view H t)) (JStr (ho_python (cv_host (dh_view H t))))
            else Inl (PolicyError ''D2 runtime cwd/Python'')) (\<lambda>python.
     needp (py_eq python (jget m ''python'')) ''D2 runtime cwd/Python'' (Inr ()))"

definition collect :: "nat \<Rightarrow> (string \<Rightarrow> string) \<Rightarrow> d2_host \<Rightarrow> ('b d2_world_scheme, outer_result) io" where
  "collect n sha H =
     bindi (recheck sha H) (\<lambda>(m, intent).
     bindi (sys (\<lambda>t. d2_fresh (dh_present H t))) (\<lambda>_.
     bindi (sys (check_runtime sha H m)) (\<lambda>_.
     bindi (needi (py_eq (dh_argv H) (jget intent ''adapter_argv'') \<and> \<not> dh_optimize H) ''D2 adapter argv'') (\<lambda>_.
     bindi (needi (py_eq (dh_environ H) (jget intent ''environment'')) ''D2 adapter environment'') (\<lambda>_.
     bindi (lock_parent H) (\<lambda>_. committed n sha H m intent))))))"

text \<open>The exit status of \<open>run\<close>: the clock is read again after the publication.\<close>

definition run_status :: "nat \<Rightarrow> (string \<Rightarrow> string) \<Rightarrow> d2_host \<Rightarrow> ('b d2_world_scheme, int) io" where
  "run_status n sha H =
     bindi (attempt (bindi (collect n sha H) (\<lambda>r. bindi (clock (dh_kernel H)) (\<lambda>now.
       ret (if or_accepted r \<and> or_interrupts r = Some [] \<and> now < or_deadline r then 0 else 1))))) (\<lambda>x.
       case x of
         Inl e \<Rightarrow> if is_OSError e \<or> is_ValueError e \<or> e = TypeError \<or> e = KeyError then ret 2 else raise e
       | Inr status \<Rightarrow> ret status)"

end
