(* ===== verification/D2_Accept.thy ===== *)
theory D2_Accept
  imports D2_Collect
begin

text \<open>
  What the outer collector promises: an accepted result rests on evidence. The proofs follow the parts of \<open>collect\<close>:
  the phases (over \<open>child_witnessed\<close>), the report of the verification, the conclusion, and the commit. The last section
  runs the collector on a host on which everything goes well.
\<close>

section \<open>What an accepted result says\<close>

text \<open>The phases of a run so far, each with its row and the launch that the row stands for.\<close>

fun phases_seen :: "owned_host \<Rightarrow> (string \<rightharpoonup> string) \<Rightarrow> ns \<Rightarrow> (string \<times> json) list \<Rightarrow> (string list \<times> (string \<rightharpoonup> string) \<times> int) list \<Rightarrow>
    (string \<times> child_row) list \<Rightarrow> bool" where
  "phases_seen H env deadline cmds ls [] = (ls = [])"
| "phases_seen H env deadline [] ls (p # ps) = False"
| "phases_seen H env deadline ((ph, args) # cmds) ls ((name, x) # ps) =
     (name = ph \<and> phase_reason x = None \<and> (case ls of [] \<Rightarrow> False
       | l # ls' \<Rightarrow> witnessed H (map the_str (the_list args)) env deadline [l] x \<and> phases_seen H env deadline cmds ls' ps))"

text \<open>The fields of the result that the phases do not set, and the part of the world that no child touches.\<close>

definition verdict_part :: "outer_result \<Rightarrow> json \<times> ns \<times> ns \<times> bool \<times> bool \<times> bool \<times> bool \<times> bool" where
  "verdict_part r = (or_run_id r, or_start r, or_deadline r, or_accepted r, or_source r, or_artifact r, or_g4 r, or_crypto r)"

definition d2_part :: "'b d2_world_scheme \<Rightarrow> outer_result option \<times> nat option \<times> (string \<times> string) list \<times> bool" where
  "d2_part w = (outer w, armed w, published w, locked w)"

lemma cf_d2_part: "child_frame d2_part"
  by (simp add: child_frame_def d2_part_def)

lemma hf_d2_part: "harness_frame d2_part"
  using cf_d2_part by (rule child_frameD)

lemma note_phase_fields:
  "or_phases (note_phase ph x late r) = or_phases r @ [(ph, x)]" "verdict_part (note_phase ph x late r) = verdict_part r"
  "or_failures (note_phase ph x late r) = or_failures r @ (case phase_reason x of None \<Rightarrow> [] | Some reason \<Rightarrow> [(ph, reason)])"
  by (auto simp: note_phase_def first_failure_def add_failure_def verdict_part_def Let_def split: option.split)

lemma phase_reason_clean: "phase_reason x = None \<Longrightarrow> cr_clean x \<and> cr_stop x = None \<and> cr_errors x = [] \<and> cr_signals x = [] \<and> cr_exit x = Some 0"
  by (auto simp: phase_reason_def split: option.splits if_splits)

definition phases_done :: "d2_host \<Rightarrow> (string \<rightharpoonup> string) \<Rightarrow> ns \<Rightarrow> (string \<times> json) list \<Rightarrow> 'b d2_world_scheme \<Rightarrow> outer_result \<Rightarrow> 'b d2_world_scheme \<Rightarrow> bool" where
  "phases_done H env deadline cmds w r w' \<longleftrightarrow> (\<exists>r' ps ls fs. d2_part w' = (Some r', snd (d2_part w)) \<and> verdict_part r' = verdict_part r \<and>
     or_phases r' = or_phases r @ ps \<and> or_failures r' = or_failures r @ fs \<and> launched (world.log w') = launched (world.log w) @ ls \<and>
     (fs = [] \<longrightarrow> phases_seen (dh_owned H) env deadline cmds ls ps))"

lemma phases_done_none: "d2_part w' = (Some r', snd (d2_part w)) \<Longrightarrow> verdict_part r' = verdict_part r \<Longrightarrow> or_phases r' = or_phases r \<Longrightarrow>
    or_failures r' = or_failures r \<Longrightarrow> world.log w' = world.log w \<Longrightarrow> phases_done H env deadline cmds w r w'"
  unfolding phases_done_def by (intro exI [of _ r'] exI [of _ "[]"]) simp

lemma phases_done_Cons:
  assumes "child n (dh_owned H) t0 python env (map the_str (the_list args)) deadline w1 = Some (Inr x, w2)" "launched (world.log w1) = launched (world.log w)"
    and "d2_part w3 = (Some (note_phase ph x late r), snd (d2_part w))" "world.log w3 = world.log w2"
    and "w' = w3 \<or> cr_clean x \<and> phases_done H env deadline cmds w3 (note_phase ph x late r) w'"
  shows "phases_done H env deadline ((ph, args) # cmds) w r w'"
proof -
  from child_witnessed [OF assms(1)] obtain ls where ls: "launched (world.log w2) = launched (world.log w1) @ ls" "length ls \<le> 1"
    "cr_clean x \<longrightarrow> witnessed (dh_owned H) (map the_str (the_list args)) env deadline ls x" by blast
  have wit: "\<exists>l. ls = [l] \<and> witnessed (dh_owned H) (map the_str (the_list args)) env deadline [l] x" if "cr_clean x"
    using ls that by (auto simp: witnessed_def split: option.splits)
  let ?fs = "case phase_reason x of None \<Rightarrow> [] | Some reason \<Rightarrow> [(ph, reason)]"
  from assms(5) show ?thesis
  proof
    assume "w' = w3"
    moreover have "?fs = [] \<longrightarrow> phases_seen (dh_owned H) env deadline ((ph, args) # cmds) ls [(ph, x)]"
      using wit phase_reason_clean [of x] by (auto split: option.splits)
    ultimately show ?thesis unfolding phases_done_def using assms(2,3,4) ls note_phase_fields [of ph x late r] by (intro exI conjI) auto
  next
    assume "cr_clean x \<and> phases_done H env deadline cmds w3 (note_phase ph x late r) w'"
    then obtain r' ps ls' fs where d: "d2_part w' = (Some r', snd (d2_part w3))" "verdict_part r' = verdict_part (note_phase ph x late r)"
      "or_phases r' = or_phases (note_phase ph x late r) @ ps" "or_failures r' = or_failures (note_phase ph x late r) @ fs"
      "launched (world.log w') = launched (world.log w3) @ ls'" "fs = [] \<longrightarrow> phases_seen (dh_owned H) env deadline cmds ls' ps" and c: "cr_clean x"
      unfolding phases_done_def by blast
    from wit [OF c] obtain l where l: "ls = [l]" "witnessed (dh_owned H) (map the_str (the_list args)) env deadline [l] x" by blast
    have "?fs @ fs = [] \<longrightarrow> phases_seen (dh_owned H) env deadline ((ph, args) # cmds) (ls @ ls') ((ph, x) # ps)"
      using d(6) l by (auto split: option.splits)
    then show ?thesis unfolding phases_done_def using assms(2,3,4) ls(1) d(1-5) note_phase_fields [of ph x late r]
      by (intro exI [of _ r'] exI [of _ "(ph, x) # ps"] exI [of _ "ls @ ls'"] exI [of _ "?fs @ fs"]) simp
  qed
qed

lemma bindi_clock: "bindi (clock K) f w = f (k_clock K (tick w)) (w\<lparr>tick := Suc (tick w)\<rparr>)"
  by (simp add: bindi_def clock_def sys_def)

lemma bindi_collected: "bindi (collected H) f w = f (caught_by (dh_kernel H) (armed w) (tick w)) w"
  by (simp add: bindi_def collected_def gets_def)

lemma run_phases_done:
  assumes "run_phases n sha H t0 m deadline cmds w = Some (Inr u, w')" "outer w = Some r"
  shows "phases_done H (environment_of m) deadline cmds w r w'"
  using assms
proof (induction cmds arbitrary: w r)
  case Nil
  then show ?case by (intro phases_done_none [of _ r]) (simp_all add: io_simps d2_part_def)
next
  case (Cons cmd cmds)
  obtain ph args where cmd: "cmd = (ph, args)" by (cases cmd)
  let ?stop = "k_clock (dh_kernel H) (tick w) \<ge> deadline \<or> caught_by (dh_kernel H) (armed w) (Suc (tick w)) \<noteq> []"
  let ?late = "\<lambda>x. if cr_stop x = Some ''outer_timeout'' then ret True else bindi (clock (dh_kernel H)) (\<lambda>now. ret (now \<ge> deadline))"
  define after :: "child_row \<Rightarrow> ('a d2_world_scheme, unit) io" where "after = (\<lambda>x. bindi (?late x) (\<lambda>late. bindi (set_outer (note_phase ph x late)) (\<lambda>_.
         bindi (gets (\<lambda>w. or_timed_out (the (outer w)))) (\<lambda>late.
           if late \<or> \<not> cr_clean x then ret () else run_phases n sha H t0 m deadline cmds))))"
  let ?w0 = "w\<lparr>tick := Suc (tick w)\<rparr>"
  have step: "run_phases n sha H t0 m deadline ((ph, args) # cmds) w = (if ?stop
      then bindi (clock (dh_kernel H)) (\<lambda>again.
           set_outer (\<lambda>r. first_failure (if again \<ge> deadline then ''outer_timeout'' else ''collector_interrupted'') (r\<lparr>or_timed_out := again \<ge> deadline\<rparr>))) ?w0
      else bindi (set_stage ''source_policy_binding_failure'') (\<lambda>_. bindi (recheck sha H) (\<lambda>_. bindi (set_stage ph) (\<lambda>_.
         bindi (child n (dh_owned H) t0 (jget m ''python'') (environment_of m) (map the_str (the_list args)) deadline) after))) ?w0)"
    by (simp add: bindi_clock bindi_collected after_def)
  show ?case
  proof (cases ?stop)
    case True
    let ?late' = "k_clock (dh_kernel H) (Suc (tick w)) \<ge> deadline"
    let ?r = "first_failure (if ?late' then ''outer_timeout'' else ''collector_interrupted'') (r\<lparr>or_timed_out := ?late'\<rparr>)"
    have "w' = w\<lparr>tick := Suc (Suc (tick w)), outer := Some ?r\<rparr>"
      using Cons.prems True unfolding cmd step by (auto simp: bindi_def clock_def sys_def set_outer_def modify_def)
    then show ?thesis by (intro phases_done_none [of _ ?r]) (simp_all add: d2_part_def first_failure_def verdict_part_def)
  next
    case False
    let ?w1 = "w\<lparr>tick := Suc (Suc (tick w)), stage := ph\<rparr>"
    from False Cons.prems(1) obtain w2 x where
      ch: "child n (dh_owned H) t0 (jget m ''python'') (environment_of m) (map the_str (the_list args)) deadline ?w1 = Some (Inr x, w2)"
      and rest: "after x w2 = Some (Inr u, w')"
      unfolding cmd step by (auto simp: bindi_Some_iff sys_def set_stage_def recheck_def io_apply)
    have w1: "launched (world.log ?w1) = launched (world.log w)" "d2_part ?w1 = d2_part w" by (simp_all add: d2_part_def)
    have d2: "d2_part w2 = d2_part w" using keepsD [OF cf_child [OF cf_d2_part] ch] w1(2) by simp
    from rest obtain t late where rest': "bindi (set_outer (note_phase ph x late)) (\<lambda>_.
         bindi (gets (\<lambda>w. or_timed_out (the (outer w)))) (\<lambda>late.
           if late \<or> \<not> cr_clean x then ret () else run_phases n sha H t0 m deadline cmds)) (w2\<lparr>tick := t\<rparr>) = Some (Inr u, w')"
    proof -
      from rest obtain late w3 where l: "?late x w2 = Some (Inr late, w3)" and k: "bindi (set_outer (note_phase ph x late)) (\<lambda>_.
         bindi (gets (\<lambda>w. or_timed_out (the (outer w)))) (\<lambda>late.
           if late \<or> \<not> cr_clean x then ret () else run_phases n sha H t0 m deadline cmds)) w3 = Some (Inr u, w')"
        unfolding after_def bindi_Some_iff [of "?late x"] by auto
      from l have "w3 = w2\<lparr>tick := tick w3\<rparr>" by (auto simp: bindi_clock io_apply split: if_splits)
      with k that show thesis by metis
    qed
    let ?w3 = "w2\<lparr>tick := t, outer := Some (note_phase ph x late r)\<rparr>"
    have o: "outer w2 = Some r" using d2 Cons.prems(2) by (simp add: d2_part_def)
    from rest' o have "w' = ?w3 \<or> cr_clean x \<and> run_phases n sha H t0 m deadline cmds ?w3 = Some (Inr u, w')"
      by (auto simp: bindi_Some_iff set_outer_def io_apply split: if_splits)
    then have "w' = ?w3 \<or> cr_clean x \<and> phases_done H (environment_of m) deadline cmds ?w3 (note_phase ph x late r) w'"
      using Cons.IH [of ?w3 "note_phase ph x late r"] by auto
    moreover have "d2_part ?w3 = (Some (note_phase ph x late r), snd (d2_part w))" using d2 by (simp add: d2_part_def)
    ultimately show ?thesis unfolding cmd using phases_done_Cons [OF ch w1(1)] by simp
  qed
qed


text \<open>The report that the verification printed, as the collector judges it.\<close>

definition accepts :: "json \<Rightarrow> json \<Rightarrow> bool" where
  "accepts m rep \<longleftrightarrow> py_eq (jget rep ''run_id'') (jget m ''run_id'') \<and> jget rep ''final_accepted'' = JBool True \<and> jget rep ''evidence_valid'' = JBool True \<and>
     jget (jget rep ''crypto'') ''evidence_valid'' = JBool True"

definition gates :: "outer_result \<Rightarrow> bool" where
  "gates r \<longleftrightarrow> or_g4 r \<and> or_crypto r \<and> or_artifact r"

definition judged :: "d2_host \<Rightarrow> json \<Rightarrow> nat \<Rightarrow> outer_result \<Rightarrow> bool" where
  "judged H m now r \<longleftrightarrow> (gates r \<longrightarrow> (\<exists>rep t. map_of (or_phases r) ''verification'' \<noteq> None \<and> t < now \<and> report_at H t = Inr rep \<and> or_report r = Some rep \<and> accepts m rep))"

definition core :: "outer_result \<Rightarrow> json \<times> ns \<times> ns \<times> (string \<times> child_row) list" where
  "core r = (or_run_id r, or_start r, or_deadline r, or_phases r)"

lemma add_failure_fields [simp]: "core (add_failure p x r) = core r" "or_failures (add_failure p x r) = or_failures r @ [(p, x)]" "gates (add_failure p x r) = gates r"
    "or_phases (add_failure p x r) = or_phases r" "core (r\<lparr>or_report := a\<rparr>) = core r" "gates (r\<lparr>or_report := a\<rparr>) = gates r" "core (accept_report b r) = core r"
    "or_failures (accept_report b r) = or_failures r" "or_report (accept_report b r) = or_report r" "or_phases (accept_report b r) = or_phases r"
    "gates (accept_report b r) \<longleftrightarrow> jget b ''final_accepted'' = JBool True \<and> is_dict (jget b ''crypto'') \<and> jget (jget b ''crypto'') ''evidence_valid'' = JBool True \<and>
       jget b ''evidence_valid'' = JBool True"
  by (auto simp: add_failure_def core_def gates_def accept_report_def)

definition judge_done :: "d2_host \<Rightarrow> json \<Rightarrow> 'b d2_world_scheme \<Rightarrow> outer_result \<Rightarrow> 'b d2_world_scheme \<Rightarrow> bool" where
  "judge_done H m w r w' \<longleftrightarrow> (\<exists>r' fs. d2_part w' = (Some r', snd (d2_part w)) \<and> world.log w' = world.log w \<and> core r' = core r \<and> or_failures r' = or_failures r @ fs \<and>
     judged H m (tick w') r')"

lemma judge_report_done:
  assumes "judge_report H m w = Some (Inr a, w')" "outer w = Some r" "\<not> gates r"
  shows "judge_done H m w r w'"
proof (cases "map_of (or_phases r) ''verification''")
  case None
  then show ?thesis using assms by (auto simp: judge_report_def judge_done_def judged_def io_simps d2_part_def)
next
  case (Some v)
  let ?w1 = "w\<lparr>tick := Suc (tick w)\<rparr>"
  let ?rep = "report_at H (Suc (tick w))"
  show ?thesis
  proof (cases "dh_is_file H (tick w) ''outer-verification.stdout''")
    case False
    then show ?thesis using assms Some by (auto simp: judge_report_def judge_done_def judged_def bindi_def gets_def sys_def ret_def d2_part_def)
  next
    case True
    show ?thesis
    proof (cases ?rep)
      case (Inl e)
      then show ?thesis using assms Some True
        by (auto simp: judge_report_def judge_done_def judged_def bindi_def gets_def sys_def ret_def set_stage_def set_outer_def modify_def attempt_def raise_def d2_part_def split: if_splits)
    next
      case (Inr rep)
      then have "\<exists>t. t < Suc (Suc (tick w)) \<and> report_at H t = Inr rep" by blast
      then show ?thesis using assms Some True Inr
        by (auto simp: judge_report_def judge_done_def judged_def accepts_def bindi_def gets_def sys_def ret_def set_stage_def set_outer_def modify_def attempt_def raise_def d2_part_def split: if_splits)
    qed
  qed
qed



text \<open>The closing reads leave the result and the log alone.\<close>

lemma keeps_labels:
  assumes "\<And>w n. f (w\<lparr>tick := n\<rparr>) = f w"
  shows "keeps f (failure_labels H a)"
proof -
  have "keeps f (missing_labels H tab)" for tab using assms by (induction tab) (auto intro!: keeps_intros keeps_sys)
  moreover have "keeps f (stop_labels H names)" for names using assms by (induction names) (auto intro!: keeps_intros keeps_sys split: sum.split)
  ultimately show ?thesis unfolding failure_labels_def by (intro keeps_intros)
qed

lemma conclude_done:
  assumes "conclude_run sha H deadline a w = Some (Inr u, w')" "outer w = Some r"
  shows "\<exists>x labels kids late sigs. checked sha (dh_view H (tick w)) = Inr x \<and> world.log w' = world.log w \<and>
     d2_part w' = (Some (settle kids late sigs (r\<lparr>or_source := True, or_failures := or_failures r @ labels\<rparr>)), snd (d2_part w))"
proof -
  let ?w1 = "w\<lparr>tick := Suc (tick w), stage := ''collector_exception'', outer := Some (r\<lparr>or_source := True\<rparr>)\<rparr>"
  let ?rest = "\<lambda>labels. bindi (set_outer (\<lambda>r. r\<lparr>or_failures := or_failures r @ map (\<lambda>x. (''evidence'', x)) labels\<rparr>)) (\<lambda>_.
     bindi (children (dh_owned H) (dh_pid H)) (\<lambda>kids. bindi (clock (dh_kernel H)) (\<lambda>now. bindi (collected H) (\<lambda>sigs. set_outer (settle kids (now \<ge> deadline) sigs)))))"
  from assms obtain x labels w2 where x: "checked sha (dh_view H (tick w)) = Inr x" and l: "failure_labels H a ?w1 = Some (Inr labels, w2)" and k: "?rest labels w2 = Some (Inr u, w')"
    unfolding conclude_run_def by (auto simp: bindi_Some_iff set_stage_def set_outer_def recheck_def sys_def io_apply)
  have w2: "d2_part w2 = d2_part ?w1" "world.log w2 = world.log ?w1"
    using keepsD [OF keeps_labels [of d2_part] l] keepsD [OF keeps_labels [of world.log] l] by (simp_all add: d2_part_def)
  from k obtain kids t now where "kids_at (dh_owned H) (dh_pid H) (tick w2) = Inr kids"
    "w' = w2\<lparr>tick := t, outer := Some (settle kids (now \<ge> deadline) (caught_by (dh_kernel H) (armed w2) t)
       (r\<lparr>or_source := True, or_failures := or_failures r @ map (\<lambda>x. (''evidence'', x)) labels\<rparr>))\<rparr>"
    using w2(1) by (auto simp: children_sys bindi_def sys_def set_outer_def modify_def clock_def collected_def gets_def d2_part_def split: sum.splits)
  then show ?thesis using x w2 by (auto simp: d2_part_def)
qed


lemma checked_intent:
  assumes "checked sha V = Inr (m, intent)"
  shows "pairs (jget intent ''commands'') = pairs (d2_commands m)" "jget intent ''outer_seconds'' = JInt 25"
  using assms by (auto simp: checked_def contract_def res_simps Let_def intent_json_def jget_def)

text \<open>
  Everything that the collector has seen when it accepts: the two launches, in order and with the frozen arguments and environment, each
  exited with 0 and cleaned up, without a stop, an error or a signal; the guardian's exit in time; a report that accepts this run; and a recheck of
  the frozen intent after the report was read.
\<close>

definition sound_run :: "(string \<Rightarrow> string) \<Rightarrow> d2_host \<Rightarrow> json \<Rightarrow> (string list \<times> (string \<rightharpoonup> string) \<times> int) list \<Rightarrow> outer_result \<Rightarrow> bool" where
  "sound_run sha H m ls r \<longleftrightarrow> (\<exists>g v G V rep t t' x.
     or_phases r = [(''guardian'', g), (''verification'', v)] \<and> ls = [G, V] \<and> phase_reason g = None \<and> phase_reason v = None \<and> cr_before g \<and>
     witnessed (dh_owned H) (map the_str (the_list (jget (d2_commands m) ''guardian''))) (environment_of m) (or_deadline r) [G] g \<and>
     witnessed (dh_owned H) (map the_str (the_list (jget (d2_commands m) ''verification''))) (environment_of m) (or_deadline r) [V] v \<and>
     t < t' \<and> report_at H t = Inr rep \<and> or_report r = Some rep \<and> accepts m rep \<and> checked sha (dh_view H t') = Inr x)"

lemma settle_fields:
  "core (settle kids late sigs r) = core r" "gates (settle kids late sigs r) = gates r" "or_report (settle kids late sigs r) = or_report r"
  "or_failures (settle kids late sigs r) = or_failures r" "or_deadline (settle kids late sigs r) = or_deadline r" "or_start (settle kids late sigs r) = or_start r"
  by (simp_all add: settle_def Let_def first_failure_def core_def gates_def)

lemma settle_accepted:
  "or_accepted (settle kids late sigs r) \<Longrightarrow> guardian_ok r \<and> gates r \<and> or_failures r = [] \<and> kids = [] \<and> \<not> late \<and> sigs = []"
  by (auto simp: settle_def Let_def first_failure_def guardian_ok_def gates_def split: if_splits)

lemma phases_seen_two:
  assumes "phases_seen H env deadline [(''guardian'', ga), (''verification'', va)] ls ps" "map_of ps ''verification'' \<noteq> None"
  shows "\<exists>g v G V. ps = [(''guardian'', g), (''verification'', v)] \<and> ls = [G, V] \<and> phase_reason g = None \<and> phase_reason v = None \<and>
     witnessed H (map the_str (the_list ga)) env deadline [G] g \<and> witnessed H (map the_str (the_list va)) env deadline [V] v"
proof -
  obtain g ps' where ps: "ps = (''guardian'', g) # ps'" using assms by (cases ps) auto
  obtain v ps'' where ps': "ps' = (''verification'', v) # ps''" using assms unfolding ps by (cases ps') (auto split: list.splits)
  show ?thesis using assms(1) unfolding ps ps' by (cases ps'') (auto split: list.splits)
qed

lemma evidence_sound:
  assumes "phases_done H (environment_of m) deadline (pairs (d2_commands m)) w r0 w1" "or_phases r0 = []" "or_failures r0 = []" "or_deadline r0 = deadline" "\<not> gates r0"
    and "judge_report H m w1 = Some (Inr a, w2)" "conclude_run sha H deadline a w2 = Some (Inr u, w')"
  shows "\<exists>r ls. d2_part w' = (Some r, snd (d2_part w)) \<and> launched (world.log w') = launched (world.log w) @ ls \<and> or_start r = or_start r0 \<and> or_deadline r = deadline \<and>
     (or_accepted r \<longrightarrow> sound_run sha H m ls r)"
proof -
  from assms(1) obtain r1 ps ls fs where p: "d2_part w1 = (Some r1, snd (d2_part w))" "verdict_part r1 = verdict_part r0" "or_phases r1 = ps" "or_failures r1 = fs"
    "launched (world.log w1) = launched (world.log w) @ ls" "fs = [] \<longrightarrow> phases_seen (dh_owned H) (environment_of m) deadline (pairs (d2_commands m)) ls ps"
    unfolding phases_done_def using assms(2,3) by auto
  have "\<not> gates r1" using p(2) assms(5) by (auto simp: verdict_part_def gates_def)
  from judge_report_done [OF assms(6) _ this] obtain r2 fs2 where j: "d2_part w2 = (Some r2, snd (d2_part w1))" "world.log w2 = world.log w1" "core r2 = core r1"
    "or_failures r2 = or_failures r1 @ fs2" "judged H m (tick w2) r2"
    unfolding judge_done_def using p(1) by (auto simp: d2_part_def)
  obtain x labels kids late sigs where c: "checked sha (dh_view H (tick w2)) = Inr x" "world.log w' = world.log w2"
    "d2_part w' = (Some (settle kids late sigs (r2\<lparr>or_source := True, or_failures := or_failures r2 @ labels\<rparr>)), snd (d2_part w2))"
    using conclude_done [OF assms(7), of r2] j(1) by (auto simp: d2_part_def)
  let ?r2 = "r2\<lparr>or_source := True, or_failures := or_failures r2 @ labels\<rparr>"
  let ?r = "settle kids late sigs ?r2"
  have f: "or_phases ?r = ps" "or_deadline ?r = deadline" "or_start ?r = or_start r0" "or_report ?r = or_report r2" "or_phases r2 = ps"
    using p(2,3) j(3) assms(4) by (auto simp: settle_def Let_def first_failure_def core_def verdict_part_def)
  have "sound_run sha H m ls ?r" if acc: "or_accepted ?r"
  proof -
    from settle_accepted [OF acc] have s: "guardian_ok ?r2" "gates r2" "fs = []" using j(4) p(4) by (auto simp: gates_def)
    from s(2) j(5) obtain rep t where rep: "map_of ps ''verification'' \<noteq> None" "t < tick w2" "report_at H t = Inr rep" "or_report r2 = Some rep" "accepts m rep"
      unfolding judged_def using f(5) by auto
    have cmds: "pairs (d2_commands m) = [(''guardian'', jget (d2_commands m) ''guardian''), (''verification'', jget (d2_commands m) ''verification'')]"
      by (simp add: d2_commands_def jget_def)
    from phases_seen_two [OF p(6) [rule_format, OF s(3), unfolded cmds] rep(1)] obtain g v G V where q: "ps = [(''guardian'', g), (''verification'', v)]" "ls = [G, V]"
      "phase_reason g = None" "phase_reason v = None" "witnessed (dh_owned H) (map the_str (the_list (jget (d2_commands m) ''guardian''))) (environment_of m) deadline [G] g"
      "witnessed (dh_owned H) (map the_str (the_list (jget (d2_commands m) ''verification''))) (environment_of m) deadline [V] v" by blast
    have "cr_before g" using s(1) f(5) q(1) by (simp add: guardian_ok_def)
    then show ?thesis unfolding sound_run_def f(1,2,4)
      by (intro exI [of _ g] exI [of _ v] exI [of _ G] exI [of _ V] exI [of _ rep] exI [of _ t] exI [of _ "tick w2"] exI [of _ x] conjI q rep c(1))
  qed
  then show ?thesis using c p(1,5) j(1,2) f by auto
qed


lemma keeps_competing:
  assumes "\<And>w n. f (w\<lparr>tick := n\<rparr>) = f w"
  shows "keeps f (competing H target)"
proof -
  have "keeps f (competing_among H target names)" for names
    using assms by (induction names) (auto intro!: keeps_intros keeps_sys split: sum.split)
  then show ?thesis unfolding competing_def using assms by (auto intro!: keeps_intros keeps_sys)
qed

lemma keeps_preflight:
  assumes "\<And>w n. f (w\<lparr>tick := n\<rparr>) = f w"
  shows "keeps f (preflight H intent)"
  unfolding preflight_def children_sys available_def Let_def
  using assms by (auto intro!: keeps_intros keeps_sys keeps_competing split: prod.split)

lemma keeps_ps_identity_tick: "(\<And>w n. f (w\<lparr>tick := n\<rparr>) = f w) \<Longrightarrow> keeps f (ps_identity K pid)"
  unfolding ps_identity_def by (auto intro!: keeps_intros keeps_sys split: sum.split)

text \<open>The body of the \<open>try\<close>: the reservation is written before the first launch.\<close>

lemma collect_body_sound:
  assumes "collect_body n sha H m intent w = Some (Inr u, w')" "checked sha V = Inr (m, intent)"
  shows "\<exists>r ls doc t0. outer w' = Some r \<and> published w' = published w @ [(''outer-attempt.json'', doc)] \<and> armed w' = Some t0 \<and>
     launched (world.log w') = launched (world.log w) @ ls \<and> or_deadline r = or_start r + 25 * second \<and> (or_accepted r \<longrightarrow> sound_run sha H m ls r)"
proof -
  let ?cmds = "pairs (jget intent ''commands'')"
  have intent: "?cmds = pairs (d2_commands m)" "the_int (jget intent ''outer_seconds'') = 25" using checked_intent [OF assms(2)] by simp_all
  define rest where "rest = (\<lambda>s start. bindi (ps_identity (dh_kernel H) (dh_pid H)) (\<lambda>self.
     bindi (publish H ''outer-attempt.json'' (attempt_json sha m intent start (start + 25 * second) self)) (\<lambda>_.
     bindi (modify (\<lambda>w. w\<lparr>outer := Some (new_outer sha m intent start (start + 25 * second) s)\<rparr>)) (\<lambda>_.
     bindi (modify (\<lambda>w. w\<lparr>armed := Some (tick w)\<rparr>)) (\<lambda>_.
     bindi (gets tick) (\<lambda>t0. bindi (run_phases n sha H t0 m (start + 25 * second) ?cmds) (\<lambda>_.
     bindi (judge_report H m) (\<lambda>audit'. conclude_run sha H (start + 25 * second) audit'))))))) :: ('a d2_world_scheme, unit) io)"
  have body: "collect_body n sha H m intent = bindi (preflight H intent) (\<lambda>s. bindi (sys (\<lambda>t. needp (\<not> dh_ipc H t) ''D2 stale IPC'' (Inr ()))) (\<lambda>_.
     bindi (sys (\<lambda>t. if dh_prctl H t \<noteq> 0 then Inl (OSError ''D2 subreaper unavailable'') else Inr ())) (\<lambda>_.
     bindi (recheck sha H) (\<lambda>_. bindi (clock (dh_kernel H)) (\<lambda>start. rest s start)))))"
    unfolding collect_body_def rest_def intent(2) Let_def by (rule refl)
  from assms(1) obtain s w1 t where p: "preflight H intent w = Some (Inr s, w1)" and k: "rest s (k_clock (dh_kernel H) t) (w1\<lparr>tick := Suc t\<rparr>) = Some (Inr u, w')"
    unfolding body by (auto simp: bindi_Some_iff sys_def recheck_def clock_def)
  let ?start = "k_clock (dh_kernel H) t"
  let ?deadline = "?start + 25 * second"
  have w1: "d2_part w1 = d2_part w" "world.log w1 = world.log w"
    using keepsD [OF keeps_preflight [of d2_part] p] keepsD [OF keeps_preflight [of world.log] p] by (simp_all add: d2_part_def)
  from k obtain self w2 where i: "ps_identity (dh_kernel H) (dh_pid H) (w1\<lparr>tick := Suc t\<rparr>) = Some (Inr self, w2)"
    and k2: "bindi (publish H ''outer-attempt.json'' (attempt_json sha m intent ?start ?deadline self)) (\<lambda>_.
     bindi (modify (\<lambda>w. w\<lparr>outer := Some (new_outer sha m intent ?start ?deadline s)\<rparr>)) (\<lambda>_.
     bindi (modify (\<lambda>w. w\<lparr>armed := Some (tick w)\<rparr>)) (\<lambda>_.
     bindi (gets tick) (\<lambda>t0. bindi (run_phases n sha H t0 m ?deadline ?cmds) (\<lambda>_.
     bindi (judge_report H m) (\<lambda>audit'. conclude_run sha H ?deadline audit')))))) w2 = Some (Inr u, w')"
    unfolding rest_def bindi_Some_iff [of "ps_identity (dh_kernel H) (dh_pid H)"] by auto
  have w2: "d2_part w2 = d2_part w" "world.log w2 = world.log w"
    using keepsD [OF keeps_ps_identity_tick [of d2_part] i] keepsD [OF keeps_ps_identity_tick [of world.log] i] w1 by (simp_all add: d2_part_def)
  define doc where "doc = encoded (attempt_json sha m intent ?start ?deadline self)"
  let ?r0 = "new_outer sha m intent ?start ?deadline s"
  define w3 where "w3 = w2\<lparr>tick := Suc (tick w2), log := world.log w2 @ [Wrote ''outer-attempt.json''], published := published w2 @ [(''outer-attempt.json'', doc)],
     outer := Some ?r0, armed := Some (Suc (tick w2))\<rparr>"
  from k2 have "bindi (run_phases n sha H (Suc (tick w2)) m ?deadline ?cmds) (\<lambda>_. bindi (judge_report H m) (\<lambda>audit'. conclude_run sha H ?deadline audit')) w3 = Some (Inr u, w')"
    unfolding w3_def doc_def publish_def emit_def by (auto simp: bindi_def sys_def modify_def gets_def split: sum.splits)
  then obtain w4 w5 a where run: "run_phases n sha H (Suc (tick w2)) m ?deadline ?cmds w3 = Some (Inr (), w4)" "judge_report H m w4 = Some (Inr a, w5)"
    "conclude_run sha H ?deadline a w5 = Some (Inr u, w')"
    unfolding bindi_Some_iff by auto
  have "outer w3 = Some ?r0" "launched (world.log w3) = launched (world.log w)" "snd (d2_part w3) = (Some (Suc (tick w2)), published w @ [(''outer-attempt.json'', doc)], locked w)"
    using w2 by (simp_all add: w3_def d2_part_def)
  moreover have "or_phases ?r0 = []" "or_failures ?r0 = []" "or_deadline ?r0 = ?deadline" "or_start ?r0 = ?start" "\<not> gates ?r0" by (simp_all add: new_outer_def gates_def)
  ultimately show ?thesis
    using evidence_sound [OF run_phases_done [OF run(1), of ?r0, unfolded intent(1)] _ _ _ _ run(2,3)] by (auto simp: d2_part_def)
qed


text \<open>The commit publishes the result it has just settled; an accepted one had no interrupt and ended before the deadline.\<close>

lemma commit_fields:
  "or_phases (commit sigs now r) = or_phases r" "or_report (commit sigs now r) = or_report r" "or_start (commit sigs now r) = or_start r"
  "or_deadline (commit sigs now r) = or_deadline r" "or_interrupts (commit sigs now r) = Some sigs" "or_end (commit sigs now r) = Some now"
  by (simp_all add: commit_def Let_def add_failure_def first_failure_def)

lemma commit_accepted: "or_accepted (commit sigs now r) \<Longrightarrow> or_accepted r \<and> sigs = [] \<and> now < or_deadline r"
  by (auto simp: commit_def Let_def add_failure_def first_failure_def split: if_splits)

lemma sound_run_commit: "sound_run sha H m ls (commit sigs now r) = sound_run sha H m ls r"
  by (simp add: sound_run_def commit_fields)

lemma lock_parent_quiet:
  assumes "lock_parent H w = Some (r, w')"
  shows "published w' = published w \<and> world.log w' = world.log w"
proof -
  have "keeps (\<lambda>w. (published w, world.log w)) (lock_parent H)"
    unfolding lock_parent_def by (auto intro!: keeps_basic keeps_bindi keeps_attempt keeps_sys keeps_modify split: sum.split)
  from keepsD [OF this assms] show ?thesis by simp
qed

lemma supervised_sound:
  assumes "supervised n sha H m intent w = Some (Inr u, w')" "checked sha V = Inr (m, intent)"
  shows "\<exists>r. outer w' = Some r \<and> (or_accepted r \<longrightarrow> (\<exists>ls doc. published w' = published w @ [(''outer-attempt.json'', doc)] \<and>
     launched (world.log w') = launched (world.log w) @ ls \<and> or_deadline r = or_start r + 25 * second \<and> sound_run sha H m ls r))"
proof -
  from assms(1) consider (raised) e w1 where "note_exception e w1 = Some (Inr u, w')" | (ran) u' where "collect_body n sha H m intent w = Some (Inr u', w')"
    unfolding supervised_def try_Some_iff by (auto simp: io_apply)
  then show ?thesis
  proof cases
    case raised
    then show ?thesis
      unfolding note_exception_def set_outer_def by (auto simp: io_simps add_failure_def first_failure_def split: if_splits)
  next
    case ran
    then show ?thesis using collect_body_sound [OF ran assms(2)] by auto
  qed
qed

lemma collect_accepts_evidence:
  assumes "collect n sha H w = Some (Inr r, w')" "or_accepted r"
  shows "\<exists>m intent ls doc. checked sha (dh_view H (tick w)) = Inr (m, intent) \<and> sound_run sha H m ls r \<and> launched (world.log w') = launched (world.log w) @ ls \<and>
     published w' = published w @ [(''outer-attempt.json'', doc), (''outer-result.json'', encoded (outer_json r))] \<and> \<not> locked w' \<and>
     or_interrupts r = Some [] \<and> or_deadline r = or_start r + 25 * second \<and> (\<exists>now. or_end r = Some now \<and> now < or_start r + 25 * second)"
proof -
  let ?w1 = "w\<lparr>tick := Suc (Suc (Suc (tick w)))\<rparr>"
  from assms(1) obtain m intent w2 where c: "checked sha (dh_view H (tick w)) = Inr (m, intent)"
    and l: "lock_parent H ?w1 = Some (Inr (), w2)" and k: "committed n sha H m intent w2 = Some (Inr r, w')"
    unfolding collect_def by (auto simp: bindi_Some_iff recheck_def sys_def io_apply split: if_splits)
  let ?w3 = "w2\<lparr>outer := None, armed := None, stage := ''preflight''\<rparr>"
  have w3: "published ?w3 = published w" "world.log ?w3 = world.log w" using lock_parent_quiet [OF l] by simp_all
  from k obtain u w4 w5 sigs where s: "supervised n sha H m intent ?w3 = Some (Inr u, w4)"
    and cm: "commit_result H sigs (w4\<lparr>armed := None\<rparr>) = Some (Inr (), w5)" and r: "w' = w5\<lparr>locked := False\<rparr>" "r = the (outer w')"
    unfolding committed_def by (auto simp: bindi_Some_iff attempt_Some_iff bindi_collected io_apply)
  from supervised_sound [OF s c] obtain r1 where r1: "outer w4 = Some r1"
    and snd: "or_accepted r1 \<longrightarrow> (\<exists>ls doc. published w4 = published ?w3 @ [(''outer-attempt.json'', doc)] \<and>
      launched (world.log w4) = launched (world.log ?w3) @ ls \<and> or_deadline r1 = or_start r1 + 25 * second \<and> sound_run sha H m ls r1)" by blast
    let ?now = "k_clock (dh_kernel H) (tick w4)"
    have w5: "outer w5 = Some (commit sigs ?now r1)" "published w5 = published w4 @ [(''outer-result.json'', encoded (outer_json (commit sigs ?now r1)))]"
        "launched (world.log w5) = launched (world.log w4)"
      using cm r1 unfolding commit_result_def publish_def set_outer_def emit_def
      by (auto simp: bindi_def gets_def clock_def sys_def modify_def split: sum.splits)
    have r': "r = commit sigs ?now r1" using r w5(1) by simp
    from commit_accepted assms(2) have acc: "or_accepted r1" "sigs = []" "?now < or_deadline r1" unfolding r' by blast+
    from snd acc(1) obtain ls doc where d: "published w4 = published ?w3 @ [(''outer-attempt.json'', doc)]"
      "launched (world.log w4) = launched (world.log ?w3) @ ls" "or_deadline r1 = or_start r1 + 25 * second" "sound_run sha H m ls r1" by blast
    show ?thesis
      using c d acc w3 w5 r(1) sound_run_commit commit_fields unfolding r' by (intro exI [of _ m] exI [of _ intent] exI [of _ ls] exI [of _ doc]) auto
qed



section \<open>An example run\<close>

definition ex_config :: string where "ex_config = dump True 0 ex_g4"

definition ex_intent :: json where
  "ex_intent = intent_json G4_Freeze.ex_sha ex_g4 ex_config (map (\<lambda>n. (n, ex_tool n)) EXTRA)"

definition ex_view :: d2_view where
  "ex_view = \<lparr>cv_host = ex_host, cv_dir = ex_dir, cv_parent = ''/a'', cv_config = quiet_view ex_config, cv_intent = quiet_view (dump True 0 ex_intent),
     cv_source = (\<lambda>n. quiet_view (ex_tool n))\<rparr>"

lemma weight_jget: "weight (Suc 0) (jget (JObj kvs) k) \<le> Suc (weight 0 (JObj kvs))"
proof (cases "map_of kvs k")
  case (Some v)
  then have "(k, v) \<in> set kvs" by (rule map_of_SomeD)
  then have "9 + 6 * length k + weight (Suc 0) v \<le> sum_list (map (\<lambda>(k, x). 9 + 6 * length k + weight (Suc 0) x) kvs)"
    by (intro member_le_sum_list) force+
  then show ?thesis using Some by (simp add: jget_def weight_top del: weight.simps(5))
qed (simp add: jget_def weight_top)

lemma json_ok_entry: "json_ok (JObj kvs) \<Longrightarrow> json_ok (jget (JObj kvs) k)"
  by (auto simp: json_ok_JObj jget_def json_ok_def [of JNull] dest: map_of_SomeD split: option.split)

lemma ex_part: "weight (Suc 0) (jget ex_g4 k) \<le> 100001" "json_ok (jget ex_g4 k)"
proof -
  obtain kvs where g: "ex_g4 = JObj kvs" using ex_g4_record by blast
  show "weight (Suc 0) (jget ex_g4 k) \<le> 100001" using weight_jget [of kvs k] ex_g4_weight unfolding g by simp
  show "json_ok (jget ex_g4 k)" using ex_g4_ok json_ok_entry unfolding g by blast
qed

lemma ex_sha_config: "G4_Freeze.ex_sha ex_config = replicate 64 CHR ''0''"
  unfolding ex_config_def by (subst ex_g4_record) (simp add: g4_base_def ex_sha_brace)

lemma ex_extra: "ex_tool ''d2_collect.py'' = ''x''" "ex_tool ''tests/harness.py'' = ''da5982d451cf78822b7466d4b04ebf804dad305cc92b5b7bc71ff95246a22cad''"
    "ex_tool ''tests/__init__.py'' = ''32f7f30f7864dfd23b4ea2506a784ace2e5c62718eef3d232e81d8c0c5573b1d''"
    "map (\<lambda>n. (n, ex_tool n)) EXTRA = [(''d2_collect.py'', ex_tool ''d2_collect.py''), (''tests/harness.py'', ex_tool ''tests/harness.py''), (''tests/__init__.py'', ex_tool ''tests/__init__.py'')]"
  by (code_simp, code_simp, code_simp, simp add: EXTRA_def)

definition ex_sources :: json where
  "ex_sources = JObj (map (\<lambda>(n, raw). (n, bytes_ref G4_Freeze.ex_sha raw)) (map (\<lambda>n. (n, ex_tool n)) EXTRA))"

lemma ex_sources_ok: "json_ok ex_sources" "weight (Suc 0) ex_sources \<le> 10000"
  by code_simp+

lemma ex_commands: "d2_commands ex_g4 = JObj [
     (''guardian'', JArr (map JStr [''/p'', ''-B'', ''-m'', ''tools.bench.g4_launch'', ''--config'', ''/a/n8-cpu-pilot-20260101T000000Z/g4/g4.json''])),
     (''verification'', JArr (map JStr [''/p'', ''-B'', ''-c'', VERIFY, ''/a/n8-cpu-pilot-20260101T000000Z/g4'']))]"
  by (simp add: d2_commands_def ex_path)

lemma ex_intent_ok: "json_ok ex_intent"
proof -
  have "json_ok (d2_commands ex_g4)" unfolding ex_commands by (simp add: json_ok_def)
  moreover have "json_ok (JArr [JStr a, JStr b, JStr c, JStr d, JStr e, JStr f, JStr g])" for a b c d e f g by (simp add: json_ok_def)
  ultimately show ?thesis
    unfolding ex_intent_def intent_json_def ex_sources_def [symmetric] json_ok_JObj using ex_sources_ok(1) by (auto simp: ex_part json_ok_args ex_path)
qed

lemma ex_intent_size: "length (dump True 0 ex_intent) \<le> MiB2"
proof -
  have "weight (Suc 0) (d2_commands ex_g4) \<le> 100000" unfolding ex_commands by (simp add: VERIFY_def)
  moreover have "weight (Suc 0) (JArr [JStr ''/p'', JStr ''-B'', JStr ''-m'', JStr ''tools.bench.d2_collect'', JStr ''run'', JStr ''--config'',
      JStr ''/a/n8-cpu-pilot-20260101T000000Z/g4/g4.json'']) \<le> 10000" by code_simp
  ultimately have "weight 0 ex_intent \<le> 1500000"
    using ex_part(1) [of "''run_id''"] ex_part(1) [of "''directory''"] ex_part(1) [of "''policy''"] ex_part(1) [of "''effective_limits''"] ex_part(1) [of "''crypto''"]
      ex_part(1) [of "''python''"] ex_part(1) [of "''target_executable''"] ex_part(1) [of "''cwd''"] ex_part(1) [of "''environment''"]
    unfolding ex_intent_def intent_json_def ex_sources_def [symmetric] weight_top using ex_sources_ok(2)
    by (simp add: ex_path ex_sha_config D2_CONTRACT_def show_int_def show_nat.simps del: weight.simps(4,5))
  then show ?thesis using length_dump [of 0 ex_intent] by (simp add: MiB2_def)
qed

lemma ex_checked: "checked G4_Freeze.ex_sha ex_view = Inr (ex_g4, ex_intent)"
proof -
  have tools: "with_reads EXTRA (ho_tool ex_host) = Inr (map (\<lambda>n. (n, ex_tool n)) EXTRA)"
    by (simp add: with_reads_def EXTRA_def ex_host_def read_small ex_extra)
  have pins: "list_all (\<lambda>(n, x). map_option G4_Freeze.ex_sha (map_of (map (\<lambda>n. (n, ex_tool n)) EXTRA) n) = Some x) PINS" by code_simp
  have "path_name ''/a/n8-cpu-pilot-20260101T000000Z/g4'' = ''g4''" "path_parent (path_parent ''/a/n8-cpu-pilot-20260101T000000Z/g4'') = ''/a''"
    "pilot_name (path_name (path_parent ''/a/n8-cpu-pilot-20260101T000000Z/g4''))" by code_simp+
  moreover have "is_crypto ex_g4" by (simp add: is_crypto_def ex_get)
  moreover have "jget (jget ex_g4 ''crypto'') ''outer_seconds'' = JInt 25" by (simp add: ex_get) (simp add: ex_crypto_def jget_def)
  moreover have "read_regular MiB2 (quiet_view ex_config) = Inr ex_config" unfolding ex_config_def by (rule read_quiet) (rule ex_g4_size)
  ultimately have c: "contract G4_Freeze.ex_sha ex_view = Inr (ex_g4, ex_intent, map (\<lambda>n. (n, ex_tool n)) EXTRA)"
    unfolding contract_def using tools pins by (simp add: ex_view_def ex_g4_checked ex_path ex_get(3) ex_intent_def dec_eq_def)
  have "fold_res (\<lambda>(n, raw) _. bindr (read_regular MiB2 (cv_source ex_view n)) (\<lambda>data. needp (data = raw) ''D2 source snapshot'' (Inr ()))) (map (\<lambda>n. (n, ex_tool n)) EXTRA) () = Inr ()"
    by (simp add: EXTRA_def ex_view_def read_small ex_extra(1-3))
  moreover have "read_regular MiB2 (cv_intent ex_view) = Inr (dump True 0 ex_intent)" unfolding ex_view_def by (simp add: read_quiet ex_intent_size)
  ultimately show ?thesis unfolding checked_def c by (simp add: decode_dump [OF ex_intent_ok])
qed


definition ex_kernel :: kernel where
  "ex_kernel = example_host\<lparr>k_stat := (\<lambda>t pid. if pid = 100 then Inr (stat_line ''S'') else Inl FileNotFoundError), k_clock := (\<lambda>t. 0),
     k_waitid := (\<lambda>t pid. Inr (Some \<lparr>si_code = 1, si_status = 0\<rparr>)), k_meminfo := (\<lambda>t. Inr ''MemAvailable: 8000000 kB'')\<rparr>"

definition ex_owned :: owned_host where
  "ex_owned = \<lparr>oh_kernel = ex_kernel, oh_pid = 1, oh_children = (\<lambda>t pid. Inr ''''), oh_pidfd = (\<lambda>t pid. Inr ()), oh_fdclose = (\<lambda>t. Inr ()),
     oh_send = (\<lambda>t pid s. Inr ()), oh_waitpid = (\<lambda>t pid. Inr 0), oh_image = (\<lambda>t pid. Inr (ex_exe ''/p'')), oh_select = (\<lambda>t. Inr ())\<rparr>"

definition ex_report :: json where
  "ex_report = JObj [(''run_id'', JStr ex_rid), (''final_accepted'', JBool True), (''evidence_valid'', JBool True), (''crypto'', JObj [(''evidence_valid'', JBool True)])]"

definition ex_d2 :: d2_host where
  "ex_d2 = \<lparr>dh_owned = ex_owned, dh_view = (\<lambda>t. ex_view), dh_present = (\<lambda>t n. False), dh_cwd = ''/r'', dh_argv = jget ex_intent ''adapter_argv'', dh_optimize = False,
     dh_environ = jget ex_intent ''environment'', dh_lock_open = (\<lambda>t. Inr ()), dh_lock_stat = (\<lambda>t. Inr (private_stat [])), dh_flock = (\<lambda>t. Inr ()), dh_primitives = True,
     dh_statvfs = (\<lambda>t. Inr (1000000, 4096)), dh_load1 = (\<lambda>t. Inr (JFloat 5 (- 1))), dh_cpus = (\<lambda>t. Inr 8), dh_cmdline = (\<lambda>t n. Inr ''init''), dh_ipc = (\<lambda>t. False),
     dh_prctl = (\<lambda>t. 0), dh_is_file = (\<lambda>t n. True),
     dh_file = (\<lambda>t n. quiet_view (if n = ''outer-verification.stdout'' then dump True 0 ex_report else ''{}''))\<rparr>"

definition ex_start :: d2_world where
  "ex_start = \<lparr>tick = 0, log = [], row = start_row [] 0, proc = None, pidfd = False, returncode = None, outer = None, stage = [], locked = False, armed = None, published = []\<rparr>"

lemma ex_available: "first_available (str_splitlines ''MemAvailable: 8000000 kB'') = Inr 8000000"
proof -
  have "str_splitlines ''MemAvailable: 8000000 kB'' = [''MemAvailable: 8000000 kB'']"
    "py_split ''MemAvailable: 8000000 kB'' = [''MemAvailable:'', ''8000000'', ''kB'']"
    "py_startswith ''MemAvailable: 8000000 kB'' ''MemAvailable:''" by code_simp+
  moreover have "py_int ''8000000'' = Inr 8000000" by (simp add: py_int_def py_nat_def is_digit_def digit_val_def)
  ultimately show ?thesis by (simp add: second_field_int_def nth_res_def)
qed

lemma ex_kernel_calls:
  "k_entries ex_kernel t = Inr [''100'', ''self'']" "k_stat ex_kernel t pid = (if pid = 100 then Inr (stat_line ''S'') else Inl FileNotFoundError)" "k_clock ex_kernel t = 0"
  "k_signal ex_kernel t = None" "k_waitid ex_kernel t pid = Inr (Some \<lparr>si_code = 1, si_status = 0\<rparr>)" "k_meminfo ex_kernel t = Inr ''MemAvailable: 8000000 kB''"
  "k_wait ex_kernel t pid = Inr 0" "k_popen ex_kernel t a e = Inr 100" "k_open ex_kernel t = Inr ()" "k_close ex_kernel t = Inr ()" "k_write ex_kernel t p = Inr ()"
  by (simp_all add: ex_kernel_def example_host_def)

lemma ex_no_signal: "pending ex_kernel a b = []" "caught_by ex_kernel since t = []"
  by (simp_all add: pending_def ex_kernel_calls List.map_filter_def caught_by_def split: option.split)

lemma ex_no_children: "kids_at ex_owned pid t = Inr []"
  by (simp add: kids_at_def ex_owned_def) code_simp

lemma ex_identity: "ps_identity ex_kernel 100 w = Some (Inr (Some example_owner), w\<lparr>tick := Suc (tick w)\<rparr>)"
  "ps_identity ex_kernel 1 w = Some (Inr None, w\<lparr>tick := Suc (tick w)\<rparr>)"
  by (simp_all add: ps_identity_def bindi_apply attempt_apply io_apply sys_def ex_kernel_calls example_stat)

lemma ex_image: "image_matches (ex_exe ''/p'') (ex_exe ''/p'')"
  by code_simp

lemma ex_owned_calls: "oh_kernel ex_owned = ex_kernel" "oh_pid ex_owned = 1" "oh_pidfd ex_owned t pid = Inr ()" "oh_fdclose ex_owned t = Inr ()" "oh_image ex_owned t pid = Inr (ex_exe ''/p'')"
  by (simp_all add: ex_owned_def)

lemmas ex_calls = ex_owned_calls ex_kernel_calls ex_no_children children_sys bindi_apply attempt_apply io_apply sys_def clock_def emit_def

lemma ex_cleanup: "\<exists>t. harness_cleanup (Suc n) ex_owned 100 w = Some (Inr [], w\<lparr>tick := t, log := world.log w @ [Reaped 100 0], returncode := Some 0\<rparr>)"
  by (rule exI [of _ "tick w + 7"]) (simp add: harness_cleanup_def STOP_PHASES_def proc_wait_def reap_adopted_def ex_calls numeral_eq_Suc)

lemma ex_clean_child: "\<exists>t. clean_child (Suc n) ex_owned 100 w = Some (Inr (), w\<lparr>tick := t, log := world.log w @ [Reaped 100 0], returncode := Some 0,
     row := (row w)\<lparr>cr_residual := Some [], cr_exit := Some 0, cr_signal := None, cr_clean := True\<rparr>\<rparr>)"
proof -
  obtain t where "harness_cleanup (Suc n) ex_owned 100 w = Some (Inr [], w\<lparr>tick := t, log := world.log w @ [Reaped 100 0], returncode := Some 0\<rparr>)"
    using ex_cleanup by blast
  then show ?thesis by (intro exI [of _ t]) (simp add: clean_child_def take_code_def set_row_def exit_signal_def ex_calls)
qed

lemma ex_body: "\<exists>t. with_output ex_kernel (with_output ex_kernel (start_child (Suc n) ex_owned t0 (ex_exe ''/p'') env args 25000000000)) w =
   Some (Inr (), w\<lparr>tick := t, log := world.log w @ [Popen args env 100], proc := Some 100, pidfd := True,
     row := (row w)\<lparr>cr_owner := Some example_owner, cr_waitid := Some \<lparr>si_code = 1, si_status = 0\<rparr>, cr_before := True\<rparr>\<rparr>)"
proof -
  have "owned_by ex_owned example_owner" "\<not> dead_state (p_state example_owner)" "ps_same (Some example_owner) (Some example_owner)"
    by (simp_all add: owned_by_def example_owner_def dead_state_def ex_owned_calls ps_same_def key_values_def)
  then show ?thesis
    by (intro exI [of _ "tick w + 13"])
      (simp add: with_output_def start_child_def popen_def set_row_def note_exit_def interrupts_def check_exe_def ex_identity ex_image ex_no_signal ex_calls)
qed

lemma ex_child:
  "\<exists>x t. child (Suc n) ex_owned t0 (ex_exe ''/p'') env args 25000000000 w = Some (Inr x, w\<lparr>tick := t, log := world.log w @ [Popen args env 100, Reaped 100 0], row := x, proc := Some 100,
      pidfd := True, returncode := Some 0\<rparr>) \<and> phase_reason x = None \<and> cr_before x"
proof -
  let ?w0 = "w\<lparr>tick := Suc (tick w), row := start_row args 0, proc := None, pidfd := False, returncode := None\<rparr>"
  let ?w1 = "\<lambda>t. ?w0\<lparr>tick := t, log := world.log ?w0 @ [Popen args env 100], proc := Some 100, pidfd := True,
     row := (row ?w0)\<lparr>cr_owner := Some example_owner, cr_waitid := Some \<lparr>si_code = 1, si_status = 0\<rparr>, cr_before := True\<rparr>\<rparr>"
  let ?w2 = "\<lambda>w t. w\<lparr>tick := t, log := world.log w @ [Reaped 100 0], returncode := Some 0,
     row := (row w)\<lparr>cr_residual := Some [], cr_exit := Some 0, cr_signal := None, cr_clean := True\<rparr>\<rparr>"
  obtain t1 where b: "with_output ex_kernel (with_output ex_kernel (start_child (Suc n) ex_owned t0 (ex_exe ''/p'') env args 25000000000)) ?w0 = Some (Inr (), ?w1 t1)"
    using ex_body [of n t0 env args ?w0] by blast
  obtain t2 where c: "clean_child (Suc n) ex_owned 100 (?w1 t1) = Some (Inr (), ?w2 (?w1 t1) t2)" using ex_clean_child [of n "?w1 t1"] by blast
  let ?x = "(start_row args 0)\<lparr>cr_owner := Some example_owner, cr_waitid := Some \<lparr>si_code = 1, si_status = 0\<rparr>, cr_before := True,
         cr_residual := Some [], cr_exit := Some 0, cr_signal := None, cr_clean := True, cr_end := Some 0\<rparr>"
  have "child (Suc n) ex_owned t0 (ex_exe ''/p'') env args 25000000000 w = Some (Inr ?x, w\<lparr>tick := t2 + 2, log := world.log w @ [Popen args env 100, Reaped 100 0], row := ?x, proc := Some 100,
      pidfd := True, returncode := Some 0\<rparr>)"
    using b c by (simp add: child_def close_pidfd_def set_row_def ex_calls)
  moreover have "phase_reason ?x = None" "cr_before ?x" by (simp_all add: phase_reason_def start_row_def)
  ultimately show ?thesis by blast
qed


lemma ex_d2_calls: "dh_owned ex_d2 = ex_owned" "dh_view ex_d2 t = ex_view" "\<not> dh_present ex_d2 t p" "dh_cwd ex_d2 = ''/r''" "dh_argv ex_d2 = jget ex_intent ''adapter_argv''"
  "\<not> dh_optimize ex_d2" "dh_environ ex_d2 = jget ex_intent ''environment''" "dh_lock_open ex_d2 t = Inr ()" "dh_lock_stat ex_d2 t = Inr (private_stat [])" "dh_flock ex_d2 t = Inr ()"
  "dh_primitives ex_d2" "dh_statvfs ex_d2 t = Inr (1000000, 4096)" "dh_load1 ex_d2 t = Inr (JFloat 5 (- 1))" "dh_cpus ex_d2 t = Inr 8" "dh_cmdline ex_d2 t p = Inr ''init''"
  "\<not> dh_ipc ex_d2 t" "dh_prctl ex_d2 t = 0" "dh_is_file ex_d2 t p"
  "dh_file ex_d2 t p = quiet_view (if p = ''outer-verification.stdout'' then dump True 0 ex_report else ''{}'')"
  by (simp_all add: ex_d2_def)

lemma ex_phase:
  assumes "outer w = Some r" "\<not> or_timed_out r"
  shows "\<exists>x w'. run_phases (Suc n) G4_Freeze.ex_sha ex_d2 t0 ex_g4 25000000000 ((ph, args) # cmds) w = run_phases (Suc n) G4_Freeze.ex_sha ex_d2 t0 ex_g4 25000000000 cmds w' \<and>
     outer w' = Some (r\<lparr>or_phases := or_phases r @ [(ph, x)]\<rparr>) \<and> phase_reason x = None \<and> cr_before x"
proof -
  let ?w1 = "w\<lparr>tick := Suc (Suc (tick w)), stage := ph\<rparr>"
  obtain x t where c: "child (Suc n) ex_owned t0 (ex_exe ''/p'') (environment_of ex_g4) (map the_str (the_list args)) 25000000000 ?w1 =
     Some (Inr x, ?w1\<lparr>tick := t, log := world.log ?w1 @ [Popen (map the_str (the_list args)) (environment_of ex_g4) 100, Reaped 100 0], row := x, proc := Some 100,
      pidfd := True, returncode := Some 0\<rparr>)" and x: "phase_reason x = None" "cr_before x"
    using ex_child [of n t0 "environment_of ex_g4" "map the_str (the_list args)" ?w1] by blast
  have n: "note_phase ph x False r = r\<lparr>or_phases := or_phases r @ [(ph, x)]\<rparr>" using assms(2) x(1) by (simp add: note_phase_def Let_def)
  let ?w2 = "?w1\<lparr>log := world.log ?w1 @ [Popen (map the_str (the_list args)) (environment_of ex_g4) 100, Reaped 100 0], row := x, proc := Some 100,
      pidfd := True, returncode := Some 0, tick := Suc t, outer := Some (r\<lparr>or_phases := or_phases r @ [(ph, x)]\<rparr>)\<rparr>"
  have "run_phases (Suc n) G4_Freeze.ex_sha ex_d2 t0 ex_g4 25000000000 ((ph, args) # cmds) w = run_phases (Suc n) G4_Freeze.ex_sha ex_d2 t0 ex_g4 25000000000 cmds ?w2"
    using assms c n phase_reason_clean [OF x(1)]
    by (simp add: collected_def set_stage_def recheck_def set_outer_def ex_checked ex_no_signal ex_get(8) ex_d2_calls ex_calls)
  then show ?thesis using x by (intro exI [of _ x] exI [of _ ?w2]) simp
qed

lemma ex_phases:
  assumes "outer w = Some r" "\<not> or_timed_out r" "or_phases r = []"
  shows "\<exists>w' g v. run_phases (Suc n) G4_Freeze.ex_sha ex_d2 t0 ex_g4 25000000000 (pairs (d2_commands ex_g4)) w = Some (Inr (), w') \<and>
     outer w' = Some (r\<lparr>or_phases := [(''guardian'', g), (''verification'', v)]\<rparr>) \<and> phase_reason g = None \<and> phase_reason v = None \<and> cr_before g"
proof -
  obtain ga va where cmds: "pairs (d2_commands ex_g4) = [(''guardian'', ga), (''verification'', va)]" unfolding d2_commands_def by simp
  obtain g w1 where g: "run_phases (Suc n) G4_Freeze.ex_sha ex_d2 t0 ex_g4 25000000000 [(''guardian'', ga), (''verification'', va)] w =
      run_phases (Suc n) G4_Freeze.ex_sha ex_d2 t0 ex_g4 25000000000 [(''verification'', va)] w1"
    "outer w1 = Some (r\<lparr>or_phases := or_phases r @ [(''guardian'', g)]\<rparr>)" "phase_reason g = None" "cr_before g"
    using ex_phase [OF assms(1,2)] by blast
  obtain v w2 where v: "run_phases (Suc n) G4_Freeze.ex_sha ex_d2 t0 ex_g4 25000000000 [(''verification'', va)] w1 = run_phases (Suc n) G4_Freeze.ex_sha ex_d2 t0 ex_g4 25000000000 [] w2"
    "outer w2 = Some (r\<lparr>or_phases := or_phases r @ [(''guardian'', g), (''verification'', v)]\<rparr>)" "phase_reason v = None"
    using ex_phase [OF g(2), of n t0 "''verification''" va "[]"] assms(2) by auto
  have "run_phases (Suc n) G4_Freeze.ex_sha ex_d2 t0 ex_g4 25000000000 [] w2 = Some (Inr (), w2)" by (simp add: io_apply)
  then show ?thesis unfolding cmds g(1) v(1) using g(3,4) v(2,3) assms(3) by (intro exI [of _ w2] exI [of _ g] exI [of _ v]) simp
qed

lemma ex_report_read: "report_at ex_d2 t = Inr ex_report" "accepts ex_g4 ex_report"
proof -
  have ok: "json_ok ex_report" by code_simp
  have "weight 0 ex_report \<le> 2000" unfolding ex_report_def ex_rid_def by simp
  then have "length (dump True 0 ex_report) \<le> MiB2" using length_dump [of 0 ex_report] by (simp add: MiB2_def)
  then show "report_at ex_d2 t = Inr ex_report"
    by (simp add: report_at_def ex_d2_calls read_quiet decode_dump [OF ok]) (simp add: ex_report_def)
  show "accepts ex_g4 ex_report" by (simp add: accepts_def ex_report_def jget_def ex_get(4) [unfolded jget_def])
qed

lemma ex_labels: "\<exists>w'. failure_labels ex_d2 (Some ex_report) w = Some (Inr [], w') \<and> d2_part w' = d2_part w"
proof -
  have e: "read_regular MiB2 (quiet_view ''{}'') = Inr ''{}''" by (rule read_small) simp
  have d: "decode_evidence ''{}'' = Inr (JObj [])" by code_simp
  have s: "bindr (decode_evidence ''{}'') stop_text = Inr []" unfolding d by code_simp
  have l: "labels_in STOP_WORDS [] = []" by code_simp
  have a: "audit_labels (Some ex_report) = []" by code_simp
  have "failure_labels ex_d2 (Some ex_report) w = Some (Inr [], w\<lparr>tick := tick w + 6\<rparr>)"
    by (simp add: failure_labels_def REQUIRED_FILES_def ex_d2_calls e s l a ex_calls)
  then show ?thesis by (simp add: d2_part_def)
qed


lemma ex_judge:
  assumes "outer w = Some r" "or_phases r = [(''guardian'', g), (''verification'', v)]" "phase_reason v = None"
  shows "\<exists>w'. judge_report ex_d2 ex_g4 w = Some (Inr (Some ex_report), w') \<and> outer w' = Some (accept_report ex_report (r\<lparr>or_report := Some ex_report\<rparr>))"
  using assms phase_reason_clean [OF assms(3)] ex_report_read(2)
  by (simp add: judge_report_def ex_report_read(1) ex_d2_calls set_stage_def set_outer_def accepts_def ex_calls)

lemma ex_run_concluded:
  assumes "outer w = Some r"
  shows "\<exists>w'. conclude_run G4_Freeze.ex_sha ex_d2 25000000000 (Some ex_report) w = Some (Inr (), w') \<and> outer w' = Some (settle [] False [] (r\<lparr>or_source := True\<rparr>))"
proof -
  let ?w1 = "w\<lparr>tick := Suc (tick w), stage := ''collector_exception'', outer := Some (r\<lparr>or_source := True\<rparr>)\<rparr>"
  obtain w1 where w1: "failure_labels ex_d2 (Some ex_report) ?w1 = Some (Inr [], w1)" "d2_part w1 = d2_part ?w1" using ex_labels by blast
  then have "outer w1 = Some (r\<lparr>or_source := True\<rparr>)" by (simp add: d2_part_def)
  then show ?thesis using assms w1(1)
    by (simp add: conclude_run_def set_stage_def set_outer_def recheck_def collected_def ex_checked ex_no_signal ex_d2_calls ex_calls)
qed

lemma ex_preflight: "\<exists>s t. preflight ex_d2 ex_intent w = Some (Inr s, w\<lparr>tick := t\<rparr>)"
proof -
  have n: "py_isdigit ''100''" "\<not> py_isdigit ''self''" "py_int ''100'' = Inr 100" "\<not> list_ex (competitor ''/t'') (cmdline_words ''init'')" by code_simp+
  have i: "jget ex_intent ''target'' = ex_exe ''/t''" "jget ex_intent ''minimum_available_bytes'' = JInt (5 * 1024 ^ 3)" "jget ex_intent ''disk_minimum_bytes'' = JInt (2 * 1024 ^ 3)"
    unfolding ex_intent_def intent_json_def by (simp_all add: jget_def [of "JObj _"] ex_get(12))
  have "eligible ex_intent \<lparr>sp_available = 8192000000, sp_disk = 4096000000, sp_load1 = JFloat 5 (- 1), sp_cpus = 8, sp_competing = []\<rparr>"
    unfolding eligible_def i by (simp add: number_def dec_le_def dec_scale_def)
  then show ?thesis
    by (simp add: preflight_def competing_def available_def ex_available n i(1) ex_build_get(4) ex_d2_calls ex_calls) auto
qed

lemma ex_body_run:
  assumes "outer w = None"
  shows "\<exists>w' r. collect_body 1 G4_Freeze.ex_sha ex_d2 ex_g4 ex_intent w = Some (Inr (), w') \<and> outer w' = Some r \<and> or_accepted r \<and> \<not> or_timed_out r \<and> or_deadline r = 25000000000"
proof -
  obtain s t where p: "preflight ex_d2 ex_intent w = Some (Inr s, w\<lparr>tick := t\<rparr>)" using ex_preflight by blast
  have i: "pairs (jget ex_intent ''commands'') = pairs (d2_commands ex_g4)" "the_int (jget ex_intent ''outer_seconds'') * second = 25000000000"
    using checked_intent [OF ex_checked] by (simp_all add: second_def)
  let ?r = "new_outer G4_Freeze.ex_sha ex_g4 ex_intent 0 25000000000 s"
  define w1 where "w1 = w\<lparr>tick := t + 6, log := world.log w @ [Wrote ''outer-attempt.json''],
     published := published w @ [(''outer-attempt.json'', encoded (attempt_json G4_Freeze.ex_sha ex_g4 ex_intent 0 25000000000 None))], outer := Some ?r, armed := Some (t + 6)\<rparr>"
  obtain w2 g v where run: "run_phases (Suc 0) G4_Freeze.ex_sha ex_d2 (t + 6) ex_g4 25000000000 (pairs (d2_commands ex_g4)) w1 = Some (Inr (), w2)"
    "outer w2 = Some (?r\<lparr>or_phases := [(''guardian'', g), (''verification'', v)]\<rparr>)" "phase_reason g = None" "phase_reason v = None" "cr_before g"
    using ex_phases [of w1 ?r 0 "t + 6"] by (auto simp: w1_def new_outer_def)
  obtain w3 where j: "judge_report ex_d2 ex_g4 w2 = Some (Inr (Some ex_report), w3)"
    "outer w3 = Some (accept_report ex_report (?r\<lparr>or_phases := [(''guardian'', g), (''verification'', v)], or_report := Some ex_report\<rparr>))"
    using ex_judge [OF run(2) _ run(4)] by auto
  obtain w4 where c: "conclude_run G4_Freeze.ex_sha ex_d2 25000000000 (Some ex_report) w3 = Some (Inr (), w4)"
    "outer w4 = Some (settle [] False [] ((accept_report ex_report (?r\<lparr>or_phases := [(''guardian'', g), (''verification'', v)], or_report := Some ex_report\<rparr>))\<lparr>or_source := True\<rparr>))"
    using ex_run_concluded [OF j(2)] by blast
  have "collect_body 1 G4_Freeze.ex_sha ex_d2 ex_g4 ex_intent w =
     bindi (run_phases (Suc 0) G4_Freeze.ex_sha ex_d2 (t + 6) ex_g4 25000000000 (pairs (d2_commands ex_g4))) (\<lambda>_.
       bindi (judge_report ex_d2 ex_g4) (\<lambda>a. conclude_run G4_Freeze.ex_sha ex_d2 25000000000 a)) w1"
    unfolding collect_body_def i w1_def Let_def using p
    by (simp add: recheck_def publish_def ex_checked ex_identity ex_d2_calls ex_calls numeral_eq_Suc)
  also have "\<dots> = Some (Inr (), w4)" using run(1) j(1) c(1) by (simp add: bindi_apply)
  finally have body: "collect_body 1 G4_Freeze.ex_sha ex_d2 ex_g4 ex_intent w = Some (Inr (), w4)" .
  have "or_accepted (settle [] False [] ((accept_report ex_report (?r\<lparr>or_phases := [(''guardian'', g), (''verification'', v)], or_report := Some ex_report\<rparr>))\<lparr>or_source := True\<rparr>))"
    using phase_reason_clean [OF run(3)] phase_reason_clean [OF run(4)] run(5)
    by (simp add: settle_def Let_def guardian_ok_def accept_report_def new_outer_def) (simp add: ex_report_def jget_def)
  moreover have "\<not> or_timed_out (settle [] False [] x) \<longleftrightarrow> \<not> or_timed_out x" for x by (simp add: settle_def Let_def first_failure_def)
  ultimately show ?thesis using body c(2) settle_fields(5) by (simp add: accept_report_def new_outer_def)
qed

lemma py_eq_refl: "distinct_keys v \<Longrightarrow> py_eq v v"
proof (induction v)
  case (JArr xs)
  then show ?case by (auto simp: list.rel_refl_strong)
next
  case (JObj kvs)
  then show ?case by (fastforce simp: Basic_BNFs.snds.simps)
qed (simp_all add: dec_eq_def)

lemma ex_lock: "\<exists>t. lock_parent ex_d2 w = Some (Inr (), w\<lparr>tick := t, locked := True\<rparr>)"
  by (rule exI [of _ "tick w + 3"]) (simp add: lock_parent_def ex_d2_calls ex_view_def ex_host_def private_stat_def ex_calls numeral_eq_Suc)

lemma ex_run_collected: "\<exists>r w'. collect 1 G4_Freeze.ex_sha ex_d2 ex_start = Some (Inr r, w') \<and> or_accepted r \<and> or_interrupts r = Some [] \<and> or_deadline r = 25000000000"
proof -
  let ?w1 = "ex_start\<lparr>tick := Suc (Suc (Suc (tick ex_start)))\<rparr>"
  obtain t where l: "lock_parent ex_d2 ?w1 = Some (Inr (), ?w1\<lparr>tick := t, locked := True\<rparr>)" using ex_lock by blast
  let ?w2 = "?w1\<lparr>tick := t, locked := True, outer := None, armed := None, stage := ''preflight''\<rparr>"
  obtain w3 r where b: "collect_body 1 G4_Freeze.ex_sha ex_d2 ex_g4 ex_intent ?w2 = Some (Inr (), w3)" "outer w3 = Some r" "or_accepted r" "\<not> or_timed_out r" "or_deadline r = 25000000000"
    using ex_body_run [of ?w2] by auto
  have s: "supervised 1 G4_Freeze.ex_sha ex_d2 ex_g4 ex_intent ?w2 = Some (Inr (), w3)" using b(1) by (simp add: supervised_def bindi_apply attempt_apply io_apply)
  have i: "py_eq (jget ex_intent k) (jget ex_intent k)" for k
    using py_eq_refl json_ok_entry ex_intent_ok unfolding ex_intent_def intent_json_def json_ok_def by blast
  have f: "d2_fresh (dh_present ex_d2 u) = Inr ()" for u by (simp add: d2_fresh_def ex_d2_calls list_all_iff)
  have rt: "check_runtime G4_Freeze.ex_sha ex_d2 ex_g4 u = Inr ()" for u
    using ex_executable ex_absolute by (simp add: check_runtime_def ex_d2_calls ex_view_def ex_get(8,9) py_eq_exe) (simp add: ex_host_def ex_executable [unfolded ex_host_def] py_eq_exe)
  have "\<exists>w'. committed 1 G4_Freeze.ex_sha ex_d2 ex_g4 ex_intent (?w1\<lparr>tick := t, locked := True\<rparr>) = Some (Inr (commit [] 0 r), w')"
    using s b(2) by (simp add: committed_def commit_result_def set_outer_def collected_def publish_def ex_no_signal ex_d2_calls ex_calls)
  moreover have "or_accepted (commit [] 0 r)" "or_interrupts (commit [] 0 r) = Some []" "or_deadline (commit [] 0 r) = 25000000000" using b(3-5) by (simp_all add: commit_def)
  moreover have "collect 1 G4_Freeze.ex_sha ex_d2 ex_start = committed 1 G4_Freeze.ex_sha ex_d2 ex_g4 ex_intent (?w1\<lparr>tick := t, locked := True\<rparr>)"
    using l by (simp add: collect_def recheck_def ex_checked f rt i ex_d2_calls ex_calls)
  ultimately show ?thesis by auto
qed

lemma ex_status: "\<exists>w'. run_status 1 G4_Freeze.ex_sha ex_d2 ex_start = Some (Inr 0, w')"
proof -
  obtain r w1 where "collect 1 G4_Freeze.ex_sha ex_d2 ex_start = Some (Inr r, w1)" "or_accepted r" "or_interrupts r = Some []" "or_deadline r = 25000000000" using ex_run_collected by blast
  then show ?thesis by (simp add: run_status_def ex_d2_calls ex_calls)
qed


end
