(* ===== verification/G4_Launch.thy ===== *)
theory G4_Launch
  imports D2_Accept
begin

text \<open>
  The guardian \<^verbatim>\<open>g4_launch.py\<close>: after the preflight it consumes the one attempt (\<open>attempt.json\<close> is created exclusively),
  starts the supervisor in a session of its own, watches it and its descendants, observes once the launch facts of the bootstrap and of the
  target, and either reaps the supervisor that has exited alone or hands everything to the harness cleanup.

  The host is \<open>owned_host\<close> with the further calls of the guardian. \<open>gu_order\<close> is the order in which Python iterates over the set of the
  descendants. The signals that the harness sends are noted in the row of the world, as for \<open>child\<close>.
\<close>

section \<open>State\<close>

record guard_host =
  gu_owned :: owned_host
  gu_host :: "nat \<Rightarrow> host"
  gu_dir :: "nat \<Rightarrow> g4_dir"
  gu_primitives :: bool
  gu_load1 :: "nat \<Rightarrow> json res"
  gu_cpus :: "nat \<Rightarrow> int res"
  gu_ipc :: "nat \<Rightarrow> bool"
  gu_prctl :: "nat \<Rightarrow> int"
  gu_config :: "nat \<Rightarrow> file_view"
  gu_cmdline :: "nat \<Rightarrow> int \<Rightarrow> string res"
  gu_procenv :: "nat \<Rightarrow> int \<Rightarrow> string res"
  gu_environ :: "string \<rightharpoonup> string"
  gu_order :: "int list \<Rightarrow> int list"

record guard_rec =
  gr_run_id :: json
  gr_argv :: "string list"
  gr_stop :: "string option"
  gr_residual :: "int list option"
  gr_observed :: "(string \<times> json) list"
  gr_peak :: nat
  gr_available :: int
  gr_seconds :: int
  gr_start :: ns
  gr_owner :: "proc_id option option"
  gr_exit :: "int option"
  gr_error :: "(string \<times> string) option"
  gr_end :: "ns option"

record guard_world = child_world +
  grec :: guard_rec
  gfiles :: "(string \<times> string) list"

definition set_rec :: "(guard_rec \<Rightarrow> guard_rec) \<Rightarrow> ('b guard_world_scheme, unit) io" where
  "set_rec f = modify (\<lambda>w. w\<lparr>grec := f (grec w)\<rparr>)"

abbreviation gu_kernel :: "guard_host \<Rightarrow> kernel" where "gu_kernel G \<equiv> oh_kernel (gu_owned G)"
abbreviation gu_pid :: "guard_host \<Rightarrow> int" where "gu_pid G \<equiv> oh_pid (gu_owned G)"

definition gread :: "(nat \<Rightarrow> 'a) \<Rightarrow> ('b world_scheme, 'a) io" where
  "gread f = sys (\<lambda>t. Inr (f t))"

text \<open>\<open>write\<close>: an exclusive create, then the indented record.\<close>

definition guard_write :: "guard_host \<Rightarrow> string \<Rightarrow> json \<Rightarrow> ('b guard_world_scheme, unit) io" where
  "guard_write G name value =
     bindi (sys (\<lambda>t. k_write (gu_kernel G) t name)) (\<lambda>_.
     bindi (emit (Wrote name)) (\<lambda>_. modify (\<lambda>w. w\<lparr>gfiles := gfiles w @ [(name, encoded value)]\<rparr>)))"

section \<open>The launch facts\<close>

text \<open>\<open>x.split('=', 1)\<close> as a pair; without the separator \<open>dict\<close> raises. A repeated name keeps its first place and its last value.\<close>

definition split_pair :: "string \<Rightarrow> (string \<times> string) res" where
  "split_pair x = (let k = takeWhile (\<lambda>c. c \<noteq> CHR ''='') x in
     if length k = length x then Inl (ValueError ''dictionary update sequence'') else Inr (k, drop (Suc (length k)) x))"

definition environment_read :: "string \<Rightarrow> (string \<times> string) list res" where
  "environment_read raw = bindr (map_res split_pair (filter (\<lambda>x. x \<noteq> []) (split_on NUL raw))) (\<lambda>ps. Inr (fold (\<lambda>(k, v). AList.update k v) ps []))"

definition TOKEN :: string where "TOKEN = ''DZKR_MIMCCHAIN_BARRIER_TOKEN''"

definition facts_json :: "(string \<Rightarrow> string) \<Rightarrow> proc_id \<Rightarrow> json \<Rightarrow> string list \<Rightarrow> (string \<times> string) list \<Rightarrow> json" where
  "facts_json sha after exe args env = JObj [(''identity'', identity_json after), (''executable'', exe), (''argv'', JArr (map JStr args)),
     (''environment'', JObj (map (\<lambda>(k, v). (k, JStr v)) (AList.delete TOKEN env))),
     (''barrier_token_sha256'', (case map_of env TOKEN of None \<Rightarrow> JNull | Some tok \<Rightarrow> if tok = [] then JNull else JStr (sha tok)))]"

definition launch_facts :: "(string \<Rightarrow> string) \<Rightarrow> guard_host \<Rightarrow> int \<Rightarrow> proc_id \<Rightarrow> ('b world_scheme, json option) io" where
  "launch_facts sha G pid before =
     bindi (sys (\<lambda>t. oh_image (gu_owned G) t pid)) (\<lambda>exe.
     bindi (sys (\<lambda>t. gu_cmdline G t pid)) (\<lambda>cmd.
     bindi (sys (\<lambda>t. gu_procenv G t pid)) (\<lambda>raw.
     bindi (lift_res (environment_read raw)) (\<lambda>env.
     bindi (ps_identity (gu_kernel G) pid) (\<lambda>after.
       case after of
         None \<Rightarrow> ret None
       | Some a \<Rightarrow>
           if \<not> ps_same (Some before) after \<or> dead_state (p_state a) then ret None
           else bindi (sys (\<lambda>t. oh_image (gu_owned G) t pid)) (\<lambda>exe'.
             ret (if \<not> py_eq exe' exe then None else Some (facts_json sha a exe (cmdline_words cmd) env))))))))"

definition observe_launch :: "(string \<Rightarrow> string) \<Rightarrow> guard_host \<Rightarrow> int \<Rightarrow> ('b world_scheme, json option) io" where
  "observe_launch sha G pid =
     bindi (ps_identity (gu_kernel G) pid) (\<lambda>before.
       case before of
         None \<Rightarrow> ret None
       | Some i \<Rightarrow>
           if dead_state (p_state i) then ret None
           else bindi (attempt (launch_facts sha G pid i)) (\<lambda>r.
             case r of
               Inl e \<Rightarrow> if e = FileNotFoundError \<or> e = ProcessLookupError then ret None else raise e
             | Inr x \<Rightarrow> ret x))"

text \<open>Each role is observed once: what has been recorded for it stays.\<close>

fun observe_roles :: "(string \<Rightarrow> string) \<Rightarrow> guard_host \<Rightarrow> int \<Rightarrow> int list \<Rightarrow> ('b guard_world_scheme, unit) io" where
  "observe_roles sha G leader [] = ret ()"
| "observe_roles sha G leader (pid # pids) =
     bindi (ps_identity (gu_kernel G) pid) (\<lambda>info.
       case info of
         None \<Rightarrow> observe_roles sha G leader pids
       | Some i \<Rightarrow>
           let role = (if p_ppid i = leader then ''bootstrap'' else ''target'') in
           bindi (gets (\<lambda>w. map_of (gr_observed (grec w)) role)) (\<lambda>seen.
             if seen \<noteq> None then observe_roles sha G leader pids
             else
               bindi (observe_launch sha G pid) (\<lambda>o'.
               bindi (case o' of None \<Rightarrow> ret () | Some v \<Rightarrow> set_rec (\<lambda>r. r\<lparr>gr_observed := gr_observed r @ [(role, v)]\<rparr>)) (\<lambda>_.
               observe_roles sha G leader pids))))"

section \<open>The guardian\<close>

definition set_stop :: "string \<Rightarrow> ('b guard_world_scheme, unit) io" where
  "set_stop s = set_rec (\<lambda>r. r\<lparr>gr_stop := Some s\<rparr>)"

fun guard_loop :: "nat \<Rightarrow> (string \<Rightarrow> string) \<Rightarrow> guard_host \<Rightarrow> nat \<Rightarrow> int \<Rightarrow> ('b guard_world_scheme, unit) io" where
  "guard_loop 0 sha G t0 pid = (\<lambda>w. None)"
| "guard_loop (Suc n) sha G t0 pid =
     bindi (sys (\<lambda>t. k_waitid (gu_kernel G) t pid)) (\<lambda>event.
       if event \<noteq> None then ret ()
       else
         bindi (reap_adopted (gu_owned G) (Some pid)) (\<lambda>_.
         bindi (descendants (Suc n) (gu_owned G) (gu_pid G)) (\<lambda>ds.
         bindi (set_rec (\<lambda>r. r\<lparr>gr_peak := max (gr_peak r) (length ds)\<rparr>)) (\<lambda>_.
         bindi (available (gu_kernel G)) (\<lambda>mem.
         bindi (set_rec (\<lambda>r. r\<lparr>gr_available := min (gr_available r) mem\<rparr>)) (\<lambda>_.
         bindi (observe_roles sha G pid (gu_order G (filter (\<lambda>d. d \<noteq> pid) ds))) (\<lambda>_.
         bindi (interrupts (gu_kernel G) t0) (\<lambda>sigs.
         bindi (gets grec) (\<lambda>r.
         bindi (if sigs \<noteq> [] then ret True else bindi (clock (gu_kernel G)) (\<lambda>now. ret (now - gr_start r > gr_seconds r * second))) (\<lambda>late.
           if late then set_stop ''interrupt_or_outer_timeout''
           else if length ds > 8 \<or> gr_available r < 2 * 1024 ^ 3 then set_stop ''process_count_or_headroom_stop''
           else bindi sleep (\<lambda>_. guard_loop n sha G t0 pid)))))))))))"

definition settle_supervisor :: "guard_host \<Rightarrow> int \<Rightarrow> ('b guard_world_scheme, unit) io" where
  "settle_supervisor G pid =
     bindi (reap_adopted (gu_owned G) (Some pid)) (\<lambda>_.
     bindi (children (gu_owned G) (gu_pid G)) (\<lambda>ks.
       if list_ex (\<lambda>k. k \<noteq> pid) ks then set_stop ''unexpected_surviving_child''
       else
         bindi (proc_wait (gu_owned G) pid) (\<lambda>_.
         bindi (modify (\<lambda>w. w\<lparr>grec := (grec w)\<lparr>gr_exit := returncode w\<rparr>\<rparr>)) (\<lambda>_.
         bindi (reap_adopted (gu_owned G) None) (\<lambda>_.
         bindi (children (gu_owned G) (gu_pid G)) (\<lambda>ks. set_rec (\<lambda>r. r\<lparr>gr_residual := Some ks\<rparr>)))))))"

definition guard_cleanup :: "nat \<Rightarrow> guard_host \<Rightarrow> int \<Rightarrow> ('b guard_world_scheme, unit) io" where
  "guard_cleanup n G pid = bindi (harness_cleanup n (gu_owned G) pid) (\<lambda>ks. set_rec (\<lambda>r. r\<lparr>gr_residual := Some ks\<rparr>))"

definition guard_env :: "guard_host \<Rightarrow> (string \<rightharpoonup> string)" where
  "guard_env G = (gu_environ G)(''PYTHONDONTWRITEBYTECODE'' \<mapsto> ''1'')"

definition guard_child :: "nat \<Rightarrow> (string \<Rightarrow> string) \<Rightarrow> guard_host \<Rightarrow> nat \<Rightarrow> string list \<Rightarrow> ('b guard_world_scheme, unit) io" where
  "guard_child n sha G t0 args =
     bindi (popen (gu_kernel G) args (guard_env G)) (\<lambda>pid.
     bindi (modify (\<lambda>w. w\<lparr>proc := Some pid\<rparr>)) (\<lambda>_.
     bindi (ps_identity (gu_kernel G) pid) (\<lambda>i.
     bindi (set_rec (\<lambda>r. r\<lparr>gr_owner := Some i\<rparr>)) (\<lambda>_.
     bindi (guard_loop n sha G t0 pid) (\<lambda>_.
     bindi (gets (\<lambda>w. gr_stop (grec w))) (\<lambda>stop.
     bindi (if stop = None then settle_supervisor G pid else ret ()) (\<lambda>_.
     bindi (gets (\<lambda>w. gr_stop (grec w))) (\<lambda>stop.
       if stop = None then ret () else guard_cleanup n G pid))))))))"

definition guard_error :: "nat \<Rightarrow> guard_host \<Rightarrow> py_error \<Rightarrow> ('b guard_world_scheme, unit) io" where
  "guard_error n G e =
     bindi (set_rec (\<lambda>r. r\<lparr>gr_stop := Some ''guardian_error'', gr_error := Some (error_type e, error_message e)\<rparr>)) (\<lambda>_.
     bindi (gets (\<lambda>w. (proc w, returncode w))) (\<lambda>(p, rc).
       case p of Some pid \<Rightarrow> if rc = None then guard_cleanup n G pid else ret () | None \<Rightarrow> ret ()))"

definition error_json :: "(string \<times> string) option \<Rightarrow> (string \<times> json) list" where
  "error_json e = (case e of None \<Rightarrow> [] | Some (ty, msg) \<Rightarrow> [(''error'', JObj [(''type'', JStr ty), (''message'', JStr msg)])])"

definition guard_json :: "(int \<times> proc_id) list \<Rightarrow> guard_rec \<Rightarrow> json" where
  "guard_json sigs r = JObj ([(''run_id'', gr_run_id r), (''argv'', JArr (map JStr (gr_argv r))), (''stop'', json_opt JStr (gr_stop r)),
     (''signals'', JArr (map (\<lambda>(n, i). JObj [(''signal'', JStr (signal_name n)), (''identity'', identity_json i)]) sigs)),
     (''residual_children'', json_opt (\<lambda>ks. JArr (map JInt ks)) (gr_residual r)), (''observations'', JObj (gr_observed r)),
     (''peak_descendants'', JInt (int (gr_peak r))), (''minimum_memavailable_bytes'', JInt (gr_available r)), (''outer_seconds'', JInt (gr_seconds r)),
     (''maximum_descendants'', JInt 8), (''start_ns'', JInt (gr_start r))] @
     (case gr_owner r of None \<Rightarrow> [] | Some i \<Rightarrow> [(''supervisor_owner'', json_opt identity_json i)]) @
     (case gr_exit r of None \<Rightarrow> [] | Some c \<Rightarrow> [(''exit_code'', JInt c)]) @ error_json (gr_error r) @
     (case gr_end r of None \<Rightarrow> [] | Some t \<Rightarrow> [(''end_ns'', JInt t)]))"

definition guard_finish :: "guard_host \<Rightarrow> ('b guard_world_scheme, unit) io" where
  "guard_finish G =
     bindi (clock (gu_kernel G)) (\<lambda>now.
     bindi (set_rec (\<lambda>r. r\<lparr>gr_end := Some now\<rparr>)) (\<lambda>_.
     bindi (gets (\<lambda>w. guard_json (cr_signals (row w)) (grec w))) (\<lambda>doc. guard_write G ''guardian.json'' doc)))"

text \<open>\<open>try ... except BaseException ... finally\<close>: the record is written on every way out.\<close>

definition guarded_child :: "nat \<Rightarrow> (string \<Rightarrow> string) \<Rightarrow> guard_host \<Rightarrow> string list \<Rightarrow> ('b guard_world_scheme, unit) io" where
  "guarded_child n sha G args =
     bindi (gets tick) (\<lambda>t0.
     bindi (attempt (
       bindi (attempt (with_output (gu_kernel G) (with_output (gu_kernel G) (guard_child n sha G t0 args)))) (\<lambda>r.
         case r of Inl e \<Rightarrow> guard_error n G e | Inr u \<Rightarrow> ret ()))) (\<lambda>r.
     bindi (guard_finish G) (\<lambda>_. lift_res r)))"

definition guard_limits :: "json \<Rightarrow> int \<times> int" where
  "guard_limits m = (if is_crypto m then (the_int (jget (jget m ''crypto'') ''minimum_available_bytes''), the_int (jget (jget m ''crypto'') ''guardian_seconds'')) else (4 * 1024 ^ 3, 15))"

definition guard_preflight :: "guard_host \<Rightarrow> json \<Rightarrow> ('b world_scheme, unit) io" where
  "guard_preflight G m =
     bindi (needi (gu_primitives G) ''Linux pidfd containment required'') (\<lambda>_.
     bindi (available (gu_kernel G)) (\<lambda>mem.
     bindi (if mem \<ge> fst (guard_limits m)
            then bindi (sys (gu_load1 G)) (\<lambda>load. bindi (sys (gu_cpus G)) (\<lambda>cpus. ret (\<not> dec_le (cpus, 0) (number load)))) else ret False) (\<lambda>fit.
     bindi (needi fit ''resource preflight failed'') (\<lambda>_.
     bindi (gread (gu_ipc G)) (\<lambda>stale.
     bindi (needi (\<not> stale) ''private IPC path already exists'') (\<lambda>_.
     bindi (children (gu_owned G) (gu_pid G)) (\<lambda>ks.
     bindi (needi (ks = []) ''guardian must start without children'') (\<lambda>_.
     bindi (gread (gu_prctl G)) (\<lambda>rc. if rc \<noteq> 0 then raise (OSError ''PR_SET_CHILD_SUBREAPER'') else ret ())))))))))"

definition guard_argv :: "json \<Rightarrow> string \<Rightarrow> string list" where
  "guard_argv m config = [the_str (jget (jget m ''python'') ''path''), ''-B'', ''-m'', ''tools.bench.g4_launch'', ''--supervisor'', config]"

definition new_rec :: "json \<Rightarrow> string list \<Rightarrow> int \<Rightarrow> ns \<Rightarrow> guard_rec" where
  "new_rec m args mem start = \<lparr>gr_run_id = jget m ''run_id'', gr_argv = args, gr_stop = None, gr_residual = None, gr_observed = [], gr_peak = 0, gr_available = mem,
     gr_seconds = snd (guard_limits m), gr_start = start, gr_owner = None, gr_exit = None, gr_error = None, gr_end = None\<rparr>"

text \<open>The marker consumes the one attempt before anything is started.\<close>

definition guard_attempt :: "(string \<Rightarrow> string) \<Rightarrow> guard_host \<Rightarrow> json \<Rightarrow> ('b guard_world_scheme, unit) io" where
  "guard_attempt sha G m =
     bindi (sys (\<lambda>t. read_regular MiB2 (gu_config G t))) (\<lambda>data.
     bindi (ps_identity (gu_kernel G) (gu_pid G)) (\<lambda>self.
     bindi (clock (gu_kernel G)) (\<lambda>now.
     guard_write G ''attempt.json'' (JObj [(''run_id'', jget m ''run_id''), (''config_sha256'', JStr (sha data)),
       (''guardian'', json_opt identity_json self), (''monotonic_ns'', JInt now)]))))"

definition g4_launch :: "nat \<Rightarrow> (string \<Rightarrow> string) \<Rightarrow> guard_host \<Rightarrow> string \<Rightarrow> ('b guard_world_scheme, guard_rec) io" where
  "g4_launch n sha G config =
     bindi (sys (\<lambda>t. g4_check sha (gu_host G t) True (gu_dir G t))) (\<lambda>m.
     bindi (guard_preflight G m) (\<lambda>_.
     bindi (guard_attempt sha G m) (\<lambda>_.
     bindi (available (gu_kernel G)) (\<lambda>mem.
     bindi (clock (gu_kernel G)) (\<lambda>start.
     bindi (modify (\<lambda>w. w\<lparr>grec := new_rec m (guard_argv m config) mem start, row := start_row [] start, proc := None, pidfd := False, returncode := None\<rparr>)) (\<lambda>_.
     bindi (guarded_child n sha G (guard_argv m config)) (\<lambda>_. gets grec)))))))"

definition launch_status :: "guard_rec \<Rightarrow> int" where
  "launch_status r = (if gr_exit r = Some 0 then 0 else 1)"


section \<open>What the guardian leaves alone\<close>

text \<open>Calls and reaping touch neither the record nor the launches; \<open>calls_frame\<close> is what they respect.\<close>

definition calls_frame :: "('b child_world_scheme \<Rightarrow> 'c) \<Rightarrow> bool" where
  "calls_frame f \<longleftrightarrow> (\<forall>w n. f (w\<lparr>tick := n\<rparr>) = f w) \<and> (\<forall>w p c. f (w\<lparr>log := world.log w @ [Reaped p c]\<rparr>) = f w)"

text \<open>The effects on the host other than reaping.\<close>

definition acts :: "effect list \<Rightarrow> effect list" where
  "acts = filter (\<lambda>e. case e of Reaped p c \<Rightarrow> False | _ \<Rightarrow> True)"

lemma acts_simps [simp]:
  "acts [] = []" "acts (xs @ ys) = acts xs @ acts ys" "acts (Reaped p c # xs) = acts xs" "acts (Popen a e i # xs) = Popen a e i # acts xs" "acts (Wrote f # xs) = Wrote f # acts xs"
  by (simp_all add: acts_def)

named_theorems calls_intros \<open>code that makes calls and reaps only\<close>

lemmas calls_basic [calls_intros] = keeps_basic keeps_bindi keeps_attempt keeps_None

lemma calls_sys [calls_intros]:
  "calls_frame f \<Longrightarrow> keeps f (sys g)" "calls_frame f \<Longrightarrow> keeps f (clock K)" "calls_frame f \<Longrightarrow> keeps f sleep" "calls_frame f \<Longrightarrow> keeps f (children H pid)"
  "calls_frame f \<Longrightarrow> keeps f (gread h)" "calls_frame f \<Longrightarrow> keeps f (emit (Reaped p c))"
  by (auto simp: calls_frame_def children_sys clock_def sleep_def gread_def emit_def intro!: keeps_sys keeps_modify)

lemma calls_ps_identity [calls_intros]: "calls_frame f \<Longrightarrow> keeps f (ps_identity K pid)"
  unfolding ps_identity_def by (auto intro!: calls_intros split: sum.split)

lemma calls_reap_adopted [calls_intros]:
  assumes "calls_frame f"
  shows "keeps f (reap_adopted H exclude)"
proof -
  have "keeps f (reap_each H exclude pids)" for pids using assms by (induction pids) (auto intro!: calls_intros)
  then show ?thesis unfolding reap_adopted_def using assms by (intro calls_intros)
qed

lemma calls_descendants [calls_intros]:
  assumes "calls_frame f"
  shows "keeps f (descendants n H pid)"
proof -
  have "keeps f (descend n H st)" for st using assms by (induction n H st rule: descend.induct) (auto intro!: calls_intros)
  then show ?thesis by (simp add: descendants_def)
qed

lemma calls_available [calls_intros]: "calls_frame f \<Longrightarrow> keeps f (available K)"
  unfolding available_def by (intro calls_intros)

lemma calls_observe_launch [calls_intros]: "calls_frame f \<Longrightarrow> keeps f (observe_launch sha G pid)"
  unfolding observe_launch_def launch_facts_def by (auto intro!: calls_intros split: option.split sum.split)

text \<open>The part of the world on which the exit of the supervisor rests.\<close>

definition exit_part :: "'b guard_world_scheme \<Rightarrow> effect list \<times> int option \<times> child_row \<times> int option \<times> int option \<times> (string \<times> string) list" where
  "exit_part w = (acts (world.log w), proc w, row w, returncode w, gr_exit (grec w), gfiles w)"

lemma cf_exit_part: "calls_frame exit_part" "calls_frame (\<lambda>w. (exit_part w, gr_stop (grec w)))" "calls_frame grec"
  by (simp_all add: calls_frame_def exit_part_def)

lemma keeps_observe_roles: "keeps (\<lambda>w. (exit_part w, gr_stop (grec w))) (observe_roles sha G leader pids)"
  by (induction pids) (auto simp: set_rec_def Let_def exit_part_def intro!: calls_intros keeps_modify cf_exit_part [unfolded exit_part_def [abs_def]] split: option.split)

lemma keeps_set_rec: "(\<And>r. gr_exit (f r) = gr_exit r) \<Longrightarrow> keeps exit_part (set_rec f)"
  unfolding set_rec_def by (rule keeps_modify) (simp add: exit_part_def)

section \<open>The exit of the supervisor\<close>

definition exit_observed :: "guard_host \<Rightarrow> int \<Rightarrow> nat \<Rightarrow> bool" where
  "exit_observed G pid now \<longleftrightarrow> (\<exists>t<now. \<exists>ev. k_waitid (gu_kernel G) t pid = Inr (Some ev))"

text \<open>The supervisor was seen to have exited, then the guardian had no other child, then it was reaped with this code.\<close>

definition exited_alone :: "guard_host \<Rightarrow> int \<Rightarrow> int \<Rightarrow> bool" where
  "exited_alone G pid c \<longleftrightarrow> (\<exists>t0 ev t1 ks t2. t0 < t1 \<and> t1 < t2 \<and> k_waitid (gu_kernel G) t0 pid = Inr (Some ev) \<and>
     kids_at (gu_owned G) (gu_pid G) t1 = Inr ks \<and> set ks \<subseteq> {pid} \<and> k_wait (gu_kernel G) t2 pid = Inr c)"

lemma keeps_guard_loop: "keeps exit_part (guard_loop n sha G t0 pid)"
proof (induction n)
  case (Suc n)
  have "keeps exit_part (observe_roles sha G leader pids)" for leader pids using keeps_observe_roles unfolding keeps_def by blast
  then show ?case using Suc by (auto simp: set_stop_def interrupts_def intro!: calls_intros cf_exit_part keeps_set_rec)
qed (simp add: keeps_def)

lemma bindi_step: "m w = Some (Inr x, w1) \<Longrightarrow> bindi m f w = f x w1"
  by (simp add: bindi_def)

lemma bindi_modify: "bindi (modify g) f w = f () (g w)"
  by (simp add: bindi_def modify_def)

lemma bindi_gets: "bindi (gets g) f w = f (g w) w"
  by (simp add: bindi_def gets_def)

lemma bindi_sys: "bindi (sys g) f w = (case g (tick w) of Inl e \<Rightarrow> Some (Inl e, w\<lparr>tick := Suc (tick w)\<rparr>) | Inr x \<Rightarrow> f x (w\<lparr>tick := Suc (tick w)\<rparr>))"
  by (simp add: bindi_def sys_def split: sum.split)

lemma children_step: "kids_at H pid (tick w) = Inr ks \<Longrightarrow> children H pid w = Some (Inr ks, w\<lparr>tick := Suc (tick w)\<rparr>)"
  by (simp add: children_sys sys_def)

lemma hoare_any: "hoare P m (\<lambda>_ _. True) (\<lambda>_ _. True)"
  by (auto simp: hoare_def split: sum.split)

lemma guard_loop_exit: "hoare (\<lambda>w. True) (guard_loop n sha G t0 pid) (\<lambda>_ w. gr_stop (grec w) = None \<longrightarrow> exit_observed G pid (tick w)) (\<lambda>_ _. True)"
    (is "hoare _ _ ?Q _")
proof (induction n)
  case (Suc n)
  have stop: "hoare (\<lambda>_. True) (set_stop s) ?Q (\<lambda>_ _. True)" for s by (auto simp: hoare_def set_stop_def set_rec_def io_simps)
  note seq = hoare_bindi [where R = "\<lambda>_ _. True", OF hoare_any]
  define rest where "rest = (bindi (reap_adopted (gu_owned G) (Some pid)) (\<lambda>_.
       bindi (descendants (Suc n) (gu_owned G) (gu_pid G)) (\<lambda>ds.
       bindi (set_rec (\<lambda>r. r\<lparr>gr_peak := max (gr_peak r) (length ds)\<rparr>)) (\<lambda>_.
       bindi (available (gu_kernel G)) (\<lambda>mem.
       bindi (set_rec (\<lambda>r. r\<lparr>gr_available := min (gr_available r) mem\<rparr>)) (\<lambda>_.
       bindi (observe_roles sha G pid (gu_order G (filter (\<lambda>d. d \<noteq> pid) ds))) (\<lambda>_.
       bindi (interrupts (gu_kernel G) t0) (\<lambda>sigs.
       bindi (gets grec) (\<lambda>r.
       bindi (if sigs \<noteq> [] then ret True else bindi (clock (gu_kernel G)) (\<lambda>now. ret (now - gr_start r > gr_seconds r * second))) (\<lambda>late.
         if late then set_stop ''interrupt_or_outer_timeout''
         else if length ds > 8 \<or> gr_available r < 2 * 1024 ^ 3 then set_stop ''process_count_or_headroom_stop''
         else bindi sleep (\<lambda>_. guard_loop n sha G t0 pid)))))))))) :: ('a guard_world_scheme, unit) io)"
  have step: "guard_loop (Suc n) sha G t0 pid w = (case k_waitid (gu_kernel G) (tick w) pid of
      Inl e \<Rightarrow> Some (Inl e, w\<lparr>tick := Suc (tick w)\<rparr>)
    | Inr event \<Rightarrow> if event \<noteq> None then Some (Inr (), w\<lparr>tick := Suc (tick w)\<rparr>) else rest (w\<lparr>tick := Suc (tick w)\<rparr>))" for w
    unfolding guard_loop.simps bindi_sys rest_def by (simp add: ret_def split: sum.split)
  have r: "hoare (\<lambda>_. True) rest ?Q (\<lambda>_ _. True)" unfolding rest_def using Suc.IH stop by (intro seq) (auto intro!: seq)
  show ?case
  proof (rule hoareI)
    fix w w' :: "'a guard_world_scheme" and r assume run: "guard_loop (Suc n) sha G t0 pid w = Some (r, w')"
    show "case r of Inl e \<Rightarrow> True | Inr x \<Rightarrow> ?Q x w'"
    proof (cases "k_waitid (gu_kernel G) (tick w) pid")
      case (Inl e)
      then show ?thesis using run unfolding step by auto
    next
      case (Inr event)
      have "exit_observed G pid (Suc (tick w))" if "event = Some ev" for ev using Inr that by (auto simp: exit_observed_def)
      then show ?thesis using Inr run r [THEN hoareD, of "w\<lparr>tick := Suc (tick w)\<rparr>" r w'] unfolding step
        by (auto split: if_splits)
    qed
  qed
qed (simp add: hoare_def)

lemma proc_wait_seen:
  assumes "proc_wait H pid w = Some (r, w')"
  shows "(\<exists>e. r = Inl e \<and> w' = w\<lparr>tick := Suc (tick w)\<rparr>) \<or>
     (\<exists>c. r = Inr () \<and> k_wait (oh_kernel H) (tick w) pid = Inr c \<and> w' = w\<lparr>tick := Suc (tick w), log := world.log w @ [Reaped pid c], returncode := Some c\<rparr>)"
  using assms unfolding proc_wait_def by (auto simp: bindi_Some_iff sys_def emit_def io_apply split: sum.splits)

text \<open>
  Settling: an exit code in the record is that of the reaped supervisor, and there was no stop and no cleanup.
\<close>

definition settled_part :: "guard_host \<Rightarrow> int \<Rightarrow> 'b guard_world_scheme \<Rightarrow> 'b guard_world_scheme \<Rightarrow> bool" where
  "settled_part G pid w w' \<longleftrightarrow> acts (world.log w') = acts (world.log w) \<and> proc w' = proc w \<and> row w' = row w \<and> gfiles w' = gfiles w \<and>
     (\<forall>c. gr_exit (grec w') = Some c \<longrightarrow> returncode w' = Some c \<and> exited_alone G pid c \<and> gr_stop (grec w') = None)"

lemma settle_supervisor_done:
  assumes "settle_supervisor G pid w = Some (r, w')" "exit_observed G pid (tick w)" "gr_exit (grec w) = None" "gr_stop (grec w) = None"
  shows "settled_part G pid w w'"
proof -
  let ?f = "\<lambda>w. (exit_part w, gr_stop (grec w))"
  have J: "settled_part G pid w v" if "?f v = ?f w" for v using that assms(3) by (simp add: settled_part_def exit_part_def)
  obtain r1 w1 where s1: "reap_adopted (gu_owned G) (Some pid) w = Some (r1, w1)"
    using assms(1) by (cases "reap_adopted (gu_owned G) (Some pid) w") (auto simp: settle_supervisor_def bindi_def)
  have f1: "?f w1 = ?f w" using keepsD [OF calls_reap_adopted [OF cf_exit_part(2)] s1] by simp
  have t1: "tick w \<le> tick w1" using logsD [OF logs_reap_adopted [of "\<lambda>_. True"] s1] by simp
  let ?w2 = "w1\<lparr>tick := Suc (tick w1)\<rparr>"
  have f2: "?f ?w2 = ?f w" using f1 by (simp add: exit_part_def)
  show ?thesis
  proof (cases r1)
    case (Inl e)
    then show ?thesis using assms(1) s1 J [OF f1] by (simp add: settle_supervisor_def bindi_def)
  next
    case r1: (Inr u)
    show ?thesis
    proof (cases "kids_at (gu_owned G) (gu_pid G) (tick w1)")
      case (Inl e)
      then show ?thesis using assms(1) s1 r1 J [OF f2] by (simp add: settle_supervisor_def bindi_def children_sys sys_def)
    next
      case ks: (Inr ks)
      show ?thesis
      proof (cases "list_ex (\<lambda>k. k \<noteq> pid) ks")
        case True
        then have "w' = ?w2\<lparr>grec := (grec w1)\<lparr>gr_stop := Some ''unexpected_surviving_child''\<rparr>\<rparr>"
          using assms(1) s1 r1 ks by (simp add: settle_supervisor_def bindi_def children_sys sys_def set_stop_def set_rec_def modify_def)
        then show ?thesis using f1 assms(3) by (simp add: settled_part_def exit_part_def)
      next
        case False
        let ?rest = "bindi (reap_adopted (gu_owned G) None) (\<lambda>_. bindi (children (gu_owned G) (gu_pid G)) (\<lambda>ks. set_rec (\<lambda>r. r\<lparr>gr_residual := Some ks\<rparr>)))"
        have run: "bindi (proc_wait (gu_owned G) pid) (\<lambda>_. bindi (modify (\<lambda>w. w\<lparr>grec := (grec w)\<lparr>gr_exit := returncode w\<rparr>\<rparr>)) (\<lambda>_. ?rest)) ?w2 = Some (r, w')"
          using assms(1) s1 r1 ks False unfolding settle_supervisor_def
          by (simp add: bindi_step [of "reap_adopted (gu_owned G) (Some pid)"] bindi_step [of "children (gu_owned G) (gu_pid G)", OF children_step])
        obtain r3 w3 where w3: "proc_wait (gu_owned G) pid ?w2 = Some (r3, w3)" using run by (cases "proc_wait (gu_owned G) pid ?w2") (auto simp: bindi_def)
        from proc_wait_seen [OF w3] show ?thesis
        proof (elim disjE exE conjE)
          fix e assume "r3 = Inl e" "w3 = ?w2\<lparr>tick := Suc (tick ?w2)\<rparr>"
          moreover from this have "settled_part G pid w w3" using f1 by (intro J) (simp add: exit_part_def)
          ultimately show ?thesis using run w3 by (simp add: bindi_def)
        next
          fix c assume c: "r3 = Inr ()" "k_wait (gu_kernel G) (tick ?w2) pid = Inr c"
            "w3 = ?w2\<lparr>tick := Suc (tick ?w2), log := world.log ?w2 @ [Reaped pid c], returncode := Some c\<rparr>"
          let ?w4 = "w3\<lparr>grec := (grec w3)\<lparr>gr_exit := returncode w3\<rparr>\<rparr>"
          have r4: "?rest ?w4 = Some (r, w')" using run w3 c(1) by (simp add: bindi_step bindi_modify)
          have "keeps ?f ?rest" unfolding set_rec_def by (intro calls_intros cf_exit_part keeps_modify) (simp add: exit_part_def)
          from keepsD [OF this r4] have f4: "?f w' = ?f ?w4" .
          have "exited_alone G pid c"
            using assms(2) ks False c(2) t1 unfolding exited_alone_def exit_observed_def
            by (elim exE conjE, intro exI [of _ "tick w1"] exI conjI) (auto simp: list_ex_iff)
          then show ?thesis using f4 f1 c(3) assms(4) by (simp add: settled_part_def exit_part_def)
        qed
      qed
    qed
  qed
qed

text \<open>The \<open>try\<close> around the supervisor: what an exit code in the record stands for, whether the body returned or raised.\<close>

definition supervised_exit :: "guard_host \<Rightarrow> string list \<Rightarrow> effect list \<Rightarrow> (string \<times> string) list \<Rightarrow> 'b guard_world_scheme \<Rightarrow> bool" where
  "supervised_exit G args L F w \<longleftrightarrow> gfiles w = F \<and> (\<forall>c. gr_exit (grec w) = Some c \<longrightarrow>
     (\<exists>pid. proc w = Some pid \<and> acts (world.log w) = L @ [Popen args (guard_env G) pid] \<and> returncode w = Some c \<and>
       cr_signals (row w) = [] \<and> exited_alone G pid c))"

lemma keeps_guard_cleanup: "keeps (\<lambda>w. (gr_exit (grec w), gfiles w)) (guard_cleanup n G pid)"
  unfolding guard_cleanup_def harness_cleanup_def proc_wait_def set_rec_def
  by (intro keeps_intros keeps_modify) (auto simp: harness_frame_def)

lemma supervised_exit_cleanup:
  assumes "guard_cleanup n G pid w = Some (r, w')" "gr_exit (grec w) = None" "gfiles w = F"
  shows "supervised_exit G args L F w'"
  using keepsD [OF keeps_guard_cleanup assms(1)] assms(2,3) by (simp add: supervised_exit_def)

lemma guard_child_exit:
  assumes "guard_child n sha G t0 args w = Some (r, w')" "gr_exit (grec w) = None" "gr_stop (grec w) = None" "cr_signals (row w) = []"
  shows "supervised_exit G args (acts (world.log w)) (gfiles w) w'"
proof -
  let ?env = "guard_env G"
  let ?L = "acts (world.log w)"
  have none: "supervised_exit G args ?L (gfiles w) v" if "gr_exit (grec v) = None" "gfiles v = gfiles w" for v using that by (simp add: supervised_exit_def)
  show ?thesis
  proof (cases "k_popen (gu_kernel G) (tick w) args ?env")
    case (Inl e)
    then have "w' = w\<lparr>tick := Suc (tick w)\<rparr>" using assms(1) by (simp add: guard_child_def popen_def bindi_def sys_def)
    then show ?thesis using none [of w'] assms(2) by simp
  next
    case (Inr pid)
    let ?w1 = "w\<lparr>tick := Suc (tick w), log := world.log w @ [Popen args ?env pid], proc := Some pid\<rparr>"
    define rest where "rest = (bindi (ps_identity (gu_kernel G) pid) (\<lambda>i. bindi (set_rec (\<lambda>r. r\<lparr>gr_owner := Some i\<rparr>)) (\<lambda>_. guard_loop n sha G t0 pid)) :: ('a guard_world_scheme, unit) io)"
    define close where "close = (bindi (gets (\<lambda>w. gr_stop (grec w))) (\<lambda>stop. bindi (if stop = None then settle_supervisor G pid else ret ()) (\<lambda>_.
       bindi (gets (\<lambda>w. gr_stop (grec w))) (\<lambda>stop. if stop = None then ret () else guard_cleanup n G pid))) :: ('a guard_world_scheme, unit) io)"
    have po: "popen (gu_kernel G) args ?env w = Some (Inr pid, w\<lparr>tick := Suc (tick w), log := world.log w @ [Popen args ?env pid]\<rparr>)"
      using Inr by (simp add: popen_def bindi_def sys_def emit_def modify_def ret_def)
    have run: "bindi rest (\<lambda>_. close) ?w1 = Some (r, w')"
      using assms(1) unfolding guard_child_def rest_def close_def bindi_assoc by (simp add: po bindi_step bindi_modify)
    have q: "keeps exit_part rest"
      unfolding rest_def by (intro calls_intros cf_exit_part keeps_set_rec keeps_guard_loop) simp
    obtain r1 w2 where w2: "rest ?w1 = Some (r1, w2)" using run by (cases "rest ?w1") (auto simp: bindi_def)
    have f2: "acts (world.log w2) = ?L @ [Popen args ?env pid]" "proc w2 = Some pid" "cr_signals (row w2) = []" "gr_exit (grec w2) = None" "gfiles w2 = gfiles w"
      using keepsD [OF q w2] assms(2,4) by (simp_all add: exit_part_def)
    show ?thesis
    proof (cases r1)
      case (Inl e)
      then show ?thesis using run w2 none [of w2] f2 by (simp add: bindi_def)
    next
      case r1: (Inr u)
      have cl: "close w2 = Some (r, w')" using run w2 r1 by (simp add: bindi_def)
      show ?thesis
      proof (cases "gr_stop (grec w2)")
        case (Some x)
        then have "guard_cleanup n G pid w2 = Some (r, w')" using cl by (simp add: close_def bindi_def gets_def ret_def)
        then show ?thesis using f2 by (intro supervised_exit_cleanup)
      next
        case None
        have "hoare (\<lambda>w. True) rest (\<lambda>_ w. gr_stop (grec w) = None \<longrightarrow> exit_observed G pid (tick w)) (\<lambda>_ _. True)"
          unfolding rest_def by (intro hoare_bindi [where R = "\<lambda>_ _. True", OF hoare_any] guard_loop_exit)
        from hoareD [OF this _ w2] have ob: "exit_observed G pid (tick w2)" using None r1 by simp
        obtain r3 w3 where w3: "settle_supervisor G pid w2 = Some (r3, w3)"
          using cl None by (cases "settle_supervisor G pid w2") (auto simp: close_def bindi_def gets_def)
        have st: "settled_part G pid w2 w3" by (rule settle_supervisor_done [OF w3 ob f2(4) None])
        then have ok: "supervised_exit G args ?L (gfiles w) w3" using f2 by (auto simp: settled_part_def supervised_exit_def)
        show ?thesis
        proof (cases "\<exists>x. gr_stop (grec w3) = Some x \<and> (\<exists>v. r3 = Inr v)")
          case True
          then have "guard_cleanup n G pid w3 = Some (r, w')" using cl None w3 by (auto simp: close_def bindi_def gets_def)
          moreover have "gr_exit (grec w3) = None" using st True by (cases "gr_exit (grec w3)") (auto simp: settled_part_def)
          moreover have "gfiles w3 = gfiles w" using st f2(5) by (simp add: settled_part_def)
          ultimately show ?thesis by (rule supervised_exit_cleanup)
        next
          case False
          then have "w' = w3" using cl None w3 by (cases r3) (auto simp: close_def bindi_def gets_def ret_def)
          then show ?thesis using ok by simp
        qed
      qed
    qed
  qed
qed

lemma guard_error_exit:
  assumes "guard_error n G e w = Some (r, w')" "supervised_exit G args L F w"
  shows "supervised_exit G args L F w'"
proof -
  let ?w1 = "w\<lparr>grec := (grec w)\<lparr>gr_stop := Some ''guardian_error'', gr_error := Some (error_type e, error_message e)\<rparr>\<rparr>"
  have ok: "supervised_exit G args L F ?w1" using assms(2) by (simp add: supervised_exit_def)
  have run: "(case proc w of Some pid \<Rightarrow> if returncode w = None then guard_cleanup n G pid else ret () | None \<Rightarrow> ret ()) ?w1 = Some (r, w')"
    using assms(1) by (cases "proc w") (simp_all add: guard_error_def set_rec_def bindi_modify bindi_gets)
  show ?thesis
  proof (cases "\<exists>pid. proc w = Some pid \<and> returncode w = None")
    case True
    then obtain pid where "guard_cleanup n G pid ?w1 = Some (r, w')" "returncode w = None" using run by auto
    moreover from this have "gr_exit (grec ?w1) = None" using assms(2) by (cases "gr_exit (grec w)") (auto simp: supervised_exit_def)
    moreover have "gfiles ?w1 = F" using ok by (simp add: supervised_exit_def)
    ultimately show ?thesis by (intro supervised_exit_cleanup [of n G pid ?w1])
  next
    case False
    then have "w' = ?w1" using run by (auto simp: ret_def split: option.splits if_splits)
    then show ?thesis using ok by simp
  qed
qed

text \<open>\<open>finally\<close>: the record as it is published.\<close>

definition guarded_exit :: "guard_host \<Rightarrow> string list \<Rightarrow> effect list \<Rightarrow> (string \<times> string) list \<Rightarrow> 'b guard_world_scheme \<Rightarrow> bool" where
  "guarded_exit G args L F w \<longleftrightarrow> gfiles w = F @ [(''guardian.json'', encoded (guard_json (cr_signals (row w)) (grec w)))] \<and>
     (\<forall>c. gr_exit (grec w) = Some c \<longrightarrow> cr_signals (row w) = [] \<and>
       (\<exists>pid. acts (world.log w) = L @ [Popen args (guard_env G) pid, Wrote ''guardian.json''] \<and> exited_alone G pid c))"

lemma supervised_exit_tick: "supervised_exit G args L F (w\<lparr>tick := n\<rparr>) = supervised_exit G args L F w"
  by (simp add: supervised_exit_def)

lemma guard_write_step:
  "guard_write G name v w = (case k_write (gu_kernel G) (tick w) name of Inl e \<Rightarrow> Some (Inl e, w\<lparr>tick := Suc (tick w)\<rparr>)
     | Inr x \<Rightarrow> Some (Inr (), w\<lparr>tick := Suc (tick w), log := world.log w @ [Wrote name], gfiles := gfiles w @ [(name, encoded v)]\<rparr>))"
  by (simp add: guard_write_def bindi_sys emit_def bindi_modify split: sum.split) (simp add: modify_def)

lemma guard_finish_publishes:
  assumes "guard_finish G w = Some (Inr u, w')" "supervised_exit G args L F w"
  shows "guarded_exit G args L F w'"
proof -
  let ?w1 = "w\<lparr>tick := Suc (tick w), grec := (grec w)\<lparr>gr_end := Some (k_clock (gu_kernel G) (tick w))\<rparr>\<rparr>"
  have "guard_write G ''guardian.json'' (guard_json (cr_signals (row ?w1)) (grec ?w1)) ?w1 = Some (Inr u, w')"
    using assms(1) by (simp add: guard_finish_def bindi_clock set_rec_def bindi_modify bindi_gets)
  then show ?thesis using assms(2) by (auto simp: guard_write_step guarded_exit_def supervised_exit_def split: sum.splits)
qed

definition fresh_guard :: "effect list \<Rightarrow> (string \<times> string) list \<Rightarrow> 'b guard_world_scheme \<Rightarrow> bool" where
  "fresh_guard L F w \<longleftrightarrow> gr_exit (grec w) = None \<and> gr_stop (grec w) = None \<and> cr_signals (row w) = [] \<and> acts (world.log w) = L \<and> gfiles w = F"

lemma hoare_guard_child: "hoare (fresh_guard L F) (guard_child n sha G t0 args) (\<lambda>_. supervised_exit G args L F) (\<lambda>_. supervised_exit G args L F)"
proof (rule hoareI)
  fix w r w' assume "fresh_guard L F w" "guard_child n sha G t0 args w = Some (r, w')"
  then have "supervised_exit G args L F w'" using guard_child_exit [of n sha G t0 args w r w'] by (simp add: fresh_guard_def)
  then show "case r of Inl e \<Rightarrow> supervised_exit G args L F w' | Inr x \<Rightarrow> supervised_exit G args L F w'" by (simp split: sum.split)
qed

lemma guarded_child_exit:
  assumes "guarded_child n sha G args w = Some (Inr u, w')" "fresh_guard L F w"
  shows "guarded_exit G args L F w'"
proof -
  let ?S = "supervised_exit G args L F"
  have out: "hoare (fresh_guard L F) (with_output K (with_output K (guard_child n sha G t0 args))) (\<lambda>_. ?S) (\<lambda>_. ?S)" for K t0
    by (intro hoare_with_output hoare_guard_child) (auto simp: fresh_guard_def supervised_exit_def)
  have err: "hoare ?S (guard_error n G e) (\<lambda>_. ?S) (\<lambda>_. ?S)" for e
    by (rule hoareI) (auto dest: guard_error_exit split: sum.split)
  have fin: "hoare ?S (guard_finish G) (\<lambda>_. guarded_exit G args L F) (\<lambda>_ _. True)"
    by (rule hoareI) (auto dest: guard_finish_publishes split: sum.split)
  have body: "hoare (fresh_guard L F) (attempt (bindi (attempt (with_output K (with_output K (guard_child n sha G t0 args))))
      (\<lambda>r. case r of Inl e \<Rightarrow> guard_error n G e | Inr u \<Rightarrow> ret ()))) (\<lambda>_. ?S) (\<lambda>_ _. True)" for K t0
    by (intro hoare_attempt hoare_bindi [where R = "\<lambda>_. ?S"] out) (auto intro: err hoare_ret split: sum.split)
  have "hoare (fresh_guard L F) (guarded_child n sha G args) (\<lambda>_. guarded_exit G args L F) (\<lambda>_ _. True)"
    unfolding guarded_child_def
    by (rule hoare_bindi [where R = "\<lambda>_. fresh_guard L F"], simp add: hoare_def io_simps)
      (rule hoare_bindi [OF body], rule hoare_bindi [OF fin], auto simp: hoare_def io_simps split: sum.split)
  from hoare_InrD [OF this assms(2,1)] show ?thesis .
qed

section \<open>The exit status of the guardian\<close>

text \<open>What a successful preflight has seen, call by call.\<close>

definition clear_start :: "guard_host \<Rightarrow> json \<Rightarrow> nat \<Rightarrow> bool" where
  "clear_start G m t \<longleftrightarrow> gu_primitives G \<and>
     (\<exists>raw kib. k_meminfo (gu_kernel G) t = Inr raw \<and> first_available (str_splitlines raw) = Inr kib \<and> fst (guard_limits m) \<le> kib * 1024) \<and>
     (\<exists>load cpus. gu_load1 G (t + 1) = Inr load \<and> gu_cpus G (t + 2) = Inr cpus \<and> \<not> dec_le (cpus, 0) (number load)) \<and> \<not> gu_ipc G (t + 3) \<and>
     kids_at (gu_owned G) (gu_pid G) (t + 4) = Inr [] \<and> gu_prctl G (t + 5) = 0"

lemma preflight_clear: "guard_preflight G m w = Some (Inr u, w') \<Longrightarrow> clear_start G m (tick w)"
  by (auto simp: guard_preflight_def available_def io_simps children_sys gread_def sys_def clear_start_def numeral_eq_Suc split: if_splits sum.splits)

definition acts_files :: "'b guard_world_scheme \<Rightarrow> effect list \<times> (string \<times> string) list" where
  "acts_files w = (acts (world.log w), gfiles w)"

lemma hf_acts: "harness_frame acts_files" "calls_frame acts_files" "harness_frame (\<lambda>w. acts (world.log w))" "calls_frame (\<lambda>w. acts (world.log w))"
  by (auto simp: harness_frame_def calls_frame_def acts_files_def)

lemma keeps_guard_preflight: "calls_frame f \<Longrightarrow> keeps f (guard_preflight G m)"
  unfolding guard_preflight_def by (auto intro!: calls_intros)

text \<open>Whatever happens, at most the supervisor is started.\<close>

definition at_most :: "guard_host \<Rightarrow> string list \<Rightarrow> effect list \<Rightarrow> 'b guard_world_scheme \<Rightarrow> bool" where
  "at_most G args L w \<longleftrightarrow> (\<exists>pid fs. acts (world.log w) = L @ fs \<and> subseq fs [Popen args (guard_env G) pid])"

lemma keeps_acts_set_rec: "keeps (\<lambda>w. acts (world.log w)) (set_rec f)"
  unfolding set_rec_def by (rule keeps_modify) simp

lemma keeps_acts_observe: "keeps (\<lambda>w. acts (world.log w)) (observe_roles sha G leader pids)"
  by (induction pids) (auto simp: Let_def intro!: calls_intros hf_acts keeps_acts_set_rec split: option.split)

lemma keeps_acts_loop: "keeps (\<lambda>w. acts (world.log w)) (guard_loop n sha G t0 pid)"
  by (induction n) (auto simp: set_stop_def interrupts_def intro!: calls_intros hf_acts keeps_acts_set_rec keeps_acts_observe)

lemma keeps_acts_wait: "keeps (\<lambda>w. acts (world.log w)) (proc_wait H pid)"
  unfolding proc_wait_def by (intro calls_intros hf_acts keeps_modify) simp

lemma keeps_acts_cleanup: "keeps (\<lambda>w. acts (world.log w)) (guard_cleanup n G pid)"
  unfolding guard_cleanup_def harness_cleanup_def by (intro keeps_intros hf_acts keeps_acts_set_rec keeps_acts_wait)

lemma keeps_acts_settle: "keeps (\<lambda>w. acts (world.log w)) (settle_supervisor G pid)"
  unfolding settle_supervisor_def set_stop_def by (auto intro!: calls_intros hf_acts keeps_acts_set_rec keeps_acts_wait keeps_modify)

lemma hoare_acts: "keeps (\<lambda>w. acts (world.log w)) m \<Longrightarrow> hoare (at_most G args L) m (\<lambda>_. at_most G args L) (\<lambda>_. at_most G args L)"
  by (erule hoare_keeps) (simp add: at_most_def)

lemma hoare_child_acts: "hoare (\<lambda>w. acts (world.log w) = L) (guard_child n sha G t0 args) (\<lambda>_. at_most G args L) (\<lambda>_. at_most G args L)"
proof -
  have "hoare (\<lambda>w. acts (world.log w) = L) (popen (gu_kernel G) args (guard_env G)) (\<lambda>_. at_most G args L) (\<lambda>_. at_most G args L)"
    by (auto simp: hoare_def popen_def io_simps sys_def emit_def at_most_def split: sum.splits)
  then show ?thesis unfolding guard_child_def
    by (rule hoare_bindi)
      (intro hoare_acts calls_intros hf_acts keeps_acts_set_rec keeps_acts_loop keeps_acts_settle keeps_acts_cleanup keeps_modify, auto intro!: calls_intros keeps_acts_settle keeps_acts_cleanup)
qed

text \<open>The record is written last.\<close>

definition guard_footprint :: "guard_host \<Rightarrow> string list \<Rightarrow> effect list \<Rightarrow> 'b guard_world_scheme \<Rightarrow> bool" where
  "guard_footprint G args L w \<longleftrightarrow> (\<exists>pid fs. acts (world.log w) = L @ fs \<and> subseq fs [Popen args (guard_env G) pid, Wrote ''guardian.json''])"

lemma hoare_finish_acts: "hoare (at_most G args L) (guard_finish G) (\<lambda>_. guard_footprint G args L) (\<lambda>_. guard_footprint G args L)"
proof (rule hoareI)
  fix w r w' assume m: "at_most G args L w" and run: "guard_finish G w = Some (r, w')"
  obtain pid fs where fs: "acts (world.log w) = L @ fs" "subseq fs [Popen args (guard_env G) pid]" using m by (auto simp: at_most_def)
  have "acts (world.log w') = L @ fs \<or> acts (world.log w') = L @ fs @ [Wrote ''guardian.json'']"
    using run fs(1) by (auto simp: guard_finish_def bindi_clock set_rec_def bindi_modify bindi_gets guard_write_step split: sum.splits)
  moreover have "subseq fs [Popen args (guard_env G) pid, Wrote ''guardian.json'']" "subseq (fs @ [Wrote ''guardian.json'']) [Popen args (guard_env G) pid, Wrote ''guardian.json'']"
    using list_emb_append_mono [OF fs(2), of "[]" "[Wrote ''guardian.json'']"] list_emb_append_mono [OF fs(2), of "[Wrote ''guardian.json'']" "[Wrote ''guardian.json'']"] by auto
  ultimately have "guard_footprint G args L w'" unfolding guard_footprint_def by blast
  then show "case r of Inl e \<Rightarrow> guard_footprint G args L w' | Inr x \<Rightarrow> guard_footprint G args L w'" by (simp split: sum.split)
qed

lemma guarded_child_acts:
  assumes "guarded_child n sha G args w = Some (r, w')"
  shows "guard_footprint G args (acts (world.log w)) w'"
proof -
  let ?P = "\<lambda>v. acts (world.log v) = acts (world.log w)"
  let ?A = "at_most G args (acts (world.log w))"
  let ?F = "guard_footprint G args (acts (world.log w))"
  have out: "hoare ?P (with_output K (with_output K (guard_child n sha G t0 args))) (\<lambda>_. ?A) (\<lambda>_. ?A)" for K t0
    by (intro hoare_with_output hoare_child_acts) (auto simp: at_most_def)
  have err: "hoare ?A (guard_error n G e) (\<lambda>_. ?A) (\<lambda>_. ?A)" for e
    unfolding guard_error_def by (intro hoare_acts) (auto intro!: calls_intros keeps_acts_set_rec keeps_acts_cleanup split: option.split)
  have body: "hoare ?P (attempt (bindi (attempt (with_output K (with_output K (guard_child n sha G t0 args))))
      (\<lambda>r. case r of Inl e \<Rightarrow> guard_error n G e | Inr u \<Rightarrow> ret ()))) (\<lambda>_. ?A) (\<lambda>_. ?F)" for K t0
    by (intro hoare_attempt hoare_bindi [where R = "\<lambda>_. ?A"] out) (auto intro: err hoare_ret split: sum.split)
  have "hoare ?P (guarded_child n sha G args) (\<lambda>_. ?F) (\<lambda>_. ?F)"
    unfolding guarded_child_def
    by (rule hoare_bindi [where R = "\<lambda>_. ?P"], simp add: hoare_def io_simps)
      (rule hoare_bindi [OF body], rule hoare_bindi [OF hoare_finish_acts], auto simp: hoare_def io_simps split: sum.split)
  from hoareD [OF this refl assms] show ?thesis by (cases r) auto
qed

text \<open>The attempt, and what follows it.\<close>

lemma acts_files_tick [simp]: "acts_files (w\<lparr>tick := n\<rparr>) = acts_files w"
  by (simp add: acts_files_def)

lemma hoare_files: "keeps acts_files m \<Longrightarrow> hoare (\<lambda>v. acts_files v = c) m (\<lambda>_ v. acts_files v = c) (\<lambda>_ v. acts_files v = c)"
  by (erule hoare_keeps) simp

lemma guard_attempt_acts:
  assumes "guard_attempt sha G m w = Some (r, w')"
  shows "case r of Inl e \<Rightarrow> acts_files w' = acts_files w
    | Inr u \<Rightarrow> (\<exists>doc. acts_files w' = (acts (world.log w) @ [Wrote ''attempt.json''], gfiles w @ [(''attempt.json'', encoded doc)]))"
proof -
  let ?P = "\<lambda>v. acts_files v = acts_files w"
  have "hoare ?P (guard_write G ''attempt.json'' doc) (\<lambda>_ v. \<exists>doc. acts_files v = (acts (world.log w) @ [Wrote ''attempt.json''], gfiles w @ [(''attempt.json'', encoded doc)])) (\<lambda>_. ?P)" for doc
    by (auto simp: hoare_def guard_write_step acts_files_def split: sum.splits)
  then have "hoare ?P (guard_attempt sha G m) (\<lambda>_ v. \<exists>doc. acts_files v = (acts (world.log w) @ [Wrote ''attempt.json''], gfiles w @ [(''attempt.json'', encoded doc)])) (\<lambda>_. ?P)"
    unfolding guard_attempt_def by (intro hoare_bindi [OF hoare_files] calls_intros hf_acts)
  from hoareD [OF this refl assms] show ?thesis .
qed

text \<open>The manifest that the launch is bound to, after the preflight.\<close>

definition admitted :: "(string \<Rightarrow> string) \<Rightarrow> guard_host \<Rightarrow> nat \<Rightarrow> json \<Rightarrow> bool" where
  "admitted sha G t m \<longleftrightarrow> g4_check sha (gu_host G t) True (gu_dir G t) = Inr m \<and> clear_start G m (Suc t)"

definition one_attempt :: "(string \<Rightarrow> string) \<Rightarrow> guard_host \<Rightarrow> string \<Rightarrow> 'b guard_world_scheme \<Rightarrow> 'b guard_world_scheme \<Rightarrow> bool" where
  "one_attempt sha G config w v \<longleftrightarrow> acts (world.log v) = acts (world.log w) \<or>
     (\<exists>m pid fs. admitted sha G (tick w) m \<and> acts (world.log v) = acts (world.log w) @ Wrote ''attempt.json'' # fs \<and>
        subseq fs [Popen (guard_argv m config) (guard_env G) pid, Wrote ''guardian.json''])"

definition exit_evidence :: "(string \<Rightarrow> string) \<Rightarrow> guard_host \<Rightarrow> string \<Rightarrow> 'b guard_world_scheme \<Rightarrow> 'b guard_world_scheme \<Rightarrow> guard_rec \<Rightarrow> int \<Rightarrow> bool" where
  "exit_evidence sha G config w v r c \<longleftrightarrow> (\<exists>m pid doc. admitted sha G (tick w) m \<and> exited_alone G pid c \<and>
     acts (world.log v) = acts (world.log w) @ [Wrote ''attempt.json'', Popen (guard_argv m config) (guard_env G) pid, Wrote ''guardian.json''] \<and>
     gfiles v = gfiles w @ [(''attempt.json'', encoded doc), (''guardian.json'', encoded (guard_json [] r))])"

lemma guarded_child_ends:
  assumes "admitted sha G (tick w) m"
  shows "hoare (fresh_guard (acts (world.log w) @ [Wrote ''attempt.json'']) (gfiles w @ [(''attempt.json'', encoded doc)]))
     (bindi (guarded_child n sha G (guard_argv m config)) (\<lambda>_. gets grec))
     (\<lambda>r v. one_attempt sha G config w v \<and> (\<forall>c. gr_exit r = Some c \<longrightarrow> exit_evidence sha G config w v r c)) (\<lambda>_. one_attempt sha G config w)"
proof (rule hoareI)
  fix w1 w' :: "'a guard_world_scheme" and r
  let ?L = "acts (world.log w) @ [Wrote ''attempt.json'']" and ?F = "gfiles w @ [(''attempt.json'', encoded doc)]"
  assume f: "fresh_guard ?L ?F w1" and run: "bindi (guarded_child n sha G (guard_argv m config)) (\<lambda>_. gets grec) w1 = Some (r, w')"
  then obtain r1 where r1: "guarded_child n sha G (guard_argv m config) w1 = Some (r1, w')" "r = (case r1 of Inl e \<Rightarrow> Inl e | Inr u \<Rightarrow> Inr (grec w'))"
    by (auto simp: io_simps)
  have "guard_footprint G (guard_argv m config) ?L w'" using guarded_child_acts [OF r1(1)] f by (simp add: fresh_guard_def)
  then have one: "one_attempt sha G config w w'" using assms by (auto simp: guard_footprint_def one_attempt_def)
  have "exit_evidence sha G config w w' (grec w') c" if "r1 = Inr u" "gr_exit (grec w') = Some c" for u c
    using guarded_child_exit [OF r1(1) [unfolded that(1)] f] that(2) assms by (auto simp: guarded_exit_def exit_evidence_def)
  then show "case r of Inl e \<Rightarrow> one_attempt sha G config w w' | Inr r \<Rightarrow> one_attempt sha G config w w' \<and> (\<forall>c. gr_exit r = Some c \<longrightarrow> exit_evidence sha G config w w' r c)"
    using one r1(2) by (auto split: sum.splits)
qed

lemma hoare_g4_launch:
  "hoare (\<lambda>v. v = w) (g4_launch n sha G config) (\<lambda>r v. one_attempt sha G config w v \<and> (\<forall>c. gr_exit r = Some c \<longrightarrow> exit_evidence sha G config w v r c)) (\<lambda>_. one_attempt sha G config w)"
    (is "hoare _ _ ?Q ?E")
proof -
  let ?c = "\<lambda>m. g4_check sha (gu_host G (tick w)) True (gu_dir G (tick w)) = Inr m"
  let ?a = "\<lambda>m. admitted sha G (tick w) m"
  let ?A = "\<lambda>m doc v. ?a m \<and> acts_files v = (acts (world.log w) @ [Wrote ''attempt.json''], gfiles w @ [(''attempt.json'', encoded doc)])"
  have quiet: "one_attempt sha G config w v" if "acts_files v = acts_files w" for v using that by (simp add: one_attempt_def acts_files_def)
  have spent: "one_attempt sha G config w v" if "?A m doc v" for m doc v using that by (auto simp: one_attempt_def acts_files_def)
  have check: "hoare (\<lambda>v. v = w) (sys (\<lambda>t. g4_check sha (gu_host G t) True (gu_dir G t))) (\<lambda>m v. ?c m \<and> acts_files v = acts_files w \<and> tick v = Suc (tick w)) ?E"
    by (auto simp: hoare_def sys_def quiet split: sum.splits)
  have pre: "hoare (\<lambda>v. ?c m \<and> acts_files v = acts_files w \<and> tick v = Suc (tick w)) (guard_preflight G m) (\<lambda>_ v. ?a m \<and> acts_files v = acts_files w) ?E" for m
  proof (rule hoareI)
    fix v v' :: "'a guard_world_scheme" and r assume P: "?c m \<and> acts_files v = acts_files w \<and> tick v = Suc (tick w)" and run: "guard_preflight G m v = Some (r, v')"
    have f: "acts_files v' = acts_files w" using keepsD [OF keeps_guard_preflight [OF hf_acts(2)] run] P by simp
    show "case r of Inl e \<Rightarrow> one_attempt sha G config w v' | Inr u \<Rightarrow> ?a m \<and> acts_files v' = acts_files w"
      using f P run quiet [OF f] by (cases r) (auto simp: admitted_def dest: preflight_clear)
  qed
  have att: "hoare (\<lambda>v. ?a m \<and> acts_files v = acts_files w) (guard_attempt sha G m) (\<lambda>_ v. \<exists>doc. ?A m doc v) ?E" for m
    by (rule hoareI) (auto dest!: guard_attempt_acts intro: quiet simp: acts_files_def [of w] acts_files_def [of "_ :: 'a guard_world_scheme"] split: sum.splits)
  have keep: "hoare (\<lambda>v. \<exists>doc. ?A m doc v) (available K) (\<lambda>_ v. \<exists>doc. ?A m doc v) ?E" "hoare (\<lambda>v. \<exists>doc. ?A m doc v) (clock K) (\<lambda>_ v. \<exists>doc. ?A m doc v) ?E" for m K
    using spent by (auto intro!: hoareI dest!: keepsD [OF calls_available [OF hf_acts(2)]] keepsD [OF calls_sys(2) [OF hf_acts(2)]] split: sum.split)
  let ?f = "\<lambda>m doc. fresh_guard (acts (world.log w) @ [Wrote ''attempt.json'']) (gfiles w @ [(''attempt.json'', encoded doc)])"
  have fresh: "hoare (\<lambda>v. \<exists>doc. ?A m doc v) (modify (\<lambda>v. v\<lparr>grec := new_rec m args mem start, row := start_row [] start, proc := None, pidfd := False, returncode := None\<rparr>))
      (\<lambda>_ v. ?a m \<and> (\<exists>doc. ?f m doc v)) ?E" for m args mem start
    by (auto simp: hoare_def io_simps fresh_guard_def acts_files_def new_rec_def start_row_def)
  have watch: "hoare (\<lambda>v. ?a m \<and> (\<exists>doc. ?f m doc v)) (bindi (guarded_child n sha G (guard_argv m config)) (\<lambda>_. gets grec)) ?Q ?E" for m
    by (rule hoareI) (auto dest!: hoareD [OF guarded_child_ends])
  show ?thesis unfolding g4_launch_def
    by (intro hoare_bindi [OF check] hoare_bindi [OF pre] hoare_bindi [OF att] hoare_bindi [OF keep(1)] hoare_bindi [OF keep(2)] hoare_bindi [OF fresh] watch)
qed


section \<open>An example launch\<close>

definition ex_guard :: guard_host where
  "ex_guard = \<lparr>gu_owned = ex_owned, gu_host = (\<lambda>t. ex_host), gu_dir = (\<lambda>t. ex_dir), gu_primitives = True, gu_load1 = (\<lambda>t. Inr (JFloat 5 (- 1))), gu_cpus = (\<lambda>t. Inr 8),
     gu_ipc = (\<lambda>t. False), gu_prctl = (\<lambda>t. 0), gu_config = (\<lambda>t. quiet_view ex_config), gu_cmdline = (\<lambda>t pid. Inr []), gu_procenv = (\<lambda>t pid. Inr []),
     gu_environ = Map.empty, gu_order = (\<lambda>ds. ds)\<rparr>"

definition ex_guard_start :: guard_world where
  "ex_guard_start = \<lparr>tick = 0, log = [], row = start_row [] 0, proc = None, pidfd = False, returncode = None, grec = new_rec ex_g4 [] 0 0, gfiles = []\<rparr>"

lemma ex_guard_calls: "gu_owned ex_guard = ex_owned" "gu_host ex_guard t = ex_host" "gu_dir ex_guard t = ex_dir" "gu_primitives ex_guard" "gu_load1 ex_guard t = Inr (JFloat 5 (- 1))"
  "gu_cpus ex_guard t = Inr 8" "\<not> gu_ipc ex_guard t" "gu_prctl ex_guard t = 0" "gu_config ex_guard t = quiet_view ex_config"
  by (simp_all add: ex_guard_def)

lemma ex_guard_limits: "guard_limits ex_g4 = (5 * 1024 ^ 3, 15)"
  unfolding guard_limits_def is_crypto_def by (simp add: ex_get) (simp add: ex_crypto_def jget_def)

lemma ex_guard_preflight: "guard_preflight ex_guard ex_g4 w = Some (Inr (), w\<lparr>tick := tick w + 6\<rparr>)"
proof -
  have "\<not> dec_le (8, 0) (number (JFloat 5 (- 1)))" by code_simp
  then show ?thesis by (simp add: guard_preflight_def available_def ex_available ex_guard_limits ex_guard_calls ex_calls gread_def numeral_eq_Suc)
qed

lemma ex_guard_attempt: "\<exists>doc t. guard_attempt G4_Freeze.ex_sha ex_guard ex_g4 w = Some (Inr (), w\<lparr>tick := t, log := world.log w @ [Wrote ''attempt.json''], gfiles := gfiles w @ [(''attempt.json'', doc)]\<rparr>)"
proof -
  have "read_regular MiB2 (quiet_view ex_config) = Inr ex_config" unfolding ex_config_def by (rule read_quiet) (rule ex_g4_size)
  then show ?thesis by (simp add: guard_attempt_def guard_write_step ex_identity ex_guard_calls ex_calls) blast
qed

lemma ex_guarded: "\<exists>w'. guarded_child 1 G4_Freeze.ex_sha ex_guard args w = Some (Inr (), w') \<and> gr_exit (grec w') = Some 0"
  if "gr_stop (grec w) = None"
  using that
  by (simp add: guarded_child_def with_output_def guard_child_def popen_def settle_supervisor_def proc_wait_def reap_adopted_def guard_finish_def guard_write_step set_rec_def
      ex_identity ex_guard_calls ex_calls)

lemma ex_launch: "\<exists>x w'. g4_launch 1 G4_Freeze.ex_sha ex_guard ''/c'' ex_guard_start = Some (Inr x, w') \<and> launch_status x = 0"
proof -
  let ?w1 = "ex_guard_start\<lparr>tick := Suc (tick ex_guard_start) + 6\<rparr>"
  obtain doc t where a: "guard_attempt G4_Freeze.ex_sha ex_guard ex_g4 ?w1 = Some (Inr (), ?w1\<lparr>tick := t, log := world.log ?w1 @ [Wrote ''attempt.json''], gfiles := gfiles ?w1 @ [(''attempt.json'', doc)]\<rparr>)"
    using ex_guard_attempt by blast
  define w2 where "w2 = ?w1\<lparr>log := world.log ?w1 @ [Wrote ''attempt.json''], gfiles := gfiles ?w1 @ [(''attempt.json'', doc)], tick := Suc (Suc t),
    grec := new_rec ex_g4 (guard_argv ex_g4 ''/c'') 8192000000 0, row := start_row [] 0, proc := None, pidfd := False, returncode := None\<rparr>"
  obtain w' where "guarded_child 1 G4_Freeze.ex_sha ex_guard (guard_argv ex_g4 ''/c'') w2 = Some (Inr (), w')" "gr_exit (grec w') = Some 0"
    using ex_guarded [of w2] by (auto simp: w2_def new_rec_def)
  moreover have "g4_launch 1 G4_Freeze.ex_sha ex_guard ''/c'' ex_guard_start = bindi (guarded_child 1 G4_Freeze.ex_sha ex_guard (guard_argv ex_g4 ''/c'')) (\<lambda>_. gets grec) w2"
    using a by (simp add: g4_launch_def ex_g4_checked ex_guard_calls ex_guard_preflight w2_def available_def ex_available ex_calls)
  ultimately show ?thesis by (simp add: bindi_apply io_apply launch_status_def)
qed


end
